(* ===== verification/Prelude.thy ===== *)
theory Prelude imports
  Complex_Main
  "HOL-Library.AList"
begin

text \<open>
  Shared vocabulary of the development: exceptions and results (\<open>app/core/errors.py\<close>), the
  fragment of Python's strings, numbers and decoded JSON values that the program uses, tables of
  database rows, and the two generic interfaces the components share: a system whose operations
  keep an invariant, and the relation of a run to its reachable states.

  Conventions.  A character is a code point below 256, so \<open>strip\<close>, \<open>lower\<close> and \<open>split\<close> are
  Python's on Latin-1 text.  A UUID is its canonical text, hence \<open>str(uuid)\<close> is the identity.
  A timestamp is an integer number of microseconds since the epoch, in UTC.  Floats and
  decimals are exact rationals.
\<close>

named_theorems err_simps \<open>unfolding of result combinators and error constructors\<close>
named_theorems str_simps \<open>string operations\<close>
named_theorems inv_intros \<open>preservation of component invariants\<close>

type_synonym uuid = string
type_synonym timestamp = int

section \<open>Errors and results\<close>

datatype app_error = AppError (error_code: string) (status_code: nat)

definition NotFoundError :: "string \<Rightarrow> app_error" where
  "NotFoundError code = AppError code 404"

definition ValidationError :: "string \<Rightarrow> app_error" where
  "ValidationError code = AppError code 422"

definition AuthenticationError :: "string \<Rightarrow> app_error" where
  "AuthenticationError code = AppError code 401"

definition AuthorizationError :: "string \<Rightarrow> app_error" where
  "AuthorizationError code = AppError code 403"

text \<open>What a call can raise: an application error, or one of the Python exceptions the code
  raises itself or lets through.\<close>

datatype py_exc =
    Raised app_error
  | ValueError
  | KeyError
  | AttributeError
  | TypeError
  | IntegrityError
  | TokenError
  | PublishFailed
  | StaleDataError

type_synonym 'a result = "py_exc + 'a"

definition fail :: "app_error \<Rightarrow> 'a result" where
  "fail e = Inl (Raised e)"

definition bind_res :: "'e + 'a \<Rightarrow> ('a \<Rightarrow> 'e + 'b) \<Rightarrow> 'e + 'b" where
  "bind_res m f = (case m of Inl e \<Rightarrow> Inl e | Inr x \<Rightarrow> f x)"

lemma bind_res_simps [simp]:
  "bind_res (Inl e) f = Inl e"
  "bind_res (Inr x) f = f x"
  by (simp_all add: bind_res_def)

lemma bind_res_eq_Inr:
  "bind_res m f = Inr y \<longleftrightarrow> (\<exists>x. m = Inr x \<and> f x = Inr y)"
  by (cases m) auto

lemma bind_res_eq_Inl:
  "bind_res m f = Inl e \<longleftrightarrow> m = Inl e \<or> (\<exists>x. m = Inr x \<and> f x = Inl e)"
  by (cases m) auto

lemmas [err_simps] = fail_def bind_res_eq_Inr bind_res_eq_Inl
  NotFoundError_def ValidationError_def AuthenticationError_def AuthorizationError_def

text \<open>\<open>guard_res c e\<close> is the idiom \<open>if c: raise e\<close>.\<close>

definition guard_res :: "bool \<Rightarrow> app_error \<Rightarrow> unit result" where
  "guard_res c e = (if c then fail e else Inr ())"

lemma guard_res_simps [simp]:
  "guard_res True e = Inl (Raised e)"
  "guard_res False e = Inr ()"
  by (simp_all add: guard_res_def fail_def)

lemma guard_res_eq_Inr [simp]: "guard_res c e = Inr u \<longleftrightarrow> \<not> c"
  by (simp add: guard_res_def fail_def)

section \<open>Python strings\<close>

definition is_space :: "char \<Rightarrow> bool" where
  "is_space c = (let n = of_char c :: nat in
     9 \<le> n \<and> n \<le> 13 \<or> 28 \<le> n \<and> n \<le> 32 \<or> n = 133 \<or> n = 160)"

definition strip :: "string \<Rightarrow> string" where
  "strip s = rev (dropWhile is_space (rev (dropWhile is_space s)))"

definition lower_char :: "char \<Rightarrow> char" where
  "lower_char c = (let n = of_char c :: nat in
     if 65 \<le> n \<and> n \<le> 90 \<or> 192 \<le> n \<and> n \<le> 222 \<and> n \<noteq> 215 then char_of (n + 32) else c)"

definition lower :: "string \<Rightarrow> string" where
  "lower s = map lower_char s"

fun starts_with :: "string \<Rightarrow> string \<Rightarrow> bool" where
  "starts_with s [] = True"
| "starts_with [] (p # ps) = False"
| "starts_with (c # s) (p # ps) = (c = p \<and> starts_with s ps)"

fun split_on :: "char \<Rightarrow> string \<Rightarrow> string list" where
  "split_on c [] = [[]]"
| "split_on c (x # xs) =
     (if x = c then [] # split_on c xs
      else (case split_on c xs of [] \<Rightarrow> [[x]] | p # ps \<Rightarrow> (x # p) # ps))"

fun join_with :: "string \<Rightarrow> string list \<Rightarrow> string" where
  "join_with sep [] = []"
| "join_with sep [s] = s"
| "join_with sep (s # t # ss) = s @ sep @ join_with sep (t # ss)"

lemma split_on_nonempty [simp]: "split_on c s \<noteq> []"
  by (induction c s rule: split_on.induct) (auto split: list.splits)

lemma starts_with_append [simp, str_simps]: "starts_with (p @ s) p"
  by (induction p) auto

lemma starts_with_iff: "starts_with s p \<longleftrightarrow> (\<exists>r. s = p @ r)"
  by (induction s p rule: starts_with.induct) auto

lemma split_on_no_sep: "c \<notin> set s \<Longrightarrow> split_on c s = [s]"
  by (induction s) auto

lemma split_on_append_sep:
  "c \<notin> set s \<Longrightarrow> split_on c (s @ c # t) = s # split_on c t"
  by (induction s) auto

text \<open>Splitting undoes joining, as long as no part holds the separator.\<close>

lemma split_join:
  "ps \<noteq> [] \<Longrightarrow> \<forall>p \<in> set ps. c \<notin> set p \<Longrightarrow> split_on c (join_with [c] ps) = ps"
proof (induction "[c]" ps rule: join_with.induct)
  case 1
  then show ?case by simp
next
  case (2 s)
  then show ?case by (simp add: split_on_no_sep)
next
  case (3 s t ss)
  then show ?case by (simp add: split_on_append_sep)
qed

text \<open>Joining undoes splitting, for every string.\<close>

lemma join_split: "join_with [c] (split_on c s) = s"
proof (induction s)
  case Nil
  show ?case by simp
next
  case (Cons x s)
  obtain p ps where ps: "split_on c s = p # ps" by (cases "split_on c s") auto
  show ?case
  proof (cases "x = c")
    case True
    with Cons ps show ?thesis by simp
  next
    case False
    with Cons ps show ?thesis by (cases ps) auto
  qed
qed

lemma split_on_parts_clean: "p \<in> set (split_on c s) \<Longrightarrow> c \<notin> set p"
  by (induction c s arbitrary: p rule: split_on.induct) (auto split: list.splits if_splits)

lemma dropWhile_fixed: "s = [] \<or> \<not> P (hd s) \<Longrightarrow> dropWhile P s = s"
  by (cases s) auto

lemma dropWhile_hd: "dropWhile P s \<noteq> [] \<Longrightarrow> \<not> P (hd (dropWhile P s))"
  by (induction s) auto

lemma strip_hd: "strip s \<noteq> [] \<Longrightarrow> \<not> is_space (hd (strip s))"
proof -
  assume ne: "strip s \<noteq> []"
  let ?d = "dropWhile is_space s"
  let ?r = "dropWhile is_space (rev ?d)"
  have r: "?r \<noteq> []" using ne by (simp add: strip_def)
  obtain pre where "rev ?d = pre @ ?r"
    by (metis takeWhile_dropWhile_id)
  then have d: "?d = rev ?r @ rev pre" by (metis rev_append rev_rev_ident)
  then have "hd (rev ?r) = hd ?d" using r by (metis hd_append2 rev_is_Nil_conv)
  moreover have "?d \<noteq> []" using d r by (metis Nil_is_append_conv rev_is_Nil_conv)
  ultimately show ?thesis using dropWhile_hd [of is_space s] unfolding strip_def by metis
qed

lemma strip_idem [simp, str_simps]: "strip (strip s) = strip s"
proof (cases "strip s = []")
  case True
  have "strip [] = []" by (simp add: strip_def)
  with True show ?thesis by simp
next
  case False
  let ?r = "dropWhile is_space (rev (dropWhile is_space s))"
  have "dropWhile is_space (strip s) = strip s"
    using strip_hd [OF False] by (simp add: dropWhile_fixed)
  moreover have "dropWhile is_space (rev (strip s)) = rev (strip s)"
    using False dropWhile_hd [of is_space "rev (dropWhile is_space s)"]
    by (simp add: strip_def dropWhile_fixed)
  ultimately show ?thesis by (simp add: strip_def [of "strip s"])
qed

lemma strip_no_space:
  assumes "\<And>c. c \<in> set s \<Longrightarrow> \<not> is_space c"
  shows "strip s = s"
proof -
  have "dropWhile is_space s = s"
    using assms by (intro dropWhile_fixed) (metis hd_in_set)
  moreover have "dropWhile is_space (rev s) = rev s"
    using assms by (intro dropWhile_fixed) (metis hd_in_set set_rev)
  ultimately show ?thesis by (simp add: strip_def)
qed

lemma strip_subset: "set (strip s) \<subseteq> set s"
  unfolding strip_def by (auto dest!: set_dropWhileD)

section \<open>Decoded JSON values\<close>

text \<open>The value \<open>json.loads\<close> returns.  A payload that is not JSON at all is \<open>None\<close> at the type
  \<open>json option\<close>.  Objects are association lists with the keys in insertion order.\<close>

datatype json =
    JNull
  | JBool bool
  | JInt int
  | JFloat rat
  | JStr string
  | JArr "json list"
  | JObj "(string \<times> json) list"

text \<open>\<open>d.get(k)\<close>: a missing key reads as \<open>None\<close>, which is JSON's null.\<close>

definition dict_get :: "(string \<times> json) list \<Rightarrow> string \<Rightarrow> json" where
  "dict_get d k = (case map_of d k of None \<Rightarrow> JNull | Some v \<Rightarrow> v)"

text \<open>\<open>bool(v)\<close>.\<close>

fun truthy :: "json \<Rightarrow> bool" where
  "truthy JNull = False"
| "truthy (JBool b) = b"
| "truthy (JInt n) = (n \<noteq> 0)"
| "truthy (JFloat x) = (x \<noteq> 0)"
| "truthy (JStr s) = (s \<noteq> [])"
| "truthy (JArr xs) = (xs \<noteq> [])"
| "truthy (JObj d) = (d \<noteq> [])"

text \<open>\<open>isinstance(v, (int, float)) and not isinstance(v, bool)\<close>, with the \<open>float(v)\<close> it allows.\<close>

fun as_number :: "json \<Rightarrow> rat option" where
  "as_number (JInt n) = Some (of_int n)"
| "as_number (JFloat x) = Some x"
| "as_number _ = None"

definition is_number :: "json \<Rightarrow> bool" where
  "is_number v = (as_number v \<noteq> None)"

fun as_str :: "json \<Rightarrow> string option" where
  "as_str (JStr s) = Some s"
| "as_str _ = None"

fun as_dict :: "json \<Rightarrow> (string \<times> json) list option" where
  "as_dict (JObj d) = Some d"
| "as_dict _ = None"

text \<open>\<open>d.get(k, {}) or {}\<close> for a value that is used as a dictionary afterwards: a falsy value reads
  as the empty dictionary, and anything else that is no dictionary raises when it is used.\<close>

definition sub_dict :: "(string \<times> json) list \<Rightarrow> string \<Rightarrow> (string \<times> json) list result" where
  "sub_dict d k =
     (let v = dict_get d k in
      if \<not> truthy v then Inr []
      else (case as_dict v of Some d' \<Rightarrow> Inr d' | None \<Rightarrow> Inl AttributeError))"

text \<open>\<open>str(v)\<close>.  The text of a float, a list or a dictionary is Python's \<open>repr\<close>, an argument.\<close>

fun nat_str :: "nat \<Rightarrow> string" where
  "nat_str n = (if n < 10 then [char_of (48 + n)] else nat_str (n div 10) @ [char_of (48 + n mod 10)])"

declare nat_str.simps [simp del]

definition int_str :: "int \<Rightarrow> string" where
  "int_str i = (if i < 0 then CHR ''-'' # nat_str (nat (- i)) else nat_str (nat i))"

fun py_str :: "(json \<Rightarrow> string) \<Rightarrow> json \<Rightarrow> string" where
  "py_str repr JNull = ''None''"
| "py_str repr (JBool b) = (if b then ''True'' else ''False'')"
| "py_str repr (JInt n) = int_str n"
| "py_str repr (JStr s) = s"
| "py_str repr v = repr v"

text \<open>\<open>a or b\<close>.\<close>

definition py_or :: "json \<Rightarrow> json \<Rightarrow> json" where
  "py_or a b = (if truthy a then a else b)"

text \<open>\<open>d.get(k, v)\<close>.\<close>

definition dict_or :: "(string \<times> json) list \<Rightarrow> string \<Rightarrow> json \<Rightarrow> json" where
  "dict_or d k v = (case map_of d k of Some x \<Rightarrow> x | None \<Rightarrow> v)"

text \<open>\<open>round\<close> of Python, which rounds halves to the even neighbour, and \<open>int\<close>, which truncates.\<close>

definition py_round :: "rat \<Rightarrow> int" where
  "py_round x =
     (let f = floor x; d = x - of_int f in
      if d < 1 / 2 then f else if d > 1 / 2 then f + 1 else if even f then f else f + 1)"

definition py_int :: "rat \<Rightarrow> int" where
  "py_int x = (if x < 0 then - floor (- x) else floor x)"

lemma py_round_int [simp]: "py_round (of_int n) = n"
  by (simp add: py_round_def)

lemma py_int_int [simp]: "py_int (of_int n) = n"
  by (simp add: py_int_def)

lemma py_round_mono_int: "x \<le> of_int n \<Longrightarrow> py_round x \<le> n"
proof -
  assume "x \<le> of_int n"
  then have "floor x < n \<or> x = of_int n" by (metis floor_less_iff order_le_less)
  then show ?thesis by (auto simp: py_round_def Let_def)
qed

section \<open>Tables\<close>

text \<open>\<open>insert_row\<close> adds a row under a fresh primary key; a key that is taken violates the constraint.\<close>

definition insert_row :: "('r \<Rightarrow> 'k) \<Rightarrow> 'r \<Rightarrow> 'r list \<Rightarrow> 'r list result" where
  "insert_row key r rows = (if key r \<in> key ` set rows then Inl IntegrityError else Inr (rows @ [r]))"

lemma insert_row_Inr:
  "insert_row key r rows = Inr rows' \<longleftrightarrow> key r \<notin> key ` set rows \<and> rows' = rows @ [r]"
  by (auto simp: insert_row_def)


text \<open>A table is the list of its rows.  \<open>tbl_get\<close> is the lookup by primary key and \<open>tbl_put\<close>
  writes an updated row back over the row with its key.\<close>

definition tbl_get :: "('r \<Rightarrow> 'k) \<Rightarrow> 'r list \<Rightarrow> 'k \<Rightarrow> 'r option" where
  "tbl_get key rows k = find (\<lambda>r. key r = k) rows"

definition tbl_put :: "('r \<Rightarrow> 'k) \<Rightarrow> 'r \<Rightarrow> 'r list \<Rightarrow> 'r list" where
  "tbl_put key r rows = map (\<lambda>x. if key x = key r then r else x) rows"

lemma tbl_get_Some: "tbl_get key rows k = Some r \<Longrightarrow> r \<in> set rows \<and> key r = k"
  by (auto simp: tbl_get_def find_Some_iff)

lemma tbl_get_image: "tbl_get key rows k = Some r \<Longrightarrow> f r \<in> f ` set rows"
  by (auto dest: tbl_get_Some)

lemma tbl_get_key: "tbl_get key rows k = Some r \<Longrightarrow> k \<in> key ` set rows"
  by (auto dest!: tbl_get_Some)

lemma tbl_get_None: "tbl_get key rows k = None \<longleftrightarrow> k \<notin> key ` set rows"
  by (auto simp: tbl_get_def find_None_iff)

lemma tbl_get_Nil [simp]: "tbl_get key [] k = None"
  by (simp add: tbl_get_def)

lemma tbl_get_Cons [simp]:
  "tbl_get key (r # rows) k = (if key r = k then Some r else tbl_get key rows k)"
  by (simp add: tbl_get_def)

lemma tbl_get_append:
  "tbl_get key (xs @ ys) k = (case tbl_get key xs k of None \<Rightarrow> tbl_get key ys k | Some r \<Rightarrow> Some r)"
  by (induction xs) auto

lemma tbl_put_Nil [simp]: "tbl_put key r [] = []"
  by (simp add: tbl_put_def)

lemma tbl_put_Cons [simp]:
  "tbl_put key r (x # xs) = (if key x = key r then r else x) # tbl_put key r xs"
  by (simp add: tbl_put_def)

lemma tbl_put_keys [simp]: "map key (tbl_put key r rows) = map key rows"
  by (induction rows) auto

lemma tbl_get_put_same:
  "tbl_get key rows (key r) \<noteq> None \<Longrightarrow> tbl_get key (tbl_put key r rows) (key r) = Some r"
  by (induction rows) auto

lemma tbl_get_put_other:
  "k \<noteq> key r \<Longrightarrow> tbl_get key (tbl_put key r rows) k = tbl_get key rows k"
  by (induction rows) auto

lemma tbl_get_put:
  "tbl_get key (tbl_put key r rows) k =
     (if k = key r \<and> tbl_get key rows k \<noteq> None then Some r else tbl_get key rows k)"
  by (induction rows) auto

lemma tbl_put_all: "\<forall>x \<in> set rows. P x \<Longrightarrow> P r \<Longrightarrow> \<forall>x \<in> set (tbl_put key r rows). P x"
  by (auto simp: tbl_put_def)

lemma find_tbl_put_Some:
  assumes "find P rows = Some r0" "key r = key r0" "P r" "distinct (map key rows)"
  shows "find P (tbl_put key r rows) = Some r"
  using assms
proof (induction rows)
  case Nil
  then show ?case by simp
next
  case (Cons x xs)
  then show ?case by (auto simp: find_Some_iff split: if_splits)
qed

lemma find_tbl_put_None: "find P rows = None \<Longrightarrow> \<not> P r \<Longrightarrow> find P (tbl_put key r rows) = None"
  by (auto simp: find_None_iff tbl_put_def)

lemma length_filter_le_filter:
  "(\<And>x. P x \<Longrightarrow> Q x) \<Longrightarrow> length (filter P xs) \<le> length (filter Q xs)"
  by (induction xs) (auto intro: le_SucI)

lemma tbl_put_map:
  "\<forall>x \<in> set rows. key x = key r \<longrightarrow> f x = f r \<Longrightarrow> map f (tbl_put key r rows) = map f rows"
  by (auto simp: tbl_put_def)

lemma tbl_put_twice: "tbl_put key r (tbl_put key r rows) = tbl_put key r rows"
  by (simp add: tbl_put_def)

lemma tbl_put_id: "distinct (map key rows) \<Longrightarrow> r \<in> set rows \<Longrightarrow> tbl_put key r rows = rows"
  by (auto simp: tbl_put_def distinct_map intro!: map_idI dest: inj_onD)

lemma in_set_tbl_put:
  "x \<in> set (tbl_put key r rows) \<Longrightarrow> x = r \<or> x \<in> set rows"
  by (auto simp: tbl_put_def split: if_splits)

lemma tbl_get_distinct:
  "distinct (map key rows) \<Longrightarrow> r \<in> set rows \<Longrightarrow> tbl_get key rows (key r) = Some r"
  by (induction rows) (auto simp: image_iff)

lemma sum_list_zero:
  fixes f :: "'r \<Rightarrow> rat"
  shows "(\<And>x. x \<in> set xs \<Longrightarrow> f x = 0) \<Longrightarrow> (\<Sum>x\<leftarrow>xs. f x) = 0"
  by (induction xs) auto

text \<open>Sums over a table change by the difference on the row that is written.\<close>

lemma sum_list_tbl_put:
  fixes f :: "'r \<Rightarrow> rat"
  assumes "distinct (map key rows)" "tbl_get key rows (key r) = Some r0"
  shows "(\<Sum>x\<leftarrow>tbl_put key r rows. f x) = (\<Sum>x\<leftarrow>rows. f x) - f r0 + f r"
  using assms
proof (induction rows)
  case Nil
  then show ?case by simp
next
  case (Cons y ys)
  show ?case
  proof (cases "key y = key r")
    case True
    with Cons.prems have "\<forall>z \<in> set ys. key z \<noteq> key r" by (force simp: image_iff)
    then have "tbl_put key r ys = ys" by (auto simp: tbl_put_def map_idI)
    with True Cons.prems show ?thesis by simp
  next
    case False
    with Cons show ?thesis by simp
  qed
qed

section \<open>Systems of operations and their invariants\<close>

text \<open>A request that fails leaves the committed state as it was: \<open>commit f s\<close> is the state after a
  request \<open>f\<close> whose session is rolled back when it raises.\<close>

definition commit :: "('s \<Rightarrow> 'e + ('a \<times> 's)) \<Rightarrow> 's \<Rightarrow> 's" where
  "commit f s = (case f s of Inl e \<Rightarrow> s | Inr (x, s') \<Rightarrow> s')"

lemma commit_simps:
  "f s = Inl e \<Longrightarrow> commit f s = s"
  "f s = Inr (x, s') \<Longrightarrow> commit f s = s'"
  by (simp_all add: commit_def)

definition run_ops :: "('op \<Rightarrow> 's \<Rightarrow> 's) \<Rightarrow> 'op list \<Rightarrow> 's \<Rightarrow> 's" where
  "run_ops step ops s = fold step ops s"

lemma run_ops_simps [simp]:
  "run_ops step [] s = s"
  "run_ops step (op # ops) s = run_ops step ops (step op s)"
  by (simp_all add: run_ops_def)

lemma run_ops_append: "run_ops step (xs @ ys) s = run_ops step ys (run_ops step xs s)"
  by (simp add: run_ops_def)

locale guarded_system =
  fixes step :: "'op \<Rightarrow> 's \<Rightarrow> 's"
    and ok :: "'op \<Rightarrow> bool"
    and inv :: "'s \<Rightarrow> bool"
  assumes step_inv: "inv s \<Longrightarrow> ok op \<Longrightarrow> inv (step op s)"
begin

lemma run_inv: "inv s \<Longrightarrow> list_all ok ops \<Longrightarrow> inv (run_ops step ops s)"
  by (induction ops arbitrary: s) (auto intro: step_inv)

end

text \<open>A guarded system with a partial map of statuses whose every step either leaves a status
  alone or moves it along a given transition relation; a set of statuses is closed when no
  transition leaves it.\<close>

locale status_system = guarded_system step ok inv
  for step :: "'op \<Rightarrow> 's \<Rightarrow> 's" and ok :: "'op \<Rightarrow> bool" and inv :: "'s \<Rightarrow> bool" +
  fixes status :: "'s \<Rightarrow> 'k \<Rightarrow> 'st option"
    and moves :: "'st option \<Rightarrow> 'st option \<Rightarrow> bool"
  assumes step_moves:
    "inv s \<Longrightarrow> ok op \<Longrightarrow> status (step op s) k = status s k \<or> moves (status s k) (status (step op s) k)"
begin

lemma run_moves:
  "inv s \<Longrightarrow> list_all ok ops \<Longrightarrow> moves\<^sup>*\<^sup>* (status s k) (status (run_ops step ops s) k)"
proof (induction ops arbitrary: s)
  case Nil
  show ?case by simp
next
  case (Cons op ops)
  then have "moves\<^sup>*\<^sup>* (status s k) (status (step op s) k)"
    using step_moves [where op = op and s = s and k = k] by auto
  also have "moves\<^sup>*\<^sup>* \<dots> (status (run_ops step ops (step op s)) k)"
    using Cons step_inv by simp
  finally show ?case by simp
qed

lemma run_closed:
  assumes "inv s" "list_all ok ops"
    and closed: "\<And>x y. x \<in> C \<Longrightarrow> moves x y \<Longrightarrow> y \<in> C"
    and start: "status s k \<in> C"
  shows "status (run_ops step ops s) k \<in> C"
proof -
  have "y \<in> C" if "moves\<^sup>*\<^sup>* (status s k) y" for y
    using that start by (induction rule: rtranclp_induct) (auto intro: closed)
  then show ?thesis using run_moves assms by blast
qed

end

end
