(* ===== verification/Redis_Names.thy ===== *)
theory Redis_Names imports Prelude
begin

text \<open>
  The Redis key and channel names of \<open>app/core/redis_keys.py\<close>.  \<open>redis_key\<close> has one constructor for
  each function or constant of that module and \<open>key_text\<close> prints it.  The lemmas show that no two
  keys are printed alike, so the other theories may model each family of keys as a map of its own.
\<close>

definition NAMESPACE :: string where
  "NAMESPACE = ''iotaps''"

definition key_of :: "string list \<Rightarrow> string" where
  "key_of parts = join_with '':'' (NAMESPACE # parts)"

datatype redis_key =
    IngestQueue
  | LatestValue string
  | TelemetryChannel string
  | DeviceChannel string
  | DashboardChannel string
  | AdminStats
  | RefreshToken string
  | Quota string string
  | UpgradePrompt string
  | OrgPlan string
  | CommandQueue string
  | CommandRecord string
  | CommandSchedule string
  | RateLimitIp string
  | RateLimitOrg string
  | OnlineDevices
  | WsPresence string
  | WsSubscriptions string

fun key_text :: "redis_key \<Rightarrow> string" where
  "key_text IngestQueue = key_of [''ingest'', ''telemetry'']"
| "key_text (LatestValue device_id) = key_of [''latest'', device_id]"
| "key_text (TelemetryChannel device_id) = key_of [''telemetry'', device_id]"
| "key_text (DeviceChannel device_id) = key_of [''device'', device_id]"
| "key_text (DashboardChannel dashboard_id) = key_of [''dashboard'', dashboard_id]"
| "key_text AdminStats = key_of [''admin'', ''stats'']"
| "key_text (RefreshToken jti) = key_of [''refresh'', jti]"
| "key_text (Quota org_id period) = key_of [''quota'', org_id, period]"
| "key_text (UpgradePrompt org_id) = key_of [''upgrade'', org_id]"
| "key_text (OrgPlan org_id) = key_of [''org'', ''plan'', org_id]"
| "key_text (CommandQueue device_id) = key_of [''cmdq'', device_id]"
| "key_text (CommandRecord command_id) = key_of [''cmd'', command_id]"
| "key_text (CommandSchedule device_id) = key_of [''cmdsched'', device_id]"
| "key_text (RateLimitIp ip) = key_of [''ratelimit'', ''ip'', ip]"
| "key_text (RateLimitOrg org_id) = key_of [''ratelimit'', ''org'', org_id]"
| "key_text OnlineDevices = key_of [''online_devices'']"
| "key_text (WsPresence user_id) = key_of [''ws'', ''presence'', user_id]"
| "key_text (WsSubscriptions session_id) = key_of [''ws'', ''subs'', session_id]"

text \<open>Only the quota counter has an argument before its last part; that one must not hold a colon.\<close>

fun clean_key :: "redis_key \<Rightarrow> bool" where
  "clean_key (Quota org_id period) = (CHR '':'' \<notin> set org_id)"
| "clean_key _ = True"

lemma append_sep_inject:
  fixes c :: char
  shows "c \<notin> set a \<Longrightarrow> c \<notin> set b \<Longrightarrow> a @ c # x = b @ c # y \<longleftrightarrow> a = b \<and> x = y"
proof
  assume clean: "c \<notin> set a" "c \<notin> set b" and eq: "a @ c # x = b @ c # y"
  have "split_on c (a @ c # x) = split_on c (b @ c # y)" by (simp add: eq)
  with clean have "a = b" by (simp add: split_on_append_sep)
  with eq show "a = b \<and> x = y" by simp
qed simp

lemma key_text_eq: "clean_key k \<Longrightarrow> clean_key k' \<Longrightarrow> key_text k = key_text k' \<longleftrightarrow> k = k'"
  by (cases k; cases k') (simp_all add: key_of_def NAMESPACE_def append_sep_inject)

text \<open>Key names never collide: two keys whose quota organizations hold no colon print the same
  text only when they are the same key of the same family.\<close>

theorem key_text_inject:
  assumes "clean_key k" "clean_key k'"
  shows "key_text k = key_text k' \<longleftrightarrow> k = k'"
  using assms by (rule key_text_eq)

theorem key_text_inject_witness:
  "key_text (Quota ''o1'' ''202607'') \<noteq> key_text (Quota ''o1'' ''202608'')
   \<and> key_text (CommandRecord ''x'') \<noteq> key_text (CommandQueue ''x'')"
  using key_text_inject [of "Quota ''o1'' ''202607''" "Quota ''o1'' ''202608''"]
    key_text_inject [of "CommandRecord ''x''" "CommandQueue ''x''"]
  by (simp del: key_text.simps)

end
