(* ===== verification/Redis.thy ===== *)
theory Redis imports Prelude
begin

text \<open>
  The Redis commands the program calls, as the interface it relies on.  Redis is a service
  outside the repository, so its commands are arguments of the model: a record \<open>list_cmds\<close> of the
  list commands, a record \<open>kv_cmds\<close> of the commands on string keys with a time to live and a
  record \<open>counter_cmds\<close> of the counters.  The locales \<open>redis_lists\<close>, \<open>redis_keys\<close> and
  \<open>redis_counters\<close> state the documented behaviour of the commands, and the
  lemmas the components need are proved from those laws alone.  They are interpreted on
  the reference structures \<open>plain_lists\<close>, \<open>ttl_maps\<close> and \<open>ttl_counters\<close>, which witnesses use.
\<close>

section \<open>Lists: LPUSH, RPUSH, LPOP, RPOP, LLEN, LRANGE, LTRIM\<close>

text \<open>The elements at the indexes \<open>i..j\<close>, both inclusive.  Negative indexes count from the end and
  indexes outside the list are cut to it, as the documentation of LRANGE and LTRIM says.\<close>

definition slice :: "'a list \<Rightarrow> int \<Rightarrow> int \<Rightarrow> 'a list" where
  "slice xs i j =
     (let n = int (length xs);
          a = max 0 (if i < 0 then n + i else i);
          b = (if j < 0 then n + j else j)
      in drop (nat a) (take (nat (b + 1)) xs))"

lemma slice_all [simp]: "slice xs 0 (-1) = xs"
  by (simp add: slice_def)

lemma slice_from_zero: "k > 0 \<Longrightarrow> slice xs 0 (int k - 1) = take k xs"
  by (simp add: slice_def)

lemma slice_to_end: "slice xs (int k) (-1) = drop k xs"
  by (simp add: slice_def)

lemma slice_last: "k > 0 \<Longrightarrow> slice xs (- int k) (-1) = drop (length xs - k) xs"
proof -
  assume "k > 0"
  moreover have "nat (max 0 (int (length xs) - int k)) = length xs - k" by linarith
  ultimately show ?thesis by (simp add: slice_def)
qed

lemma slice_subset: "set (slice xs i j) \<subseteq> set xs"
  by (auto simp: slice_def Let_def dest: in_set_dropD in_set_takeD)

record ('q, 'e) list_cmds =
  l_empty :: "'q"
  lpush :: "'e \<Rightarrow> 'q \<Rightarrow> 'q"
  rpush :: "'e \<Rightarrow> 'q \<Rightarrow> 'q"
  lpop :: "'q \<Rightarrow> ('e \<times> 'q) option"
  rpop :: "'q \<Rightarrow> ('e \<times> 'q) option"
  llen :: "'q \<Rightarrow> nat"
  lrange :: "'q \<Rightarrow> int \<Rightarrow> int \<Rightarrow> 'e list"
  ltrim :: "'q \<Rightarrow> int \<Rightarrow> int \<Rightarrow> 'q"

locale redis_lists =
  fixes R :: "('q, 'e) list_cmds"
    and items :: "'q \<Rightarrow> 'e list"
  assumes items_empty [simp]: "items (l_empty R) = []"
    and items_lpush [simp]: "items (lpush R x q) = x # items q"
    and items_rpush [simp]: "items (rpush R x q) = items q @ [x]"
    and lpop_None: "lpop R q = None \<longleftrightarrow> items q = []"
    and lpop_Some: "lpop R q = Some (x, q') \<Longrightarrow> items q = x # items q'"
    and rpop_None: "rpop R q = None \<longleftrightarrow> items q = []"
    and rpop_Some: "rpop R q = Some (x, q') \<Longrightarrow> items q = items q' @ [x]"
    and llen_items [simp]: "llen R q = length (items q)"
    and lrange_items [simp]: "lrange R q i j = slice (items q) i j"
    and items_ltrim [simp]: "items (ltrim R q i j) = slice (items q) i j"
begin

lemma lpop_cases:
  "items q = [] \<and> lpop R q = None \<or> (\<exists>x q'. lpop R q = Some (x, q') \<and> items q = x # items q')"
  using lpop_None lpop_Some by (cases "lpop R q") auto

lemma push_capped:
  "k > 0 \<Longrightarrow> items (ltrim R (rpush R x q) (- int k) (-1))
     = drop (Suc (length (items q)) - k) (items q @ [x])"
  by (simp add: slice_last)

lemma push_capped_length:
  "k > 0 \<Longrightarrow> length (items (ltrim R (rpush R x q) (- int k) (-1))) \<le> k"
  by (simp add: slice_last)

lemma lpush_capped:
  "k > 0 \<Longrightarrow> items (ltrim R (lpush R x q) 0 (int k - 1)) = take k (x # items q)"
  by (simp add: slice_from_zero)

end

definition plain_lists :: "('e list, 'e) list_cmds" where
  "plain_lists = \<lparr>l_empty = [], lpush = (\<lambda>x q. x # q), rpush = (\<lambda>x q. q @ [x]),
     lpop = (\<lambda>q. case q of [] \<Rightarrow> None | x # q' \<Rightarrow> Some (x, q')),
     rpop = (\<lambda>q. case rev q of [] \<Rightarrow> None | x # q' \<Rightarrow> Some (x, rev q')),
     llen = length, lrange = slice, ltrim = slice\<rparr>"

interpretation pl: redis_lists plain_lists "\<lambda>q. q"
  by unfold_locales (auto simp: plain_lists_def split: list.splits)

section \<open>String keys with a time to live: GET, SET EX, SET NX EX, DEL\<close>

record ('m, 'k, 'v) kv_cmds =
  kv_get :: "timestamp \<Rightarrow> 'm \<Rightarrow> 'k \<Rightarrow> 'v option"
  kv_set :: "timestamp \<Rightarrow> 'k \<Rightarrow> 'v \<Rightarrow> int option \<Rightarrow> 'm \<Rightarrow> 'm"
  kv_del :: "timestamp \<Rightarrow> 'k \<Rightarrow> 'm \<Rightarrow> bool \<times> 'm"

text \<open>The time to live is in seconds, timestamps are in microseconds.\<close>

definition usec :: "int \<Rightarrow> int" where
  "usec s = s * 1000000"

fun alive :: "timestamp \<Rightarrow> int option \<Rightarrow> timestamp \<Rightarrow> bool" where
  "alive t None t' = True"
| "alive t (Some ttl) t' = (t' < t + usec ttl)"

locale redis_keys =
  fixes K :: "('m, 'k, 'v) kv_cmds"
  assumes get_set:
      "t \<le> t' \<Longrightarrow> kv_get K t' (kv_set K t k v ttl m) k' =
         (if k' = k then (if alive t ttl t' then Some v else None) else kv_get K t' m k')"
    and del_result: "fst (kv_del K t k m) \<longleftrightarrow> kv_get K t m k \<noteq> None"
    and get_del:
      "t \<le> t' \<Longrightarrow> kv_get K t' (snd (kv_del K t k m)) k' = (if k' = k then None else kv_get K t' m k')"
    and get_earlier: "kv_get K t' m k = Some v \<Longrightarrow> t \<le> t' \<Longrightarrow> kv_get K t m k = Some v"
begin

lemma get_set_now: "0 < ttl \<Longrightarrow> kv_get K t (kv_set K t k v (Some ttl) m) k = Some v"
  by (simp add: get_set usec_def)

lemma get_set_other: "k' \<noteq> k \<Longrightarrow> t \<le> t' \<Longrightarrow> kv_get K t' (kv_set K t k v ttl m) k' = kv_get K t' m k'"
  by (simp add: get_set)

lemma get_set_expired:
  "t \<le> t' \<Longrightarrow> t + usec ttl \<le> t' \<Longrightarrow> kv_get K t' (kv_set K t k v (Some ttl) m) k = None"
  by (simp add: get_set)

lemma missing_stays_missing: "kv_get K t m k = None \<Longrightarrow> t \<le> t' \<Longrightarrow> kv_get K t' m k = None"
  by (cases "kv_get K t' m k") (use get_earlier [of t' m k _ t] in simp_all)

lemma del_twice: "t \<le> t' \<Longrightarrow> \<not> fst (kv_del K t' k (snd (kv_del K t k m)))"
  by (simp add: del_result get_del)

end

text \<open>\<open>SET key v NX EX ttl\<close>: writes only when the key is absent and reports whether it wrote.\<close>

definition kv_setnx ::
  "('m, 'k, 'v) kv_cmds \<Rightarrow> timestamp \<Rightarrow> 'k \<Rightarrow> 'v \<Rightarrow> int \<Rightarrow> 'm \<Rightarrow> bool \<times> 'm" where
  "kv_setnx K t k v ttl m =
     (case kv_get K t m k of
        Some _ \<Rightarrow> (False, m)
      | None \<Rightarrow> (True, kv_set K t k v (Some ttl) m))"

definition ttl_maps :: "('k \<rightharpoonup> 'v \<times> timestamp option, 'k, 'v) kv_cmds" where
  "ttl_maps = \<lparr>
     kv_get = (\<lambda>t m k. case m k of None \<Rightarrow> None
                | Some (v, None) \<Rightarrow> Some v
                | Some (v, Some e) \<Rightarrow> (if t < e then Some v else None)),
     kv_set = (\<lambda>t k v ttl m. m(k \<mapsto> (v, map_option (\<lambda>d. t + usec d) ttl))),
     kv_del = (\<lambda>t k m.
       ((case m k of None \<Rightarrow> False | Some (v, None) \<Rightarrow> True | Some (v, Some e) \<Rightarrow> t < e),
        m(k := None)))\<rparr>"

lemma ttl_maps_simps [simp]:
  "kv_get ttl_maps t m k = (case m k of None \<Rightarrow> None
     | Some (v, None) \<Rightarrow> Some v
     | Some (v, Some e) \<Rightarrow> (if t < e then Some v else None))"
  "kv_set ttl_maps t k v ttl m = m(k \<mapsto> (v, map_option (\<lambda>d. t + usec d) ttl))"
  "kv_del ttl_maps t k m =
     ((case m k of None \<Rightarrow> False | Some (v, None) \<Rightarrow> True | Some (v, Some e) \<Rightarrow> t < e), m(k := None))"
  by (simp_all add: ttl_maps_def)

interpretation tm: redis_keys ttl_maps
proof unfold_locales
  fix t t' :: timestamp and k k' :: 'k and v :: 'v and ttl and m :: "'k \<rightharpoonup> 'v \<times> timestamp option"
  show "t \<le> t' \<Longrightarrow> kv_get ttl_maps t' (kv_set ttl_maps t k v ttl m) k' =
         (if k' = k then (if alive t ttl t' then Some v else None) else kv_get ttl_maps t' m k')"
    by (cases ttl) auto
  show "fst (kv_del ttl_maps t k m) \<longleftrightarrow> kv_get ttl_maps t m k \<noteq> None"
    by (auto split: option.splits)
  show "t \<le> t' \<Longrightarrow> kv_get ttl_maps t' (snd (kv_del ttl_maps t k m)) k'
         = (if k' = k then None else kv_get ttl_maps t' m k')"
    by simp
  show "kv_get ttl_maps t' m k = Some v \<Longrightarrow> t \<le> t' \<Longrightarrow> kv_get ttl_maps t m k = Some v"
    by (auto split: option.splits if_splits)
qed

section \<open>Counters: GET, INCR, EXPIREAT\<close>

record 'c counter_cmds =
  c_get :: "timestamp \<Rightarrow> 'c \<Rightarrow> string \<Rightarrow> int option"
  c_incr :: "timestamp \<Rightarrow> string \<Rightarrow> 'c \<Rightarrow> int \<times> 'c"
  c_expireat :: "timestamp \<Rightarrow> string \<Rightarrow> timestamp \<Rightarrow> 'c \<Rightarrow> 'c"

text \<open>INCR keeps the expiry of the key and starts at one; EXPIREAT replaces the expiry.\<close>

locale redis_counters =
  fixes C :: "'c counter_cmds"
  assumes incr_result: "fst (c_incr C t k m) = (case c_get C t m k of None \<Rightarrow> 1 | Some n \<Rightarrow> n + 1)"
    and get_incr:
      "t \<le> t' \<Longrightarrow> c_get C t' (snd (c_incr C t k m)) k' =
         (if k' \<noteq> k then c_get C t' m k'
          else (case c_get C t m k of
              None \<Rightarrow> Some 1
            | Some n \<Rightarrow> if c_get C t' m k = None then None else Some (n + 1)))"
    and get_expireat:
      "t \<le> t' \<Longrightarrow> c_get C t' (c_expireat C t k e m) k' =
         (if k' \<noteq> k then c_get C t' m k' else if t' < e then c_get C t m k else None)"
    and counter_earlier: "c_get C t' m k = Some v \<Longrightarrow> t \<le> t' \<Longrightarrow> c_get C t m k = Some v"
begin

lemma no_counter_later: "c_get C t m k = None \<Longrightarrow> t \<le> t' \<Longrightarrow> c_get C t' m k = None"
  by (cases "c_get C t' m k") (use counter_earlier [of t' m k _ t] in simp_all)

text \<open>The idiom of the code: increment, then set the expiry.\<close>

lemma count_until:
  assumes "t \<le> t'" "fst (c_incr C t k m) = n"
  shows "c_get C t' (c_expireat C t k e (snd (c_incr C t k m))) k = (if t' < e then Some n else None)"
  using assms incr_result [of t k m] get_expireat [OF assms(1), of k e "snd (c_incr C t k m)" k]
    get_incr [of t t k m k]
  by (auto split: option.splits)

end

definition ttl_counters :: "(string \<rightharpoonup> int \<times> timestamp option) counter_cmds" where
  "ttl_counters = \<lparr>
     c_get = (\<lambda>t m k. case m k of None \<Rightarrow> None
                | Some (v, None) \<Rightarrow> Some v
                | Some (v, Some e) \<Rightarrow> (if t < e then Some v else None)),
     c_incr = (\<lambda>t k m. case m k of
         Some (v, None) \<Rightarrow> (v + 1, m(k \<mapsto> (v + 1, None)))
       | Some (v, Some e) \<Rightarrow> if t < e then (v + 1, m(k \<mapsto> (v + 1, Some e))) else (1, m(k \<mapsto> (1, None)))
       | None \<Rightarrow> (1, m(k \<mapsto> (1, None)))),
     c_expireat = (\<lambda>t k e m. case m k of
         Some (v, None) \<Rightarrow> m(k \<mapsto> (v, Some e))
       | Some (v, Some e') \<Rightarrow> if t < e' then m(k \<mapsto> (v, Some e)) else m
       | None \<Rightarrow> m)\<rparr>"

interpretation tc: redis_counters ttl_counters
  by unfold_locales (auto simp: ttl_counters_def split: option.splits if_splits)

end
