(* ===== verification/Plans.thy ===== *)
theory Plans imports Prelude
begin

text \<open>
  Plan entitlements (\<open>app/services/plan_limits.py\<close>) and the active-rule limit of
  \<open>app/services/rule_service.py\<close>.  The locale \<open>pro_gate\<close> is the contract every entitlement test
  shares: only a plan that reads as "pro" once stripped and lower-cased passes, whatever else the
  column holds.  It is interpreted for each of the four tests of the code.
\<close>

section \<open>Entitlements\<close>

definition FREE_PLAN :: string where
  "FREE_PLAN = ''free''"

definition PRO_PLAN :: string where
  "PRO_PLAN = ''pro''"

definition PlanLimitError :: app_error where
  "PlanLimitError = AppError ''plan_limit_exceeded'' 403"

record plan_limits =
  pl_plan :: string
  pl_max_devices :: "nat option"
  pl_max_messages_per_month :: "nat option"
  pl_retention_days :: nat
  pl_max_sensors :: "nat option"
  pl_max_rules :: "nat option"
  pl_full_control :: bool

definition FREE_LIMITS :: plan_limits where
  "FREE_LIMITS = \<lparr>pl_plan = FREE_PLAN, pl_max_devices = Some 2,
     pl_max_messages_per_month = Some 20000, pl_retention_days = 7, pl_max_sensors = Some 10,
     pl_max_rules = Some 2, pl_full_control = False\<rparr>"

definition PRO_LIMITS :: plan_limits where
  "PRO_LIMITS = \<lparr>pl_plan = PRO_PLAN, pl_max_devices = None,
     pl_max_messages_per_month = None, pl_retention_days = 90, pl_max_sensors = Some 20,
     pl_max_rules = None, pl_full_control = True\<rparr>"

definition PLAN_LIMITS :: "string \<rightharpoonup> plan_limits" where
  "PLAN_LIMITS = [FREE_PLAN \<mapsto> FREE_LIMITS, PRO_PLAN \<mapsto> PRO_LIMITS]"

definition DEFAULT_LIMITS :: plan_limits where
  "DEFAULT_LIMITS = FREE_LIMITS"

definition limits_for_plan :: "string option \<Rightarrow> plan_limits" where
  "limits_for_plan plan =
     (case plan of
        None \<Rightarrow> DEFAULT_LIMITS
      | Some s \<Rightarrow>
          (case PLAN_LIMITS (lower (strip s)) of
             Some limits \<Rightarrow> limits
           | None \<Rightarrow> DEFAULT_LIMITS))"

definition is_metered :: "string option \<Rightarrow> bool" where
  "is_metered plan = (pl_max_messages_per_month (limits_for_plan plan) \<noteq> None)"

definition has_full_control :: "string option \<Rightarrow> bool" where
  "has_full_control plan = pl_full_control (limits_for_plan plan)"

section \<open>The active-rule limit\<close>

definition FREE_PLAN_ACTIVE_RULE_LIMIT :: nat where
  "FREE_PLAN_ACTIVE_RULE_LIMIT = 2"

definition plan_active_rule_limit :: "string option \<Rightarrow> nat option" where
  "plan_active_rule_limit plan =
     (let normalized = lower (strip (case plan of None \<Rightarrow> [] | Some s \<Rightarrow> s)) in
      if normalized = PRO_PLAN then None else Some FREE_PLAN_ACTIVE_RULE_LIMIT)"

section \<open>The contract of an entitlement test\<close>

definition reads_pro :: "string option \<Rightarrow> bool" where
  "reads_pro plan = (\<exists>s. plan = Some s \<and> lower (strip s) = PRO_PLAN)"

lemma reads_pro_simps [simp]:
  "\<not> reads_pro None"
  "reads_pro (Some s) \<longleftrightarrow> lower (strip s) = PRO_PLAN"
  by (simp_all add: reads_pro_def)

lemma plan_names [simp]: "FREE_PLAN \<noteq> PRO_PLAN" "PRO_PLAN \<noteq> FREE_PLAN" "PRO_PLAN \<noteq> []"
  by (simp_all add: FREE_PLAN_def PRO_PLAN_def)

lemma pro_fixed [simp]: "lower (strip PRO_PLAN) = PRO_PLAN"
  by code_simp

lemma lower_strip_Nil [simp]: "lower (strip []) = []"
  by (simp add: strip_def lower_def)

locale pro_gate =
  fixes gate :: "string option \<Rightarrow> bool"
  assumes gate_pro: "gate (Some PRO_PLAN)"
    and gate_norm: "lower (strip s) = lower (strip s') \<Longrightarrow> gate (Some s) \<Longrightarrow> gate (Some s')"
    and gate_only: "gate plan \<Longrightarrow> reads_pro plan"
begin

lemma gate_iff: "gate plan \<longleftrightarrow> reads_pro plan"
proof
  assume "reads_pro plan"
  then obtain s where s: "plan = Some s" "lower (strip s) = PRO_PLAN"
    by (auto simp: reads_pro_def)
  with s gate_norm [of PRO_PLAN s] gate_pro show "gate plan" by simp
qed (rule gate_only)

lemma gate_missing: "\<not> gate None"
  by (simp add: gate_iff)

lemma gate_other: "lower (strip s) \<noteq> PRO_PLAN \<Longrightarrow> \<not> gate (Some s)"
  by (simp add: gate_iff)

end

lemma limits_for_plan_cases:
  "limits_for_plan plan = (if reads_pro plan then PRO_LIMITS else FREE_LIMITS)"
  by (cases plan) (auto simp: limits_for_plan_def PLAN_LIMITS_def DEFAULT_LIMITS_def)

interpretation unmetered: pro_gate "\<lambda>plan. \<not> is_metered plan"
  by unfold_locales
    (auto simp: is_metered_def limits_for_plan_cases PRO_LIMITS_def FREE_LIMITS_def split: if_splits)

interpretation control: pro_gate has_full_control
  by unfold_locales
    (auto simp: has_full_control_def limits_for_plan_cases PRO_LIMITS_def FREE_LIMITS_def
      split: if_splits)

interpretation free_devices: pro_gate "\<lambda>plan. pl_max_devices (limits_for_plan plan) = None"
  by unfold_locales
    (auto simp: limits_for_plan_cases PRO_LIMITS_def FREE_LIMITS_def split: if_splits)

interpretation free_rules: pro_gate "\<lambda>plan. plan_active_rule_limit plan = None"
proof unfold_locales
  have iff: "plan_active_rule_limit plan = None \<longleftrightarrow> reads_pro plan" for plan
    by (cases plan) (simp_all add: plan_active_rule_limit_def del: reads_pro_simps(2),
        metis plan_names(3), simp)
  show "plan_active_rule_limit (Some PRO_PLAN) = None" by (simp add: iff)
  show "plan_active_rule_limit (Some s') = None"
    if "lower (strip s) = lower (strip s')" "plan_active_rule_limit (Some s) = None" for s s'
    using that by (simp add: plan_active_rule_limit_def)
  show "reads_pro plan" if "plan_active_rule_limit plan = None" for plan
    using that by (simp only: iff)
qed

section \<open>Properties\<close>

text \<open>An unrecognised plan never grants a Pro benefit, and the enforcement points
  cannot disagree: unlimited devices, unmetered telemetry, unlimited rules and full control all
  hold for exactly the plans that read as "pro", and the two places that state the rule limit
  agree.\<close>

theorem plan_gates_agree:
  "is_metered plan = (\<not> reads_pro plan)
   \<and> has_full_control plan = reads_pro plan
   \<and> (pl_max_devices (limits_for_plan plan) = None) = reads_pro plan
   \<and> plan_active_rule_limit plan = pl_max_rules (limits_for_plan plan)"
proof (intro conjI)
  show "is_metered plan = (\<not> reads_pro plan)" using unmetered.gate_iff by blast
  show "has_full_control plan = reads_pro plan" by (rule control.gate_iff)
  show "(pl_max_devices (limits_for_plan plan) = None) = reads_pro plan"
    by (rule free_devices.gate_iff)
  show "plan_active_rule_limit plan = pl_max_rules (limits_for_plan plan)"
    using free_rules.gate_iff [of plan]
    by (cases "reads_pro plan")
      (auto simp: limits_for_plan_cases PRO_LIMITS_def FREE_LIMITS_def plan_active_rule_limit_def
        FREE_PLAN_ACTIVE_RULE_LIMIT_def Let_def split: if_splits)
qed

end
