(* ===== verification/Pricing.thy ===== *)
theory Pricing imports Plans
begin

text \<open>
  The volume-discount pricing engine (\<open>app/services/billing_service.py\<close>).  Arguments that the code
  checks with \<open>isinstance\<close> are decoded JSON values, so that the rejections are branches of the
  model.  The lemmas give the price of each band, that the per-device price never rises with the
  number of devices, and that a quote agrees with \<open>total\<close>.
\<close>

definition CYCLE_MONTHLY :: string where
  "CYCLE_MONTHLY = ''monthly''"

definition CYCLE_YEARLY :: string where
  "CYCLE_YEARLY = ''yearly''"

definition ANNUAL_UNIT_PRICE :: int where
  "ANNUAL_UNIT_PRICE = 948"

record pricing_tier =
  tier_min_devices :: int
  tier_max_devices :: "int option"
  tier_unit_price_monthly :: int

definition PRICING_TIERS :: "pricing_tier list" where
  "PRICING_TIERS =
     [\<lparr>tier_min_devices = 1, tier_max_devices = Some 10, tier_unit_price_monthly = 99\<rparr>,
      \<lparr>tier_min_devices = 11, tier_max_devices = Some 50, tier_unit_price_monthly = 79\<rparr>,
      \<lparr>tier_min_devices = 51, tier_max_devices = Some 200, tier_unit_price_monthly = 69\<rparr>,
      \<lparr>tier_min_devices = 201, tier_max_devices = None, tier_unit_price_monthly = 59\<rparr>]"

definition validate_device_count :: "json \<Rightarrow> int result" where
  "validate_device_count v =
     (case v of
        JInt n \<Rightarrow> (if n < 1 then fail (ValidationError ''validation_error'') else Inr n)
      | _ \<Rightarrow> fail (ValidationError ''validation_error''))"

definition normalize_cycle :: "json \<Rightarrow> string result" where
  "normalize_cycle v =
     (case v of
        JStr s \<Rightarrow>
          (let normalized = lower (strip s) in
           if normalized = CYCLE_MONTHLY \<or> normalized = CYCLE_YEARLY then Inr normalized
           else fail (ValidationError ''validation_error''))
      | _ \<Rightarrow> fail (ValidationError ''validation_error''))"

text \<open>The loop over the tiers; \<open>tiers[-1]\<close> is the value after the loop.\<close>

fun first_tier_price :: "int \<Rightarrow> pricing_tier list \<Rightarrow> int option" where
  "first_tier_price n [] = None"
| "first_tier_price n (tier # tiers) =
     (case tier_max_devices tier of
        None \<Rightarrow> Some (tier_unit_price_monthly tier)
      | Some m \<Rightarrow> (if n \<le> m then Some (tier_unit_price_monthly tier) else first_tier_price n tiers))"

definition unit_price_monthly :: "json \<Rightarrow> int result" where
  "unit_price_monthly v =
     bind_res (validate_device_count v) (\<lambda>device_count.
       case first_tier_price device_count PRICING_TIERS of
         Some p \<Rightarrow> Inr p
       | None \<Rightarrow> Inr (tier_unit_price_monthly (last PRICING_TIERS)))"

definition unit_price :: "json \<Rightarrow> json \<Rightarrow> int result" where
  "unit_price v billing_cycle =
     bind_res (normalize_cycle billing_cycle) (\<lambda>cycle.
     bind_res (validate_device_count v) (\<lambda>device_count.
       if cycle = CYCLE_YEARLY then Inr ANNUAL_UNIT_PRICE
       else unit_price_monthly (JInt device_count)))"

definition total :: "json \<Rightarrow> json \<Rightarrow> int result" where
  "total v billing_cycle =
     bind_res (validate_device_count v) (\<lambda>device_count.
     bind_res (unit_price (JInt device_count) billing_cycle) (\<lambda>p. Inr (device_count * p)))"

record price_quote =
  q_device_count :: int
  q_billing_cycle :: string
  q_unit_price :: int
  q_total :: int

definition quote :: "json \<Rightarrow> json \<Rightarrow> price_quote result" where
  "quote v billing_cycle =
     bind_res (normalize_cycle billing_cycle) (\<lambda>cycle.
     bind_res (validate_device_count v) (\<lambda>device_count.
     bind_res (unit_price (JInt device_count) (JStr cycle)) (\<lambda>per_device.
       Inr \<lparr>q_device_count = device_count, q_billing_cycle = cycle,
            q_unit_price = per_device, q_total = device_count * per_device\<rparr>)))"

text \<open>\<open>GET /billing/plans\<close>: the limits of the two plans, the advertised Pro prices and the tiers.\<close>

record plans_view =
  pv_free :: plan_limits
  pv_pro :: plan_limits
  pv_unit_price_monthly :: int
  pv_annual_unit_price :: int
  pv_pricing_tiers :: "pricing_tier list"

definition pricing_tiers :: "pricing_tier list" where
  "pricing_tiers = map (\<lambda>tier. \<lparr>tier_min_devices = tier_min_devices tier,
     tier_max_devices = tier_max_devices tier,
     tier_unit_price_monthly = tier_unit_price_monthly tier\<rparr>) PRICING_TIERS"

definition plans :: plans_view where
  "plans = \<lparr>pv_free = FREE_LIMITS, pv_pro = PRO_LIMITS,
     pv_unit_price_monthly = tier_unit_price_monthly (PRICING_TIERS ! 0),
     pv_annual_unit_price = ANNUAL_UNIT_PRICE, pv_pricing_tiers = pricing_tiers\<rparr>"

section \<open>Lemmas\<close>

lemma cycle_names [simp]: "CYCLE_MONTHLY \<noteq> CYCLE_YEARLY" "CYCLE_YEARLY \<noteq> CYCLE_MONTHLY"
  by (simp_all add: CYCLE_MONTHLY_def CYCLE_YEARLY_def)

lemma cycle_fixed [simp]:
  "lower (strip CYCLE_MONTHLY) = CYCLE_MONTHLY" "lower (strip CYCLE_YEARLY) = CYCLE_YEARLY"
  by code_simp+

lemma normalize_cycle_Inr:
  "normalize_cycle v = Inr c \<Longrightarrow> c = CYCLE_MONTHLY \<or> c = CYCLE_YEARLY"
  by (auto simp: normalize_cycle_def Let_def fail_def split: json.splits if_splits)

lemma normalize_cycle_fixed [simp]:
  "normalize_cycle (JStr CYCLE_MONTHLY) = Inr CYCLE_MONTHLY"
  "normalize_cycle (JStr CYCLE_YEARLY) = Inr CYCLE_YEARLY"
  by (simp_all add: normalize_cycle_def Let_def)

lemma normalize_cycle_again: "normalize_cycle v = Inr c \<Longrightarrow> normalize_cycle (JStr c) = Inr c"
  by (drule normalize_cycle_Inr) auto

lemma validate_device_count_Inr:
  "validate_device_count v = Inr n \<longleftrightarrow> v = JInt n \<and> 1 \<le> n"
  by (auto simp: validate_device_count_def fail_def split: json.splits if_splits)

text \<open>The price of a purchase as a function of the number of devices alone.\<close>

definition band_price :: "int \<Rightarrow> int" where
  "band_price n = (if n \<le> 10 then 99 else if n \<le> 50 then 79 else if n \<le> 200 then 69 else 59)"

lemma unit_price_monthly_band: "1 \<le> n \<Longrightarrow> unit_price_monthly (JInt n) = Inr (band_price n)"
  by (simp add: unit_price_monthly_def validate_device_count_def PRICING_TIERS_def band_price_def)

lemma unit_price_Inr:
  assumes "normalize_cycle c = Inr cycle" "1 \<le> n"
  shows "unit_price (JInt n) c =
    Inr (if cycle = CYCLE_YEARLY then ANNUAL_UNIT_PRICE else band_price n)"
  using assms by (simp add: unit_price_def validate_device_count_def unit_price_monthly_band)

lemma unit_price_positive: "unit_price v c = Inr p \<Longrightarrow> 0 < p"
  by (auto simp: unit_price_def bind_res_eq_Inr validate_device_count_Inr unit_price_monthly_band
      ANNUAL_UNIT_PRICE_def band_price_def split: if_splits)

lemma band_price_mono: "n \<le> m \<Longrightarrow> band_price m \<le> band_price n"
  by (simp add: band_price_def)

section \<open>Properties\<close>

text \<open>The tiers are the published ones and their boundaries are exact: the price loop
  gives 99, 79, 69 and 59 rupees for 1-10, 11-50, 51-200 and more devices, it rejects every count
  that is not a positive integer, and the per-device price never rises as devices are added.\<close>

theorem monthly_price_bands:
  "unit_price_monthly v =
     (case v of JInt n \<Rightarrow>
        if n < 1 then fail (ValidationError ''validation_error'')
        else Inr (if n \<le> 10 then 99 else if n \<le> 50 then 79 else if n \<le> 200 then 69 else 59)
      | _ \<Rightarrow> fail (ValidationError ''validation_error''))
   \<and> (case (unit_price_monthly (JInt n), unit_price_monthly (JInt (n + int k))) of
        (Inr p, Inr p') \<Rightarrow> p' \<le> p
      | (Inl e, _) \<Rightarrow> n < 1
      | (Inr p, Inl e) \<Rightarrow> False)"
proof
  show "unit_price_monthly v =
     (case v of JInt n \<Rightarrow>
        if n < 1 then fail (ValidationError ''validation_error'')
        else Inr (if n \<le> 10 then 99 else if n \<le> 50 then 79 else if n \<le> 200 then 69 else 59)
      | _ \<Rightarrow> fail (ValidationError ''validation_error''))"
    by (cases v)
      (simp_all add: unit_price_monthly_def validate_device_count_def PRICING_TIERS_def fail_def)
  show "(case (unit_price_monthly (JInt n), unit_price_monthly (JInt (n + int k))) of
        (Inr p, Inr p') \<Rightarrow> p' \<le> p
      | (Inl e, _) \<Rightarrow> n < 1
      | (Inr p, Inl e) \<Rightarrow> False)"
  proof (cases "1 \<le> n")
    case True
    then show ?thesis
      by (simp add: unit_price_monthly_band band_price_mono del: of_nat_add)
  next
    case False
    then show ?thesis
      by (simp add: unit_price_monthly_def validate_device_count_def fail_def split: sum.splits)
  qed
qed

text \<open>A quote is internally consistent: it succeeds for exactly the inputs \<open>total\<close>
  accepts, its total is the count times the unit price it shows and the amount \<open>total\<close> charges,
  and a yearly quote always charges 948 rupees per device.\<close>

theorem quote_total:
  "(case (quote v c, total v c) of
      (Inr q, Inr t) \<Rightarrow> q_total q = t \<and> t = q_device_count q * q_unit_price q \<and> 0 < t
         \<and> unit_price v c = Inr (q_unit_price q)
         \<and> (q_billing_cycle q = CYCLE_MONTHLY \<or> q_unit_price q = 948)
    | (Inl e, Inl e') \<Rightarrow> e = e'
    | _ \<Rightarrow> False)"
proof (cases "validate_device_count v")
  case (Inl e)
  then have e: "e = Raised (ValidationError ''validation_error'')"
    by (auto simp: validate_device_count_def fail_def split: json.splits if_splits)
  have "normalize_cycle c = Inl e' \<Longrightarrow> e' = e" for e'
    by (auto simp: normalize_cycle_def Let_def fail_def e split: json.splits if_splits)
  with Inl show ?thesis
    by (cases "normalize_cycle c") (auto simp: quote_def total_def)
next
  case (Inr n)
  then have n: "v = JInt n" "1 \<le> n" by (simp_all add: validate_device_count_Inr)
  show ?thesis
  proof (cases "normalize_cycle c")
    case (Inl e)
    with Inr show ?thesis by (simp add: quote_def total_def unit_price_def)
  next
    case (Inr cycle)
    then have cyc: "cycle = CYCLE_MONTHLY \<or> cycle = CYCLE_YEARLY" by (rule normalize_cycle_Inr)
    let ?p = "if cycle = CYCLE_YEARLY then ANNUAL_UNIT_PRICE else band_price n"
    have p: "unit_price (JInt n) c = Inr ?p" "unit_price (JInt n) (JStr cycle) = Inr ?p"
      using Inr n normalize_cycle_again [OF Inr] by (simp_all add: unit_price_Inr)
    have "0 < ?p" by (simp add: ANNUAL_UNIT_PRICE_def band_price_def)
    with n have "0 < n * ?p" by simp
    with p n Inr cyc \<open>validate_device_count v = Inr n\<close> show ?thesis
      by (auto simp: quote_def total_def ANNUAL_UNIT_PRICE_def)
  qed
qed

end
