(* ===== verification/Calendar.thy ===== *)
theory Calendar imports Pricing
begin

text \<open>
  Calendar datetimes in UTC and the calendar arithmetic of the billing code: \<open>_add_period\<close> of
  \<open>app/services/subscription_service.py\<close> and \<open>end_of_billing_month\<close> of
  \<open>app/services/quota_service.py\<close>.  A datetime is the year, month, day and the microseconds since
  midnight, with Python's \<open>replace\<close> and \<open>toordinal\<close>; it is a linear order, and the lemmas show that
  \<open>instant\<close>, its position on the time line, respects that order.
\<close>

section \<open>Datetimes\<close>

datatype datetime = DateTime (dt_year: int) (dt_month: int) (dt_day: int) (dt_usec: int)

instantiation datetime :: linorder
begin

definition less_eq_datetime :: "datetime \<Rightarrow> datetime \<Rightarrow> bool" where
  "less_eq_datetime a b \<longleftrightarrow>
     dt_year a < dt_year b \<or> dt_year a = dt_year b \<and>
     (dt_month a < dt_month b \<or> dt_month a = dt_month b \<and>
      (dt_day a < dt_day b \<or> dt_day a = dt_day b \<and> dt_usec a \<le> dt_usec b))"

definition less_datetime :: "datetime \<Rightarrow> datetime \<Rightarrow> bool" where
  "less_datetime a b \<longleftrightarrow> a \<le> b \<and> \<not> b \<le> (a::datetime)"

instance
  by standard
    (auto simp: less_eq_datetime_def less_datetime_def intro: datetime.expand)

end

definition is_leap :: "int \<Rightarrow> bool" where
  "is_leap y = (4 dvd y \<and> (\<not> 100 dvd y \<or> 400 dvd y))"

definition days_in_month :: "int \<Rightarrow> int \<Rightarrow> int" where
  "days_in_month y m =
     (if m = 2 then (if is_leap y then 29 else 28)
      else if m = 4 \<or> m = 6 \<or> m = 9 \<or> m = 11 then 30 else 31)"

definition valid_date :: "int \<Rightarrow> int \<Rightarrow> int \<Rightarrow> bool" where
  "valid_date y m d = (1 \<le> y \<and> y \<le> 9999 \<and> 1 \<le> m \<and> m \<le> 12 \<and> 1 \<le> d \<and> d \<le> days_in_month y m)"

definition usec_per_day :: int where
  "usec_per_day = 86400000000"

fun valid_datetime :: "datetime \<Rightarrow> bool" where
  "valid_datetime (DateTime y m d u) = (valid_date y m d \<and> 0 \<le> u \<and> u < usec_per_day)"

text \<open>\<open>datetime.replace\<close>: \<open>None\<close> is its \<open>ValueError\<close>.\<close>

definition replace_date :: "datetime \<Rightarrow> int \<Rightarrow> int \<Rightarrow> int \<Rightarrow> datetime option" where
  "replace_date s y m d = (if valid_date y m d then Some (DateTime y m d (dt_usec s)) else None)"

definition days_before_year :: "int \<Rightarrow> int" where
  "days_before_year y = (y - 1) * 365 + (y - 1) div 4 - (y - 1) div 100 + (y - 1) div 400"

definition days_before_month :: "int \<Rightarrow> int \<Rightarrow> int" where
  "days_before_month y m = sum_list (map (days_in_month y) [1 .. m - 1])"

definition toordinal :: "int \<Rightarrow> int \<Rightarrow> int \<Rightarrow> int" where
  "toordinal y m d = days_before_year y + days_before_month y m + d"

text \<open>Microseconds from the epoch, 1970-01-01, whose ordinal is 719163.\<close>

fun instant :: "datetime \<Rightarrow> timestamp" where
  "instant (DateTime y m d u) = (toordinal y m d - 719163) * usec_per_day + u"

section \<open>One billing period\<close>

text \<open>The loop that steps an overflowing day back, down to the 28th.\<close>

function step_back :: "datetime \<Rightarrow> int \<Rightarrow> int \<Rightarrow> int \<Rightarrow> datetime result" where
  "step_back s y m d =
     (case replace_date s y m d of
        Some r \<Rightarrow> Inr r
      | None \<Rightarrow>
          (if d - 1 < 28
           then (case replace_date s y m 28 of Some r \<Rightarrow> Inr r | None \<Rightarrow> Inl ValueError)
           else step_back s y m (d - 1)))"
  by auto
termination
  by (relation "measure (\<lambda>(s, y, m, d). nat d)") auto

declare step_back.simps [simp del] instant.simps [simp del]

definition add_period :: "datetime \<Rightarrow> string \<Rightarrow> datetime result" where
  "add_period start billing_cycle =
     bind_res (normalize_cycle (JStr billing_cycle)) (\<lambda>cycle.
       if cycle = CYCLE_YEARLY then
         (case replace_date start (dt_year start + 1) (dt_month start) (dt_day start) of
            Some r \<Rightarrow> Inr r
          | None \<Rightarrow>
              (case replace_date start (dt_year start + 1) (dt_month start) 28 of
                 Some r \<Rightarrow> Inr r
               | None \<Rightarrow> Inl ValueError))
       else
         (let year = dt_year start + (if dt_month start = 12 then 1 else 0);
              month = (if dt_month start = 12 then 1 else dt_month start + 1)
          in step_back start year month (dt_day start)))"

text \<open>\<open>datetime(y, m, 1)\<close> raises for the year 10000.\<close>

definition end_of_billing_month :: "datetime \<Rightarrow> datetime result" where
  "end_of_billing_month now =
     (if dt_month now = 12
      then (if valid_date (dt_year now + 1) 1 1 then Inr (DateTime (dt_year now + 1) 1 1 0)
            else Inl ValueError)
      else (if valid_date (dt_year now) (dt_month now + 1) 1
            then Inr (DateTime (dt_year now) (dt_month now + 1) 1 0) else Inl ValueError))"

section \<open>Lemmas\<close>

lemma days_in_month_bounds: "28 \<le> days_in_month y m \<and> days_in_month y m \<le> 31"
  by (simp add: days_in_month_def)

lemma days_in_month_year:
  "m \<noteq> 2 \<Longrightarrow> days_in_month y m = days_in_month y' m"
  by (simp add: days_in_month_def)

lemma valid_date_28: "1 \<le> y \<Longrightarrow> y \<le> 9999 \<Longrightarrow> 1 \<le> m \<Longrightarrow> m \<le> 12 \<Longrightarrow> valid_date y m 28"
  using days_in_month_bounds [of y m] by (simp add: valid_date_def)

lemma days_before_month_Suc:
  assumes "1 \<le> m"
  shows "days_before_month y (m + 1) = days_before_month y m + days_in_month y m"
  using assms by (simp add: days_before_month_def upto_rec2 [of 1 m])

lemma days_before_month_mono:
  assumes "1 \<le> m" "m < m'"
  shows "days_before_month y m + days_in_month y m \<le> days_before_month y m'"
proof -
  from \<open>m < m'\<close> have "m + 1 \<le> m'" by simp
  then show ?thesis
  proof (induction m' rule: int_ge_induct)
    case base
    with \<open>1 \<le> m\<close> show ?case by (simp add: days_before_month_Suc)
  next
    case (step i)
    with \<open>1 \<le> m\<close> days_in_month_bounds [of y i] show ?case by (simp add: days_before_month_Suc)
  qed
qed

lemma days_before_month_nonneg: "1 \<le> m \<Longrightarrow> 0 \<le> days_before_month y m"
  using days_before_month_mono [of 1 m y] days_in_month_bounds [of y 1]
  by (cases "m = 1") (simp_all add: days_before_month_def)

lemma year_length: "days_before_month y 13 = 365 + (if is_leap y then 1 else 0)"
  by (simp add: days_before_month_def upto_rec1 days_in_month_def)

lemma days_before_year_Suc:
  "days_before_year (y + 1) = days_before_year y + 365 + (if is_leap y then 1 else 0)"
proof -
  have step: "y div k = (y - 1) div k + (if k dvd y then 1 else 0)" if "0 < k" for k :: int
  proof (cases "k dvd y")
    case True
    then obtain q where "y = k * q" by (elim dvdE)
    with that int_div_pos_eq [of "y - 1" k "q - 1" "k - 1"] show ?thesis
      by (simp add: algebra_simps)
  next
    case False
    then have "0 < y mod k" using that by (simp add: dvd_eq_mod_eq_0 order_less_le)
    moreover have "y - 1 = k * (y div k) + (y mod k - 1)" by simp
    moreover have "y mod k < k" using that by simp
    ultimately have "(y - 1) div k = y div k"
      using int_div_pos_eq [of "y - 1" k "y div k" "y mod k - 1"] by linarith
    with False show ?thesis by simp
  qed
  show ?thesis
    unfolding days_before_year_def is_leap_def
    using step [of 4] step [of 100] step [of 400] by (auto split: if_splits)
qed

lemma days_before_year_mono:
  assumes "y < y'"
  shows "days_before_year y + days_before_month y 13 \<le> days_before_year y'"
proof -
  from assms have "y + 1 \<le> y'" by simp
  then show ?thesis
  proof (induction y' rule: int_ge_induct)
    case base
    show ?case by (simp add: days_before_year_Suc year_length)
  next
    case (step i)
    then show ?case by (simp add: days_before_year_Suc)
  qed
qed

lemma ordinal_in_year:
  assumes "valid_date y m d"
  shows "days_before_year y < toordinal y m d
    \<and> toordinal y m d \<le> days_before_year y + days_before_month y 13"
proof -
  have "0 \<le> days_before_month y m" using assms by (simp add: valid_date_def days_before_month_nonneg)
  moreover have "days_before_month y m + days_in_month y m \<le> days_before_month y 13"
    using assms by (intro days_before_month_mono) (simp_all add: valid_date_def)
  ultimately show ?thesis using assms by (simp add: toordinal_def valid_date_def)
qed

lemma toordinal_less:
  assumes "valid_date y m d" "valid_date y' m' d'"
    and "y < y' \<or> y = y' \<and> (m < m' \<or> m = m' \<and> d < d')"
  shows "toordinal y m d < toordinal y' m' d'"
proof -
  consider (year) "y < y'" | (month) "y = y'" "m < m'" | (day) "y = y'" "m = m'" "d < d'"
    using assms(3) by blast
  then show ?thesis
  proof cases
    case year
    then show ?thesis
      using ordinal_in_year [OF assms(1)] ordinal_in_year [OF assms(2)] days_before_year_mono [of y y']
      by linarith
  next
    case month
    then show ?thesis
      using assms(1,2) days_before_month_mono [of m m' y] by (simp add: toordinal_def valid_date_def)
  next
    case day
    then show ?thesis by (simp add: toordinal_def)
  qed
qed

lemma instant_less:
  assumes "valid_datetime a" "valid_datetime b" "a < b"
  shows "instant a < instant b"
proof -
  obtain y m d u where a: "a = DateTime y m d u" by (cases a)
  obtain y' m' d' u' where b: "b = DateTime y' m' d' u'" by (cases b)
  have "y < y' \<or> y = y' \<and> (m < m' \<or> m = m' \<and> d < d') \<or> y = y' \<and> m = m' \<and> d = d' \<and> u < u'"
    using \<open>a < b\<close> by (auto simp: a b less_datetime_def less_eq_datetime_def)
  then consider (date) "toordinal y m d < toordinal y' m' d'"
    | (time) "y = y'" "m = m'" "d = d'" "u < u'"
    using toordinal_less [of y m d y' m' d'] assms(1,2) by (auto simp: a b)
  then show ?thesis
  proof cases
    case date
    then have "(toordinal y m d + 1 - 719163) * usec_per_day
        \<le> (toordinal y' m' d' - 719163) * usec_per_day"
      by (simp add: usec_per_day_def)
    then show ?thesis using assms(1,2) by (simp add: a b instant.simps algebra_simps)
  next
    case time
    then show ?thesis by (simp add: a b instant.simps)
  qed
qed

lemma instant_less_iff:
  assumes "valid_datetime a" "valid_datetime b"
  shows "instant a < instant b \<longleftrightarrow> a < b"
  using assms instant_less [of a b] instant_less [of b a] by (cases a b rule: linorder_cases) auto

lemma step_back_result:
  assumes "1 \<le> y" "y \<le> 9999" "1 \<le> m" "m \<le> 12" "1 \<le> d"
  shows "step_back s y m d = Inr (DateTime y m (min d (days_in_month y m)) (dt_usec s))"
  using assms
proof (induction s y m d rule: step_back.induct)
  case (1 s y m d)
  show ?case
  proof (cases "d \<le> days_in_month y m")
    case True
    with 1 show ?thesis
      by (simp add: step_back.simps [of s y m d] replace_date_def valid_date_def)
  next
    case False
    with days_in_month_bounds [of y m] have d: "28 \<le> d - 1" "days_in_month y m \<le> d - 1" by simp_all
    then have "step_back s y m d = step_back s y m (d - 1)"
      using False by (simp add: step_back.simps [of s y m d] replace_date_def valid_date_def)
    also have "\<dots> = Inr (DateTime y m (min (d - 1) (days_in_month y m)) (dt_usec s))"
      using 1 d False by (simp add: replace_date_def valid_date_def)
    finally show ?thesis using False d by simp
  qed
qed

lemma step_back_overflow: "9999 < y \<Longrightarrow> step_back s y m d = Inl ValueError"
proof (induction s y m d rule: step_back.induct)
  case (1 s y m d)
  then show ?case by (simp add: step_back.simps [of s y m d] replace_date_def valid_date_def)
qed

text \<open>The number of whole months since year 0.\<close>

definition month_index :: "datetime \<Rightarrow> int" where
  "month_index s = dt_year s * 12 + (dt_month s - 1)"

definition period_months :: "string \<Rightarrow> int" where
  "period_months cycle = (if cycle = CYCLE_YEARLY then 12 else 1)"

lemma feb29:
  assumes "valid_date y m d" "y < 9999" "\<not> valid_date (y + 1) m d"
  shows "m = 2 \<and> d = 29 \<and> days_in_month (y + 1) m = 28"
proof -
  have "m = 2" using assms days_in_month_year [of m y "y + 1"] by (auto simp: valid_date_def)
  moreover from assms have "days_in_month (y + 1) m < d \<and> d \<le> days_in_month y m"
    by (auto simp: valid_date_def)
  ultimately show ?thesis by (auto simp: days_in_month_def split: if_splits)
qed

lemma add_period_value:
  assumes "valid_datetime s" "dt_year s < 9999" "normalize_cycle (JStr c) = Inr cycle"
  obtains e where "add_period s c = Inr e" "valid_datetime e"
    "month_index e = month_index s + period_months cycle"
    "dt_day e = min (dt_day s) (days_in_month (dt_year e) (dt_month e))" "dt_usec e = dt_usec s"
proof -
  obtain y m d u where s: "s = DateTime y m d u" by (cases s)
  have v: "valid_date y m d" "0 \<le> u" "u < usec_per_day" using assms by (simp_all add: s)
  show ?thesis
  proof (cases "cycle = CYCLE_YEARLY")
    case True
    let ?e = "DateTime (y + 1) m (min d (days_in_month (y + 1) m)) u"
    have "add_period s c = Inr ?e \<and> valid_datetime ?e"
    proof (cases "valid_date (y + 1) m d")
      case True
      with \<open>cycle = CYCLE_YEARLY\<close> assms v show ?thesis
        by (auto simp: add_period_def s replace_date_def valid_date_def)
    next
      case False
      with v assms feb29 [of y m d] have m: "m = 2" "d = 29" "days_in_month (y + 1) 2 = 28" by (auto simp: s)
      with \<open>cycle = CYCLE_YEARLY\<close> assms v show ?thesis
        by (auto simp: add_period_def s replace_date_def valid_date_def)
    qed
    with True that [of ?e] show ?thesis by (simp add: month_index_def period_months_def s)
  next
    case False
    let ?y = "y + (if m = 12 then 1 else 0)" and ?m = "if m = 12 then 1 else m + 1"
    let ?e = "DateTime ?y ?m (min d (days_in_month ?y ?m)) u"
    have range: "1 \<le> ?y" "?y \<le> 9999" "1 \<le> ?m" "?m \<le> 12" "1 \<le> d"
      using v assms by (auto simp: s valid_date_def)
    have "add_period s c = Inr ?e"
      using assms False step_back_result [OF range, of s]
      by (cases "m = 12") (simp_all add: add_period_def s Let_def)
    moreover have "valid_datetime ?e"
      using range v days_in_month_bounds [of ?y ?m] by (simp add: valid_date_def)
    ultimately show ?thesis
      using that [of ?e] False by (simp add: month_index_def period_months_def s)
  qed
qed

lemma month_index_less:
  assumes "valid_datetime a" "valid_datetime b" "month_index a < month_index b"
  shows "a < b"
  using assms
  by (cases a; cases b)
    (auto simp: month_index_def less_datetime_def less_eq_datetime_def valid_date_def)

lemma add_period_later:
  assumes "valid_datetime s" "add_period s c = Inr e"
  shows "valid_datetime e \<and> s < e"
proof -
  obtain cycle where cyc: "normalize_cycle (JStr c) = Inr cycle"
    using assms by (auto simp: add_period_def bind_res_eq_Inr)
  obtain y m d u where s: "s = DateTime y m d u" by (cases s)
  have v: "valid_date y m d" "0 \<le> u" "u < usec_per_day" using assms by (simp_all add: s)
  show ?thesis
  proof (cases "y < 9999")
    case True
    then have "dt_year s < 9999" by (simp add: s)
    from add_period_value [OF assms(1) this cyc] obtain e' where
      "add_period s c = Inr e'" "valid_datetime e'" "month_index e' = month_index s + period_months cycle" .
    with assms show ?thesis
      by (auto intro!: month_index_less simp: period_months_def split: if_splits)
  next
    case False
    with v have y: "y = 9999" by (simp add: valid_date_def)
    with assms cyc have "cycle \<noteq> CYCLE_YEARLY" "m \<noteq> 12"
      by (auto simp: add_period_def s replace_date_def valid_date_def step_back_overflow
          split: if_splits)
    with y assms cyc v step_back_result [of y "m + 1" d s] show ?thesis
      by (auto simp: add_period_def s valid_date_def less_datetime_def less_eq_datetime_def
          days_in_month_def)
  qed
qed

section \<open>Properties\<close>

text \<open>A billing period is exact on the calendar: for every valid start before the year 9999 and
  every recognised cycle \<open>_add_period\<close> returns (the stepping loop ends), the result is a valid date
  exactly one or twelve months on with the same time of day, its day is the start's cut to the
  length of the month it falls in, and it is strictly later on the time line.\<close>

theorem add_period_exact:
  assumes "valid_datetime s" "dt_year s < 9999" "normalize_cycle (JStr c) = Inr cycle"
  shows "\<exists>e. add_period s c = Inr e \<and> valid_datetime e
    \<and> month_index e = month_index s + (if cycle = CYCLE_YEARLY then 12 else 1)
    \<and> dt_day e = min (dt_day s) (days_in_month (dt_year e) (dt_month e))
    \<and> dt_usec e = dt_usec s \<and> instant s < instant e"
proof -
  from add_period_value [OF assms] obtain e where e: "add_period s c = Inr e" "valid_datetime e"
    "month_index e = month_index s + period_months cycle"
    "dt_day e = min (dt_day s) (days_in_month (dt_year e) (dt_month e))" "dt_usec e = dt_usec s" .
  moreover have "instant s < instant e"
    using e assms by (intro instant_less month_index_less) (simp_all add: period_months_def)
  ultimately show ?thesis by (auto simp: period_months_def)
qed

theorem add_period_exact_witness:
  "\<exists>e. add_period (DateTime 2026 1 31 5) '' Monthly'' = Inr e \<and> valid_datetime e
    \<and> month_index e = 2026 * 12 + 1 \<and> dt_day e = 28 \<and> instant (DateTime 2026 1 31 5) < instant e"
proof -
  let ?s = "DateTime 2026 1 31 5"
  have n: "normalize_cycle (JStr '' Monthly'') = Inr CYCLE_MONTHLY" by code_simp
  have v: "valid_datetime ?s" by (simp add: valid_date_def days_in_month_def usec_per_day_def)
  have y: "dt_year ?s < 9999" by simp
  from add_period_exact [OF v y n] obtain e
    where e: "add_period ?s '' Monthly'' = Inr e" "valid_datetime e"
      "month_index e = month_index ?s + 1"
      "dt_day e = min 31 (days_in_month (dt_year e) (dt_month e))" "instant ?s < instant e"
    by (simp only: cycle_names if_False datetime.sel) blast
  then have m: "month_index e = 2026 * 12 + 1" by (simp add: month_index_def)
  have "dt_month e = 2"
    using m \<open>valid_datetime e\<close> by (cases e) (simp add: month_index_def valid_date_def, presburger)
  moreover from this m have "dt_year e = 2026" by (simp add: month_index_def)
  ultimately have "dt_day e = 28" using e(4) by (simp add: days_in_month_def is_leap_def)
  with e m show ?thesis by blast
qed

lemma month_end_value:
  assumes "valid_datetime now" "dt_year now < 9999"
  shows "\<exists>e. end_of_billing_month now = Inr e \<and> valid_datetime e \<and> dt_day e = 1 \<and> dt_usec e = 0
    \<and> month_index e = month_index now + 1"
  using assms
  by (cases now)
    (auto simp: end_of_billing_month_def valid_date_def month_index_def usec_per_day_def
      days_in_month_def)

lemma month_end_later:
  "valid_datetime now \<Longrightarrow> dt_year now < 9999 \<Longrightarrow> end_of_billing_month now = Inr e \<Longrightarrow> instant now < instant e"
  using month_end_value [of now] instant_less [of now] month_index_less [of now] by fastforce

text \<open>The quota counter of a month expires when the next month begins: the boundary is a valid
  midnight on the first of the month that follows and lies after every instant of the month.\<close>

theorem billing_month_end:
  assumes "valid_datetime now" "dt_year now < 9999"
  shows "\<exists>e. end_of_billing_month now = Inr e \<and> valid_datetime e \<and> dt_day e = 1 \<and> dt_usec e = 0
    \<and> month_index e = month_index now + 1 \<and> instant now < instant e"
  using month_end_value [OF assms] month_end_later [OF assms] by blast

theorem billing_month_end_witness:
  "\<exists>e. end_of_billing_month (DateTime 2026 12 31 86399999999) = Inr e \<and> valid_datetime e
    \<and> month_index e = 2027 * 12 \<and> instant (DateTime 2026 12 31 86399999999) < instant e"
proof -
  let ?s = "DateTime 2026 12 31 86399999999"
  have v: "valid_datetime ?s" by (simp add: valid_date_def days_in_month_def usec_per_day_def)
  have y: "dt_year ?s < 9999" by simp
  have "month_index ?s + 1 = 2027 * 12" by (simp add: month_index_def)
  with billing_month_end [OF v y] show ?thesis by metis
qed

end
