(* ===== verification/Access.thy ===== *)
theory Access imports Prelude
begin

text \<open>
  Who may see what: the request principal (\<open>app/core/security/principal.py\<close>), the tenant-bound
  query scope (\<open>app/core/security/tenant.py\<close>) and the role and device checks of
  \<open>app/core/security/deps.py\<close>.  The locale \<open>tenant_fetch\<close> is what the services rely on when they
  fetch a row through the scope; from its two laws follow that a refusal looks the same whatever
  its cause, and that nothing in another organization's rows can influence the answer.
\<close>

section \<open>UUID text\<close>

text \<open>\<open>uuid.UUID(text)\<close> followed by \<open>str\<close>: drop "urn:", "uuid:", braces at the ends and hyphens, and
  read exactly 32 hexadecimal digits.\<close>

fun remove_sub :: "string \<Rightarrow> string \<Rightarrow> string" where
  "remove_sub p [] = []"
| "remove_sub p (c # s) =
     (if p \<noteq> [] \<and> starts_with (c # s) p then remove_sub p (drop (length p) (c # s))
      else c # remove_sub p s)"

definition is_hex :: "char \<Rightarrow> bool" where
  "is_hex c = (c \<in> set ''0123456789abcdefABCDEF'')"

definition strip_chars :: "string \<Rightarrow> string \<Rightarrow> string" where
  "strip_chars cs s =
     rev (dropWhile (\<lambda>c. c \<in> set cs) (rev (dropWhile (\<lambda>c. c \<in> set cs) s)))"

definition canonical_uuid :: "string \<Rightarrow> uuid" where
  "canonical_uuid h = take 8 h @ ''-'' @ take 4 (drop 8 h) @ ''-'' @ take 4 (drop 12 h) @ ''-''
     @ take 4 (drop 16 h) @ ''-'' @ drop 20 h"

definition parse_uuid :: "string \<Rightarrow> uuid option" where
  "parse_uuid s =
     (let h = filter (\<lambda>c. c \<noteq> CHR ''-'')
                (strip_chars ''{}'' (remove_sub ''uuid:'' (remove_sub ''urn:'' s)))
      in if length h = 32 \<and> list_all is_hex h then Some (canonical_uuid (lower h)) else None)"

definition is_uuid :: "string \<Rightarrow> bool" where
  "is_uuid s = (parse_uuid s = Some s)"

section \<open>Principals\<close>

definition ROLE_SUPER_ADMIN :: string where
  "ROLE_SUPER_ADMIN = ''super_admin''"

definition ROLE_PROJECT_CENTER :: string where
  "ROLE_PROJECT_CENTER = ''project_center''"

definition ROLE_DEVICE_USER :: string where
  "ROLE_DEVICE_USER = ''device_user''"

record principal =
  pr_user_id :: string
  pr_org_id :: string
  pr_role :: string

definition is_super_admin :: "principal \<Rightarrow> bool" where
  "is_super_admin p = (pr_role p = ROLE_SUPER_ADMIN)"

definition is_device_user :: "principal \<Rightarrow> bool" where
  "is_device_user p = (pr_role p = ROLE_DEVICE_USER)"

section \<open>The tenant scope\<close>

definition forbidden :: app_error where
  "forbidden = AuthorizationError ''authorization_error''"

definition coerce_org_id :: "string \<Rightarrow> string" where
  "coerce_org_id org_id = (case parse_uuid org_id of Some u \<Rightarrow> u | None \<Rightarrow> org_id)"

text \<open>\<open>bypass\<close>, \<open>select\<close>, \<open>owns\<close> and \<open>get\<close> of \<open>TenantScope\<close>, on a table of rows with an
  \<open>org_id\<close> column.\<close>

definition scope_bypass :: "principal \<Rightarrow> bool" where
  "scope_bypass p = is_super_admin p"

definition scope_select :: "principal \<Rightarrow> ('r \<Rightarrow> uuid) \<Rightarrow> 'r list \<Rightarrow> 'r list" where
  "scope_select p org rows =
     (if scope_bypass p then rows else filter (\<lambda>r. org r = coerce_org_id (pr_org_id p)) rows)"

definition scope_owns :: "principal \<Rightarrow> uuid \<Rightarrow> bool" where
  "scope_owns p org_id = (if scope_bypass p then True else org_id = pr_org_id p)"

definition scope_get ::
  "principal \<Rightarrow> ('r \<Rightarrow> 'k) \<Rightarrow> ('r \<Rightarrow> uuid) \<Rightarrow> 'r list \<Rightarrow> 'k \<Rightarrow> 'r result" where
  "scope_get p key org rows k =
     (case tbl_get key rows k of
        None \<Rightarrow> fail forbidden
      | Some r \<Rightarrow> if \<not> scope_owns p (org r) then fail forbidden else Inr r)"

section \<open>Role and device checks\<close>

definition require_role :: "string list \<Rightarrow> principal \<Rightarrow> principal result" where
  "require_role allowed_roles p =
     (if is_super_admin p then Inr p
      else if allowed_roles \<noteq> [] \<and> pr_role p \<notin> set allowed_roles then fail forbidden
      else Inr p)"

record device_assignment =
  da_device_id :: uuid
  da_user_id :: uuid
  da_org_id :: uuid

definition user_has_device_access :: "device_assignment list \<Rightarrow> principal \<Rightarrow> string \<Rightarrow> bool" where
  "user_has_device_access assignments p device_id =
     (if is_super_admin p then True
      else if \<not> is_device_user p then True
      else (case (parse_uuid device_id, parse_uuid (pr_user_id p)) of
          (Some d, Some u) \<Rightarrow> list_ex (\<lambda>a. da_device_id a = d \<and> da_user_id a = u) assignments
        | _ \<Rightarrow> False))"

definition require_device_access ::
  "device_assignment list \<Rightarrow> principal \<Rightarrow> string option \<Rightarrow> principal result" where
  "require_device_access assignments p path_device_id =
     (case path_device_id of
        None \<Rightarrow> fail forbidden
      | Some device_id \<Rightarrow>
          if \<not> user_has_device_access assignments p device_id then fail forbidden else Inr p)"

section \<open>The contract of a tenant-scoped fetch\<close>

lemma scope_owns_iff [simp]: "scope_owns p org \<longleftrightarrow> is_super_admin p \<or> org = pr_org_id p"
  by (simp add: scope_owns_def scope_bypass_def)

lemma forbidden_status [simp]: "status_code forbidden = 403"
  by (simp add: forbidden_def AuthorizationError_def)

lemma coerce_canonical: "is_uuid org \<Longrightarrow> coerce_org_id org = org"
  by (simp add: is_uuid_def coerce_org_id_def)

locale tenant_fetch =
  fixes fetch :: "principal \<Rightarrow> 'r list \<Rightarrow> 'k \<Rightarrow> 'r result"
    and key :: "'r \<Rightarrow> 'k"
    and org :: "'r \<Rightarrow> uuid"
  assumes fetch_own:
      "r \<in> set rows \<Longrightarrow> distinct (map key rows) \<Longrightarrow> is_super_admin p \<or> org r = pr_org_id p
         \<Longrightarrow> fetch p rows (key r) = Inr r"
    and fetch_other:
      "(\<And>r. r \<in> set rows \<Longrightarrow> key r = k \<Longrightarrow> \<not> is_super_admin p \<and> org r \<noteq> pr_org_id p)
         \<Longrightarrow> fetch p rows k = fail forbidden"
begin

lemma fetch_Inr:
  assumes "fetch p rows k = Inr r" "distinct (map key rows)"
  shows "r \<in> set rows \<and> key r = k \<and> (is_super_admin p \<or> org r = pr_org_id p)"
proof (cases "\<exists>r' \<in> set rows. key r' = k \<and> (is_super_admin p \<or> org r' = pr_org_id p)")
  case True
  then obtain r' where r': "r' \<in> set rows" "key r' = k" "is_super_admin p \<or> org r' = pr_org_id p"
    by blast
  with fetch_own [of r' rows p] assms show ?thesis by auto
next
  case False
  then have "fetch p rows k = fail forbidden" by (intro fetch_other) blast
  with assms show ?thesis by (simp add: fail_def)
qed

lemma fetch_cases:
  assumes "distinct (map key rows)"
  shows "(\<exists>r \<in> set rows. key r = k \<and> (is_super_admin p \<or> org r = pr_org_id p) \<and> fetch p rows k = Inr r)
     \<or> fetch p rows k = fail forbidden"
  using fetch_own [OF _ assms, of _ p] fetch_other [of rows k p] by blast

text \<open>The answer is a function of the caller's own rows.\<close>

lemma fetch_own_rows:
  assumes "distinct (map key rows)" "\<not> is_super_admin p"
  shows "fetch p rows k = fetch p (filter (\<lambda>r. org r = pr_org_id p) rows) k"
proof (cases "\<exists>r \<in> set rows. key r = k \<and> org r = pr_org_id p")
  case True
  then obtain r where r: "r \<in> set rows" "key r = k" "org r = pr_org_id p" by blast
  have "distinct (map key (filter (\<lambda>r. org r = pr_org_id p) rows))"
    using assms by (simp add: distinct_map_filter)
  with r assms fetch_own [of r rows p] fetch_own [of r "filter (\<lambda>r. org r = pr_org_id p) rows" p]
  show ?thesis by simp
next
  case False
  with assms fetch_other [of rows k p] fetch_other [of "filter (\<lambda>r. org r = pr_org_id p) rows" k p]
  show ?thesis by fastforce
qed

end

interpretation ts: tenant_fetch "\<lambda>p rows k. scope_get p key org rows k" key org
  for key :: "'r \<Rightarrow> 'k" and org :: "'r \<Rightarrow> uuid"
proof unfold_locales
  show "scope_get p key org rows (key r) = Inr r"
    if "r \<in> set rows" "distinct (map key rows)" "is_super_admin p \<or> org r = pr_org_id p" for r rows p
    using that by (simp add: scope_get_def tbl_get_distinct)
  show "scope_get p key org rows k = fail forbidden"
    if "\<And>r. r \<in> set rows \<Longrightarrow> key r = k \<Longrightarrow> \<not> is_super_admin p \<and> org r \<noteq> pr_org_id p" for rows k p
    using that by (auto simp: scope_get_def dest: tbl_get_Some split: option.splits)
qed

lemma scope_get_Inr:
  "scope_get p key org rows k = Inr r \<Longrightarrow>
     r \<in> set rows \<and> key r = k \<and> tbl_get key rows k = Some r \<and> (is_super_admin p \<or> org r = pr_org_id p)"
  by (auto simp: scope_get_def fail_def dest: tbl_get_Some split: option.splits if_splits)

lemma scope_get_Inl: "scope_get p key org rows k = Inl e \<Longrightarrow> e = Raised forbidden"
  by (auto simp: scope_get_def fail_def split: option.splits if_splits)

section \<open>Properties\<close>

text \<open>C2. Tenant isolation as non-interference: for a caller who is no Super_Admin, two tables that
  agree on the caller's own rows give the same answer to every fetch by id and to every listing.
  Rows of other organizations can be added, changed or removed without the caller noticing.\<close>

theorem tenant_noninterference:
  assumes "\<not> is_super_admin p" "is_uuid (pr_org_id p)"
    and "distinct (map key rows)" "distinct (map key rows')"
    and "filter (\<lambda>r. org r = pr_org_id p) rows = filter (\<lambda>r. org r = pr_org_id p) rows'"
  shows "scope_get p key org rows k = scope_get p key org rows' k
    \<and> scope_select p org rows = scope_select p org rows'"
proof
  have "scope_get p key org rows k = scope_get p key org (filter (\<lambda>r. org r = pr_org_id p) rows) k"
    using assms by (intro ts.fetch_own_rows) simp_all
  also have "\<dots> = scope_get p key org rows' k"
    using assms ts.fetch_own_rows [of key rows' p org k] by simp
  finally show "scope_get p key org rows k = scope_get p key org rows' k" .
  show "scope_select p org rows = scope_select p org rows'"
    using assms by (simp add: scope_select_def scope_bypass_def coerce_canonical)
qed

theorem tenant_noninterference_witness:
  defines "o1 \<equiv> ''0123abcd-0123-4567-89ab-0123456789ab''"
  defines "p \<equiv> \<lparr>pr_user_id = ''u'', pr_org_id = o1, pr_role = ROLE_DEVICE_USER\<rparr>"
  shows "scope_get p fst snd [(1::nat, o1), (2, ''other'')] 2 = scope_get p fst snd [(1, o1)] 2
    \<and> scope_select p snd [(1::nat, o1), (2, ''other'')] = scope_select p snd [(1, o1)]"
proof -
  have a: "\<not> is_super_admin p"
    by (simp add: p_def is_super_admin_def ROLE_DEVICE_USER_def ROLE_SUPER_ADMIN_def)
  have b: "is_uuid (pr_org_id p)" unfolding p_def o1_def by code_simp
  show ?thesis
    by (rule tenant_noninterference [OF a b]) (simp_all add: p_def o1_def)
qed

text \<open>A fetch through the scope either returns the row with that id in the caller's organization
  (or in any, for a Super_Admin), or raises one and the same 403 whether the row is missing or
  belongs to somebody else; and it succeeds on exactly the rows a listing shows.\<close>

theorem tenant_get_exact:
  assumes "distinct (map key rows)" "is_uuid (pr_org_id p)"
  shows "(case scope_get p key org rows k of
       Inr r \<Rightarrow> r \<in> set (scope_select p org rows) \<and> key r = k
     | Inl e \<Rightarrow> e = Raised (AppError ''authorization_error'' 403)
         \<and> k \<notin> key ` set (scope_select p org rows))"
proof (cases "scope_get p key org rows k")
  case (Inl e)
  have "key r \<noteq> k" if "r \<in> set rows" "is_super_admin p \<or> org r = pr_org_id p" for r
    using ts.fetch_own [where r = r and rows = rows and key = key and org = org and p = p] that assms Inl
    by auto
  with Inl assms show ?thesis
    using scope_get_Inl [OF Inl]
    by (auto simp: scope_select_def scope_bypass_def coerce_canonical forbidden_def
        AuthorizationError_def)
next
  case (Inr r)
  with assms show ?thesis
    using scope_get_Inr [OF Inr] by (auto simp: scope_select_def scope_bypass_def coerce_canonical)
qed

theorem tenant_get_exact_witness:
  defines "o1 \<equiv> ''0123abcd-0123-4567-89ab-0123456789ab''"
  defines "p \<equiv> \<lparr>pr_user_id = ''u'', pr_org_id = o1, pr_role = ROLE_DEVICE_USER\<rparr>"
  shows "(case scope_get p fst snd [(1::nat, o1), (2, ''other'')] 2 of
       Inr r \<Rightarrow> r \<in> set (scope_select p snd [(1, o1), (2, ''other'')]) \<and> fst r = 2
     | Inl e \<Rightarrow> e = Raised (AppError ''authorization_error'' 403)
         \<and> 2 \<notin> fst ` set (scope_select p snd [(1::nat, o1), (2, ''other'')]))"
proof -
  have b: "is_uuid (pr_org_id p)" unfolding p_def o1_def by code_simp
  show ?thesis by (rule tenant_get_exact [OF _ b]) simp
qed

text \<open>Role checks and device checks decide exactly as documented: a Super_Admin always passes, an
  empty role list admits everyone, any other caller needs a listed role; a Device_User reaches a
  device only through an assignment row of that device and user, and a missing path parameter is
  refused for everybody.\<close>

theorem access_checks_exact:
  "(require_role roles p =
      (if is_super_admin p \<or> roles = [] \<or> pr_role p \<in> set roles then Inr p else fail forbidden))
   \<and> require_device_access asg p None = fail forbidden
   \<and> (require_device_access asg p (Some d) =
      (if is_device_user p \<and> \<not> (\<exists>a. a \<in> set asg \<and> parse_uuid d = Some (da_device_id a)
            \<and> parse_uuid (pr_user_id p) = Some (da_user_id a))
       then fail forbidden else Inr p))"
proof (intro conjI)
  have sa: "is_device_user p \<Longrightarrow> \<not> is_super_admin p"
    by (simp add: is_device_user_def is_super_admin_def ROLE_DEVICE_USER_def ROLE_SUPER_ADMIN_def)
  show "require_role roles p =
      (if is_super_admin p \<or> roles = [] \<or> pr_role p \<in> set roles then Inr p else fail forbidden)"
    by (simp add: require_role_def)
  show "require_device_access asg p None = fail forbidden"
    by (simp add: require_device_access_def)
  show "require_device_access asg p (Some d) =
      (if is_device_user p \<and> \<not> (\<exists>a. a \<in> set asg \<and> parse_uuid d = Some (da_device_id a)
            \<and> parse_uuid (pr_user_id p) = Some (da_user_id a))
       then fail forbidden else Inr p)"
    using sa
    by (auto simp: require_device_access_def user_has_device_access_def list_ex_iff
        split: option.splits)
qed

end
