(* ===== verification/Subscriptions.thy ===== *)
theory Subscriptions imports Calendar Access
begin

text \<open>
  The Razorpay subscription flow: \<open>app/services/subscription_service.py\<close>, the offline client of
  \<open>app/services/razorpay_client.py\<close> and the webhook route of \<open>app/api/v1/billing.py\<close>.  The
  state is the billing tables; every operation is the whole handler, with the row ids, tokens and
  clock readings it draws as arguments.  HMAC and the JSON decoder are parameters of the webhook.
  The e-mails sent on the side, whose failures the code swallows, are not modelled, and an order or
  payment id in an event that is no string matches no row.
\<close>

section \<open>Rows and tables\<close>

record coupon =
  cp_id :: uuid
  cp_code :: string
  cp_discount_type :: string
  cp_value :: rat
  cp_max_redemptions :: "int option"
  cp_redemptions :: int
  cp_valid_until :: "datetime option"
  cp_active :: bool

record subscription =
  sub_id :: uuid
  sub_org_id :: uuid
  sub_device_id :: "uuid option"
  sub_plan :: string
  sub_billing_cycle :: "string option"
  sub_device_count :: int
  sub_unit_price :: int
  sub_status :: "string option"
  sub_period_start :: "datetime option"
  sub_period_end :: "datetime option"
  sub_coupon_id :: "uuid option"
  sub_razorpay_id :: "string option"

record payment =
  pay_id :: uuid
  pay_org_id :: uuid
  pay_subscription_id :: "uuid option"
  pay_amount :: rat
  pay_currency :: string
  pay_status :: string
  pay_razorpay_payment_id :: "string option"
  pay_razorpay_order_id :: "string option"
  pay_paid_at :: "datetime option"
  pay_refunded_at :: "datetime option"

record org_row =
  row_id :: uuid
  row_org_id :: uuid

record notification =
  note_org_id :: uuid
  note_user_id :: uuid
  note_channel :: string
  note_title :: string

record billing =
  b_coupons :: "coupon list"
  b_subs :: "subscription list"
  b_pays :: "payment list"
  b_devices :: "org_row list"
  b_users :: "org_row list"
  b_notes :: "notification list"

abbreviation PAY_CREATED :: string where "PAY_CREATED \<equiv> ''created''"
abbreviation PAY_CAPTURED :: string where "PAY_CAPTURED \<equiv> ''captured''"
abbreviation PAY_FAILED :: string where "PAY_FAILED \<equiv> ''failed''"
abbreviation PAY_REFUNDED :: string where "PAY_REFUNDED \<equiv> ''refunded''"

definition REFUND_WINDOW_DAYS :: int where
  "REFUND_WINDOW_DAYS = 14"

section \<open>The Razorpay client\<close>

definition PAISE_PER_RUPEE :: int where
  "PAISE_PER_RUPEE = 100"

record rp_order =
  ord_id :: string
  ord_amount :: int
  ord_currency :: string
  ord_receipt :: "string option"
  ord_status :: string

record rp_refund =
  rf_id :: string
  rf_payment_id :: string
  rf_amount :: int
  rf_currency :: string
  rf_status :: string

definition create_order :: "string \<Rightarrow> int \<Rightarrow> string \<Rightarrow> string option \<Rightarrow> rp_order result" where
  "create_order token amount currency receipt =
     (if amount \<le> 0 then Inl ValueError
      else Inr \<lparr>ord_id = ''order_'' @ token, ord_amount = amount, ord_currency = currency,
                ord_receipt = receipt, ord_status = ''created''\<rparr>)"

definition create_refund :: "string \<Rightarrow> string \<Rightarrow> int \<Rightarrow> string \<Rightarrow> rp_refund result" where
  "create_refund token payment_id amount currency =
     (if amount \<le> 0 then Inl ValueError
      else if payment_id = [] then Inl ValueError
      else Inr \<lparr>rf_id = ''rfnd_'' @ token, rf_payment_id = payment_id, rf_amount = amount,
                rf_currency = currency, rf_status = ''processed''\<rparr>)"

definition verify_webhook_signature ::
  "(string \<Rightarrow> string \<Rightarrow> string) \<Rightarrow> string \<Rightarrow> string option \<Rightarrow> string option \<Rightarrow> bool" where
  "verify_webhook_signature hmac_hex body signature secret =
     (case (signature, secret) of
        (Some sg, Some sec) \<Rightarrow> if sg = [] \<or> sec = [] then False else hmac_hex sec body = sg
      | _ \<Rightarrow> False)"

section \<open>Coupons\<close>

definition apply_coupon_discount :: "int \<Rightarrow> coupon option \<Rightarrow> int" where
  "apply_coupon_discount gross cpn =
     (case cpn of
        None \<Rightarrow> gross
      | Some c \<Rightarrow>
          if cp_discount_type c = ''percent''
          then max 0 (py_round (of_int gross - of_int gross * cp_value c / 100))
          else if cp_discount_type c = ''fixed''
          then max 0 (py_round (of_int gross - cp_value c))
          else gross)"

definition resolve_coupon :: "coupon list \<Rightarrow> datetime \<Rightarrow> string option \<Rightarrow> coupon option result" where
  "resolve_coupon coupons now code =
     (case code of
        None \<Rightarrow> Inr None
      | Some cd \<Rightarrow>
          if cd = [] then Inr None
          else (case tbl_get cp_code coupons cd of
              None \<Rightarrow> fail (NotFoundError ''coupon_not_found'')
            | Some c \<Rightarrow>
                if \<not> cp_active c then fail (ValidationError ''coupon_inactive'')
                else if (case cp_valid_until c of None \<Rightarrow> False | Some v \<Rightarrow> v < now)
                then fail (ValidationError ''coupon_expired'')
                else if (case cp_max_redemptions c of None \<Rightarrow> False | Some m \<Rightarrow> m \<le> cp_redemptions c)
                then fail (ValidationError ''coupon_exhausted'')
                else Inr (Some c)))"

section \<open>Subscribe\<close>

record fresh_ids =
  fr_sub_id :: uuid
  fr_pay_id :: uuid
  fr_token :: string

record subscribe_out =
  so_subscription_id :: uuid
  so_order :: rp_order
  so_unit_price :: int
  so_gross_total :: int
  so_amount_due :: int
  so_coupon_applied :: "string option"

definition check_device :: "principal \<Rightarrow> org_row list \<Rightarrow> uuid option \<Rightarrow> unit result" where
  "check_device p devices device_id =
     (case device_id of
        None \<Rightarrow> Inr ()
      | Some d \<Rightarrow> bind_res (scope_get p row_id row_org_id devices d) (\<lambda>_. Inr ()))"

definition org_uuid_of :: "principal \<Rightarrow> uuid result" where
  "org_uuid_of p = (case parse_uuid (pr_org_id p) of None \<Rightarrow> Inl ValueError | Some u \<Rightarrow> Inr u)"

definition subscribe ::
  "principal \<Rightarrow> fresh_ids \<Rightarrow> datetime \<Rightarrow> int \<Rightarrow> string \<Rightarrow> uuid option \<Rightarrow> string option
     \<Rightarrow> billing \<Rightarrow> (subscribe_out \<times> billing) result" where
  "subscribe p fr now device_count billing_cycle device_id coupon_code db =
     bind_res (normalize_cycle (JStr billing_cycle)) (\<lambda>cycle.
     bind_res (unit_price (JInt device_count) (JStr cycle)) (\<lambda>per_device.
     let gross_total = device_count * per_device in
     bind_res (check_device p (b_devices db) device_id) (\<lambda>_.
     bind_res (resolve_coupon (b_coupons db) now coupon_code) (\<lambda>cpn.
     let net_total = apply_coupon_discount gross_total cpn in
     bind_res (org_uuid_of p) (\<lambda>org_uuid.
     let sub = \<lparr>sub_id = fr_sub_id fr, sub_org_id = org_uuid, sub_device_id = device_id,
                sub_plan = PRO_PLAN, sub_billing_cycle = Some cycle,
                sub_device_count = device_count, sub_unit_price = per_device,
                sub_status = Some ''created'', sub_period_start = None, sub_period_end = None,
                sub_coupon_id = map_option cp_id cpn, sub_razorpay_id = None\<rparr> in
     bind_res (insert_row sub_id sub (b_subs db)) (\<lambda>_.
     bind_res (create_order (fr_token fr) (net_total * PAISE_PER_RUPEE) ''INR''
                 (Some (''sub_'' @ fr_sub_id fr))) (\<lambda>order.
     let pay = \<lparr>pay_id = fr_pay_id fr, pay_org_id = org_uuid,
                pay_subscription_id = Some (sub_id sub), pay_amount = of_int net_total,
                pay_currency = ord_currency order, pay_status = PAY_CREATED,
                pay_razorpay_payment_id = None, pay_razorpay_order_id = Some (ord_id order),
                pay_paid_at = None, pay_refunded_at = None\<rparr> in
     bind_res (insert_row sub_id (sub\<lparr>sub_razorpay_id := Some (ord_id order)\<rparr>) (b_subs db)) (\<lambda>subs'.
     bind_res (insert_row pay_id pay (b_pays db)) (\<lambda>pays'.
       Inr (\<lparr>so_subscription_id = sub_id sub, so_order = order, so_unit_price = per_device,
             so_gross_total = gross_total, so_amount_due = net_total,
             so_coupon_applied = map_option cp_code cpn\<rparr>,
            db\<lparr>b_subs := subs', b_pays := pays'\<rparr>))))))))))"

section \<open>Refund\<close>

definition within_refund_window :: "datetime \<Rightarrow> datetime \<Rightarrow> bool" where
  "within_refund_window paid_at requested_at =
     (instant requested_at \<le> instant paid_at + REFUND_WINDOW_DAYS * usec_per_day)"

definition refund ::
  "principal \<Rightarrow> string \<Rightarrow> datetime \<Rightarrow> uuid \<Rightarrow> billing \<Rightarrow> (rp_refund \<times> billing) result" where
  "refund p token requested_at payment_id db =
     bind_res (scope_get p pay_id pay_org_id (b_pays db) payment_id) (\<lambda>pay.
     bind_res (guard_res (pay_status pay = PAY_REFUNDED) (ValidationError ''already_refunded'')) (\<lambda>_.
     bind_res (guard_res (pay_status pay \<noteq> PAY_CAPTURED) (ValidationError ''payment_not_refundable''))
       (\<lambda>_.
     case pay_paid_at pay of
       None \<Rightarrow> fail (ValidationError ''payment_not_refundable'')
     | Some paid_at \<Rightarrow>
         if \<not> within_refund_window paid_at requested_at
         then fail (ValidationError ''refund_window_elapsed'')
         else (case pay_razorpay_payment_id pay of
             None \<Rightarrow> fail (ValidationError ''payment_not_refundable'')
           | Some rp_id \<Rightarrow>
               if rp_id = [] then fail (ValidationError ''payment_not_refundable'')
               else
                 bind_res (create_refund token rp_id (py_int (pay_amount pay) * PAISE_PER_RUPEE)
                     (if pay_currency pay = [] then ''INR'' else pay_currency pay)) (\<lambda>rf.
                   Inr (rf, db\<lparr>b_pays := tbl_put pay_id
                     (pay\<lparr>pay_status := PAY_REFUNDED, pay_refunded_at := Some requested_at\<rparr>)
                     (b_pays db)\<rparr>))))))"

section \<open>Webhook\<close>

definition extract_payment_entity :: "(string \<times> json) list \<Rightarrow> (string \<times> json) list result" where
  "extract_payment_entity event =
     bind_res (sub_dict event ''payload'') (\<lambda>payload.
     bind_res (sub_dict payload ''payment'') (\<lambda>pay.
       sub_dict pay ''entity''))"

definition find_by :: "('r \<Rightarrow> string option) \<Rightarrow> 'r list \<Rightarrow> json \<Rightarrow> 'r option" where
  "find_by col rows v =
     (if truthy v then find (\<lambda>r. as_str v \<noteq> None \<and> col r = as_str v) rows else None)"

definition find_payment :: "payment list \<Rightarrow> json \<Rightarrow> json \<Rightarrow> payment option" where
  "find_payment pays order_id payment_id =
     (case find_by pay_razorpay_order_id pays order_id of
        Some pay \<Rightarrow> Some pay
      | None \<Rightarrow> find_by pay_razorpay_payment_id pays payment_id)"

definition notify_org :: "uuid \<Rightarrow> string \<Rightarrow> billing \<Rightarrow> billing" where
  "notify_org org_id title db =
     db\<lparr>b_notes := b_notes db @
       map (\<lambda>u. \<lparr>note_org_id = org_id, note_user_id = row_id u, note_channel = ''in_app'',
                 note_title = title\<rparr>)
         (filter (\<lambda>u. row_org_id u = org_id) (b_users db))\<rparr>"

text \<open>The subscription side of a capture: extend from the later of now and the current end.\<close>

definition extend_subscription :: "datetime \<Rightarrow> subscription \<Rightarrow> subscription result" where
  "extend_subscription now sub =
     (let base = (case sub_period_end sub of
            Some e \<Rightarrow> if e > now then e else now
          | None \<Rightarrow> now);
          start = (case sub_period_start sub of None \<Rightarrow> now | Some s \<Rightarrow> s);
          cycle = (case sub_billing_cycle sub of
            None \<Rightarrow> CYCLE_MONTHLY
          | Some c \<Rightarrow> if c = [] then CYCLE_MONTHLY else c)
      in bind_res (add_period base cycle) (\<lambda>period_end.
           Inr (sub\<lparr>sub_period_start := Some start, sub_period_end := Some period_end,
                    sub_status := Some ''active''\<rparr>)))"

definition handle_capture ::
  "datetime \<Rightarrow> datetime \<Rightarrow> payment \<Rightarrow> subscription option \<Rightarrow> json \<Rightarrow> billing \<Rightarrow> billing result" where
  "handle_capture t_paid now pay sub rp_payment_id db =
     (if pay_status pay = PAY_CAPTURED then Inr db
      else
        (let pay' = pay\<lparr>pay_status := PAY_CAPTURED, pay_paid_at := Some t_paid,
               pay_razorpay_payment_id :=
                 (if truthy rp_payment_id then as_str rp_payment_id
                  else pay_razorpay_payment_id pay)\<rparr>;
             db' = db\<lparr>b_pays := tbl_put pay_id pay' (b_pays db)\<rparr>
         in (case sub of
               None \<Rightarrow> Inr db'
             | Some s \<Rightarrow>
                 bind_res (extend_subscription now s) (\<lambda>s'.
                   Inr (db'\<lparr>b_subs := tbl_put sub_id s' (b_subs db')\<rparr>)))))"

definition handle_failure :: "payment \<Rightarrow> billing \<Rightarrow> billing" where
  "handle_failure pay db =
     (if pay_status pay = PAY_CAPTURED then db
      else notify_org (pay_org_id pay) ''Payment failed''
             (db\<lparr>b_pays := tbl_put pay_id (pay\<lparr>pay_status := PAY_FAILED\<rparr>) (b_pays db)\<rparr>))"

definition process_webhook_event ::
  "datetime \<Rightarrow> datetime \<Rightarrow> (string \<times> json) list \<Rightarrow> billing \<Rightarrow> (string \<times> billing) result" where
  "process_webhook_event t_paid now event db =
     (let event_type = dict_get event ''event'' in
      bind_res (extract_payment_entity event) (\<lambda>entity.
        let order_id = dict_get entity ''order_id'';
            rp_payment_id = dict_get entity ''id'' in
        if event_type \<noteq> JStr ''payment.captured'' \<and> event_type \<noteq> JStr ''payment.failed''
        then Inr (''ignored'', db)
        else (case find_payment (b_pays db) order_id rp_payment_id of
            None \<Rightarrow> Inr (''unmatched'', db)
          | Some pay \<Rightarrow>
              (let sub = (case pay_subscription_id pay of
                     None \<Rightarrow> None
                   | Some sid \<Rightarrow> tbl_get sub_id (b_subs db) sid)
               in if event_type = JStr ''payment.captured''
                  then bind_res (handle_capture t_paid now pay sub rp_payment_id db) (\<lambda>db'.
                         Inr (''captured'', db'))
                  else Inr (''failed'', handle_failure pay db)))))"

definition post_webhook ::
  "(string \<Rightarrow> string \<Rightarrow> string) \<Rightarrow> (string \<Rightarrow> json option) \<Rightarrow> string option \<Rightarrow> datetime \<Rightarrow> datetime
     \<Rightarrow> string \<Rightarrow> string option \<Rightarrow> billing \<Rightarrow> (string \<times> billing) result" where
  "post_webhook hmac_hex loads secret t_paid now raw_body signature db =
     (if \<not> verify_webhook_signature hmac_hex raw_body signature secret
      then fail (AuthenticationError ''invalid_signature'')
      else (case loads raw_body of
          None \<Rightarrow> fail (ValidationError ''validation_error'')
        | Some v \<Rightarrow> (case as_dict v of
            None \<Rightarrow> fail (ValidationError ''validation_error'')
          | Some event \<Rightarrow> process_webhook_event t_paid now event db)))"

section \<open>The billing system and its invariant\<close>

datatype billing_op =
    Op_subscribe principal fresh_ids datetime int string "uuid option" "string option"
  | Op_refund principal string datetime uuid
  | Op_event datetime datetime "(string \<times> json) list"

fun billing_step :: "billing_op \<Rightarrow> billing \<Rightarrow> billing" where
  "billing_step (Op_subscribe p fr now n cycle dev code) = commit (subscribe p fr now n cycle dev code)"
| "billing_step (Op_refund p token now k) = commit (refund p token now k)"
| "billing_step (Op_event t_paid now event) = commit (process_webhook_event t_paid now event)"

fun billing_op_ok :: "billing_op \<Rightarrow> bool" where
  "billing_op_ok (Op_subscribe p fr now n cycle dev code) = valid_datetime now"
| "billing_op_ok (Op_refund p token now k) = valid_datetime now"
| "billing_op_ok (Op_event t_paid now event) = (valid_datetime t_paid \<and> valid_datetime now)"

definition pay_ok :: "payment \<Rightarrow> bool" where
  "pay_ok x = (0 < pay_amount x
     \<and> pay_status x \<in> {PAY_CREATED, PAY_CAPTURED, PAY_FAILED, PAY_REFUNDED}
     \<and> (pay_status x \<in> {PAY_CAPTURED, PAY_REFUNDED} \<longrightarrow> pay_paid_at x \<noteq> None)
     \<and> (pay_status x = PAY_REFUNDED \<longrightarrow> pay_refunded_at x \<noteq> None)
     \<and> (pay_status x = PAY_CREATED \<longrightarrow> pay_paid_at x = None \<and> pay_refunded_at x = None))"

definition sub_ok :: "subscription \<Rightarrow> bool" where
  "sub_ok s = (sub_plan s = PRO_PLAN
     \<and> sub_billing_cycle s \<in> {Some CYCLE_MONTHLY, Some CYCLE_YEARLY}
     \<and> (case (sub_period_start s, sub_period_end s) of
          (None, None) \<Rightarrow> sub_status s = Some ''created''
        | (Some a, Some b) \<Rightarrow> sub_status s = Some ''active'' \<and> valid_datetime b \<and> a < b
        | _ \<Rightarrow> False))"

definition billing_ok :: "billing \<Rightarrow> bool" where
  "billing_ok db = (distinct (map pay_id (b_pays db)) \<and> distinct (map sub_id (b_subs db))
     \<and> (\<forall>x \<in> set (b_pays db). pay_ok x) \<and> (\<forall>s \<in> set (b_subs db). sub_ok s))"

definition payment_status :: "billing \<Rightarrow> uuid \<Rightarrow> string option" where
  "payment_status db k = map_option pay_status (tbl_get pay_id (b_pays db) k)"

text \<open>The transitions of a payment's status.\<close>

inductive pay_moves :: "string option \<Rightarrow> string option \<Rightarrow> bool" where
  order: "pay_moves None (Some PAY_CREATED)"
| capture: "st \<noteq> PAY_CAPTURED \<Longrightarrow> pay_moves (Some st) (Some PAY_CAPTURED)"
| failure: "st \<noteq> PAY_CAPTURED \<Longrightarrow> pay_moves (Some st) (Some PAY_FAILED)"
| refunded: "pay_moves (Some PAY_CAPTURED) (Some PAY_REFUNDED)"

inductive_simps pay_moves_simps: "pay_moves x (Some st)" "pay_moves x None"

section \<open>Lemmas\<close>

lemma coupon_bounds:
  assumes "0 \<le> gross" "cp_value c \<ge> 0"
  shows "0 \<le> apply_coupon_discount gross (Some c) \<and> apply_coupon_discount gross (Some c) \<le> gross"
proof -
  have "0 \<le> of_int gross * cp_value c / 100" using assms by simp
  then have "py_round (of_int gross - of_int gross * cp_value c / 100) \<le> gross"
    by (intro py_round_mono_int) simp
  moreover have "py_round (of_int gross - cp_value c) \<le> gross"
    using assms by (intro py_round_mono_int) simp
  ultimately show ?thesis using assms by (simp add: apply_coupon_discount_def)
qed

lemma resolve_coupon_Inr:
  "resolve_coupon coupons now code = Inr (Some c) \<Longrightarrow>
     tbl_get cp_code coupons (cp_code c) = Some c \<and> cp_active c
     \<and> code = Some (cp_code c) \<and> cp_code c \<noteq> []
     \<and> (\<forall>v. cp_valid_until c = Some v \<longrightarrow> now \<le> v)
     \<and> (\<forall>m. cp_max_redemptions c = Some m \<longrightarrow> cp_redemptions c < m)"
  by (auto simp: resolve_coupon_def fail_def dest: tbl_get_Some split: option.splits if_splits)

lemma create_order_Inr:
  "create_order token amount currency receipt = Inr ord \<longleftrightarrow>
     0 < amount \<and> ord = \<lparr>ord_id = ''order_'' @ token, ord_amount = amount, ord_currency = currency,
       ord_receipt = receipt, ord_status = ''created''\<rparr>"
  by (auto simp: create_order_def)

lemma create_refund_Inr:
  "create_refund token rp amount currency = Inr rf \<longleftrightarrow>
     0 < amount \<and> rp \<noteq> [] \<and> rf = \<lparr>rf_id = ''rfnd_'' @ token, rf_payment_id = rp, rf_amount = amount,
       rf_currency = currency, rf_status = ''processed''\<rparr>"
  by (auto simp: create_refund_def)

text \<open>What a successful subscribe does, in full.\<close>

definition subscribed_rows ::
  "uuid \<Rightarrow> fresh_ids \<Rightarrow> string \<Rightarrow> int \<Rightarrow> int \<Rightarrow> uuid option \<Rightarrow> coupon option
     \<Rightarrow> subscription \<times> payment" where
  "subscribed_rows org fr cycle n per_device dev cpn =
     (let net = apply_coupon_discount (n * per_device) cpn in
      (\<lparr>sub_id = fr_sub_id fr, sub_org_id = org, sub_device_id = dev, sub_plan = PRO_PLAN,
        sub_billing_cycle = Some cycle, sub_device_count = n, sub_unit_price = per_device,
        sub_status = Some ''created'', sub_period_start = None, sub_period_end = None,
        sub_coupon_id = map_option cp_id cpn,
        sub_razorpay_id = Some (''order_'' @ fr_token fr)\<rparr>,
       \<lparr>pay_id = fr_pay_id fr, pay_org_id = org, pay_subscription_id = Some (fr_sub_id fr),
        pay_amount = of_int net, pay_currency = ''INR'', pay_status = PAY_CREATED,
        pay_razorpay_payment_id = None, pay_razorpay_order_id = Some (''order_'' @ fr_token fr),
        pay_paid_at = None, pay_refunded_at = None\<rparr>))"

lemma subscribe_effect:
  assumes "subscribe p fr now n cyc dev code db = Inr (out, db')"
  obtains cycle per cpn org where
    "normalize_cycle (JStr cyc) = Inr cycle" "unit_price (JInt n) (JStr cyc) = Inr per" "1 \<le> n"
    "resolve_coupon (b_coupons db) now code = Inr cpn" "parse_uuid (pr_org_id p) = Some org"
    "fr_sub_id fr \<notin> sub_id ` set (b_subs db)" "fr_pay_id fr \<notin> pay_id ` set (b_pays db)"
    "0 < apply_coupon_discount (n * per) cpn"
    "so_unit_price out = per" "so_amount_due out = apply_coupon_discount (n * per) cpn"
    "ord_amount (so_order out) = so_amount_due out * PAISE_PER_RUPEE"
    "db' = db\<lparr>b_subs := b_subs db @ [fst (subscribed_rows org fr cycle n per dev cpn)],
              b_pays := b_pays db @ [snd (subscribed_rows org fr cycle n per dev cpn)]\<rparr>"
proof -
  obtain cycle where cycle: "normalize_cycle (JStr cyc) = Inr cycle"
    using assms by (auto simp: subscribe_def bind_res_eq_Inr)
  obtain per where per: "unit_price (JInt n) (JStr cycle) = Inr per"
    using assms by (cases "unit_price (JInt n) (JStr cycle)") (simp_all add: subscribe_def cycle)
  then have n: "1 \<le> n" by (auto simp: unit_price_def bind_res_eq_Inr validate_device_count_Inr)
  have per': "unit_price (JInt n) (JStr cyc) = Inr per"
    using per n cycle normalize_cycle_again [OF cycle] by (simp add: unit_price_Inr)
  have dv: "check_device p (b_devices db) dev = Inr ()"
    using assms by (cases "check_device p (b_devices db) dev")
      (simp_all add: subscribe_def cycle per Let_def)
  obtain cpn where cpn: "resolve_coupon (b_coupons db) now code = Inr cpn"
    using assms by (cases "resolve_coupon (b_coupons db) now code")
      (simp_all add: subscribe_def cycle per dv Let_def)
  obtain org where org: "org_uuid_of p = Inr org"
    using assms by (cases "org_uuid_of p") (simp_all add: subscribe_def cycle per dv cpn Let_def)
  then have org': "parse_uuid (pr_org_id p) = Some org"
    by (simp add: org_uuid_of_def split: option.splits)
  note eqs = subscribe_def cycle per dv cpn org Let_def
  have sid: "fr_sub_id fr \<notin> sub_id ` set (b_subs db)"
    using assms by (intro notI) (simp add: eqs insert_row_def)
  have pid: "fr_pay_id fr \<notin> pay_id ` set (b_pays db)"
    using assms sid by (intro notI) (simp add: eqs insert_row_def create_order_def split: if_splits)
  have pos: "0 < apply_coupon_discount (n * per) cpn"
    using assms sid pid
    by (simp add: eqs insert_row_def create_order_def PAISE_PER_RUPEE_def split: if_splits)
  have eq: "out = \<lparr>so_subscription_id = fr_sub_id fr,
        so_order = \<lparr>ord_id = ''order_'' @ fr_token fr,
          ord_amount = apply_coupon_discount (n * per) cpn * PAISE_PER_RUPEE, ord_currency = ''INR'',
          ord_receipt = Some (''sub_'' @ fr_sub_id fr), ord_status = ''created''\<rparr>,
        so_unit_price = per, so_gross_total = n * per,
        so_amount_due = apply_coupon_discount (n * per) cpn,
        so_coupon_applied = map_option cp_code cpn\<rparr>
     \<and> db' = db\<lparr>b_subs := b_subs db @ [fst (subscribed_rows org fr cycle n per dev cpn)],
              b_pays := b_pays db @ [snd (subscribed_rows org fr cycle n per dev cpn)]\<rparr>"
    using assms sid pid pos
    by (simp add: eqs insert_row_def create_order_def PAISE_PER_RUPEE_def subscribed_rows_def)
  show thesis
    by (rule that [OF cycle per' n cpn org' sid pid pos]) (simp_all add: eq)
qed

lemma refund_Inr:
  "refund p token now k db = Inr (rf, db') \<longleftrightarrow>
     (\<exists>pay paid rp. scope_get p pay_id pay_org_id (b_pays db) k = Inr pay
        \<and> pay_status pay = PAY_CAPTURED \<and> pay_paid_at pay = Some paid
        \<and> within_refund_window paid now \<and> pay_razorpay_payment_id pay = Some rp \<and> rp \<noteq> []
        \<and> 0 < py_int (pay_amount pay)
        \<and> rf = \<lparr>rf_id = ''rfnd_'' @ token, rf_payment_id = rp,
                rf_amount = py_int (pay_amount pay) * PAISE_PER_RUPEE,
                rf_currency = (if pay_currency pay = [] then ''INR'' else pay_currency pay),
                rf_status = ''processed''\<rparr>
        \<and> db' = db\<lparr>b_pays := tbl_put pay_id
             (pay\<lparr>pay_status := PAY_REFUNDED, pay_refunded_at := Some now\<rparr>) (b_pays db)\<rparr>)"
proof (cases "scope_get p pay_id pay_org_id (b_pays db) k")
  case (Inl e)
  then show ?thesis by (simp add: refund_def)
next
  case (Inr pay)
  show ?thesis
  proof (cases "pay_status pay = PAY_CAPTURED \<and> pay_paid_at pay \<noteq> None \<and> pay_razorpay_payment_id pay \<noteq> None")
    case False
    then show ?thesis
      by (auto simp: refund_def Inr guard_res_def fail_def split: option.splits)
  next
    case True
    then obtain paid rp where eqs: "pay_status pay = PAY_CAPTURED" "pay_paid_at pay = Some paid"
      "pay_razorpay_payment_id pay = Some rp" by auto
    show ?thesis
      by (simp add: refund_def Inr eqs create_refund_def PAISE_PER_RUPEE_def fail_def) blast
  qed
qed

lemma find_payment_mem: "find_payment pays o_id p_id = Some pay \<Longrightarrow> pay \<in> set pays"
  by (auto simp: find_payment_def find_by_def find_Some_iff split: option.splits if_splits)

lemma extend_subscription_ok:
  assumes "sub_ok s" "valid_datetime now" "extend_subscription now s = Inr s'"
  shows "sub_ok s' \<and> sub_id s' = sub_id s"
proof -
  define base where "base = (case sub_period_end s of Some e \<Rightarrow> if e > now then e else now | None \<Rightarrow> now)"
  define start where "start = (case sub_period_start s of None \<Rightarrow> now | Some a \<Rightarrow> a)"
  obtain c where c: "sub_billing_cycle s = Some c" "c = CYCLE_MONTHLY \<or> c = CYCLE_YEARLY"
    using assms by (auto simp: sub_ok_def)
  then have "c \<noteq> []" by (auto simp: CYCLE_MONTHLY_def CYCLE_YEARLY_def)
  with assms c obtain e where e: "add_period base c = Inr e"
    and s': "s' = s\<lparr>sub_period_start := Some start, sub_period_end := Some e, sub_status := Some ''active''\<rparr>"
    by (auto simp: extend_subscription_def bind_res_eq_Inr Let_def base_def start_def)
  have "valid_datetime base"
    using assms by (auto simp: base_def sub_ok_def split: option.splits)
  from add_period_later [OF this e] have "valid_datetime e" "base < e" by auto
  moreover have "start \<le> base"
    using assms by (auto simp: base_def start_def sub_ok_def split: option.splits)
  ultimately show ?thesis using assms c by (auto simp: s' sub_ok_def)
qed

text \<open>The payment row a capture writes.\<close>

definition captured_payment :: "datetime \<Rightarrow> json \<Rightarrow> payment \<Rightarrow> payment" where
  "captured_payment t_paid rp pay =
     pay\<lparr>pay_status := PAY_CAPTURED, pay_paid_at := Some t_paid,
         pay_razorpay_payment_id :=
           (if truthy rp then as_str rp else pay_razorpay_payment_id pay)\<rparr>"

lemma captured_payment_simps [simp]:
  "pay_id (captured_payment t rp pay) = pay_id pay"
  "pay_status (captured_payment t rp pay) = PAY_CAPTURED"
  "pay_razorpay_order_id (captured_payment t rp pay) = pay_razorpay_order_id pay"
  "pay_subscription_id (captured_payment t rp pay) = pay_subscription_id pay"
  by (simp_all add: captured_payment_def)

lemma handle_capture_Inr:
  assumes "handle_capture t_paid now pay sub rp db = Inr db'"
  obtains (dup) "pay_status pay = PAY_CAPTURED" "db' = db"
  | (loose) "pay_status pay \<noteq> PAY_CAPTURED" "sub = None"
      "db' = db\<lparr>b_pays := tbl_put pay_id (captured_payment t_paid rp pay) (b_pays db)\<rparr>"
  | (extend) s s' where "pay_status pay \<noteq> PAY_CAPTURED" "sub = Some s"
      "extend_subscription now s = Inr s'"
      "db' = db\<lparr>b_pays := tbl_put pay_id (captured_payment t_paid rp pay) (b_pays db),
               b_subs := tbl_put sub_id s' (b_subs db)\<rparr>"
  using assms
  by (cases "pay_status pay = PAY_CAPTURED"; cases sub)
    (auto simp: handle_capture_def Let_def bind_res_eq_Inr captured_payment_def)

lemma event_Inr:
  assumes "process_webhook_event t_paid now event db = Inr (out, db')"
  obtains (same) "db' = db"
  | (captured) pay rp sub where "pay \<in> set (b_pays db)"
      "sub = Option.bind (pay_subscription_id pay) (tbl_get sub_id (b_subs db))"
      "handle_capture t_paid now pay sub rp db = Inr db'"
  | (failed) pay where "pay \<in> set (b_pays db)" "db' = handle_failure pay db"
proof -
  obtain entity where entity: "extract_payment_entity event = Inr entity"
    using assms by (cases "extract_payment_entity event") (simp_all add: process_webhook_event_def)
  show thesis
  proof (cases "find_payment (b_pays db) (dict_get entity ''order_id'') (dict_get entity ''id'')")
    case None
    with assms entity show ?thesis
      by (intro same) (simp add: process_webhook_event_def Let_def split: if_splits)
  next
    case (Some pay)
    note mem = find_payment_mem [OF Some]
    from assms entity Some show ?thesis
      by (cases "pay_subscription_id pay")
        (auto simp: process_webhook_event_def Let_def bind_res_eq_Inr split: if_splits
          intro: same failed [OF mem] captured [OF mem])
  qed
qed

lemma handle_failure_simps:
  "b_subs (handle_failure pay db) = b_subs db"
  "b_pays (handle_failure pay db) =
     (if pay_status pay = PAY_CAPTURED then b_pays db
      else tbl_put pay_id (pay\<lparr>pay_status := PAY_FAILED\<rparr>) (b_pays db))"
  by (simp_all add: handle_failure_def notify_org_def)

section \<open>The invariant is preserved\<close>

lemma pay_ok_captured: "pay_ok pay \<Longrightarrow> pay_ok (captured_payment t rp pay)"
  by (auto simp: pay_ok_def captured_payment_def)

lemma pay_ok_failed: "pay_ok pay \<Longrightarrow> pay_ok (pay\<lparr>pay_status := PAY_FAILED\<rparr>)"
  by (auto simp: pay_ok_def)

lemma billing_ok_pay:
  "billing_ok db \<Longrightarrow> pay_ok pay \<Longrightarrow> billing_ok (db\<lparr>b_pays := tbl_put pay_id pay (b_pays db)\<rparr>)"
  by (auto simp: billing_ok_def dest: in_set_tbl_put)

lemma billing_ok_sub:
  "billing_ok db \<Longrightarrow> sub_ok s \<Longrightarrow> billing_ok (db\<lparr>b_subs := tbl_put sub_id s (b_subs db)\<rparr>)"
  by (auto simp: billing_ok_def dest: in_set_tbl_put)

lemma billing_ok_notify: "billing_ok db \<Longrightarrow> billing_ok (notify_org o_id t db)"
  by (simp add: billing_ok_def notify_org_def)

lemma subscribed_rows_ok:
  assumes "normalize_cycle (JStr c) = Inr cycle" "0 < apply_coupon_discount (n * per) cpn"
  shows "sub_ok (fst (subscribed_rows org fr cycle n per dev cpn))"
    and "pay_ok (snd (subscribed_rows org fr cycle n per dev cpn))"
    and "sub_id (fst (subscribed_rows org fr cycle n per dev cpn)) = fr_sub_id fr"
    and "pay_id (snd (subscribed_rows org fr cycle n per dev cpn)) = fr_pay_id fr"
    and "pay_status (snd (subscribed_rows org fr cycle n per dev cpn)) = PAY_CREATED"
  using assms normalize_cycle_Inr [OF assms(1)]
  by (auto simp: subscribed_rows_def Let_def sub_ok_def pay_ok_def)

lemma billing_ok_subscribe [inv_intros]:
  assumes "billing_ok db" "subscribe p fr now n cyc dev code db = Inr (out, db')"
  shows "billing_ok db'"
  using assms(2)
proof (rule subscribe_effect)
  fix cycle per cpn org
  assume a: "normalize_cycle (JStr cyc) = Inr cycle" "0 < apply_coupon_discount (n * per) cpn"
    "fr_sub_id fr \<notin> sub_id ` set (b_subs db)" "fr_pay_id fr \<notin> pay_id ` set (b_pays db)"
    "db' = db\<lparr>b_subs := b_subs db @ [fst (subscribed_rows org fr cycle n per dev cpn)],
              b_pays := b_pays db @ [snd (subscribed_rows org fr cycle n per dev cpn)]\<rparr>"
  with assms(1) subscribed_rows_ok [OF a(1,2), of org fr dev] show ?thesis
    by (simp add: billing_ok_def)
qed

lemma billing_ok_refund [inv_intros]:
  assumes "billing_ok db" "refund p token now k db = Inr (rf, db')"
  shows "billing_ok db'"
proof -
  obtain pay where pay: "scope_get p pay_id pay_org_id (b_pays db) k = Inr pay"
    "pay_status pay = PAY_CAPTURED"
    "db' = db\<lparr>b_pays := tbl_put pay_id
       (pay\<lparr>pay_status := PAY_REFUNDED, pay_refunded_at := Some now\<rparr>) (b_pays db)\<rparr>"
    using assms(2) unfolding refund_Inr by blast
  then have "pay_ok pay" using assms(1) scope_get_Inr [OF pay(1)] by (auto simp: billing_ok_def)
  with pay(2) have "pay_ok (pay\<lparr>pay_status := PAY_REFUNDED, pay_refunded_at := Some now\<rparr>)"
    by (auto simp: pay_ok_def)
  with assms(1) pay(3) show ?thesis by (simp add: billing_ok_pay)
qed

lemma billing_ok_event [inv_intros]:
  assumes ok: "billing_ok db" and now: "valid_datetime now"
    and ev: "process_webhook_event t_paid now event db = Inr (out, db')"
  shows "billing_ok db'"
  using ev
proof (cases rule: event_Inr)
  case same
  with ok show ?thesis by simp
next
  case (captured pay rp sub)
  have pay: "pay_ok (captured_payment t_paid rp pay)"
    using ok captured(1) by (intro pay_ok_captured) (simp add: billing_ok_def)
  from captured(3) show ?thesis
  proof (cases rule: handle_capture_Inr)
    case dup
    with ok show ?thesis by simp
  next
    case loose
    with ok pay show ?thesis by (simp add: billing_ok_pay)
  next
    case (extend s s')
    then have "s \<in> set (b_subs db)" using captured(2)
      by (cases "pay_subscription_id pay") (auto dest: tbl_get_Some)
    with ok have "sub_ok s" by (simp add: billing_ok_def)
    with now extend(3) have "sub_ok s'" by (blast dest: extend_subscription_ok)
    with billing_ok_sub [OF billing_ok_pay [OF ok pay]] extend(4) show ?thesis by simp
  qed
next
  case (failed pay)
  with ok have "pay_ok (pay\<lparr>pay_status := PAY_FAILED\<rparr>)"
    by (intro pay_ok_failed) (simp add: billing_ok_def)
  with ok failed show ?thesis
    by (auto simp: handle_failure_def intro: billing_ok_notify billing_ok_pay)
qed

lemma billing_step_ok:
  assumes "billing_ok db" "billing_op_ok op"
  shows "billing_ok (billing_step op db)"
proof (cases op)
  case (Op_subscribe p fr now n cycle dev code)
  with assms show ?thesis
    by (auto simp: commit_def intro: billing_ok_subscribe split: sum.split)
next
  case (Op_refund p token now k)
  with assms show ?thesis by (auto simp: commit_def intro: billing_ok_refund split: sum.split)
next
  case (Op_event t_paid now event)
  with assms show ?thesis by (auto simp: commit_def intro: billing_ok_event split: sum.split)
qed

lemma payment_status_put:
  assumes "billing_ok db" "pay \<in> set (b_pays db)" "pay_id pay' = pay_id pay"
    and "pay_moves (Some (pay_status pay)) (Some (pay_status pay')) \<or> pay_status pay' = pay_status pay"
    and "b_pays db' = tbl_put pay_id pay' (b_pays db)"
  shows "payment_status db' k = payment_status db k \<or> pay_moves (payment_status db k) (payment_status db' k)"
proof -
  have "tbl_get pay_id (b_pays db) (pay_id pay) = Some pay"
    using assms by (simp add: billing_ok_def tbl_get_distinct)
  with assms show ?thesis by (auto simp: payment_status_def tbl_get_put)
qed

lemma billing_step_moves:
  assumes ok: "billing_ok db" and op: "billing_op_ok op"
  shows "payment_status (billing_step op db) k = payment_status db k
    \<or> pay_moves (payment_status db k) (payment_status (billing_step op db) k)"
proof (cases op)
  case (Op_subscribe p fr now n cyc dev code)
  show ?thesis
  proof (cases "subscribe p fr now n cyc dev code db")
    case (Inl e)
    with Op_subscribe show ?thesis by (simp add: commit_def)
  next
    case (Inr r)
    obtain out db' where r: "r = (out, db')" by (cases r)
    from Inr [unfolded r] show ?thesis
    proof (rule subscribe_effect)
      fix cycle per cpn org
      assume a: "normalize_cycle (JStr cyc) = Inr cycle" "0 < apply_coupon_discount (n * per) cpn"
        "fr_pay_id fr \<notin> pay_id ` set (b_pays db)"
        "db' = db\<lparr>b_subs := b_subs db @ [fst (subscribed_rows org fr cycle n per dev cpn)],
                  b_pays := b_pays db @ [snd (subscribed_rows org fr cycle n per dev cpn)]\<rparr>"
      have "tbl_get pay_id (b_pays db) (fr_pay_id fr) = None" using a(3) by (simp add: tbl_get_None)
      with a subscribed_rows_ok [OF a(1,2), of org fr dev] Op_subscribe Inr r show ?thesis
        by (auto simp: commit_def payment_status_def tbl_get_append pay_moves_simps split: option.split)
    qed
  qed
next
  case (Op_refund p token now k')
  show ?thesis
  proof (cases "refund p token now k' db")
    case (Inl e)
    with Op_refund show ?thesis by (simp add: commit_def)
  next
    case (Inr r)
    obtain rf db' where r: "r = (rf, db')" by (cases r)
    obtain pay where pay: "scope_get p pay_id pay_org_id (b_pays db) k' = Inr pay"
      "pay_status pay = PAY_CAPTURED"
      "b_pays db' = tbl_put pay_id
         (pay\<lparr>pay_status := PAY_REFUNDED, pay_refunded_at := Some now\<rparr>) (b_pays db)"
      using Inr unfolding r refund_Inr by auto
    have "payment_status db' k = payment_status db k \<or> pay_moves (payment_status db k) (payment_status db' k)"
      using scope_get_Inr [OF pay(1)] pay(2)
      by (intro payment_status_put [OF ok _ _ _ pay(3), of pay]) (simp_all add: pay_moves_simps)
    with Op_refund Inr r show ?thesis by (simp add: commit_def)
  qed
next
  case (Op_event t_paid now event)
  show ?thesis
  proof (cases "process_webhook_event t_paid now event db")
    case (Inl e)
    with Op_event show ?thesis by (simp add: commit_def)
  next
    case (Inr r)
    obtain out db' where r: "r = (out, db')" by (cases r)
    have "payment_status db' k = payment_status db k \<or> pay_moves (payment_status db k) (payment_status db' k)"
      using Inr [unfolded r]
    proof (cases rule: event_Inr)
      case (captured pay rp sub)
      from captured(3) show ?thesis
      proof (cases rule: handle_capture_Inr)
        case loose
        then show ?thesis
          by (intro payment_status_put [OF ok captured(1), of "captured_payment t_paid rp pay"])
            (simp_all add: pay_moves_simps)
      next
        case (extend s s')
        then show ?thesis
          by (intro payment_status_put [OF ok captured(1), of "captured_payment t_paid rp pay"])
            (simp_all add: pay_moves_simps)
      qed simp
    next
      case (failed pay)
      show ?thesis
      proof (cases "pay_status pay = PAY_CAPTURED")
        case True
        with failed show ?thesis by (simp add: handle_failure_def)
      next
        case False
        with failed show ?thesis
          by (intro payment_status_put [OF ok failed(1), of "pay\<lparr>pay_status := PAY_FAILED\<rparr>"])
            (simp_all add: handle_failure_simps pay_moves_simps)
      qed
    qed simp
    with Op_event Inr r show ?thesis by (simp add: commit_def)
  qed
qed

interpretation bs: status_system billing_step billing_op_ok billing_ok payment_status pay_moves
  by unfold_locales (simp_all add: billing_step_ok billing_step_moves)

lemma extend_subscription_value:
  assumes "sub_ok s" "valid_datetime now" "dt_year now < 9999"
    and "\<And>e. sub_period_end s = Some e \<Longrightarrow> dt_year e < 9999"
  obtains c base e where "sub_billing_cycle s = Some c"
    "base = (case sub_period_end s of None \<Rightarrow> now | Some old \<Rightarrow> max now old)"
    "add_period base c = Inr e" "base < e" "valid_datetime e"
    "extend_subscription now s = Inr (s\<lparr>sub_period_start :=
        Some (case sub_period_start s of None \<Rightarrow> now | Some a \<Rightarrow> a),
        sub_period_end := Some e, sub_status := Some ''active''\<rparr>)"
proof -
  define base where "base = (case sub_period_end s of None \<Rightarrow> now | Some old \<Rightarrow> max now old)"
  obtain c where c: "sub_billing_cycle s = Some c" "c = CYCLE_MONTHLY \<or> c = CYCLE_YEARLY"
    using assms by (auto simp: sub_ok_def)
  then have ne: "c \<noteq> []" by (auto simp: CYCLE_MONTHLY_def CYCLE_YEARLY_def)
  have base: "valid_datetime base" "dt_year base < 9999"
    using assms by (auto simp: base_def sub_ok_def max_def split: option.splits)
  from c have "normalize_cycle (JStr c) = Inr c" by auto
  from add_period_value [OF base this] obtain e where e: "add_period base c = Inr e" by blast
  have "(case sub_period_end s of Some e \<Rightarrow> if e > now then e else now | None \<Rightarrow> now) = base"
    by (auto simp: base_def max_def split: option.split)
  with e ne c have "extend_subscription now s = Inr (s\<lparr>sub_period_start :=
        Some (case sub_period_start s of None \<Rightarrow> now | Some a \<Rightarrow> a),
        sub_period_end := Some e, sub_status := Some ''active''\<rparr>)"
    by (simp add: extend_subscription_def)
  then show thesis using that [OF c(1) base_def e] add_period_later [OF base(1) e] by simp
qed

lemma find_payment_captured:
  assumes "distinct (map pay_id pays)" "find_payment pays o_id rp = Some pay"
  shows "find_payment (tbl_put pay_id (captured_payment t rp pay) pays) o_id rp
    = Some (captured_payment t rp pay)"
proof (cases "find_by pay_razorpay_order_id pays o_id")
  case None
  with assms have by_id: "find_by pay_razorpay_payment_id pays rp = Some pay"
    by (simp add: find_payment_def)
  have "find_by pay_razorpay_order_id (tbl_put pay_id (captured_payment t rp pay) pays) o_id = None"
    using None find_payment_mem [OF assms(2)]
    by (auto simp: find_by_def find_None_iff split: if_splits dest!: in_set_tbl_put)
  moreover have "find_by pay_razorpay_payment_id (tbl_put pay_id (captured_payment t rp pay) pays) rp
      = Some (captured_payment t rp pay)"
    using by_id assms(1)
    by (auto simp: find_by_def captured_payment_def split: if_splits
        intro!: find_tbl_put_Some dest: find_Some_iff [THEN iffD1])
  ultimately show ?thesis by (simp add: find_payment_def)
next
  case (Some q)
  with assms have "q = pay" by (simp add: find_payment_def)
  with Some assms(1) have
    "find_by pay_razorpay_order_id (tbl_put pay_id (captured_payment t rp pay) pays) o_id
       = Some (captured_payment t rp pay)"
    by (auto simp: find_by_def split: if_splits intro!: find_tbl_put_Some
        dest: find_Some_iff [THEN iffD1])
  then show ?thesis by (simp add: find_payment_def)
qed

section \<open>Properties\<close>

text \<open>Over any run of subscriptions, refunds and webhook events with valid clock readings the
  billing tables stay consistent: ids stay unique, captured and refunded payments carry their
  timestamps, an active subscription has a period that starts before it ends, and every payment's
  status follows the transitions of \<open>pay_moves\<close>, so one that has left "created" never returns to
  it and none is ever lost.\<close>

theorem billing_run_invariant:
  assumes "billing_ok db" "list_all billing_op_ok ops"
  shows "billing_ok (run_ops billing_step ops db)
    \<and> pay_moves\<^sup>*\<^sup>* (payment_status db k) (payment_status (run_ops billing_step ops db) k)
    \<and> (payment_status db k \<in> {Some PAY_CAPTURED, Some PAY_FAILED, Some PAY_REFUNDED} \<longrightarrow>
       payment_status (run_ops billing_step ops db) k
         \<in> {Some PAY_CAPTURED, Some PAY_FAILED, Some PAY_REFUNDED})"
proof (intro conjI impI)
  show "billing_ok (run_ops billing_step ops db)" using assms by (rule bs.run_inv)
  show "pay_moves\<^sup>*\<^sup>* (payment_status db k) (payment_status (run_ops billing_step ops db) k)"
    using assms by (rule bs.run_moves)
  assume "payment_status db k \<in> {Some PAY_CAPTURED, Some PAY_FAILED, Some PAY_REFUNDED}"
  then show "payment_status (run_ops billing_step ops db) k
      \<in> {Some PAY_CAPTURED, Some PAY_FAILED, Some PAY_REFUNDED}"
    using assms by (intro bs.run_closed) (auto elim: pay_moves.cases)
qed

theorem billing_run_invariant_witness:
  "billing_ok (run_ops billing_step
      [Op_refund \<lparr>pr_user_id = ''u'', pr_org_id = ''o'', pr_role = ''x''\<rparr> ''t''
         (DateTime 2026 1 1 0) ''p'',
       Op_event (DateTime 2026 1 1 0) (DateTime 2026 1 1 0) []]
      \<lparr>b_coupons = [], b_subs = [], b_pays = [], b_devices = [], b_users = [], b_notes = []\<rparr>)"
proof -
  have "valid_datetime (DateTime 2026 1 1 0)"
    by (simp add: valid_date_def days_in_month_def usec_per_day_def)
  then show ?thesis
    by (intro billing_run_invariant [THEN conjunct1]) (simp_all add: billing_ok_def)
qed


text \<open>A small database for the witnesses: one subscription and its payment, refunded before.\<close>

definition ex_sub :: subscription where
  "ex_sub = \<lparr>sub_id = ''s1'', sub_org_id = ''o1'', sub_device_id = None, sub_plan = PRO_PLAN,
     sub_billing_cycle = Some CYCLE_MONTHLY, sub_device_count = 3, sub_unit_price = 99,
     sub_status = Some ''active'', sub_period_start = Some (DateTime 2026 1 31 0),
     sub_period_end = Some (DateTime 2026 2 28 0), sub_coupon_id = None,
     sub_razorpay_id = Some ''order_1''\<rparr>"

definition ex_pay :: "string \<Rightarrow> payment" where
  "ex_pay st = \<lparr>pay_id = ''p1'', pay_org_id = ''o1'', pay_subscription_id = Some ''s1'', pay_amount = 297,
     pay_currency = ''INR'', pay_status = st, pay_razorpay_payment_id = Some ''pay_1'',
     pay_razorpay_order_id = Some ''order_1'', pay_paid_at = Some (DateTime 2026 1 31 0),
     pay_refunded_at = Some (DateTime 2026 2 1 0)\<rparr>"

definition ex_billing :: "string \<Rightarrow> billing" where
  "ex_billing st = \<lparr>b_coupons = [], b_subs = [ex_sub], b_pays = [ex_pay st], b_devices = [],
     b_users = [\<lparr>row_id = ''u1'', row_org_id = ''o1''\<rparr>], b_notes = []\<rparr>"

definition ex_event :: "string \<Rightarrow> (string \<times> json) list" where
  "ex_event kind = [(''event'', JStr kind),
     (''payload'', JObj [(''payment'', JObj [(''entity'',
        JObj [(''order_id'', JStr ''order_1''), (''id'', JStr ''pay_1'')])])])]"

lemma ex_valid: "valid_datetime (DateTime 2026 2 10 0)" "valid_datetime (DateTime 2026 2 28 0)"
  by (simp_all add: valid_date_def days_in_month_def usec_per_day_def)

lemma ex_billing_ok: "st \<in> {PAY_CAPTURED, PAY_FAILED, PAY_REFUNDED} \<Longrightarrow> billing_ok (ex_billing st)"
  using ex_valid
  by (auto simp: billing_ok_def ex_billing_def pay_ok_def ex_pay_def sub_ok_def ex_sub_def
      less_datetime_def less_eq_datetime_def)

lemma ex_entity: "extract_payment_entity (ex_event kind)
    = Inr [(''order_id'', JStr ''order_1''), (''id'', JStr ''pay_1'')]"
  by (simp add: extract_payment_entity_def sub_dict_def dict_get_def ex_event_def)

lemma ex_found: "find_payment (b_pays (ex_billing st))
    (dict_get [(''order_id'', JStr ''order_1''), (''id'', JStr ''pay_1'')] ''order_id'')
    (dict_get [(''order_id'', JStr ''order_1''), (''id'', JStr ''pay_1'')] ''id'') = Some (ex_pay st)"
  by (simp add: find_payment_def find_by_def dict_get_def ex_billing_def ex_pay_def)


text \<open>A failure event never touches a subscription and never downgrades a captured payment; any
  other payment it matches becomes "failed" and every user of the organization is notified once.\<close>

theorem failure_event_exact:
  assumes "distinct (map pay_id (b_pays db))"
    and "dict_get event ''event'' = JStr ''payment.failed''"
    and "extract_payment_entity event = Inr entity"
    and "find_payment (b_pays db) (dict_get entity ''order_id'') (dict_get entity ''id'') = Some pay"
  shows "\<exists>db'. process_webhook_event t_paid now event db = Inr (''failed'', db')
    \<and> b_subs db' = b_subs db
    \<and> (if pay_status pay = PAY_CAPTURED then db' = db
       else payment_status db' (pay_id pay) = Some PAY_FAILED
         \<and> (\<forall>k. k = pay_id pay \<or> payment_status db' k = payment_status db k)
         \<and> map note_user_id (b_notes db') = map note_user_id (b_notes db)
             @ map row_id (filter (\<lambda>u. row_org_id u = pay_org_id pay) (b_users db)))"
proof -
  have "tbl_get pay_id (b_pays db) (pay_id pay) = Some pay"
    using assms(1) find_payment_mem [OF assms(4)] by (rule tbl_get_distinct)
  then show ?thesis
    using assms(2-4)
    by (simp add: process_webhook_event_def handle_failure_simps)
      (auto simp: handle_failure_def notify_org_def payment_status_def tbl_get_put comp_def)
qed

theorem failure_event_exact_witness:
  "\<exists>db'. process_webhook_event (DateTime 2026 2 10 0) (DateTime 2026 2 10 0)
        (ex_event ''payment.failed'') (ex_billing PAY_FAILED) = Inr (''failed'', db')
    \<and> b_subs db' = b_subs (ex_billing PAY_FAILED) \<and> payment_status db' ''p1'' = Some PAY_FAILED"
proof -
  have 1: "distinct (map pay_id (b_pays (ex_billing PAY_FAILED)))" by (simp add: ex_billing_def)
  have 2: "dict_get (ex_event ''payment.failed'') ''event'' = JStr ''payment.failed''"
    by (simp add: ex_event_def dict_get_def)
  from failure_event_exact [OF 1 2 ex_entity ex_found]
  show ?thesis by (fastforce simp: ex_pay_def)
qed

text \<open>C36. The money-back window, to the microsecond: a captured payment the caller may see is refunded
  exactly when the request comes no later than fourteen days after it was paid.  Then the full
  rupee amount goes back in paise, the payment reads "refunded", the subscriptions are untouched,
  and no second refund of it succeeds; later requests are rejected.\<close>

theorem refund_window_exact:
  assumes "scope_get p pay_id pay_org_id (b_pays db) k = Inr pay"
    and "pay_status pay = PAY_CAPTURED" "pay_paid_at pay = Some paid"
    and "pay_razorpay_payment_id pay = Some rp" "rp \<noteq> []" "1 \<le> pay_amount pay"
  shows "(if instant now \<le> instant paid + 14 * 86400 * 1000000
     then \<exists>rf db'. refund p token now k db = Inr (rf, db')
        \<and> rf_amount rf = 100 * floor (pay_amount pay) \<and> rf_payment_id rf = rp
        \<and> payment_status db' k = Some PAY_REFUNDED \<and> b_subs db' = b_subs db
        \<and> refund p token' now' k db' = fail (ValidationError ''already_refunded'')
     else refund p token now k db = fail (ValidationError ''refund_window_elapsed''))"
proof -
  have k: "pay_id pay = k" "tbl_get pay_id (b_pays db) k = Some pay" "scope_owns p (pay_org_id pay)"
    using scope_get_Inr [OF assms(1)] by auto
  have amount: "py_int (pay_amount pay) = floor (pay_amount pay)" "0 < floor (pay_amount pay)"
    using assms(6) by (simp_all add: py_int_def)
  have window: "within_refund_window paid now \<longleftrightarrow> instant now \<le> instant paid + 14 * 86400 * 1000000"
    by (simp add: within_refund_window_def REFUND_WINDOW_DAYS_def usec_per_day_def)
  define pay' where "pay' = pay\<lparr>pay_status := PAY_REFUNDED, pay_refunded_at := Some now\<rparr>"
  have get': "tbl_get pay_id (tbl_put pay_id pay' (b_pays db)) k = Some pay'"
    using k by (simp add: tbl_get_put pay'_def)
  have st': "pay_status pay' = PAY_REFUNDED" "pay_org_id pay' = pay_org_id pay"
    by (simp_all add: pay'_def)
  show ?thesis
  proof (cases "instant now \<le> instant paid + 14 * 86400 * 1000000")
    case True
    let ?db' = "db\<lparr>b_pays := tbl_put pay_id pay' (b_pays db)\<rparr>"
    have "refund p token' now' k ?db' = fail (ValidationError ''already_refunded'')"
      using k(3) st' by (auto simp: refund_def scope_get_def get' fail_def)
    moreover have "payment_status ?db' k = Some PAY_REFUNDED"
      by (simp add: payment_status_def get') (simp add: pay'_def)
    moreover have "refund p token now k db = Inr (\<lparr>rf_id = ''rfnd_'' @ token, rf_payment_id = rp,
          rf_amount = floor (pay_amount pay) * PAISE_PER_RUPEE,
          rf_currency = (if pay_currency pay = [] then ''INR'' else pay_currency pay),
          rf_status = ''processed''\<rparr>, ?db')"
      using assms amount True window by (simp add: refund_Inr pay'_def)
    ultimately show ?thesis using True by (simp add: PAISE_PER_RUPEE_def)
  next
    case False
    with assms window show ?thesis by (simp add: refund_def)
  qed
qed

theorem refund_window_exact_witness:
  "\<exists>rf db'. refund \<lparr>pr_user_id = ''u1'', pr_org_id = ''o1'', pr_role = ROLE_PROJECT_CENTER\<rparr>
       ''t'' (DateTime 2026 2 10 0) ''p1'' (ex_billing PAY_CAPTURED) = Inr (rf, db')
     \<and> rf_amount rf = 29700 \<and> payment_status db' ''p1'' = Some PAY_REFUNDED"
proof -
  let ?p = "\<lparr>pr_user_id = ''u1'', pr_org_id = ''o1'', pr_role = ROLE_PROJECT_CENTER\<rparr>"
  have 1: "scope_get ?p pay_id pay_org_id (b_pays (ex_billing PAY_CAPTURED)) ''p1''
      = Inr (ex_pay PAY_CAPTURED)"
    by (simp add: scope_get_def ex_billing_def ex_pay_def)
  have 2: "pay_status (ex_pay PAY_CAPTURED) = PAY_CAPTURED"
    "pay_paid_at (ex_pay PAY_CAPTURED) = Some (DateTime 2026 1 31 0)"
    "pay_razorpay_payment_id (ex_pay PAY_CAPTURED) = Some ''pay_1''" "''pay_1'' \<noteq> []"
    "1 \<le> pay_amount (ex_pay PAY_CAPTURED)"
    by (simp_all add: ex_pay_def)
  have "instant (DateTime 2026 2 10 0) \<le> instant (DateTime 2026 1 31 0) + 14 * 86400 * 1000000"
    by (simp add: instant.simps toordinal_def days_before_month_def days_in_month_def
        usec_per_day_def upto_rec1)
  with refund_window_exact [OF 1 2, of "DateTime 2026 2 10 0" "''t''" "''t''" "DateTime 2026 2 10 0"]
  show ?thesis by (simp add: ex_pay_def) blast
qed

text \<open>A positive discounted amount is the rounded formula itself.\<close>

lemma discount_exact:
  "0 < apply_coupon_discount gross cpn \<Longrightarrow> apply_coupon_discount gross cpn =
     (case cpn of None \<Rightarrow> gross
      | Some c \<Rightarrow>
          if cp_discount_type c = ''percent'' then py_round (of_int gross * (1 - cp_value c / 100))
          else if cp_discount_type c = ''fixed'' then py_round (of_int gross - cp_value c)
          else gross)"
  by (auto simp: apply_coupon_discount_def algebra_simps max_def split: option.splits if_splits)

text \<open>Subscribing charges what was quoted: the order is for the volume price times the count, less
  the coupon, in paise, always positive and never above the gross total; it adds one "created"
  payment bound to that order and one "created" subscription without a period, and changes no
  other row, so an unpaid order grants nothing.\<close>

theorem subscribe_charges_quote:
  assumes "subscribe p fr now n cyc dev code db = Inr (out, db')"
    and "\<forall>c \<in> set (b_coupons db). 0 \<le> cp_value c"
  shows "ord_amount (so_order out) = 100 * so_amount_due out
    \<and> 0 < so_amount_due out \<and> so_amount_due out \<le> n * so_unit_price out
    \<and> unit_price (JInt n) (JStr cyc) = Inr (so_unit_price out)
    \<and> (\<exists>cpn. resolve_coupon (b_coupons db) now code = Inr cpn \<and> so_amount_due out =
          (let gross = n * so_unit_price out in
           case cpn of None \<Rightarrow> gross
           | Some c \<Rightarrow>
               if cp_discount_type c = ''percent'' then py_round (of_int gross * (1 - cp_value c / 100))
               else if cp_discount_type c = ''fixed'' then py_round (of_int gross - cp_value c)
               else gross))
    \<and> (\<exists>sub pay. b_subs db' = b_subs db @ [sub] \<and> b_pays db' = b_pays db @ [pay]
        \<and> sub_status sub = Some ''created'' \<and> sub_period_end sub = None
        \<and> pay_status pay = PAY_CREATED \<and> pay_subscription_id pay = Some (sub_id sub)
        \<and> pay_amount pay = of_int (so_amount_due out)
        \<and> db' = db\<lparr>b_subs := b_subs db @ [sub], b_pays := b_pays db @ [pay]\<rparr>)"
  using assms(1)
proof (rule subscribe_effect)
  fix cycle per cpn org
  assume a: "unit_price (JInt n) (JStr cyc) = Inr per" "1 \<le> n"
    "resolve_coupon (b_coupons db) now code = Inr cpn"
    "0 < apply_coupon_discount (n * per) cpn"
    "so_unit_price out = per" "so_amount_due out = apply_coupon_discount (n * per) cpn"
    "ord_amount (so_order out) = so_amount_due out * PAISE_PER_RUPEE"
    "db' = db\<lparr>b_subs := b_subs db @ [fst (subscribed_rows org fr cycle n per dev cpn)],
              b_pays := b_pays db @ [snd (subscribed_rows org fr cycle n per dev cpn)]\<rparr>"
  have "0 \<le> n * per" using a(2) unit_price_positive [OF a(1)] by simp
  moreover have "0 \<le> cp_value c" if "cpn = Some c" for c
    using resolve_coupon_Inr [of "b_coupons db" now code c] a(3) that assms(2)
    by (auto dest: tbl_get_Some)
  ultimately have "apply_coupon_discount (n * per) cpn \<le> n * per"
    using coupon_bounds by (cases cpn) (auto simp: apply_coupon_discount_def)
  with a discount_exact [OF a(4)] show ?thesis
    by (simp add: subscribed_rows_def Let_def PAISE_PER_RUPEE_def)
qed

theorem subscribe_charges_quote_witness:
  "\<exists>out db'. subscribe
      \<lparr>pr_user_id = ''u'', pr_org_id = ''0123abcd-0123-4567-89ab-0123456789ab'', pr_role = ''x''\<rparr>
      \<lparr>fr_sub_id = ''s2'', fr_pay_id = ''p2'', fr_token = ''t''\<rparr> (DateTime 2026 1 1 0) 11 ''monthly''
      None None (ex_billing PAY_CAPTURED) = Inr (out, db')
    \<and> ord_amount (so_order out) = 86900 \<and> so_amount_due out \<le> 11 * so_unit_price out"
proof -
  let ?p = "\<lparr>pr_user_id = ''u'', pr_org_id = ''0123abcd-0123-4567-89ab-0123456789ab'', pr_role = ''x''\<rparr>"
  let ?fr = "\<lparr>fr_sub_id = ''s2'', fr_pay_id = ''p2'', fr_token = ''t''\<rparr>"
  let ?r = "subscribe ?p ?fr (DateTime 2026 1 1 0) 11 ''monthly'' None None (ex_billing PAY_CAPTURED)"
  have org: "org_uuid_of ?p = Inr ''0123abcd-0123-4567-89ab-0123456789ab''" by code_simp
  have cyc: "normalize_cycle (JStr ''monthly'') = Inr CYCLE_MONTHLY" by code_simp
  have "unit_price (JInt 11) (JStr CYCLE_MONTHLY) = Inr 79"
    by (simp add: unit_price_Inr band_price_def)
  then obtain out db' where r: "?r = Inr (out, db')" "ord_amount (so_order out) = 86900"
    by (auto simp: subscribe_def cyc org check_device_def resolve_coupon_def insert_row_def
        create_order_def apply_coupon_discount_def PAISE_PER_RUPEE_def ex_billing_def ex_pay_def
        ex_sub_def)
  with subscribe_charges_quote [OF r(1)] show ?thesis by (auto simp: ex_billing_def)
qed

text \<open>Only a signed webhook changes billing state: when the tables differ after a webhook request,
  a secret is configured and the signature header is the HMAC of the raw body under it.\<close>

theorem webhook_needs_signature:
  assumes "commit (post_webhook hmac_hex loads secret t_paid now body signature) db \<noteq> db"
  shows "\<exists>sec. secret = Some sec \<and> sec \<noteq> [] \<and> signature = Some (hmac_hex sec body)
    \<and> hmac_hex sec body \<noteq> []"
  using assms
  by (auto simp: commit_def post_webhook_def verify_webhook_signature_def fail_def
      split: if_splits option.splits)

theorem webhook_needs_signature_witness:
  defines "h \<equiv> \<lambda>sec body. sec @ ''.'' @ (body :: string)"
  defines "loads \<equiv> \<lambda>body :: string. Some (JObj (ex_event ''payment.failed''))"
  shows "\<exists>sec. Some ''k'' = Some sec \<and> sec \<noteq> [] \<and> Some ''k.b'' = Some (h sec ''b'') \<and> h sec ''b'' \<noteq> []"
proof (rule webhook_needs_signature [of h loads "Some ''k''" "DateTime 2026 1 1 0" "DateTime 2026 1 1 0"
      "''b''" "Some ''k.b''" "ex_billing PAY_REFUNDED"])
  have "process_webhook_event (DateTime 2026 1 1 0) (DateTime 2026 1 1 0) (ex_event ''payment.failed'')
      (ex_billing PAY_REFUNDED) = Inr (''failed'', handle_failure (ex_pay PAY_REFUNDED) (ex_billing PAY_REFUNDED))"
    using ex_entity [of "''payment.failed''"] ex_found [of PAY_REFUNDED]
    by (simp add: process_webhook_event_def) (simp add: ex_event_def dict_get_def)
  then show "commit (post_webhook h loads (Some ''k'') (DateTime 2026 1 1 0) (DateTime 2026 1 1 0)
      ''b'' (Some ''k.b'')) (ex_billing PAY_REFUNDED) \<noteq> ex_billing PAY_REFUNDED"
    by (simp add: commit_def post_webhook_def verify_webhook_signature_def h_def loads_def
        handle_failure_def notify_org_def ex_pay_def ex_billing_def)
qed

end
