(* ===== verification/Wallets.thy ===== *)
theory Wallets imports Calendar Subscriptions
begin

text \<open>
  Partner wallets: commission credits (\<open>app/services/commission_service.py\<close>) and payouts
  (\<open>app/services/payout_service.py\<close>, with the offline RazorpayX client).  The state is the four
  tables; every operation is the whole function, with the ids and clock readings it draws as
  arguments.  The main lemma is the ledger: each wallet holds exactly its commissions less its paid
  payouts, and never less than zero, whatever the order of the operations.
\<close>

section \<open>Rows and tables\<close>

record partner_org =
  po_id :: uuid
  po_rate_override :: "rat option"

record wallet =
  wal_id :: uuid
  wal_org_id :: uuid
  wal_balance :: rat

record commission =
  com_id :: uuid
  com_org_id :: uuid
  com_wallet_id :: uuid
  com_device_id :: "uuid option"
  com_payment_id :: "uuid option"
  com_amount :: rat
  com_period_month :: datetime
  com_created_at :: timestamp

record payout =
  out_id :: uuid
  out_org_id :: uuid
  out_wallet_id :: uuid
  out_amount :: rat
  out_destination :: "string option"
  out_status :: string
  out_requested_at :: timestamp
  out_approved_at :: "timestamp option"
  out_approved_by :: "uuid option"
  out_razorpayx_id :: "string option"

record ledger =
  led_orgs :: "partner_org list"
  led_wallets :: "wallet list"
  led_commissions :: "commission list"
  led_payouts :: "payout list"

abbreviation PAYOUT_PENDING :: string where "PAYOUT_PENDING \<equiv> ''PENDING''"
abbreviation PAYOUT_APPROVED :: string where "PAYOUT_APPROVED \<equiv> ''APPROVED''"
abbreviation PAYOUT_PAID :: string where "PAYOUT_PAID \<equiv> ''PAID''"

section \<open>Commissions\<close>

definition DEFAULT_COMMISSION_RATE :: rat where
  "DEFAULT_COMMISSION_RATE = 50"

text \<open>The two coercions: one passes a value that is no UUID through, the other raises.\<close>

definition to_uuid_or_same :: "string \<Rightarrow> string" where
  "to_uuid_or_same v = (case parse_uuid v of Some u \<Rightarrow> u | None \<Rightarrow> v)"

definition to_uuid :: "string \<Rightarrow> uuid result" where
  "to_uuid v = (case parse_uuid v of Some u \<Rightarrow> Inr u | None \<Rightarrow> Inl ValueError)"

definition resolve_commission_rate :: "partner_org \<Rightarrow> rat" where
  "resolve_commission_rate org =
     (case po_rate_override org of Some r \<Rightarrow> r | None \<Rightarrow> DEFAULT_COMMISSION_RATE)"

definition first_of_month :: "datetime \<Rightarrow> datetime" where
  "first_of_month now = DateTime (dt_year now) (dt_month now) 1 0"

definition get_or_create_wallet :: "uuid \<Rightarrow> uuid \<Rightarrow> wallet list \<Rightarrow> (wallet \<times> wallet list) result" where
  "get_or_create_wallet fresh_id org_id wallets =
     (case tbl_get wal_org_id wallets org_id of
        Some w \<Rightarrow> Inr (w, wallets)
      | None \<Rightarrow>
          (let w = \<lparr>wal_id = fresh_id, wal_org_id = org_id, wal_balance = 0\<rparr>
           in bind_res (insert_row wal_id w wallets) (\<lambda>wallets'. Inr (w, wallets'))))"

record credit_env =
  ce_wallet_id :: uuid
  ce_commission_id :: uuid
  ce_now :: datetime
  ce_created_at :: timestamp

definition credit_commission ::
  "credit_env \<Rightarrow> string \<Rightarrow> string option \<Rightarrow> string option \<Rightarrow> datetime option \<Rightarrow> ledger
     \<Rightarrow> (commission \<times> ledger) result" where
  "credit_commission env org_id device_id payment_id period_month db =
     (let org_uuid = to_uuid_or_same org_id in
      case tbl_get po_id (led_orgs db) org_uuid of
        None \<Rightarrow> fail (NotFoundError ''not_found'')
      | Some org \<Rightarrow>
          (let rate = resolve_commission_rate org;
               amount = (if rate > 0 then rate else 0)
           in bind_res (get_or_create_wallet (ce_wallet_id env) org_uuid (led_wallets db))
                (\<lambda>(w, wallets').
                let c = \<lparr>com_id = ce_commission_id env, com_org_id = org_uuid,
                   com_wallet_id = wal_id w, com_device_id = map_option to_uuid_or_same device_id,
                   com_payment_id = map_option to_uuid_or_same payment_id, com_amount = amount,
                   com_period_month = (case period_month of Some m \<Rightarrow> m
                     | None \<Rightarrow> first_of_month (ce_now env)),
                   com_created_at = ce_created_at env\<rparr> in
                bind_res (insert_row com_id c (led_commissions db)) (\<lambda>commissions'.
                  Inr (c, db\<lparr>led_wallets :=
                              tbl_put wal_id (w\<lparr>wal_balance := wal_balance w + amount\<rparr>) wallets',
                            led_commissions := commissions'\<rparr>)))))"

section \<open>Payouts\<close>

definition request_payout ::
  "uuid \<Rightarrow> timestamp \<Rightarrow> string \<Rightarrow> rat \<Rightarrow> string option \<Rightarrow> ledger \<Rightarrow> (payout \<times> ledger) result" where
  "request_payout fresh_id now org_id amount destination db =
     bind_res (to_uuid org_id) (\<lambda>org_uuid.
       if amount \<le> 0 then fail (ValidationError ''invalid_payout_amount'')
       else (case tbl_get wal_org_id (led_wallets db) org_uuid of
           None \<Rightarrow> fail (NotFoundError ''wallet_not_found'')
         | Some w \<Rightarrow>
             if amount > wal_balance w then fail (ValidationError ''insufficient_balance'')
             else
               (let po = \<lparr>out_id = fresh_id, out_org_id = org_uuid, out_wallet_id = wal_id w,
                    out_amount = amount, out_destination = destination,
                    out_status = PAYOUT_PENDING, out_requested_at = now, out_approved_at = None,
                    out_approved_by = None, out_razorpayx_id = None\<rparr>
                in bind_res (insert_row out_id po (led_payouts db)) (\<lambda>payouts'.
                     Inr (po, db\<lparr>led_payouts := payouts'\<rparr>)))))"

record rpx_payout =
  rpx_id :: string
  rpx_amount :: int
  rpx_destination :: "string option"

definition transfer :: "string \<Rightarrow> int \<Rightarrow> string option \<Rightarrow> rpx_payout result" where
  "transfer token amount destination =
     (if amount \<le> 0 then Inl ValueError
      else Inr \<lparr>rpx_id = ''pout_'' @ token, rpx_amount = amount, rpx_destination = destination\<rparr>)"

definition approve_payout ::
  "string \<Rightarrow> timestamp \<Rightarrow> string \<Rightarrow> string option \<Rightarrow> ledger \<Rightarrow> ((payout \<times> rpx_payout) \<times> ledger) result" where
  "approve_payout token now payout_id approved_by db =
     bind_res (to_uuid payout_id) (\<lambda>k.
       case tbl_get out_id (led_payouts db) k of
         None \<Rightarrow> fail (NotFoundError ''payout_not_found'')
       | Some po \<Rightarrow>
           if out_status po \<noteq> PAYOUT_PENDING then fail (ValidationError ''payout_not_pending'')
           else (case tbl_get wal_id (led_wallets db) (out_wallet_id po) of
               None \<Rightarrow> fail (NotFoundError ''wallet_not_found'')
             | Some w \<Rightarrow>
                 if out_amount po > wal_balance w
                 then fail (ValidationError ''insufficient_balance'')
                 else
                   (let w' = w\<lparr>wal_balance := wal_balance w - out_amount po\<rparr> in
                    bind_res (case approved_by of None \<Rightarrow> Inr (out_approved_by po)
                              | Some a \<Rightarrow> bind_res (to_uuid a) (\<lambda>u. Inr (Some u))) (\<lambda>approver.
                    let po1 = po\<lparr>out_status := PAYOUT_APPROVED, out_approved_at := Some now,
                                 out_approved_by := approver\<rparr> in
                    bind_res (transfer token (py_int (out_amount po) * PAISE_PER_RUPEE)
                                (out_destination po)) (\<lambda>tr.
                    let po2 = po1\<lparr>out_razorpayx_id := Some (rpx_id tr), out_status := PAYOUT_PAID\<rparr> in
                      Inr ((po2, tr), db\<lparr>led_wallets := tbl_put wal_id w' (led_wallets db),
                                        led_payouts := tbl_put out_id po2 (led_payouts db)\<rparr>))))))"

record wallet_summary =
  ws_balance :: rat
  ws_commissions :: "commission list"

definition get_wallet_summary :: "string \<Rightarrow> ledger \<Rightarrow> wallet_summary result" where
  "get_wallet_summary org_id db =
     bind_res (to_uuid org_id) (\<lambda>org_uuid.
       case tbl_get wal_org_id (led_wallets db) org_uuid of
         None \<Rightarrow> Inr \<lparr>ws_balance = 0, ws_commissions = []\<rparr>
       | Some w \<Rightarrow> Inr \<lparr>ws_balance = wal_balance w,
           ws_commissions = sort_key (\<lambda>c. - com_created_at c)
             (filter (\<lambda>c. com_wallet_id c = wal_id w) (led_commissions db))\<rparr>)"

section \<open>The ledger invariant\<close>

definition credited :: "uuid \<Rightarrow> ledger \<Rightarrow> rat" where
  "credited k db = (\<Sum>c\<leftarrow>led_commissions db. if com_wallet_id c = k then com_amount c else 0)"

definition paid_out :: "uuid \<Rightarrow> ledger \<Rightarrow> rat" where
  "paid_out k db =
     (\<Sum>p\<leftarrow>led_payouts db. if out_wallet_id p = k \<and> out_status p = PAYOUT_PAID then out_amount p else 0)"

definition wallet_ok :: "ledger \<Rightarrow> wallet \<Rightarrow> bool" where
  "wallet_ok db w = (0 \<le> wal_balance w \<and> wal_balance w = credited (wal_id w) db - paid_out (wal_id w) db)"

definition ledger_ok :: "ledger \<Rightarrow> bool" where
  "ledger_ok db =
     (distinct (map wal_id (led_wallets db)) \<and> distinct (map com_id (led_commissions db))
      \<and> distinct (map out_id (led_payouts db)) \<and> distinct (map wal_org_id (led_wallets db))
      \<and> (\<forall>c \<in> set (led_commissions db). 0 \<le> com_amount c \<and> com_wallet_id c \<in> wal_id ` set (led_wallets db))
      \<and> (\<forall>p \<in> set (led_payouts db). 0 < out_amount p \<and> out_status p \<in> {PAYOUT_PENDING, PAYOUT_PAID}
           \<and> out_wallet_id p \<in> wal_id ` set (led_wallets db))
      \<and> (\<forall>w \<in> set (led_wallets db). wallet_ok db w))"

datatype ledger_op =
    Op_credit credit_env string "string option" "string option" "datetime option"
  | Op_request uuid timestamp string rat "string option"
  | Op_approve string timestamp string "string option"

fun ledger_step :: "ledger_op \<Rightarrow> ledger \<Rightarrow> ledger" where
  "ledger_step (Op_credit env org_id d p m) = commit (credit_commission env org_id d p m)"
| "ledger_step (Op_request k now org_id amount dest) = commit (request_payout k now org_id amount dest)"
| "ledger_step (Op_approve token now k approved_by) = commit (approve_payout token now k approved_by)"

section \<open>Lemmas\<close>

lemma ledger_sums [simp]:
  "credited k (db\<lparr>led_wallets := ws\<rparr>) = credited k db"
  "paid_out k (db\<lparr>led_wallets := ws\<rparr>) = paid_out k db"
  "credited k (db\<lparr>led_payouts := ps\<rparr>) = credited k db"
  "paid_out k (db\<lparr>led_commissions := cs\<rparr>) = paid_out k db"
  "credited k (db\<lparr>led_commissions := led_commissions db @ [c]\<rparr>) =
     credited k db + (if com_wallet_id c = k then com_amount c else 0)"
  "paid_out k (db\<lparr>led_payouts := led_payouts db @ [p]\<rparr>) =
     paid_out k db + (if out_wallet_id p = k \<and> out_status p = PAYOUT_PAID then out_amount p else 0)"
  by (simp_all add: credited_def paid_out_def)

lemma paid_out_put:
  assumes "distinct (map out_id (led_payouts db))" "tbl_get out_id (led_payouts db) (out_id p) = Some p0"
    and "out_status p0 \<noteq> PAYOUT_PAID" "out_status p = PAYOUT_PAID" "out_wallet_id p = out_wallet_id p0"
  shows "paid_out k (db\<lparr>led_payouts := tbl_put out_id p (led_payouts db)\<rparr>) =
    paid_out k db + (if out_wallet_id p = k then out_amount p else 0)"
  using sum_list_tbl_put [OF assms(1,2), where
      f = "\<lambda>p. if out_wallet_id p = k \<and> out_status p = PAYOUT_PAID then out_amount p else 0"] assms
  by (simp add: paid_out_def)

lemma tbl_put_map_other:
  "tbl_get key rows (key r) = Some r0 \<Longrightarrow> f r = f r0 \<Longrightarrow> distinct (map key rows) \<Longrightarrow>
     map f (tbl_put key r rows) = map f rows"
  by (induction rows) (auto simp: tbl_put_def image_iff intro!: map_cong split: if_splits)

lemma transfer_Inr:
  "transfer token amount dest = Inr tr \<longleftrightarrow>
     0 < amount \<and> tr = \<lparr>rpx_id = ''pout_'' @ token, rpx_amount = amount, rpx_destination = dest\<rparr>"
  by (auto simp: transfer_def)

lemma get_or_create_wallet_Inr:
  assumes "get_or_create_wallet k org ws = Inr (w, ws')"
  obtains (old) "tbl_get wal_org_id ws org = Some w" "ws' = ws"
  | (created) "tbl_get wal_org_id ws org = None" "k \<notin> wal_id ` set ws"
      "w = \<lparr>wal_id = k, wal_org_id = org, wal_balance = 0\<rparr>" "ws' = ws @ [w]"
  using assms
  by (auto simp: get_or_create_wallet_def bind_res_eq_Inr insert_row_Inr Let_def split: option.splits)

lemma credit_Inr:
  assumes "credit_commission env org_id dev pay pm db = Inr (c, db')"
  obtains org w ws where
    "tbl_get po_id (led_orgs db) (to_uuid_or_same org_id) = Some org"
    "get_or_create_wallet (ce_wallet_id env) (to_uuid_or_same org_id) (led_wallets db) = Inr (w, ws)"
    "com_id c \<notin> com_id ` set (led_commissions db)" "com_wallet_id c = wal_id w"
    "com_amount c = max 0 (resolve_commission_rate org)"
    "db' = db\<lparr>led_wallets := tbl_put wal_id (w\<lparr>wal_balance := wal_balance w + com_amount c\<rparr>) ws,
              led_commissions := led_commissions db @ [c]\<rparr>"
proof -
  obtain org where org: "tbl_get po_id (led_orgs db) (to_uuid_or_same org_id) = Some org"
    using assms by (cases "tbl_get po_id (led_orgs db) (to_uuid_or_same org_id)")
      (simp_all add: credit_commission_def fail_def)
  obtain w ws where w: "get_or_create_wallet (ce_wallet_id env) (to_uuid_or_same org_id) (led_wallets db)
      = Inr (w, ws)"
    using assms by (cases "get_or_create_wallet (ce_wallet_id env) (to_uuid_or_same org_id) (led_wallets db)")
      (auto simp: credit_commission_def org Let_def)
  show thesis
    using assms
    by (intro that [OF org w])
      (auto simp: credit_commission_def org w Let_def bind_res_eq_Inr insert_row_Inr max_def)
qed

lemma request_Inr:
  "request_payout k now org_id amount dest db = Inr (po, db') \<longleftrightarrow>
     (\<exists>org w. to_uuid org_id = Inr org \<and> 0 < amount \<and> tbl_get wal_org_id (led_wallets db) org = Some w
        \<and> amount \<le> wal_balance w \<and> k \<notin> out_id ` set (led_payouts db)
        \<and> po = \<lparr>out_id = k, out_org_id = org, out_wallet_id = wal_id w, out_amount = amount,
             out_destination = dest, out_status = PAYOUT_PENDING, out_requested_at = now,
             out_approved_at = None, out_approved_by = None, out_razorpayx_id = None\<rparr>
        \<and> db' = db\<lparr>led_payouts := led_payouts db @ [po]\<rparr>)"
  by (cases "to_uuid org_id")
    (auto simp: request_payout_def Let_def bind_res_eq_Inr insert_row_Inr fail_def split: option.splits)

lemma approve_Inr:
  assumes "approve_payout token now payout_id approved_by db = Inr ((po2, tr), db')"
  obtains k po w where "to_uuid payout_id = Inr k" "tbl_get out_id (led_payouts db) k = Some po"
    "out_status po = PAYOUT_PENDING" "tbl_get wal_id (led_wallets db) (out_wallet_id po) = Some w"
    "out_amount po \<le> wal_balance w" "0 < py_int (out_amount po)"
    "out_id po2 = k" "out_status po2 = PAYOUT_PAID" "out_wallet_id po2 = out_wallet_id po"
    "out_amount po2 = out_amount po" "rpx_amount tr = py_int (out_amount po) * 100"
    "db' = db\<lparr>led_wallets := tbl_put wal_id (w\<lparr>wal_balance := wal_balance w - out_amount po\<rparr>) (led_wallets db),
              led_payouts := tbl_put out_id po2 (led_payouts db)\<rparr>"
proof -
  obtain k where k: "to_uuid payout_id = Inr k"
    using assms by (cases "to_uuid payout_id") (simp_all add: approve_payout_def)
  obtain po where po: "tbl_get out_id (led_payouts db) k = Some po"
    using assms by (cases "tbl_get out_id (led_payouts db) k") (simp_all add: approve_payout_def k fail_def)
  have st: "out_status po = PAYOUT_PENDING"
    using assms by (cases "out_status po = PAYOUT_PENDING") (simp_all add: approve_payout_def k po fail_def)
  obtain w where w: "tbl_get wal_id (led_wallets db) (out_wallet_id po) = Some w"
    using assms by (cases "tbl_get wal_id (led_wallets db) (out_wallet_id po)")
      (simp_all add: approve_payout_def k po st fail_def)
  have le: "out_amount po \<le> wal_balance w"
    using assms by (cases "out_amount po \<le> wal_balance w") (simp_all add: approve_payout_def k po st w fail_def)
  have nlt: "(wal_balance w < out_amount po) = False" using le by simp
  note eqs = approve_payout_def k po st w nlt Let_def
  have "out_id po = k" using po by (auto dest: tbl_get_Some)
  then show thesis
    using assms
    by (intro that [OF k po st w le])
      (auto simp: eqs bind_res_eq_Inr transfer_Inr PAISE_PER_RUPEE_def)
qed

lemma wallet_ok_same:
  assumes "wallet_ok db w" "credited (wal_id w) db' = credited (wal_id w) db"
    "paid_out (wal_id w) db' = paid_out (wal_id w) db"
  shows "wallet_ok db' w"
  using assms by (simp add: wallet_ok_def)

lemma ledger_ok_credit [inv_intros]:
  assumes ok: "ledger_ok db" and cr: "credit_commission env org_id dev pay pm db = Inr (c, db')"
  shows "ledger_ok db'"
  using cr
proof (rule credit_Inr)
  fix org w ws
  assume c: "get_or_create_wallet (ce_wallet_id env) (to_uuid_or_same org_id) (led_wallets db) = Inr (w, ws)"
    "com_id c \<notin> com_id ` set (led_commissions db)" "com_wallet_id c = wal_id w"
    "com_amount c = max 0 (resolve_commission_rate org)"
    "db' = db\<lparr>led_wallets := tbl_put wal_id (w\<lparr>wal_balance := wal_balance w + com_amount c\<rparr>) ws,
              led_commissions := led_commissions db @ [c]\<rparr>"
  have ws: "distinct (map wal_id ws) \<and> distinct (map wal_org_id ws) \<and> w \<in> set ws
      \<and> (\<forall>x \<in> set ws. wallet_ok db x) \<and> set (led_wallets db) \<subseteq> set ws"
    using c(1)
  proof (cases rule: get_or_create_wallet_Inr)
    case old
    with ok show ?thesis by (auto simp: ledger_ok_def dest: tbl_get_Some)
  next
    case created
    have refs: "\<forall>c \<in> set (led_commissions db). com_wallet_id c \<in> wal_id ` set (led_wallets db)"
      "\<forall>p \<in> set (led_payouts db). out_wallet_id p \<in> wal_id ` set (led_wallets db)"
      using ok by (simp_all add: ledger_ok_def)
    then have "credited (ce_wallet_id env) db = 0"
      using created(2) unfolding credited_def by (intro sum_list_zero) metis
    moreover have "paid_out (ce_wallet_id env) db = 0"
      using refs created(2) unfolding paid_out_def by (intro sum_list_zero) metis
    ultimately show ?thesis
      using ok created by (auto simp: ledger_ok_def wallet_ok_def tbl_get_None)
  qed
  define w' where "w' = w\<lparr>wal_balance := wal_balance w + com_amount c\<rparr>"
  have w': "wal_id w' = wal_id w" "wal_org_id w' = wal_org_id w" by (simp_all add: w'_def)
  have wget: "tbl_get wal_id ws (wal_id w') = Some w" using ws w' by (simp add: tbl_get_distinct)
  have sums: "credited k db' = credited k db + (if k = wal_id w then com_amount c else 0)"
    "paid_out k db' = paid_out k db" for k using c(3,5) by (simp_all add: credited_def paid_out_def)
  have "wallet_ok db' x" if "x \<in> set (tbl_put wal_id w' ws)" for x
  proof (cases "x = w'")
    case True
    have "wallet_ok db w" using ws by blast
    with True c(4) show ?thesis by (simp add: wallet_ok_def sums w'_def)
  next
    case False
    with that have "x \<in> set ws" "wal_id x \<noteq> wal_id w"
      by (auto simp: tbl_put_def w'_def split: if_splits)
    with ws show ?thesis by (auto simp: sums intro!: wallet_ok_same [of db x db'])
  qed
  moreover have "map wal_org_id (tbl_put wal_id w' ws) = map wal_org_id ws"
    using wget w' ws by (intro tbl_put_map_other) auto
  moreover have "wal_id ` set (tbl_put wal_id w' ws) = wal_id ` set ws"
    by (metis tbl_put_keys set_map)
  moreover have "led_wallets db' = tbl_put wal_id w' ws" "led_payouts db' = led_payouts db"
    "led_commissions db' = led_commissions db @ [c]"
    by (simp_all add: c(5) w'_def)
  moreover have "wal_id ` set (led_wallets db) \<subseteq> wal_id ` set ws" "wal_id w \<in> wal_id ` set ws"
    using ws by auto
  moreover have "0 \<le> com_amount c" by (simp add: c(4))
  ultimately show ?thesis
    using ok ws c(2,3) unfolding ledger_ok_def by (simp del: tbl_put_Cons) blast
qed

lemma ledger_ok_request [inv_intros]:
  assumes "ledger_ok db" "request_payout k now org_id amount dest db = Inr (po, db')"
  shows "ledger_ok db'"
proof -
  obtain org w where w: "tbl_get wal_org_id (led_wallets db) org = Some w" "0 < amount"
    "k \<notin> out_id ` set (led_payouts db)" "out_id po = k" "out_wallet_id po = wal_id w"
    "out_amount po = amount" "out_status po = PAYOUT_PENDING"
    "db' = db\<lparr>led_payouts := led_payouts db @ [po]\<rparr>"
    using assms(2) unfolding request_Inr by auto
  have "wal_id w \<in> wal_id ` set (led_wallets db)" by (rule tbl_get_image [OF w(1)])
  moreover have "wallet_ok db' x" if "wallet_ok db x" for x
    using that by (rule wallet_ok_same) (simp_all add: w)
  ultimately show ?thesis using assms(1) w by (simp add: ledger_ok_def)
qed

lemma ledger_ok_approve [inv_intros]:
  assumes ok: "ledger_ok db" and ap: "approve_payout token now pid by db = Inr ((po2, tr), db')"
  shows "ledger_ok db'"
  using ap
proof (rule approve_Inr)
  fix k po w
  assume a: "tbl_get out_id (led_payouts db) k = Some po"
    "out_status po = PAYOUT_PENDING" "tbl_get wal_id (led_wallets db) (out_wallet_id po) = Some w"
    "out_amount po \<le> wal_balance w"
    "out_id po2 = k" "out_status po2 = PAYOUT_PAID" "out_wallet_id po2 = out_wallet_id po"
    "out_amount po2 = out_amount po"
    "db' = db\<lparr>led_wallets := tbl_put wal_id (w\<lparr>wal_balance := wal_balance w - out_amount po\<rparr>) (led_wallets db),
              led_payouts := tbl_put out_id po2 (led_payouts db)\<rparr>"
  have d: "distinct (map wal_id (led_wallets db))" "distinct (map out_id (led_payouts db))"
    using ok by (simp_all add: ledger_ok_def)
  define w' where "w' = w\<lparr>wal_balance := wal_balance w - out_amount po\<rparr>"
  have w: "w \<in> set (led_wallets db)" "wal_id w = out_wallet_id po" using a(3) by (auto dest: tbl_get_Some)
  have w': "wal_id w' = wal_id w" "wal_org_id w' = wal_org_id w" by (simp_all add: w'_def)
  have sums: "credited j db' = credited j db"
    "paid_out j db' = paid_out j db + (if j = wal_id w then out_amount po else 0)" for j
    using paid_out_put [OF d(2), of po2 po j] a w(2) by (simp_all add: paid_out_def credited_def)
  have "wallet_ok db' x" if "x \<in> set (tbl_put wal_id w' (led_wallets db))" for x
  proof (cases "x = w'")
    case True
    have "wallet_ok db w" using ok w(1) by (simp add: ledger_ok_def)
    with True a(4) show ?thesis by (simp add: wallet_ok_def sums w'_def)
  next
    case False
    with that have "x \<in> set (led_wallets db)" "wal_id x \<noteq> wal_id w"
      by (auto simp: tbl_put_def w'_def split: if_splits)
    with ok show ?thesis by (auto simp: sums ledger_ok_def intro!: wallet_ok_same [of db x db'])
  qed
  moreover have "map wal_org_id (tbl_put wal_id w' (led_wallets db)) = map wal_org_id (led_wallets db)"
    using a(3) w w' d by (intro tbl_put_map_other) auto
  moreover have "wal_id ` set (tbl_put wal_id w' (led_wallets db)) = wal_id ` set (led_wallets db)"
    by (metis tbl_put_keys set_map)
  moreover have "\<forall>p \<in> set (tbl_put out_id po2 (led_payouts db)).
      0 < out_amount p \<and> out_status p \<in> {PAYOUT_PENDING, PAYOUT_PAID}
        \<and> out_wallet_id p \<in> wal_id ` set (led_wallets db)"
    using ok a tbl_get_Some [OF a(1)] by (intro tbl_put_all) (auto simp: ledger_ok_def)
  moreover have "led_wallets db' = tbl_put wal_id w' (led_wallets db)"
    "led_payouts db' = tbl_put out_id po2 (led_payouts db)" "led_commissions db' = led_commissions db"
    by (simp_all add: a(9) w'_def)
  ultimately show ?thesis
    using ok unfolding ledger_ok_def by simp
qed

lemma ledger_step_ok: "ledger_ok db \<Longrightarrow> ledger_ok (ledger_step op db)"
  by (cases op)
    (auto simp: commit_def intro: inv_intros split: sum.split)

interpretation ls: guarded_system ledger_step "\<lambda>_. True" ledger_ok
  by unfold_locales (simp add: ledger_step_ok)

section \<open>Properties\<close>

text \<open>C1. The ledger balances: from empty tables, after any sequence of credits, payout requests and
  approvals, in any order and with any arguments, every wallet holds exactly the commissions
  credited to it less the payouts paid from it, and that is never negative.\<close>

theorem wallet_ledger_balances:
  "list_all (\<lambda>w. 0 \<le> wal_balance w \<and> wal_balance w =
        credited (wal_id w) (run_ops ledger_step ops \<lparr>led_orgs = orgs, led_wallets = [],
          led_commissions = [], led_payouts = []\<rparr>)
      - paid_out (wal_id w) (run_ops ledger_step ops \<lparr>led_orgs = orgs, led_wallets = [],
          led_commissions = [], led_payouts = []\<rparr>))
     (led_wallets (run_ops ledger_step ops \<lparr>led_orgs = orgs, led_wallets = [],
          led_commissions = [], led_payouts = []\<rparr>))"
proof -
  let ?s = "\<lparr>led_orgs = orgs, led_wallets = [], led_commissions = [], led_payouts = []\<rparr>"
  have "ledger_ok ?s" by (simp add: ledger_ok_def)
  then have "ledger_ok (run_ops ledger_step ops ?s)" by (rule ls.run_inv) (simp add: list_all_iff)
  then have "\<forall>w \<in> set (led_wallets (run_ops ledger_step ops ?s)). wallet_ok (run_ops ledger_step ops ?s) w"
    unfolding ledger_ok_def by blast
  then show ?thesis by (simp only: wallet_ok_def list_all_iff)
qed

text \<open>A credit adds exactly one commission to the organization's one wallet, created at zero when it
  is missing: the per-partner rate when one is set, zero included and negative ones cut to zero, and
  fifty rupees otherwise.\<close>

theorem commission_credit_exact:
  assumes "ledger_ok db" "is_uuid org_id" "tbl_get po_id (led_orgs db) org_id = Some org"
    and "credit_commission env org_id dev pay pm db = Inr (c, db')"
  shows "com_amount c = (case po_rate_override org of None \<Rightarrow> 50 | Some r \<Rightarrow> max 0 r)
    \<and> (\<exists>w'. tbl_get wal_org_id (led_wallets db') org_id = Some w' \<and> wal_id w' = com_wallet_id c
         \<and> wal_balance w' = com_amount c + (case tbl_get wal_org_id (led_wallets db) org_id of
             None \<Rightarrow> 0 | Some w \<Rightarrow> wal_balance w))
    \<and> led_commissions db' = led_commissions db @ [c] \<and> led_payouts db' = led_payouts db"
  using assms(4)
proof (rule credit_Inr)
  fix org' w ws
  assume c: "tbl_get po_id (led_orgs db) (to_uuid_or_same org_id) = Some org'"
    "get_or_create_wallet (ce_wallet_id env) (to_uuid_or_same org_id) (led_wallets db) = Inr (w, ws)"
    "com_wallet_id c = wal_id w" "com_amount c = max 0 (resolve_commission_rate org')"
    "db' = db\<lparr>led_wallets := tbl_put wal_id (w\<lparr>wal_balance := wal_balance w + com_amount c\<rparr>) ws,
              led_commissions := led_commissions db @ [c]\<rparr>"
  have same: "to_uuid_or_same org_id = org_id" using assms(2) by (simp add: to_uuid_or_same_def is_uuid_def)
  have org: "org' = org" using c(1) assms(3) by (simp add: same)
  define w' where "w' = w\<lparr>wal_balance := wal_balance w + com_amount c\<rparr>"
  have ws: "distinct (map wal_id ws) \<and> tbl_get wal_org_id ws org_id = Some w \<and> wal_org_id w = org_id
      \<and> wal_balance w = (case tbl_get wal_org_id (led_wallets db) org_id of
           None \<Rightarrow> 0 | Some w \<Rightarrow> wal_balance w)"
    using c(2) unfolding same
    by (cases rule: get_or_create_wallet_Inr)
      (use assms(1) in \<open>auto simp: ledger_ok_def tbl_get_append dest: tbl_get_Some\<close>)
  have "tbl_get wal_org_id (tbl_put wal_id w' ws) org_id = Some w'"
    using ws unfolding tbl_get_def
    by (intro find_tbl_put_Some [of _ _ w]) (auto simp: w'_def)
  with ws c show ?thesis
    by (auto simp: w'_def org resolve_commission_rate_def DEFAULT_COMMISSION_RATE_def split: option.split)
qed

definition ex_ledger :: ledger where
  "ex_ledger = \<lparr>led_orgs = [\<lparr>po_id = ''0123abcd-0123-4567-89ab-0123456789ab'', po_rate_override = Some 0\<rparr>],
     led_wallets = [\<lparr>wal_id = ''0123abcd-0123-4567-89ab-000000000001'',
       wal_org_id = ''0123abcd-0123-4567-89ab-0123456789ab'', wal_balance = 200\<rparr>],
     led_commissions = [\<lparr>com_id = ''c1'', com_org_id = ''0123abcd-0123-4567-89ab-0123456789ab'',
       com_wallet_id = ''0123abcd-0123-4567-89ab-000000000001'', com_device_id = None,
       com_payment_id = None, com_amount = 200, com_period_month = DateTime 2026 1 1 0,
       com_created_at = 0\<rparr>],
     led_payouts = [\<lparr>out_id = ''0123abcd-0123-4567-89ab-000000000002'',
       out_org_id = ''0123abcd-0123-4567-89ab-0123456789ab'',
       out_wallet_id = ''0123abcd-0123-4567-89ab-000000000001'', out_amount = 301 / 2,
       out_destination = None, out_status = PAYOUT_PENDING, out_requested_at = 0,
       out_approved_at = None, out_approved_by = None, out_razorpayx_id = None\<rparr>]\<rparr>"

lemma ex_ledger_ok: "ledger_ok ex_ledger"
  by (simp add: ledger_ok_def ex_ledger_def wallet_ok_def credited_def paid_out_def)

theorem commission_credit_exact_witness:
  "\<exists>c db'. credit_commission \<lparr>ce_wallet_id = ''w'', ce_commission_id = ''c2'',
        ce_now = DateTime 2026 1 1 0, ce_created_at = 5\<rparr> ''0123abcd-0123-4567-89ab-0123456789ab''
        None None None ex_ledger = Inr (c, db')
    \<and> com_amount c = 0 \<and> led_payouts db' = led_payouts ex_ledger"
proof -
  let ?env = "\<lparr>ce_wallet_id = ''w'', ce_commission_id = ''c2'', ce_now = DateTime 2026 1 1 0, ce_created_at = 5\<rparr>"
  let ?o = "''0123abcd-0123-4567-89ab-0123456789ab''"
  have u: "is_uuid ?o" by code_simp
  then have same: "to_uuid_or_same ?o = ?o" by (simp add: to_uuid_or_same_def is_uuid_def)
  have org: "tbl_get po_id (led_orgs ex_ledger) ?o = Some \<lparr>po_id = ?o, po_rate_override = Some 0\<rparr>"
    by (simp add: ex_ledger_def)
  obtain c db' where r: "credit_commission ?env ?o None None None ex_ledger = Inr (c, db')"
    by (simp add: credit_commission_def same get_or_create_wallet_def insert_row_def ex_ledger_def Let_def)
  from commission_credit_exact [OF ex_ledger_ok u org r] r show ?thesis by auto
qed

text \<open>Approving a pending payout: with at least one rupee and enough balance it succeeds, debits the
  wallet by exactly the amount, transfers the whole rupees of it in paise, and can never be approved
  again; an amount above the balance at approval time is rejected, whatever was checked at the
  request, and below one rupee the transfer raises.\<close>

theorem payout_approval_exact:
  assumes "ledger_ok db" "to_uuid pid = Inr k" "tbl_get out_id (led_payouts db) k = Some po"
    and "out_status po = PAYOUT_PENDING" "tbl_get wal_id (led_wallets db) (out_wallet_id po) = Some w"
    and "by = None \<or> (\<exists>u. to_uuid (the by) = Inr u)"
  shows "(if out_amount po > wal_balance w
       then approve_payout token now pid by db = fail (ValidationError ''insufficient_balance'')
     else if out_amount po < 1 then approve_payout token now pid by db = Inl ValueError
     else \<exists>po2 tr db'. approve_payout token now pid by db = Inr ((po2, tr), db')
       \<and> rpx_amount tr = 100 * floor (out_amount po)
       \<and> tbl_get wal_id (led_wallets db') (wal_id w)
           = Some (w\<lparr>wal_balance := wal_balance w - out_amount po\<rparr>)
       \<and> tbl_get out_id (led_payouts db') k = Some po2 \<and> out_status po2 = PAYOUT_PAID
       \<and> approve_payout token' now' pid by' db' = fail (ValidationError ''payout_not_pending''))"
proof -
  obtain approver where ap: "(case by of None \<Rightarrow> Inr (out_approved_by po)
      | Some a \<Rightarrow> bind_res (to_uuid a) (\<lambda>u. Inr (Some u))) = Inr approver"
    using assms(6) by (cases "by") auto
  have po: "0 < out_amount po" "out_id po = k"
    using assms(1,3) by (auto simp: ledger_ok_def dest: tbl_get_Some)
  have w: "wal_id w = out_wallet_id po" using assms(5) by (auto dest: tbl_get_Some)
  have int: "py_int (out_amount po) = floor (out_amount po)" using po(1) by (simp add: py_int_def)
  have pos: "0 < floor (out_amount po) \<longleftrightarrow> \<not> out_amount po < 1" by linarith
  consider (over) "out_amount po > wal_balance w"
    | (small) "\<not> out_amount po > wal_balance w" "out_amount po < 1"
    | (ok) "\<not> out_amount po > wal_balance w" "\<not> out_amount po < 1" by blast
  then show ?thesis
  proof cases
    case over
    then show ?thesis by (simp add: approve_payout_def assms)
  next
    case small
    with pos have "transfer token (py_int (out_amount po) * PAISE_PER_RUPEE) (out_destination po) = Inl ValueError"
      by (simp add: transfer_def int PAISE_PER_RUPEE_def)
    with small show ?thesis by (simp add: approve_payout_def assms(2-5) ap Let_def)
  next
    case ok
    let ?tr = "\<lparr>rpx_id = ''pout_'' @ token, rpx_amount = floor (out_amount po) * 100,
      rpx_destination = out_destination po\<rparr>"
    have tr: "transfer token (py_int (out_amount po) * PAISE_PER_RUPEE) (out_destination po) = Inr ?tr"
      using ok pos by (simp add: transfer_def int PAISE_PER_RUPEE_def)
    define po2 where "po2 = po\<lparr>out_status := PAYOUT_APPROVED, out_approved_at := Some now,
      out_approved_by := approver, out_razorpayx_id := Some (''pout_'' @ token),
      out_status := PAYOUT_PAID\<rparr>"
    define w' where "w' = w\<lparr>wal_balance := wal_balance w - out_amount po\<rparr>"
    let ?db' = "db\<lparr>led_wallets := tbl_put wal_id w' (led_wallets db),
                  led_payouts := tbl_put out_id po2 (led_payouts db)\<rparr>"
    have run: "approve_payout token now pid by db = Inr ((po2, ?tr), ?db')"
      using ok by (simp add: approve_payout_def assms(2-5) ap tr Let_def po2_def w'_def)
    have got: "tbl_get out_id (led_payouts ?db') k = Some po2"
      "tbl_get wal_id (led_wallets ?db') (wal_id w) = Some w'"
      using assms(3,5) po w by (simp_all add: tbl_get_put po2_def w'_def)
    then have "approve_payout token' now' pid by' ?db' = fail (ValidationError ''payout_not_pending'')"
      by (simp add: approve_payout_def assms(2)) (simp add: po2_def)
    with ok run got show ?thesis by (simp add: w'_def) (simp add: po2_def)
  qed
qed

theorem payout_approval_exact_witness:
  "\<exists>po2 tr db'. approve_payout ''t'' 9 ''0123abcd-0123-4567-89ab-000000000002'' None ex_ledger
      = Inr ((po2, tr), db')
    \<and> rpx_amount tr = 15000 \<and> out_status po2 = PAYOUT_PAID
    \<and> (\<exists>w'. tbl_get wal_id (led_wallets db') ''0123abcd-0123-4567-89ab-000000000001'' = Some w'
         \<and> wal_balance w' = 99 / 2)"
proof -
  let ?k = "''0123abcd-0123-4567-89ab-000000000002''"
  have u: "to_uuid ?k = Inr ?k" by code_simp
  obtain po w where r: "tbl_get out_id (led_payouts ex_ledger) ?k = Some po"
    "out_status po = PAYOUT_PENDING" "tbl_get wal_id (led_wallets ex_ledger) (out_wallet_id po) = Some w"
    "out_amount po = 301 / 2" "wal_balance w = 200" "wal_id w = ''0123abcd-0123-4567-89ab-000000000001''"
    by (simp add: ex_ledger_def)
  have n: "None = None \<or> (\<exists>u. to_uuid (the None) = Inr u)" by simp
  have f: "\<lfloor>301 / 2 :: rat\<rfloor> = 150" by (simp add: floor_eq_iff)
  from payout_approval_exact [OF ex_ledger_ok u r(1-3) n, of "''t''" 9 "''t''" 9 None] r(4-6)
  show ?thesis by (simp add: f) auto
qed

end
