(* ===== verification/Referrals.thy ===== *)
theory Referrals imports Wallets
begin

text \<open>
  The referral program (\<open>app/services/referral_service.py\<close>): reward tiers, recording a referral at
  sign-up and the summary of \<open>GET /referrals\<close>.  The lemmas show that a referrer's one reward row is
  always the tier of the confirmed referrals counted for them, capped at three devices and three
  months, and that one Gmail identity counts once.
\<close>

section \<open>Rows and tables\<close>

record ref_org =
  ro_id :: uuid
  ro_referral_code :: "string option"

record ref_user =
  ru_id :: uuid
  ru_org_id :: uuid
  ru_email :: string
  ru_referred_by :: "uuid option"
  ru_created_at :: timestamp

record referral =
  rl_id :: uuid
  rl_referrer_user_id :: uuid
  rl_referred_user_id :: uuid
  rl_referred_gmail :: "string option"
  rl_status :: string

record referral_reward =
  rr_id :: uuid
  rr_referrer_user_id :: uuid
  rr_devices_granted :: int
  rr_months_granted :: int
  rr_granted_at :: timestamp
  rr_expires_at :: timestamp

record ref_db =
  rd_orgs :: "ref_org list"
  rd_users :: "ref_user list"
  rd_referrals :: "referral list"
  rd_rewards :: "referral_reward list"

section \<open>Reward tiers\<close>

definition CAP_DEVICES :: int where
  "CAP_DEVICES = 3"

definition CAP_MONTHS :: int where
  "CAP_MONTHS = 3"

definition STATUS_CONFIRMED :: string where
  "STATUS_CONFIRMED = ''confirmed''"

definition DAYS_PER_MONTH :: int where
  "DAYS_PER_MONTH = 30"

definition reward_for_referral_count :: "int \<Rightarrow> int \<times> int" where
  "reward_for_referral_count count0 =
     (let count = (if count0 < 0 then 0 else count0);
          (devices, months) =
            (if count \<ge> 6 then (3, 3) else if count \<ge> 2 then (2, 1)
             else if count \<ge> 1 then (1, 1) else (0, 0))
      in (min devices CAP_DEVICES, min months CAP_MONTHS))"

definition normalize_gmail :: "string option \<Rightarrow> string option" where
  "normalize_gmail value_opt =
     (case value_opt of None \<Rightarrow> None
      | Some s \<Rightarrow> if s = [] then None else Some (lower (strip s)))"

section \<open>Operations\<close>

definition upper_char :: "char \<Rightarrow> char" where
  "upper_char c = (let n = of_char c :: nat in if 97 \<le> n \<and> n \<le> 122 then char_of (n - 32) else c)"

text \<open>The hexadecimal text of the random UUID is an argument; a code that is already taken violates
  the unique constraint.\<close>

definition generate_referral_code :: "string \<Rightarrow> string" where
  "generate_referral_code uuid_hex = map upper_char (take 8 uuid_hex)"

definition ensure_referral_code :: "string \<Rightarrow> ref_org \<Rightarrow> ref_db \<Rightarrow> (string \<times> ref_db) result" where
  "ensure_referral_code uuid_hex org db =
     (case ro_referral_code org of
        Some (c # cs) \<Rightarrow> Inr (c # cs, db)
      | _ \<Rightarrow>
          (let code = generate_referral_code uuid_hex
           in if Some code \<in> ro_referral_code ` set (rd_orgs db) then Inl IntegrityError
              else Inr (code,
                db\<lparr>rd_orgs := tbl_put ro_id (org\<lparr>ro_referral_code := Some code\<rparr>) (rd_orgs db)\<rparr>)))"

definition resolve_referrer :: "ref_db \<Rightarrow> string \<Rightarrow> ref_user option" where
  "resolve_referrer db referral_code =
     (let code = strip referral_code in
      if code = [] then None
      else (case tbl_get ro_referral_code (rd_orgs db) (Some code) of
          None \<Rightarrow> None
        | Some org \<Rightarrow>
            (case sort_key ru_created_at (filter (\<lambda>u. ru_org_id u = ro_id org) (rd_users db)) of
               [] \<Rightarrow> None
             | u # us \<Rightarrow> Some u)))"

definition count_confirmed_referrals :: "ref_db \<Rightarrow> uuid \<Rightarrow> int" where
  "count_confirmed_referrals db referrer =
     int (length (filter (\<lambda>r. rl_referrer_user_id r = referrer \<and> rl_status r = STATUS_CONFIRMED)
       (rd_referrals db)))"

definition upsert_reward :: "uuid \<Rightarrow> timestamp \<Rightarrow> uuid \<Rightarrow> int \<Rightarrow> ref_db \<Rightarrow> ref_db result" where
  "upsert_reward fresh_id now referrer count db =
     (let (devices, months) = reward_for_referral_count count;
          reward = tbl_get rr_referrer_user_id (rd_rewards db) referrer
      in if devices = 0 then Inr db
         else
           (let expires_at = now + DAYS_PER_MONTH * months * usec_per_day in
            case reward of
              None \<Rightarrow>
                bind_res (insert_row rr_id \<lparr>rr_id = fresh_id, rr_referrer_user_id = referrer,
                    rr_devices_granted = devices, rr_months_granted = months,
                    rr_granted_at = now, rr_expires_at = expires_at\<rparr> (rd_rewards db))
                  (\<lambda>rewards'. Inr (db\<lparr>rd_rewards := rewards'\<rparr>))
            | Some r \<Rightarrow>
                Inr (db\<lparr>rd_rewards := tbl_put rr_referrer_user_id
                  (r\<lparr>rr_devices_granted := devices, rr_months_granted := months,
                     rr_granted_at := now, rr_expires_at := expires_at\<rparr>) (rd_rewards db)\<rparr>)))"

definition record_referral ::
  "uuid \<Rightarrow> uuid \<Rightarrow> timestamp \<Rightarrow> string \<Rightarrow> ref_user \<Rightarrow> string option \<Rightarrow> ref_db \<Rightarrow> (referral \<times> ref_db) result"
where
  "record_referral fresh_id fresh_reward now referral_code referred_user referred_gmail db =
     (case resolve_referrer db referral_code of
        None \<Rightarrow> fail (ValidationError ''referral_code_invalid'')
      | Some referrer \<Rightarrow>
          if ru_id referrer = ru_id referred_user then fail (ValidationError ''referral_self'')
          else
            (let gmail = normalize_gmail (case referred_gmail of
                   Some (c # cs) \<Rightarrow> Some (c # cs) | _ \<Rightarrow> Some (ru_email referred_user))
             in if gmail \<noteq> None \<and> list_ex (\<lambda>r. rl_referred_gmail r = gmail) (rd_referrals db)
                then fail (ValidationError ''referral_gmail_used'')
                else
                  (let rl = \<lparr>rl_id = fresh_id, rl_referrer_user_id = ru_id referrer,
                       rl_referred_user_id = ru_id referred_user, rl_referred_gmail = gmail,
                       rl_status = STATUS_CONFIRMED\<rparr>
                   in bind_res (insert_row rl_id rl (rd_referrals db)) (\<lambda>referrals'.
                      let db1 = db\<lparr>rd_referrals := referrals',
                            rd_users := tbl_put ru_id
                              (referred_user\<lparr>ru_referred_by := Some (ru_id referrer)\<rparr>) (rd_users db)\<rparr>;
                          count = count_confirmed_referrals db1 (ru_id referrer)
                      in bind_res (upsert_reward fresh_reward now (ru_id referrer) count db1) (\<lambda>db2.
                           Inr (rl, db2))))))"

record referral_summary =
  sm_code :: string
  sm_count :: int
  sm_rewards :: "referral_reward list"

definition get_referral_summary ::
  "string \<Rightarrow> string \<Rightarrow> ref_db \<Rightarrow> (referral_summary \<times> ref_db) result" where
  "get_referral_summary uuid_hex user_id db =
     (case parse_uuid user_id of
        None \<Rightarrow> fail (ValidationError ''validation_error'')
      | Some u \<Rightarrow>
          (case tbl_get ru_id (rd_users db) u of
             None \<Rightarrow> fail (NotFoundError ''not_found'')
           | Some user \<Rightarrow>
               (case tbl_get ro_id (rd_orgs db) (ru_org_id user) of
                  None \<Rightarrow> fail (NotFoundError ''not_found'')
                | Some org \<Rightarrow>
                    bind_res (ensure_referral_code uuid_hex org db) (\<lambda>(code, db').
                      Inr (\<lparr>sm_code = code, sm_count = count_confirmed_referrals db' u,
                              sm_rewards = filter (\<lambda>r. rr_referrer_user_id r = u) (rd_rewards db')\<rparr>,
                             db')))))"

section \<open>The invariant\<close>

definition reward_ok :: "ref_db \<Rightarrow> referral_reward \<Rightarrow> bool" where
  "reward_ok db r =
     ((rr_devices_granted r, rr_months_granted r)
        = reward_for_referral_count (count_confirmed_referrals db (rr_referrer_user_id r))
      \<and> rr_expires_at r = rr_granted_at r + rr_months_granted r * 30 * usec_per_day)"

definition referrals_ok :: "ref_db \<Rightarrow> bool" where
  "referrals_ok db =
     (distinct (map rl_id (rd_referrals db))
      \<and> distinct (filter (\<lambda>g. g \<noteq> None) (map rl_referred_gmail (rd_referrals db)))
      \<and> distinct (map rr_referrer_user_id (rd_rewards db))
      \<and> (\<forall>r \<in> set (rd_rewards db). reward_ok db r)
      \<and> (\<forall>r \<in> set (rd_referrals db). rl_status r = STATUS_CONFIRMED
           \<and> rl_referrer_user_id r \<in> rr_referrer_user_id ` set (rd_rewards db)))"

datatype referral_op =
    Op_record uuid uuid timestamp string ref_user "string option"
  | Op_summary string string

fun referral_step :: "referral_op \<Rightarrow> ref_db \<Rightarrow> ref_db" where
  "referral_step (Op_record k k' now code u gmail) = commit (record_referral k k' now code u gmail)"
| "referral_step (Op_summary hex u) = commit (get_referral_summary hex u)"

section \<open>Lemmas\<close>

lemma reward_table:
  "reward_for_referral_count n =
     (if n \<ge> 6 then (3, 3) else if n \<ge> 2 then (2, 1) else if n \<ge> 1 then (1, 1) else (0, 0))"
  by (simp add: reward_for_referral_count_def CAP_DEVICES_def CAP_MONTHS_def)

lemma upsert_reward_positive:
  assumes "1 \<le> count"
  shows "upsert_reward k now referrer count db =
    (case tbl_get rr_referrer_user_id (rd_rewards db) referrer of
       None \<Rightarrow> bind_res (insert_row rr_id \<lparr>rr_id = k, rr_referrer_user_id = referrer,
           rr_devices_granted = fst (reward_for_referral_count count),
           rr_months_granted = snd (reward_for_referral_count count), rr_granted_at = now,
           rr_expires_at = now + DAYS_PER_MONTH * snd (reward_for_referral_count count) * usec_per_day\<rparr>
           (rd_rewards db)) (\<lambda>rewards'. Inr (db\<lparr>rd_rewards := rewards'\<rparr>))
     | Some r \<Rightarrow> Inr (db\<lparr>rd_rewards := tbl_put rr_referrer_user_id
           (r\<lparr>rr_devices_granted := fst (reward_for_referral_count count),
              rr_months_granted := snd (reward_for_referral_count count), rr_granted_at := now,
              rr_expires_at := now + DAYS_PER_MONTH * snd (reward_for_referral_count count) * usec_per_day\<rparr>)
           (rd_rewards db)\<rparr>))"
  using assms by (auto simp: upsert_reward_def reward_table Let_def split: option.split)

lemma record_Inr:
  assumes "record_referral k k' now code user gmail db = Inr (rl, db')"
  obtains referrer g rewards where
    "resolve_referrer db code = Some referrer" "ru_id referrer \<noteq> ru_id user"
    "rl_referrer_user_id rl = ru_id referrer" "rl_referred_user_id rl = ru_id user"
    "rl_status rl = STATUS_CONFIRMED" "rl_referred_gmail rl = g"
    "g = normalize_gmail (case gmail of Some (c # cs) \<Rightarrow> Some (c # cs) | _ \<Rightarrow> Some (ru_email user))"
    "g \<noteq> None \<Longrightarrow> g \<notin> rl_referred_gmail ` set (rd_referrals db)"
    "rl_id rl \<notin> rl_id ` set (rd_referrals db)"
    "upsert_reward k' now (ru_id referrer) (count_confirmed_referrals db (ru_id referrer) + 1)
       (db\<lparr>rd_referrals := rd_referrals db @ [rl],
           rd_users := tbl_put ru_id (user\<lparr>ru_referred_by := Some (ru_id referrer)\<rparr>) (rd_users db)\<rparr>)
       = Inr db'"
proof -
  obtain referrer where r: "resolve_referrer db code = Some referrer"
    using assms by (cases "resolve_referrer db code") (simp_all add: record_referral_def fail_def)
  have ne: "ru_id referrer \<noteq> ru_id user"
    using assms by (auto simp: record_referral_def r fail_def split: if_splits)
  define g where "g = normalize_gmail (case gmail of Some (c # cs) \<Rightarrow> Some (c # cs) | _ \<Rightarrow> Some (ru_email user))"
  have fresh: "\<not> (g \<noteq> None \<and> list_ex (\<lambda>r. rl_referred_gmail r = g) (rd_referrals db))"
    using assms by (auto simp: record_referral_def r ne g_def [symmetric] Let_def fail_def split: if_splits)
  show thesis
    using assms fresh
    by (intro that [OF r ne, of g])
      (auto simp: record_referral_def r ne g_def [symmetric] Let_def bind_res_eq_Inr insert_row_Inr
        count_confirmed_referrals_def list_ex_iff add.commute)
qed

lemma count_append:
  "rd_referrals db' = rd_referrals db @ [rl] \<Longrightarrow> rl_status rl = STATUS_CONFIRMED \<Longrightarrow>
     count_confirmed_referrals db' u
       = count_confirmed_referrals db u + (if rl_referrer_user_id rl = u then 1 else 0)"
  by (simp add: count_confirmed_referrals_def)

lemma count_nonneg: "0 \<le> count_confirmed_referrals db u"
  by (simp add: count_confirmed_referrals_def)

lemma referrals_ok_record [inv_intros]:
  assumes ok: "referrals_ok db" and rec: "record_referral k k' now code user gmail db = Inr (rl, db')"
  shows "referrals_ok db'"
  using rec
proof (rule record_Inr)
  fix referrer g
  let ?u = "ru_id referrer" and ?n = "count_confirmed_referrals db (ru_id referrer) + 1"
  let ?db1 = "db\<lparr>rd_referrals := rd_referrals db @ [rl],
     rd_users := tbl_put ru_id (user\<lparr>ru_referred_by := Some (ru_id referrer)\<rparr>) (rd_users db)\<rparr>"
  assume a: "rl_referrer_user_id rl = ?u" "rl_status rl = STATUS_CONFIRMED" "rl_referred_gmail rl = g"
    "g \<noteq> None \<Longrightarrow> g \<notin> rl_referred_gmail ` set (rd_referrals db)"
    "rl_id rl \<notin> rl_id ` set (rd_referrals db)" "upsert_reward k' now ?u ?n ?db1 = Inr db'"
  have n: "1 \<le> ?n" using count_nonneg [of db ?u] by simp
  have "\<exists>r'. rr_referrer_user_id r' = ?u
      \<and> (rr_devices_granted r', rr_months_granted r') = reward_for_referral_count ?n
      \<and> rr_expires_at r' = rr_granted_at r' + rr_months_granted r' * 30 * usec_per_day
      \<and> rd_referrals db' = rd_referrals db @ [rl]
      \<and> (?u \<notin> rr_referrer_user_id ` set (rd_rewards db) \<and> rd_rewards db' = rd_rewards db @ [r']
         \<or> ?u \<in> rr_referrer_user_id ` set (rd_rewards db)
           \<and> rd_rewards db' = tbl_put rr_referrer_user_id r' (rd_rewards db))"
  proof (cases "tbl_get rr_referrer_user_id (rd_rewards db) ?u")
    case None
    with a(6) show ?thesis
      unfolding upsert_reward_positive [OF n]
      by (auto simp: bind_res_eq_Inr insert_row_Inr DAYS_PER_MONTH_def tbl_get_None)
  next
    case (Some r)
    then have "?u \<in> rr_referrer_user_id ` set (rd_rewards db)" by (rule tbl_get_key)
    with a(6) Some show ?thesis
      unfolding upsert_reward_positive [OF n]
      by (intro exI [of _ "r\<lparr>rr_devices_granted := fst (reward_for_referral_count ?n),
              rr_months_granted := snd (reward_for_referral_count ?n), rr_granted_at := now,
              rr_expires_at := now + DAYS_PER_MONTH * snd (reward_for_referral_count ?n) * usec_per_day\<rparr>"])
        (auto simp: DAYS_PER_MONTH_def dest: tbl_get_Some)
  qed
  then obtain r' where r': "rr_referrer_user_id r' = ?u"
      "(rr_devices_granted r', rr_months_granted r') = reward_for_referral_count ?n"
      "rr_expires_at r' = rr_granted_at r' + rr_months_granted r' * 30 * usec_per_day"
      and refs: "rd_referrals db' = rd_referrals db @ [rl]"
      and rew: "?u \<notin> rr_referrer_user_id ` set (rd_rewards db) \<and> rd_rewards db' = rd_rewards db @ [r']
         \<or> ?u \<in> rr_referrer_user_id ` set (rd_rewards db)
           \<and> rd_rewards db' = tbl_put rr_referrer_user_id r' (rd_rewards db)" by blast
  have keys: "distinct (map rr_referrer_user_id (rd_rewards db'))"
    "rr_referrer_user_id ` set (rd_rewards db') = insert ?u (rr_referrer_user_id ` set (rd_rewards db))"
    using rew ok r'(1) by (auto simp: referrals_ok_def simp flip: set_map)
  have rewards: "reward_ok db' x" if "x \<in> set (rd_rewards db')" for x
  proof (cases "x = r'")
    case True
    with r' show ?thesis by (simp add: reward_ok_def count_append [OF refs a(2)] a(1))
  next
    case False
    with that rew r'(1) have "x \<in> set (rd_rewards db) \<and> rr_referrer_user_id x \<noteq> ?u"
      by (auto simp: tbl_put_def split: if_splits) (metis image_eqI)
    with ok show ?thesis
      by (auto simp: referrals_ok_def reward_ok_def count_append [OF refs a(2)] a(1))
  qed
  have "distinct (filter (\<lambda>g. g \<noteq> None) (map rl_referred_gmail (rd_referrals db')))"
    using ok a(3,4) by (auto simp: referrals_ok_def refs)
  with ok keys rewards a(1,2,5) refs show ?thesis
    by (auto simp: referrals_ok_def)
qed

lemma referrals_ok_summary [inv_intros]:
  assumes "referrals_ok db" "get_referral_summary hex u db = Inr (sm, db')"
  shows "referrals_ok db'"
proof -
  have "rd_referrals db' = rd_referrals db \<and> rd_rewards db' = rd_rewards db"
    using assms(2)
    by (auto simp: get_referral_summary_def ensure_referral_code_def fail_def Let_def bind_res_eq_Inr
        split: option.splits list.splits if_splits)
  with assms(1) show ?thesis
    by (auto simp: referrals_ok_def reward_ok_def count_confirmed_referrals_def)
qed

lemma referral_step_ok: "referrals_ok db \<Longrightarrow> referrals_ok (referral_step op db)"
  by (cases op) (auto simp: commit_def intro: inv_intros split: sum.split)

interpretation rs: guarded_system referral_step "\<lambda>_. True" referrals_ok
  by unfold_locales (simp add: referral_step_ok)

section \<open>Properties\<close>

text \<open>Referral rewards track the tiers: over any run of sign-up referrals and summaries, starting
  without referrals, every referrer has at most one reward row, its grant is the tier of the
  referrals confirmed for them so far (never above three devices and three months), it lasts thirty
  days per granted month, and no Gmail identity is counted twice.\<close>

theorem referral_rewards_track_tiers:
  "referrals_ok (run_ops referral_step ops
      \<lparr>rd_orgs = orgs, rd_users = users, rd_referrals = [], rd_rewards = []\<rparr>)
   \<and> reward_for_referral_count n =
      (if 6 \<le> n then (3, 3) else if 2 \<le> n then (2, 1) else if 1 \<le> n then (1, 1) else (0, 0))"
proof
  show "referrals_ok (run_ops referral_step ops
      \<lparr>rd_orgs = orgs, rd_users = users, rd_referrals = [], rd_rewards = []\<rparr>)"
    by (rule rs.run_inv) (simp_all add: referrals_ok_def list_all_iff)
qed (rule reward_table)

text \<open>A recorded referral is genuine: the code belongs to an organization with users, the referrer is
  its earliest user and somebody other than the referred one, the Gmail identity was not counted
  before, and recording the same identity again is refused.\<close>

theorem referral_recorded_once:
  assumes "record_referral k k' now code user gmail db = Inr (rl, db')" "ru_email user \<noteq> []"
  shows "rl_referrer_user_id rl \<noteq> ru_id user
    \<and> (\<exists>org u. ro_referral_code org = Some (strip code) \<and> org \<in> set (rd_orgs db)
         \<and> u \<in> set (rd_users db) \<and> ru_org_id u = ro_id org \<and> ru_id u = rl_referrer_user_id rl)
    \<and> rl_referred_gmail rl \<notin> rl_referred_gmail ` set (rd_referrals db)
    \<and> rd_referrals db' = rd_referrals db @ [rl]
    \<and> (\<exists>e. record_referral k2 k2' now2 code2 user gmail db' = Inl e)"
  using assms(1)
proof (rule record_Inr)
  fix referrer g
  assume a: "resolve_referrer db code = Some referrer" "ru_id referrer \<noteq> ru_id user"
    "rl_referrer_user_id rl = ru_id referrer" "rl_referred_gmail rl = g"
    "g = normalize_gmail (case gmail of Some (c # cs) \<Rightarrow> Some (c # cs) | _ \<Rightarrow> Some (ru_email user))"
    "g \<noteq> None \<Longrightarrow> g \<notin> rl_referred_gmail ` set (rd_referrals db)"
    "upsert_reward k' now (ru_id referrer) (count_confirmed_referrals db (ru_id referrer) + 1)
       (db\<lparr>rd_referrals := rd_referrals db @ [rl],
           rd_users := tbl_put ru_id (user\<lparr>ru_referred_by := Some (ru_id referrer)\<rparr>) (rd_users db)\<rparr>)
       = Inr db'"
  have g: "g \<noteq> None"
    using assms(2) by (auto simp: a(5) normalize_gmail_def split: option.splits list.splits)
  obtain org us where org: "tbl_get ro_referral_code (rd_orgs db) (Some (strip code)) = Some org"
    "sort_key ru_created_at (filter (\<lambda>u. ru_org_id u = ro_id org) (rd_users db)) = referrer # us"
    using a(1) by (auto simp: resolve_referrer_def Let_def split: if_splits option.splits list.splits)
  have "referrer \<in> set (filter (\<lambda>u. ru_org_id u = ro_id org) (rd_users db))"
    using org(2) by (metis list.set_intros(1) set_sort)
  moreover have refs: "rd_referrals db' = rd_referrals db @ [rl]"
    using a(7) count_nonneg [of db "ru_id referrer"]
    by (subst (asm) upsert_reward_positive) (auto simp: bind_res_eq_Inr split: option.splits)
  moreover have "\<exists>e. record_referral k2 k2' now2 code2 user gmail db' = Inl e"
  proof (cases "record_referral k2 k2' now2 code2 user gmail db'")
    case (Inr r)
    obtain rl2 db2 where "r = (rl2, db2)" by (cases r)
    from Inr [unfolded this] have False
      by (rule record_Inr) (use g in \<open>simp add: a(4) refs flip: a(5)\<close>)
    then show ?thesis ..
  qed simp
  ultimately show ?thesis
    using org(1) a g by (auto dest: tbl_get_Some)
qed

definition ex_refs :: ref_db where
  "ex_refs = \<lparr>rd_orgs = [\<lparr>ro_id = ''o1'', ro_referral_code = Some ''ABCD1234''\<rparr>],
     rd_users = [\<lparr>ru_id = ''u1'', ru_org_id = ''o1'', ru_email = ''a@x'', ru_referred_by = None,
                  ru_created_at = 0\<rparr>],
     rd_referrals = [], rd_rewards = []\<rparr>"

theorem referral_recorded_once_witness:
  "\<exists>rl db'. record_referral ''r1'' ''w1'' 5 '' ABCD1234'' \<lparr>ru_id = ''u2'', ru_org_id = ''o2'',
       ru_email = ''B@x'', ru_referred_by = None, ru_created_at = 5\<rparr> None ex_refs = Inr (rl, db')
    \<and> rl_referrer_user_id rl \<noteq> ''u2'' \<and> rd_referrals db' = [rl]"
proof -
  let ?u = "\<lparr>ru_id = ''u2'', ru_org_id = ''o2'', ru_email = ''B@x'', ru_referred_by = None,
    ru_created_at = 5\<rparr>"
  have s: "strip '' ABCD1234'' = ''ABCD1234''" by code_simp
  obtain rl db' where r: "record_referral ''r1'' ''w1'' 5 '' ABCD1234'' ?u None ex_refs = Inr (rl, db')"
    by (simp add: record_referral_def resolve_referrer_def s ex_refs_def Let_def insert_row_def
        count_confirmed_referrals_def upsert_reward_def reward_table STATUS_CONFIRMED_def)
  from referral_recorded_once [OF r] r show ?thesis by (simp add: ex_refs_def)
qed

end
