(* ===== verification/Tokens.thy ===== *)
theory Tokens imports Access Redis Redis_Names "HOL-Library.Countable"
begin

text \<open>
  Access and refresh tokens (\<open>app/core/security/jwt.py\<close>) and the principal of a bearer header
  (\<open>app/core/security/deps.py\<close>).  PyJWT is a parameter: a record of its encoder and decoder under
  the configured secret and algorithm, of which the locale \<open>jwt_codec\<close> assumes only that a token it
  encoded decodes to its claims until it expires.  The refresh-token store is Redis, through the
  locale \<open>redis_keys\<close>.  The lemmas show that refresh tokens are good for one use, that logout kills
  them, and that the two kinds of token cannot stand in for each other.
\<close>

section \<open>Claims and the codec\<close>

definition ACCESS_TOKEN_TYPE :: string where
  "ACCESS_TOKEN_TYPE = ''access''"

definition REFRESH_TOKEN_TYPE :: string where
  "REFRESH_TOKEN_TYPE = ''refresh''"

text \<open>The claims a payload may hold.  \<open>sub\<close>, \<open>iat\<close> and \<open>exp\<close> are required by the decoder's options.\<close>

datatype jwt_claims = JwtClaims
  (c_sub: string) (c_iat: int) (c_exp: int) (c_org_id: "string option") (c_role: "string option")
  (c_email: "string option") (c_jti: "string option") (c_typ: "string option")

text \<open>Times are in microseconds where Redis and the decoder read the clock, in seconds in claims.\<close>

record jwt_lib =
  jwt_encode :: "jwt_claims \<Rightarrow> string"
  jwt_decode :: "timestamp \<Rightarrow> string \<Rightarrow> jwt_claims option"

definition epoch :: "timestamp \<Rightarrow> int" where
  "epoch t = t div 1000000"

locale jwt_codec =
  fixes J :: jwt_lib
  assumes decode_encode:
    "usec (c_iat c) \<le> now \<Longrightarrow>
       jwt_decode J now (jwt_encode J c) = (if now < usec (c_exp c) then Some c else None)"

text \<open>A codec for witnesses: the claims numbered and written in unary.\<close>

instance jwt_claims :: countable
  by countable_datatype

definition unary_jwt :: jwt_lib where
  "unary_jwt = \<lparr>jwt_encode = (\<lambda>c. replicate (to_nat c) (CHR ''j'')),
     jwt_decode = (\<lambda>now s. let c = from_nat (length s) in
        if usec (c_iat c) \<le> now \<and> now < usec (c_exp c) then Some c else None)\<rparr>"

interpretation uj: jwt_codec unary_jwt
  by unfold_locales (simp add: unary_jwt_def)

section \<open>Access tokens\<close>

record jwt_settings =
  access_ttl :: int
  refresh_ttl :: int

definition create_access_token ::
  "jwt_lib \<Rightarrow> jwt_settings \<Rightarrow> timestamp \<Rightarrow> string \<Rightarrow> string \<Rightarrow> string \<Rightarrow> string \<Rightarrow> string \<Rightarrow> string" where
  "create_access_token J cfg now jti user_id org_id rl email =
     (let iat = epoch now; exp = iat + access_ttl cfg
      in jwt_encode J (JwtClaims user_id iat exp (Some org_id) (Some rl) (Some email) (Some jti)
           (Some ACCESS_TOKEN_TYPE)))"

record access_claims =
  ac_sub :: string
  ac_org_id :: string
  ac_role :: string
  ac_iat :: int
  ac_exp :: int
  ac_jti :: string

definition decode_access_token :: "jwt_lib \<Rightarrow> timestamp \<Rightarrow> string \<Rightarrow> access_claims result" where
  "decode_access_token J now token =
     (case jwt_decode J now token of
        None \<Rightarrow> Inl TokenError
      | Some c \<Rightarrow>
          if c_typ c \<noteq> Some ACCESS_TOKEN_TYPE then Inl TokenError
          else (case (c_org_id c, c_role c, c_jti c) of
              (Some org_id, Some rl, Some jti) \<Rightarrow>
                Inr \<lparr>ac_sub = c_sub c, ac_org_id = org_id, ac_role = rl, ac_iat = c_iat c,
                     ac_exp = c_exp c, ac_jti = jti\<rparr>
            | _ \<Rightarrow> Inl TokenError))"

text \<open>\<open>authorization.split(" ", 1)[1].strip()\<close>, after the test for the "bearer " prefix.\<close>

definition bearer_token :: "string \<Rightarrow> string" where
  "bearer_token authorization = strip (drop 1 (dropWhile (\<lambda>c. c \<noteq> CHR '' '') authorization))"

definition principal_from_authorization ::
  "jwt_lib \<Rightarrow> timestamp \<Rightarrow> string option \<Rightarrow> principal result" where
  "principal_from_authorization J now authorization =
     (case authorization of
        None \<Rightarrow> fail (AuthenticationError ''missing_token'')
      | Some a \<Rightarrow>
          if a = [] \<or> \<not> starts_with (lower a) ''bearer '' then fail (AuthenticationError ''missing_token'')
          else (case decode_access_token J now (bearer_token a) of
              Inl e \<Rightarrow> fail (AuthenticationError ''invalid_token'')
            | Inr c \<Rightarrow> Inr \<lparr>pr_user_id = ac_sub c, pr_org_id = ac_org_id c, pr_role = ac_role c\<rparr>))"

section \<open>Refresh tokens\<close>

definition refresh_token_key :: "string \<Rightarrow> string" where
  "refresh_token_key jti = key_text (RefreshToken jti)"

definition create_refresh_jwt ::
  "jwt_lib \<Rightarrow> jwt_settings \<Rightarrow> timestamp \<Rightarrow> string \<Rightarrow> string \<Rightarrow> string \<Rightarrow> string \<Rightarrow> string" where
  "create_refresh_jwt J cfg now jti user_id org_id rl =
     (let iat = epoch now; exp = iat + refresh_ttl cfg
      in jwt_encode J (JwtClaims user_id iat exp (Some org_id) (Some rl) None (Some jti)
           (Some REFRESH_TOKEN_TYPE)))"

text \<open>The store is \<open>None\<close> when no Redis client is configured.\<close>

definition issue_refresh_token ::
  "jwt_lib \<Rightarrow> ('m, string, string) kv_cmds \<Rightarrow> jwt_settings \<Rightarrow> timestamp \<Rightarrow> string \<Rightarrow> string \<Rightarrow> string
     \<Rightarrow> string \<Rightarrow> 'm option \<Rightarrow> string \<times> 'm option" where
  "issue_refresh_token J K cfg now jti user_id org_id rl redis =
     (let token = create_refresh_jwt J cfg now jti user_id org_id rl
      in (token, map_option
            (kv_set K now (refresh_token_key jti) user_id (Some (refresh_ttl cfg))) redis))"

definition decode_refresh_jwt :: "jwt_lib \<Rightarrow> timestamp \<Rightarrow> string \<Rightarrow> jwt_claims result" where
  "decode_refresh_jwt J now token =
     (case jwt_decode J now token of
        None \<Rightarrow> Inl TokenError
      | Some c \<Rightarrow> if c_typ c \<noteq> Some REFRESH_TOKEN_TYPE then Inl TokenError else Inr c)"

definition revoke_refresh_token ::
  "jwt_lib \<Rightarrow> ('m, string, string) kv_cmds \<Rightarrow> timestamp \<Rightarrow> string \<Rightarrow> 'm option
     \<Rightarrow> (bool \<times> 'm option) result" where
  "revoke_refresh_token J K now token redis =
     (case decode_refresh_jwt J now token of
        Inl e \<Rightarrow> Inr (False, redis)
      | Inr c \<Rightarrow>
          (case redis of
             None \<Rightarrow> Inr (False, redis)
           | Some m \<Rightarrow>
               (case c_jti c of
                  None \<Rightarrow> Inl KeyError
                | Some jti \<Rightarrow>
                    (let (removed, m') = kv_del K now (refresh_token_key jti) m
                     in Inr (removed, Some m')))))"

definition rotate_refresh_token ::
  "jwt_lib \<Rightarrow> ('m, string, string) kv_cmds \<Rightarrow> jwt_settings \<Rightarrow> timestamp \<Rightarrow> string \<Rightarrow> string
     \<Rightarrow> string \<Rightarrow> 'm option \<Rightarrow> py_exc + (string \<times> string) \<times> 'm option" where
  "rotate_refresh_token J K cfg now access_jti refresh_jti token redis =
     bind_res (decode_refresh_jwt J now token) (\<lambda>c.
       case c_jti c of
         None \<Rightarrow> Inl KeyError
       | Some jti \<Rightarrow>
           (case redis of
              None \<Rightarrow> Inl TokenError
            | Some m \<Rightarrow>
                (let (exists, m') = kv_del K now (refresh_token_key jti) m
                 in if \<not> exists then Inl TokenError
                    else
                      (let user_id = c_sub c;
                           org_id = (case c_org_id c of None \<Rightarrow> [] | Some s \<Rightarrow> s);
                           rl = (case c_role c of None \<Rightarrow> [] | Some s \<Rightarrow> s);
                           email = (case c_email c of None \<Rightarrow> [] | Some s \<Rightarrow> s);
                           access = create_access_token J cfg now access_jti user_id org_id rl email;
                           (new_refresh, redis') = issue_refresh_token J K cfg now refresh_jti
                              user_id org_id rl (Some m')
                       in Inr ((access, new_refresh), redis')))))"

section \<open>Lemmas\<close>

lemma token_types [simp]: "ACCESS_TOKEN_TYPE \<noteq> REFRESH_TOKEN_TYPE" "REFRESH_TOKEN_TYPE \<noteq> ACCESS_TOKEN_TYPE"
  by (simp_all add: ACCESS_TOKEN_TYPE_def REFRESH_TOKEN_TYPE_def)

lemma epoch_le [simp]: "usec (epoch t) \<le> t"
  by (simp add: usec_def epoch_def)

lemma epoch_le_trans: "t \<le> t' \<Longrightarrow> usec (epoch t) \<le> t'"
  using epoch_le order_trans by blast

lemma refresh_key_inject [simp]: "refresh_token_key a = refresh_token_key b \<longleftrightarrow> a = b"
  by (simp add: refresh_token_key_def key_of_def)

text \<open>When a token minted at \<open>t0\<close> with a time to live is still valid.\<close>

definition fresh_at :: "timestamp \<Rightarrow> int \<Rightarrow> timestamp \<Rightarrow> bool" where
  "fresh_at t0 ttl t = (t < usec (epoch t0 + ttl))"

lemma fresh_alive: "fresh_at t0 ttl t \<Longrightarrow> alive t0 (Some ttl) t"
  using epoch_le [of t0] by (simp add: fresh_at_def usec_def)

context jwt_codec
begin

lemma decode_refresh:
  assumes "t0 \<le> t"
  shows "decode_refresh_jwt J t (create_refresh_jwt J cfg t0 jti u org rl) =
    (if fresh_at t0 (refresh_ttl cfg) t
     then Inr (JwtClaims u (epoch t0) (epoch t0 + refresh_ttl cfg) (Some org) (Some rl) None (Some jti)
                 (Some REFRESH_TOKEN_TYPE))
     else Inl TokenError)"
  using assms
  by (simp add: decode_refresh_jwt_def create_refresh_jwt_def decode_encode epoch_le_trans fresh_at_def Let_def)

lemma decode_access:
  assumes "t0 \<le> t"
  shows "decode_access_token J t (create_access_token J cfg t0 jti u org rl email) =
    (if fresh_at t0 (access_ttl cfg) t
     then Inr \<lparr>ac_sub = u, ac_org_id = org, ac_role = rl, ac_iat = epoch t0,
               ac_exp = epoch t0 + access_ttl cfg, ac_jti = jti\<rparr>
     else Inl TokenError)"
  using assms
  by (simp add: decode_access_token_def create_access_token_def decode_encode epoch_le_trans fresh_at_def Let_def)

lemma types_do_not_mix:
  assumes "t0 \<le> t"
  shows "decode_access_token J t (create_refresh_jwt J cfg t0 jti u org rl) = Inl TokenError"
    "decode_refresh_jwt J t (create_access_token J cfg t0 jti u org rl email) = Inl TokenError"
  using assms
  by (simp_all add: decode_access_token_def decode_refresh_jwt_def create_access_token_def
      create_refresh_jwt_def decode_encode epoch_le_trans Let_def)

end

text \<open>The record under a refresh key decides whether its token still rotates.\<close>

lemma rotate_refresh:
  assumes "jwt_codec J" "redis_keys K" "t0 \<le> t"
  shows "rotate_refresh_token J K cfg t aj rj (create_refresh_jwt J cfg0 t0 jti u org rl) (Some m) =
    (if fresh_at t0 (refresh_ttl cfg0) t \<and> kv_get K t m (refresh_token_key jti) \<noteq> None
     then Inr ((create_access_token J cfg t aj u org rl [], create_refresh_jwt J cfg t rj u org rl),
            Some (kv_set K t (refresh_token_key rj) u (Some (refresh_ttl cfg))
               (snd (kv_del K t (refresh_token_key jti) m))))
     else Inl TokenError)"
proof -
  obtain ex m' where d: "kv_del K t (refresh_token_key jti) m = (ex, m')" by fastforce
  have "ex = (kv_get K t m (refresh_token_key jti) \<noteq> None)"
    using redis_keys.del_result [OF assms(2), of t "refresh_token_key jti" m] by (simp add: d)
  then show ?thesis
    using assms(3) jwt_codec.decode_refresh [OF assms(1)]
    by (auto simp: rotate_refresh_token_def issue_refresh_token_def Let_def d)
qed

lemma revoke_refresh:
  assumes "jwt_codec J" "redis_keys K" "t0 \<le> t"
  shows "revoke_refresh_token J K t (create_refresh_jwt J cfg0 t0 jti u org rl) (Some m) =
    (if fresh_at t0 (refresh_ttl cfg0) t
     then Inr (kv_get K t m (refresh_token_key jti) \<noteq> None,
               Some (snd (kv_del K t (refresh_token_key jti) m)))
     else Inr (False, Some m))"
proof -
  obtain ex m' where d: "kv_del K t (refresh_token_key jti) m = (ex, m')" by fastforce
  have "ex = (kv_get K t m (refresh_token_key jti) \<noteq> None)"
    using redis_keys.del_result [OF assms(2), of t "refresh_token_key jti" m] by (simp add: d)
  then show ?thesis
    using assms(3) jwt_codec.decode_refresh [OF assms(1)]
    by (auto simp: revoke_refresh_token_def d)
qed

section \<open>Properties\<close>

text \<open>C3. A refresh token is good for one use: while it is fresh, rotating it gives an access token for
  the same user, organization and role and a new refresh token, and after that the same token is
  refused for ever, however often it is tried.  The access token minted by a rotation carries no
  e-mail, because refresh tokens do not.\<close>

theorem refresh_rotates_once:
  assumes "jwt_codec J" "redis_keys K"
    and "t0 \<le> t1" "t1 \<le> t2" "fresh_at t0 (refresh_ttl cfg) t1" "rj \<noteq> jti"
    and "issue_refresh_token J K cfg t0 jti u org rl (Some m) = (tok, m1)"
  shows "\<exists>new m2. rotate_refresh_token J K cfg t1 aj rj tok m1
        = Inr ((create_access_token J cfg t1 aj u org rl [], new), Some m2)
      \<and> new = create_refresh_jwt J cfg t1 rj u org rl
      \<and> kv_get K t1 m2 (refresh_token_key jti) = None
      \<and> rotate_refresh_token J K cfg t2 aj2 rj2 tok (Some m2) = Inl TokenError"
proof -
  let ?k = "refresh_token_key jti" and ?k' = "refresh_token_key rj"
  let ?m1 = "kv_set K t0 ?k u (Some (refresh_ttl cfg)) m"
  define m2 where "m2 = kv_set K t1 ?k' u (Some (refresh_ttl cfg)) (snd (kv_del K t1 ?k ?m1))"
  have tok: "tok = create_refresh_jwt J cfg t0 jti u org rl" "m1 = Some ?m1"
    using assms(7) by (simp_all add: issue_refresh_token_def Let_def)
  have "kv_get K t1 ?m1 ?k = Some u"
    using assms(3) fresh_alive [OF assms(5)] by (simp add: redis_keys.get_set [OF assms(2)])
  then have run: "rotate_refresh_token J K cfg t1 aj rj tok m1
      = Inr ((create_access_token J cfg t1 aj u org rl [], create_refresh_jwt J cfg t1 rj u org rl), Some m2)"
    using assms(5) by (simp add: tok rotate_refresh [OF assms(1-3)] m2_def)
  have gone: "kv_get K t m2 ?k = None" if "t1 \<le> t" for t
    using assms(6) that
    by (simp add: m2_def redis_keys.get_set [OF assms(2)] redis_keys.get_del [OF assms(2)])
  have "t0 \<le> t2" using assms(3,4) by simp
  then have "rotate_refresh_token J K cfg t2 aj2 rj2 tok (Some m2) = Inl TokenError"
    using gone [OF assms(4)] by (simp add: tok rotate_refresh [OF assms(1,2)])
  with run gone [of t1] show ?thesis by blast
qed

theorem refresh_rotates_once_witness:
  defines "cfg \<equiv> \<lparr>access_ttl = 900, refresh_ttl = 2592000\<rparr>"
  shows "\<exists>tok m1 new m2. issue_refresh_token unary_jwt ttl_maps cfg 5 ''a'' ''u'' ''o'' ''r''
        (Some Map.empty) = (tok, m1)
      \<and> rotate_refresh_token unary_jwt ttl_maps cfg 1000007 ''b'' ''c'' tok m1
        = Inr ((create_access_token unary_jwt cfg 1000007 ''b'' ''u'' ''o'' ''r'' [], new), Some m2)
      \<and> rotate_refresh_token unary_jwt ttl_maps cfg 2000000 ''d'' ''e'' tok (Some m2) = Inl TokenError"
proof -
  obtain tok m1 where i: "issue_refresh_token unary_jwt ttl_maps cfg 5 ''a'' ''u'' ''o'' ''r''
        (Some Map.empty) = (tok, m1)" by fastforce
  have f: "fresh_at 5 (refresh_ttl cfg) 1000007" by (simp add: fresh_at_def cfg_def epoch_def usec_def)
  from refresh_rotates_once [OF uj.jwt_codec_axioms tm.redis_keys_axioms _ _ f _ i,
      of 2000000 "''c''" "''b''" "''d''" "''e''"] i
  show ?thesis by auto
qed

text \<open>Logout and expiry end a session: after a logout, or once its lifetime has passed, a refresh
  token is refused at any later time, whatever the store holds besides; and a second logout with the
  same token removes nothing.\<close>

theorem refresh_ends_with_logout_or_expiry:
  assumes "jwt_codec J" "redis_keys K" "t0 \<le> t1" "t1 \<le> t2"
    and tok_def: "tok = create_refresh_jwt J cfg t0 jti u org rl"
  shows "(\<exists>b m'. revoke_refresh_token J K t1 tok (Some m) = Inr (b, Some m')
        \<and> (\<not> fresh_at t0 (refresh_ttl cfg) t1 \<or> b = (kv_get K t1 m (refresh_token_key jti) \<noteq> None))
        \<and> rotate_refresh_token J K cfg t2 aj rj tok (Some m') = Inl TokenError
        \<and> (\<exists>m''. revoke_refresh_token J K t2 tok (Some m') = Inr (False, m'')))
     \<and> (fresh_at t0 (refresh_ttl cfg) t1
        \<or> rotate_refresh_token J K cfg t1 aj rj tok (Some m) = Inl TokenError)"
proof -
  let ?k = "refresh_token_key jti"
  have t02: "t0 \<le> t2" using assms by simp
  show ?thesis
  proof (cases "fresh_at t0 (refresh_ttl cfg) t1")
    case True
    let ?m' = "snd (kv_del K t1 ?k m)"
    have rev: "revoke_refresh_token J K t1 tok (Some m) = Inr (kv_get K t1 m ?k \<noteq> None, Some ?m')"
      using True assms(3) by (simp add: revoke_refresh [OF assms(1,2)] tok_def)
    have gone: "kv_get K t2 ?m' ?k = None"
      using assms(4) by (simp add: redis_keys.get_del [OF assms(2)])
    have "\<exists>m''. revoke_refresh_token J K t2 tok (Some ?m') = Inr (False, m'')"
      using t02 gone by (simp add: revoke_refresh [OF assms(1,2)] tok_def)
    with True rev gone t02 show ?thesis
      by (simp add: rotate_refresh [OF assms(1,2)] tok_def)
  next
    case False
    then have late: "\<not> fresh_at t0 (refresh_ttl cfg) t2" using assms(4) by (simp add: fresh_at_def)
    with False assms(3) t02 show ?thesis
      by (auto simp: revoke_refresh [OF assms(1,2)] rotate_refresh [OF assms(1,2)] tok_def)
  qed
qed

theorem refresh_ends_with_logout_or_expiry_witness:
  defines "cfg \<equiv> \<lparr>access_ttl = 900, refresh_ttl = 1\<rparr>"
  defines "tok \<equiv> create_refresh_jwt unary_jwt cfg 0 ''j'' ''u'' ''o'' ''r''"
  shows "\<exists>b m'. revoke_refresh_token unary_jwt ttl_maps 5 tok (Some Map.empty) = Inr (b, Some m')
      \<and> rotate_refresh_token unary_jwt ttl_maps cfg 6 ''a'' ''b'' tok (Some m') = Inl TokenError"
  using refresh_ends_with_logout_or_expiry [OF uj.jwt_codec_axioms tm.redis_keys_axioms,
      of 0 5 6 tok cfg "''j''" "''u''" "''o''" "''r''" Map.empty "''a''" "''b''"]
  by (auto simp: tok_def)

text \<open>The principal of a request is the one its access token was issued to: a bearer header with an
  unexpired access token yields exactly the user, organization and role of its issue and an expired
  one yields 401; a refresh token never authenticates a request, and an access token never rotates.\<close>

theorem bearer_principal_exact:
  assumes "jwt_codec J" "t0 \<le> t"
    and "strip (create_access_token J cfg t0 jti u org rl email) = create_access_token J cfg t0 jti u org rl email"
    and "strip (create_refresh_jwt J cfg t0 jti u org rl) = create_refresh_jwt J cfg t0 jti u org rl"
  shows "principal_from_authorization J t (Some (''Bearer '' @ create_access_token J cfg t0 jti u org rl email))
      = (if fresh_at t0 (access_ttl cfg) t
         then Inr \<lparr>pr_user_id = u, pr_org_id = org, pr_role = rl\<rparr>
         else fail (AuthenticationError ''invalid_token''))
    \<and> principal_from_authorization J t (Some (''Bearer '' @ create_refresh_jwt J cfg t0 jti u org rl))
      = fail (AuthenticationError ''invalid_token'')
    \<and> rotate_refresh_token J K cfg t aj rj (create_access_token J cfg t0 jti u org rl email) redis
      = Inl TokenError"
proof -
  have bearer: "starts_with (lower (''Bearer '' @ tok)) ''bearer ''"
    "bearer_token (''Bearer '' @ tok) = strip tok" for tok
  proof -
    have "lower ''Bearer '' = ''bearer ''" by code_simp
    then show "starts_with (lower (''Bearer '' @ tok)) ''bearer ''"
      by (simp add: lower_def del: append_Cons)
    show "bearer_token (''Bearer '' @ tok) = strip tok" by (simp add: bearer_token_def)
  qed
  show ?thesis
    using assms(2-4) jwt_codec.decode_access [OF assms(1,2)] jwt_codec.types_do_not_mix [OF assms(1,2)]
      bearer
    by (simp add: principal_from_authorization_def rotate_refresh_token_def del: append_Cons append_Nil)
qed

theorem bearer_principal_exact_witness:
  defines "cfg \<equiv> \<lparr>access_ttl = 900, refresh_ttl = 2592000\<rparr>"
  shows "principal_from_authorization unary_jwt 1000000
      (Some (''Bearer '' @ create_access_token unary_jwt cfg 5 ''j'' ''u'' ''o'' ''r'' ''e''))
    = Inr \<lparr>pr_user_id = ''u'', pr_org_id = ''o'', pr_role = ''r''\<rparr>"
proof -
  have "strip (replicate n (CHR ''j'')) = replicate n (CHR ''j'')" for n
    by (rule strip_no_space) (simp add: is_space_def split: if_splits)
  then have s: "strip (create_access_token unary_jwt cfg 5 ''j'' ''u'' ''o'' ''r'' ''e'')
      = create_access_token unary_jwt cfg 5 ''j'' ''u'' ''o'' ''r'' ''e''"
    "strip (create_refresh_jwt unary_jwt cfg 5 ''j'' ''u'' ''o'' ''r'')
      = create_refresh_jwt unary_jwt cfg 5 ''j'' ''u'' ''o'' ''r''"
    by (simp_all add: create_access_token_def create_refresh_jwt_def unary_jwt_def Let_def)
  have "fresh_at 5 (access_ttl cfg) 1000000" by (simp add: fresh_at_def cfg_def epoch_def usec_def)
  with bearer_principal_exact [OF uj.jwt_codec_axioms _ s, of 1000000, THEN conjunct1]
  show ?thesis by (simp del: append_Cons append_Nil)
qed

end
