(* ===== verification/Auth.thy ===== *)
theory Auth imports Tokens Referrals
begin

text \<open>
  The Auth_Service endpoints (\<open>app/api/v1/auth.py\<close>), password handling
  (\<open>app/core/security/password.py\<close>), TOTP checks (\<open>app/core/security/totp.py\<close>) and the company and
  user management of \<open>app/services/admin_service.py\<close> that signs users in and out.  Argon2, pyotp and
  Google's verifier are parameters: the record \<open>crypto\<close> holds the functions the code calls, with the
  random salt and secret as arguments.  The rows of users and organizations carry the columns these
  endpoints use; the referral program keeps its own columns of the same rows in \<open>au_refs\<close>.
\<close>

section \<open>Passwords and one-time codes\<close>

record crypto =
  argon2_hash :: "string \<Rightarrow> string \<Rightarrow> string"
  argon2_verify :: "string \<Rightarrow> string \<Rightarrow> bool"
  totp_verify :: "string \<Rightarrow> string \<Rightarrow> bool"
  google_claims :: "string \<Rightarrow> (string option \<times> bool) option"

definition CURRENT_FORMAT :: string where
  "CURRENT_FORMAT = ''argon2''"

definition SUPPORTED_FORMATS :: "string set" where
  "SUPPORTED_FORMATS = {''argon2''}"

definition ARGON2_PREFIX :: string where
  "ARGON2_PREFIX = ''$argon2''"

definition hash_password :: "crypto \<Rightarrow> string \<Rightarrow> string \<Rightarrow> string result" where
  "hash_password C salt plaintext =
     (if plaintext = [] then Inl ValueError else Inr (argon2_hash C salt plaintext))"

definition is_well_formed_argon2 :: "string option \<Rightarrow> bool" where
  "is_well_formed_argon2 h = (case h of None \<Rightarrow> False | Some s \<Rightarrow> starts_with s ARGON2_PREFIX)"

definition verify_password :: "crypto \<Rightarrow> string \<Rightarrow> string option \<Rightarrow> bool" where
  "verify_password C plaintext password_hash =
     (case password_hash of
        None \<Rightarrow> False
      | Some h \<Rightarrow>
          if h = [] \<or> plaintext = [] then False
          else if \<not> is_well_formed_argon2 (Some h) then False
          else argon2_verify C h plaintext)"

definition needs_reset :: "string option \<Rightarrow> string option \<Rightarrow> bool" where
  "needs_reset password_format password_hash =
     (case password_hash of
        None \<Rightarrow> True
      | Some h \<Rightarrow>
          if h = [] then True
          else if (case password_format of None \<Rightarrow> [] | Some f \<Rightarrow> f) \<notin> SUPPORTED_FORMATS then True
          else \<not> is_well_formed_argon2 (Some h))"

definition verify_code :: "crypto \<Rightarrow> string option \<Rightarrow> string option \<Rightarrow> bool" where
  "verify_code C secret code =
     (case (secret, code) of
        (Some s, Some c) \<Rightarrow> if s = [] \<or> c = [] then False else totp_verify C s (strip c)
      | _ \<Rightarrow> False)"

section \<open>Rows and tables\<close>

record auth_user =
  us_id :: uuid
  us_org_id :: uuid
  us_email :: string
  us_password_hash :: "string option"
  us_password_format :: string
  us_role :: string
  us_twofa_enabled :: bool
  us_twofa_secret :: "string option"

record auth_org =
  og_id :: uuid
  og_name :: string
  og_type :: string
  og_plan :: string
  og_status :: string

record auth_db =
  au_users :: "auth_user list"
  au_orgs :: "auth_org list"
  au_refs :: ref_db

section \<open>Company and user management\<close>

definition ORG_STATUS_ACTIVE :: string where
  "ORG_STATUS_ACTIVE = ''active''"

definition ORG_STATUS_SUSPENDED :: string where
  "ORG_STATUS_SUSPENDED = ''suspended''"

definition VALID_ROLES :: "string set" where
  "VALID_ROLES = {ROLE_SUPER_ADMIN, ROLE_PROJECT_CENTER, ROLE_DEVICE_USER}"

definition admin_coerce_uuid :: "string \<Rightarrow> uuid result" where
  "admin_coerce_uuid v =
     (case parse_uuid v of Some u \<Rightarrow> Inr u | None \<Rightarrow> fail (NotFoundError ''not_found''))"

definition create_company ::
  "uuid \<Rightarrow> string \<Rightarrow> string \<Rightarrow> string \<Rightarrow> auth_db \<Rightarrow> (auth_org \<times> auth_db) result" where
  "create_company fresh_id name plan org_type db =
     (let clean_name = strip name in
      if clean_name = [] then fail (ValidationError ''invalid_company_name'')
      else
        (let org = \<lparr>og_id = fresh_id, og_name = clean_name, og_type = org_type, og_plan = plan,
             og_status = ORG_STATUS_ACTIVE\<rparr>
         in bind_res (insert_row og_id org (au_orgs db)) (\<lambda>orgs'. Inr (org, db\<lparr>au_orgs := orgs'\<rparr>))))"

definition get_company :: "string \<Rightarrow> auth_db \<Rightarrow> auth_org result" where
  "get_company company_id db =
     bind_res (admin_coerce_uuid company_id) (\<lambda>k.
       case tbl_get og_id (au_orgs db) k of
         None \<Rightarrow> fail (NotFoundError ''company_not_found'')
       | Some org \<Rightarrow> Inr org)"

definition set_company_status :: "string \<Rightarrow> string \<Rightarrow> auth_db \<Rightarrow> (auth_org \<times> auth_db) result" where
  "set_company_status company_id new_status db =
     (if new_status \<noteq> ORG_STATUS_ACTIVE \<and> new_status \<noteq> ORG_STATUS_SUSPENDED
      then fail (ValidationError ''invalid_company_status'')
      else bind_res (get_company company_id db) (\<lambda>org.
        let org' = org\<lparr>og_status := new_status\<rparr>
        in Inr (org', db\<lparr>au_orgs := tbl_put og_id org' (au_orgs db)\<rparr>)))"

definition suspend_company :: "string \<Rightarrow> auth_db \<Rightarrow> (auth_org \<times> auth_db) result" where
  "suspend_company company_id db = set_company_status company_id ORG_STATUS_SUSPENDED db"

definition organization_is_suspended :: "auth_db \<Rightarrow> string \<Rightarrow> bool" where
  "organization_is_suspended db org_id =
     (case admin_coerce_uuid org_id of
        Inl e \<Rightarrow> False
      | Inr k \<Rightarrow>
          (case tbl_get og_id (au_orgs db) k of
             None \<Rightarrow> False
           | Some org \<Rightarrow> og_status org = ORG_STATUS_SUSPENDED))"

definition get_user :: "string \<Rightarrow> auth_db \<Rightarrow> auth_user result" where
  "get_user user_id db =
     bind_res (admin_coerce_uuid user_id) (\<lambda>k.
       case tbl_get us_id (au_users db) k of
         None \<Rightarrow> fail (NotFoundError ''user_not_found'')
       | Some u \<Rightarrow> Inr u)"

definition put_user :: "auth_user \<Rightarrow> auth_db \<Rightarrow> auth_db" where
  "put_user u db = db\<lparr>au_users := tbl_put us_id u (au_users db)\<rparr>"

definition reset_user_password ::
  "crypto \<Rightarrow> string \<Rightarrow> string \<Rightarrow> string \<Rightarrow> auth_db \<Rightarrow> (auth_user \<times> auth_db) result" where
  "reset_user_password C salt user_id new_password db =
     (if new_password = [] \<or> length new_password < 8 then fail (ValidationError ''invalid_password'')
      else bind_res (get_user user_id db) (\<lambda>u.
           bind_res (hash_password C salt new_password) (\<lambda>h.
             let u' = u\<lparr>us_password_hash := Some h, us_password_format := CURRENT_FORMAT\<rparr>
             in Inr (u', put_user u' db))))"

definition change_user_role :: "string \<Rightarrow> string \<Rightarrow> auth_db \<Rightarrow> (auth_user \<times> auth_db) result" where
  "change_user_role user_id rl db =
     (if rl \<notin> VALID_ROLES then fail (ValidationError ''invalid_role'')
      else bind_res (get_user user_id db) (\<lambda>u.
        let u' = u\<lparr>us_role := rl\<rparr> in Inr (u', put_user u' db)))"

section \<open>Sign-up and sign-in\<close>

record signup_ids =
  si_org_id :: uuid
  si_user_id :: uuid
  si_referral_id :: uuid
  si_reward_id :: uuid
  si_code_hex :: string
  si_salt :: string

definition default_org :: "uuid \<Rightarrow> auth_org" where
  "default_org k = \<lparr>og_id = k, og_name = ''New Organization'', og_type = ''project_center'',
     og_plan = ''free'', og_status = ORG_STATUS_ACTIVE\<rparr>"

text \<open>The new organization and user rows, with the columns the referral program keeps.\<close>

definition add_account :: "timestamp \<Rightarrow> auth_org \<Rightarrow> auth_user \<Rightarrow> auth_db \<Rightarrow> auth_db result" where
  "add_account now org u db =
     bind_res (insert_row og_id org (au_orgs db)) (\<lambda>orgs'.
     bind_res (insert_row us_id u (au_users db)) (\<lambda>users'.
       if us_email u \<in> us_email ` set (au_users db) then Inl IntegrityError
       else Inr (db\<lparr>au_orgs := orgs', au_users := users',
         au_refs := (au_refs db)\<lparr>
           rd_orgs := rd_orgs (au_refs db) @ [\<lparr>ro_id = og_id org, ro_referral_code = None\<rparr>],
           rd_users := rd_users (au_refs db) @ [\<lparr>ru_id = us_id u, ru_org_id = us_org_id u,
             ru_email = us_email u, ru_referred_by = None, ru_created_at = now\<rparr>]\<rparr>\<rparr>)))"

definition register ::
  "crypto \<Rightarrow> signup_ids \<Rightarrow> timestamp \<Rightarrow> string \<Rightarrow> string \<Rightarrow> string option \<Rightarrow> auth_db
     \<Rightarrow> (auth_user \<times> auth_db) result" where
  "register C ids now email password referral_code db =
     (if length password < 8 \<or> 256 < length password then fail (ValidationError ''validation_error'')
      else if tbl_get us_email (au_users db) email \<noteq> None then fail (ValidationError ''email_taken'')
      else bind_res (hash_password C (si_salt ids) password) (\<lambda>h.
        let org = default_org (si_org_id ids);
            u = \<lparr>us_id = si_user_id ids, us_org_id = og_id org, us_email = email,
                 us_password_hash = Some h, us_password_format = CURRENT_FORMAT,
                 us_role = ''project_center'', us_twofa_enabled = False, us_twofa_secret = None\<rparr>;
            ru = \<lparr>ru_id = us_id u, ru_org_id = us_org_id u, ru_email = email, ru_referred_by = None,
                  ru_created_at = now\<rparr>
        in bind_res (add_account now org u db) (\<lambda>db1.
           bind_res (ensure_referral_code (si_code_hex ids)
                       \<lparr>ro_id = og_id org, ro_referral_code = None\<rparr> (au_refs db1)) (\<lambda>(code, refs1).
           (case referral_code of
              None \<Rightarrow> Inr (u, db1\<lparr>au_refs := refs1\<rparr>)
            | Some rc \<Rightarrow>
                if rc = [] then Inr (u, db1\<lparr>au_refs := refs1\<rparr>)
                else bind_res (record_referral (si_referral_id ids) (si_reward_id ids) now rc ru
                                 (Some email) refs1) (\<lambda>(rl, refs2).
                       Inr (u, db1\<lparr>au_refs := refs2\<rparr>)))))))"

record 'm token_env =
  te_J :: jwt_lib
  te_K :: "('m, string, string) kv_cmds"
  te_cfg :: jwt_settings
  te_now :: timestamp
  te_access_jti :: string
  te_refresh_jti :: string

definition issue_token_pair :: "'m token_env \<Rightarrow> auth_user \<Rightarrow> 'm option \<Rightarrow> (string \<times> string) \<times> 'm option" where
  "issue_token_pair E u redis =
     (let access = create_access_token (te_J E) (te_cfg E) (te_now E) (te_access_jti E) (us_id u)
            (us_org_id u) (us_role u) (us_email u);
          (ref, redis') = issue_refresh_token (te_J E) (te_K E) (te_cfg E) (te_now E)
            (te_refresh_jti E) (us_id u) (us_org_id u) (us_role u) redis
      in ((access, ref), redis'))"

definition login ::
  "crypto \<Rightarrow> 'm token_env \<Rightarrow> string \<Rightarrow> string \<Rightarrow> string option \<Rightarrow> auth_db \<Rightarrow> 'm option
     \<Rightarrow> ((string \<times> string) \<times> 'm option) result" where
  "login C E email password otp db redis =
     (case tbl_get us_email (au_users db) email of
        None \<Rightarrow> fail (AuthenticationError ''authentication_error'')
      | Some u \<Rightarrow>
          bind_res (guard_res (needs_reset (Some (us_password_format u)) (us_password_hash u))
              (AuthenticationError ''password_reset_required'')) (\<lambda>_.
          bind_res (guard_res (\<not> verify_password C password (us_password_hash u))
              (AuthenticationError ''authentication_error'')) (\<lambda>_.
          bind_res (guard_res (organization_is_suspended db (us_org_id u))
              (AuthenticationError ''organization_suspended'')) (\<lambda>_.
          bind_res (guard_res (us_twofa_enabled u \<and> (otp = None \<or> otp = Some []))
              (AuthenticationError ''twofa_required'')) (\<lambda>_.
          bind_res (guard_res (us_twofa_enabled u \<and> \<not> verify_code C (us_twofa_secret u) otp)
              (AuthenticationError ''twofa_invalid'')) (\<lambda>_.
            Inr (issue_token_pair E u redis)))))))"

definition verify_google_id_token :: "crypto \<Rightarrow> string \<Rightarrow> (string \<times> string) result" where
  "verify_google_id_token C id_token =
     (case google_claims C id_token of
        None \<Rightarrow> fail (AuthenticationError ''authentication_error'')
      | Some (email, verified) \<Rightarrow>
          (case email of
             None \<Rightarrow> fail (AuthenticationError ''authentication_error'')
           | Some e \<Rightarrow>
               if e = [] \<or> \<not> verified then fail (AuthenticationError ''authentication_error'')
               else Inr (e, e)))"

definition oauth_google ::
  "crypto \<Rightarrow> 'm token_env \<Rightarrow> uuid \<Rightarrow> uuid \<Rightarrow> string \<Rightarrow> auth_db \<Rightarrow> 'm option
     \<Rightarrow> (((string \<times> string) \<times> 'm option) \<times> auth_db) result" where
  "oauth_google C E fresh_org fresh_user id_token db redis =
     bind_res (verify_google_id_token C id_token) (\<lambda>(email, gmail).
       case tbl_get us_email (au_users db) email of
         None \<Rightarrow>
           (let org = default_org fresh_org;
                u = \<lparr>us_id = fresh_user, us_org_id = og_id org, us_email = email,
                  us_password_hash = None, us_password_format = CURRENT_FORMAT,
                  us_role = ''project_center'', us_twofa_enabled = False, us_twofa_secret = None\<rparr>
            in bind_res (add_account (te_now E) org u db) (\<lambda>db'.
                 Inr (issue_token_pair E u redis, db')))
       | Some u \<Rightarrow>
           if organization_is_suspended db (us_org_id u)
           then fail (AuthenticationError ''organization_suspended'')
           else Inr (issue_token_pair E u redis, db))"

section \<open>Sessions, two-factor set-up and password reset\<close>

definition refresh_endpoint ::
  "'m token_env \<Rightarrow> string \<Rightarrow> 'm option \<Rightarrow> (string \<times> 'm option) result" where
  "refresh_endpoint E refresh_token redis =
     (case rotate_refresh_token (te_J E) (te_K E) (te_cfg E) (te_now E) (te_access_jti E)
             (te_refresh_jti E) refresh_token redis of
        Inl TokenError \<Rightarrow> fail (AuthenticationError ''refresh_invalid'')
      | Inl e \<Rightarrow> Inl e
      | Inr ((access, new_refresh), redis') \<Rightarrow> Inr (access, redis'))"

definition logout_endpoint :: "'m token_env \<Rightarrow> string \<Rightarrow> 'm option \<Rightarrow> 'm option result" where
  "logout_endpoint E refresh_token redis =
     bind_res (revoke_refresh_token (te_J E) (te_K E) (te_now E) refresh_token redis)
       (\<lambda>(removed, redis'). Inr redis')"

definition principal_from_header :: "jwt_lib \<Rightarrow> timestamp \<Rightarrow> string option \<Rightarrow> access_claims result" where
  "principal_from_header J now authorization =
     (case authorization of
        None \<Rightarrow> fail (AuthenticationError ''authentication_error'')
      | Some a \<Rightarrow>
          if a = [] \<or> \<not> starts_with (lower a) ''bearer ''
          then fail (AuthenticationError ''authentication_error'')
          else (case decode_access_token J now (bearer_token a) of
              Inl e \<Rightarrow> fail (AuthenticationError ''authentication_error'')
            | Inr c \<Rightarrow> Inr c))"

definition header_user :: "jwt_lib \<Rightarrow> timestamp \<Rightarrow> string option \<Rightarrow> auth_db \<Rightarrow> auth_user result" where
  "header_user J now authorization db =
     bind_res (principal_from_header J now authorization) (\<lambda>c.
     bind_res (to_uuid (ac_sub c)) (\<lambda>k.
       case tbl_get us_id (au_users db) k of
         None \<Rightarrow> fail (NotFoundError ''not_found'')
       | Some u \<Rightarrow> Inr u))"

definition twofa_enable ::
  "jwt_lib \<Rightarrow> timestamp \<Rightarrow> string \<Rightarrow> string option \<Rightarrow> auth_db \<Rightarrow> (string \<times> auth_db) result" where
  "twofa_enable J now fresh_secret authorization db =
     bind_res (header_user J now authorization db) (\<lambda>u.
       Inr (fresh_secret,
            put_user (u\<lparr>us_twofa_secret := Some fresh_secret, us_twofa_enabled := False\<rparr>) db))"

definition twofa_verify ::
  "crypto \<Rightarrow> jwt_lib \<Rightarrow> timestamp \<Rightarrow> string \<Rightarrow> string option \<Rightarrow> auth_db \<Rightarrow> (unit \<times> auth_db) result" where
  "twofa_verify C J now otp authorization db =
     bind_res (header_user J now authorization db) (\<lambda>u.
       if \<not> verify_code C (us_twofa_secret u) (Some otp) then fail (ValidationError ''twofa_invalid'')
       else Inr ((), put_user (u\<lparr>us_twofa_enabled := True\<rparr>) db))"

definition RESET_TOKEN_TTL_SECONDS :: int where
  "RESET_TOKEN_TTL_SECONDS = 3600"

definition reset_token_key :: "string \<Rightarrow> string" where
  "reset_token_key token = ''iotaps:pwreset:'' @ token"

definition password_reset_request ::
  "('m, string, string) kv_cmds \<Rightarrow> timestamp \<Rightarrow> string \<Rightarrow> string \<Rightarrow> auth_db \<Rightarrow> 'm option \<Rightarrow> 'm option" where
  "password_reset_request K now fresh_token email db redis =
     (case tbl_get us_email (au_users db) email of
        None \<Rightarrow> redis
      | Some u \<Rightarrow> map_option
          (kv_set K now (reset_token_key fresh_token) (us_id u) (Some RESET_TOKEN_TTL_SECONDS)) redis)"

text \<open>The commit comes before the deletion of the token, so the pair of both stores is returned.\<close>

definition password_reset ::
  "crypto \<Rightarrow> ('m, string, string) kv_cmds \<Rightarrow> timestamp \<Rightarrow> string \<Rightarrow> string \<Rightarrow> string
     \<Rightarrow> auth_db \<times> 'm option \<Rightarrow> (unit \<times> (auth_db \<times> 'm option)) result" where
  "password_reset C K now salt token new_password st =
     (if length new_password < 8 \<or> 256 < length new_password
      then fail (ValidationError ''validation_error'')
      else case snd st of
        None \<Rightarrow> fail (ValidationError ''reset_unavailable'')
      | Some m \<Rightarrow>
          (case kv_get K now m (reset_token_key token) of
             None \<Rightarrow> fail (ValidationError ''reset_invalid'')
           | Some user_id \<Rightarrow>
               if user_id = [] then fail (ValidationError ''reset_invalid'')
               else bind_res (to_uuid user_id) (\<lambda>k.
                 case tbl_get us_id (au_users (fst st)) k of
                   None \<Rightarrow> fail (NotFoundError ''not_found'')
                 | Some u \<Rightarrow>
                     bind_res (hash_password C salt new_password) (\<lambda>h.
                       let u' = u\<lparr>us_password_hash := Some h, us_password_format := CURRENT_FORMAT\<rparr>
                       in Inr ((), (put_user u' (fst st),
                            Some (snd (kv_del K now (reset_token_key token) m))))))))"

section \<open>Lemmas\<close>

lemma guard_then: "bind_res (guard_res c e) f = (if c then fail e else f ())"
  by (simp add: fail_def)

lemma admin_coerce_canonical: "is_uuid k \<Longrightarrow> admin_coerce_uuid k = Inr k"
  by (simp add: admin_coerce_uuid_def is_uuid_def)

lemma to_uuid_canonical: "is_uuid k \<Longrightarrow> to_uuid k = Inr k"
  by (simp add: to_uuid_def is_uuid_def)

lemma needs_reset_simp:
  "needs_reset (Some f) h \<longleftrightarrow> \<not> (\<exists>x. h = Some x \<and> f = CURRENT_FORMAT \<and> starts_with x ARGON2_PREFIX)"
  by (cases h)
    (auto simp: needs_reset_def SUPPORTED_FORMATS_def CURRENT_FORMAT_def is_well_formed_argon2_def
      ARGON2_PREFIX_def)

lemma suspended_after:
  assumes "suspend_company cid db = Inr (org, db')" "is_uuid (og_id org)"
  shows "organization_is_suspended db' (og_id org) \<and> au_users db' = au_users db"
proof -
  obtain k o0 where k: "tbl_get og_id (au_orgs db) k = Some o0"
    and o: "org = o0\<lparr>og_status := ORG_STATUS_SUSPENDED\<rparr>"
    and d: "db' = db\<lparr>au_orgs := tbl_put og_id org (au_orgs db)\<rparr>"
    using assms(1)
    by (auto simp: suspend_company_def set_company_status_def get_company_def bind_res_eq_Inr Let_def
        fail_def split: if_splits option.splits)
  have "k = og_id org" using k by (auto simp: o dest: tbl_get_Some)
  with k have "tbl_get og_id (tbl_put og_id org (au_orgs db)) (og_id org) = Some org"
    by (simp add: tbl_get_put)
  with assms(2) show ?thesis
    by (simp add: organization_is_suspended_def admin_coerce_canonical d) (simp add: o)
qed

section \<open>Properties\<close>

text \<open>C5. Signing in takes every gate: tokens are issued exactly when the account exists, its stored
  password has the current format and an Argon2 hash that verifies the password given, its
  organization is not suspended and, with two-factor on, a code verifies against its secret.\<close>

theorem login_gates_exact:
  "login C E email password otp db redis = Inr r \<longleftrightarrow>
     (\<exists>u h. tbl_get us_email (au_users db) email = Some u \<and> us_password_hash u = Some h
        \<and> us_password_format u = CURRENT_FORMAT \<and> starts_with h ARGON2_PREFIX
        \<and> password \<noteq> [] \<and> argon2_verify C h password
        \<and> \<not> organization_is_suspended db (us_org_id u)
        \<and> (if us_twofa_enabled u
           then \<exists>s c. us_twofa_secret u = Some s \<and> otp = Some c \<and> s \<noteq> [] \<and> c \<noteq> []
              \<and> totp_verify C s (strip c)
           else True)
        \<and> r = issue_token_pair E u redis)"
proof (cases "tbl_get us_email (au_users db) email")
  case None
  then show ?thesis by (simp add: login_def fail_def)
next
  case (Some u)
  have pw: "verify_password C password (us_password_hash u) \<longleftrightarrow>
      (\<exists>h. us_password_hash u = Some h \<and> h \<noteq> [] \<and> password \<noteq> [] \<and> starts_with h ARGON2_PREFIX
        \<and> argon2_verify C h password)"
    by (auto simp: verify_password_def is_well_formed_argon2_def split: option.split)
  have code: "verify_code C (us_twofa_secret u) otp \<longleftrightarrow>
      (\<exists>s c. us_twofa_secret u = Some s \<and> otp = Some c \<and> s \<noteq> [] \<and> c \<noteq> [] \<and> totp_verify C s (strip c))"
    by (auto simp: verify_code_def split: option.split)
  have "h \<noteq> []" if "starts_with h ARGON2_PREFIX" for h
    using that by (cases h) (auto simp: ARGON2_PREFIX_def)
  then show ?thesis
    unfolding login_def Some option.case guard_then needs_reset_simp pw code
    by (auto simp: fail_def)
qed

text \<open>Suspension stops new sign-ins: once a company is suspended none of its accounts can sign in,
  with a password or with Google, whatever they present.\<close>

theorem suspension_blocks_sign_in:
  assumes "suspend_company cid db = Inr (org, db')" "is_uuid (og_id org)"
    and "tbl_get us_email (au_users db) email = Some u" "us_org_id u = og_id org"
  shows "(\<exists>e. login C E email password otp db' redis = Inl e)
    \<and> (\<exists>e. oauth_google (C\<lparr>google_claims := \<lambda>t. Some (Some email, v)\<rparr>) E fo fu id_token db' redis = Inl e)"
proof
  note susp = suspended_after [OF assms(1,2)]
  show "\<exists>e. login C E email password otp db' redis = Inl e"
    using assms(3,4) susp by (simp add: login_def guard_then fail_def)
  show "\<exists>e. oauth_google (C\<lparr>google_claims := \<lambda>t. Some (Some email, v)\<rparr>) E fo fu id_token db' redis = Inl e"
    using assms(3,4) susp by (simp add: oauth_google_def verify_google_id_token_def fail_def)
qed

definition ex_crypto :: crypto where
  "ex_crypto = \<lparr>argon2_hash = (\<lambda>salt p. ''$argon2'' @ salt @ p),
     argon2_verify = (\<lambda>h p. drop (length h - length p) h = p),
     totp_verify = (\<lambda>s c. c = ''123456''), google_claims = (\<lambda>t. None)\<rparr>"

definition ex_user :: auth_user where
  "ex_user = \<lparr>us_id = ''0123abcd-0123-4567-89ab-0000000000aa'',
     us_org_id = ''0123abcd-0123-4567-89ab-0123456789ab'', us_email = ''a@x'',
     us_password_hash = Some ''$argon2pw'', us_password_format = ''argon2'', us_role = ''device_user'',
     us_twofa_enabled = False, us_twofa_secret = None\<rparr>"

definition ex_auth :: auth_db where
  "ex_auth = \<lparr>au_users = [ex_user],
     au_orgs = [default_org ''0123abcd-0123-4567-89ab-0123456789ab''],
     au_refs = \<lparr>rd_orgs = [], rd_users = [], rd_referrals = [], rd_rewards = []\<rparr>\<rparr>"

definition ex_env :: "timestamp \<Rightarrow> (string \<rightharpoonup> string \<times> timestamp option) token_env" where
  "ex_env t = \<lparr>te_J = unary_jwt, te_K = ttl_maps, te_cfg = \<lparr>access_ttl = 900, refresh_ttl = 2592000\<rparr>,
     te_now = t, te_access_jti = ''a'', te_refresh_jti = ''b''\<rparr>"

theorem suspension_blocks_sign_in_witness:
  "\<exists>org db'. suspend_company ''0123abcd-0123-4567-89ab-0123456789ab'' ex_auth = Inr (org, db')
    \<and> (\<exists>e. login ex_crypto (ex_env 0) ''a@x'' ''pw'' None db' (Some Map.empty) = Inl e)"
proof -
  let ?o = "''0123abcd-0123-4567-89ab-0123456789ab''"
  have u: "is_uuid ?o" by code_simp
  then obtain org db' where s: "suspend_company ?o ex_auth = Inr (org, db')" "og_id org = ?o"
    by (simp add: suspend_company_def set_company_status_def get_company_def admin_coerce_canonical
        ex_auth_def default_org_def Let_def)
  have "tbl_get us_email (au_users ex_auth) ''a@x'' = Some ex_user" "us_org_id ex_user = og_id org"
    by (simp_all add: ex_auth_def ex_user_def s(2))
  from suspension_blocks_sign_in [OF s(1) _ this] u s show ?thesis by metis
qed

text \<open>A reset token sets the password once: within the hour of its issue it replaces the password of
  the account it was issued for, after which it is invalid; later than that it is invalid from the
  start.\<close>

theorem password_reset_once:
  assumes "redis_keys K" "t0 \<le> t1" "t1 \<le> t2"
    and "tbl_get us_email (au_users db) email = Some u" "is_uuid (us_id u)"
    and "distinct (map us_id (au_users db))" "8 \<le> length pw" "length pw \<le> 256"
    and "m1 = password_reset_request K t0 tok email db (Some m)"
  shows "(if t1 < t0 + usec 3600
     then \<exists>db' m2. password_reset C K t1 salt tok pw (db, m1) = Inr ((), (db', m2))
        \<and> tbl_get us_id (au_users db') (us_id u)
            = Some (u\<lparr>us_password_hash := Some (argon2_hash C salt pw), us_password_format := CURRENT_FORMAT\<rparr>)
        \<and> password_reset C K t2 salt' tok pw' (db', m2)
            = fail (ValidationError (if length pw' < 8 \<or> 256 < length pw' then ''validation_error''
                                     else ''reset_invalid''))
     else password_reset C K t1 salt tok pw (db, m1) = fail (ValidationError ''reset_invalid''))"
proof -
  let ?k = "reset_token_key tok"
  let ?m = "kv_set K t0 ?k (us_id u) (Some RESET_TOKEN_TTL_SECONDS) m"
  have m1: "m1 = Some ?m" using assms(4,9) by (simp add: password_reset_request_def)
  have got: "kv_get K t1 ?m ?k = (if t1 < t0 + usec 3600 then Some (us_id u) else None)"
    using assms(2) by (simp add: redis_keys.get_set [OF assms(1)] RESET_TOKEN_TTL_SECONDS_def)
  have mem: "u \<in> set (au_users db)" using assms(4) by (auto dest: tbl_get_Some)
  have urow: "tbl_get us_id (au_users db) (us_id u) = Some u"
    using assms(6) mem by (rule tbl_get_distinct)
  have ne: "us_id u \<noteq> []" "pw \<noteq> []"
    using assms(5,7) by (auto simp: is_uuid_def parse_uuid_def Let_def canonical_uuid_def split: if_splits)
  have len: "(length pw < 8 \<or> 256 < length pw) = False" using assms(7,8) by auto
  show ?thesis
  proof (cases "t1 < t0 + usec 3600")
    case False
    with got show ?thesis by (simp add: password_reset_def m1 len)
  next
    case True
    define u' where "u' = u\<lparr>us_password_hash := Some (argon2_hash C salt pw), us_password_format := CURRENT_FORMAT\<rparr>"
    let ?db' = "put_user u' db" and ?m2 = "snd (kv_del K t1 ?k ?m)"
    have run: "password_reset C K t1 salt tok pw (db, m1) = Inr ((), (?db', Some ?m2))"
      using True got ne urow
      by (simp add: password_reset_def m1 len to_uuid_canonical assms(5) hash_password_def Let_def u'_def)
    have "tbl_get us_id (au_users ?db') (us_id u) = Some u'"
      using urow by (simp add: put_user_def tbl_get_put u'_def)
    moreover have "kv_get K t2 ?m2 ?k = None"
      using assms(3) by (simp add: redis_keys.get_del [OF assms(1)])
    then have "password_reset C K t2 salt' tok pw' (?db', Some ?m2)
        = fail (ValidationError (if length pw' < 8 \<or> 256 < length pw' then ''validation_error''
                                 else ''reset_invalid''))"
      by (simp add: password_reset_def)
    ultimately show ?thesis using True run u'_def by auto
  qed
qed

theorem password_reset_once_witness:
  "\<exists>db' m2. password_reset ex_crypto ttl_maps 5 ''s'' ''t'' ''longenough'' (ex_auth,
      password_reset_request ttl_maps 0 ''t'' ''a@x'' ex_auth (Some Map.empty)) = Inr ((), (db', m2))
    \<and> password_reset ex_crypto ttl_maps 9 ''s'' ''t'' ''longenough'' (db', m2)
      = fail (ValidationError ''reset_invalid'')"
proof -
  have u: "tbl_get us_email (au_users ex_auth) ''a@x'' = Some ex_user"
    "distinct (map us_id (au_users ex_auth))"
    by (simp_all add: ex_auth_def ex_user_def)
  have i: "is_uuid (us_id ex_user)" unfolding ex_user_def by code_simp
  from password_reset_once [OF tm.redis_keys_axioms _ _ u(1) i u(2), of 0 5 9 "''longenough''" _ "''t''"
      Map.empty ex_crypto "''s''" "''s''" "''longenough''"]
  show ?thesis by (simp add: usec_def) blast
qed


lemma add_account_Inr:
  "add_account now org u db = Inr db' \<Longrightarrow>
     og_id org \<notin> og_id ` set (au_orgs db) \<and> au_orgs db' = au_orgs db @ [org]
     \<and> au_users db' = au_users db @ [u]"
  by (auto simp: add_account_def bind_res_eq_Inr insert_row_Inr split: if_splits)

lemma register_Inr:
  assumes "register C ids now email pw rc db = Inr (u, db')"
  shows "tbl_get us_email (au_users db) email = None \<and> pw \<noteq> []
    \<and> u = \<lparr>us_id = si_user_id ids, us_org_id = si_org_id ids, us_email = email,
          us_password_hash = Some (argon2_hash C (si_salt ids) pw), us_password_format = CURRENT_FORMAT,
          us_role = ''project_center'', us_twofa_enabled = False, us_twofa_secret = None\<rparr>
    \<and> si_org_id ids \<notin> og_id ` set (au_orgs db)
    \<and> au_orgs db' = au_orgs db @ [default_org (si_org_id ids)] \<and> au_users db' = au_users db @ [u]"
proof -
  have pw: "\<not> (length pw < 8 \<or> 256 < length pw)" "tbl_get us_email (au_users db) email = None" "pw \<noteq> []"
    using assms by (auto simp: register_def fail_def split: if_splits)
  let ?u = "\<lparr>us_id = si_user_id ids, us_org_id = si_org_id ids, us_email = email,
          us_password_hash = Some (argon2_hash C (si_salt ids) pw), us_password_format = CURRENT_FORMAT,
          us_role = ''project_center'', us_twofa_enabled = False, us_twofa_secret = None\<rparr>"
  let ?org = "default_org (si_org_id ids)"
  have org: "og_id ?org = si_org_id ids" by (simp add: default_org_def)
  obtain db1 where d1: "add_account now ?org ?u db = Inr db1"
    using assms pw by (cases "add_account now ?org ?u db")
      (auto simp: register_def hash_password_def org Let_def)
  have "u = ?u \<and> au_orgs db' = au_orgs db1 \<and> au_users db' = au_users db1"
    using assms pw d1
    by (auto simp: register_def hash_password_def org Let_def bind_res_eq_Inr split: option.splits if_splits)
  with pw add_account_Inr [OF d1] org show ?thesis by simp
qed

text \<open>Sign-up round trip: an account that registers can sign in at once with its password, and gets
  tokens for the new organization with the role of a project center; the password itself is not
  stored, and the same address cannot register again.\<close>

theorem register_then_login:
  assumes "register C ids now email pw rc db = Inr (u, db')" "is_uuid (si_org_id ids)"
    and "\<And>salt p. argon2_verify C (argon2_hash C salt p) p"
    and "\<And>salt p. starts_with (argon2_hash C salt p) ARGON2_PREFIX"
  shows "login C E email pw None db' redis = Inr (issue_token_pair E u redis)
    \<and> us_role u = ROLE_PROJECT_CENTER \<and> us_org_id u \<notin> og_id ` set (au_orgs db)
    \<and> us_password_hash u = Some (argon2_hash C (si_salt ids) pw)
    \<and> (\<exists>e. register C ids2 now2 email pw2 rc2 db' = Inl e)"
proof -
  note r = register_Inr [OF assms(1)]
  have got: "tbl_get us_email (au_users db') email = Some u" using r by (simp add: tbl_get_append)
  have "tbl_get og_id (au_orgs db) (si_org_id ids) = None" using r by (simp only: tbl_get_None) simp
  then have "tbl_get og_id (au_orgs db') (si_org_id ids) = Some (default_org (si_org_id ids))"
    using r by (simp add: tbl_get_append default_org_def)
  then have "\<not> organization_is_suspended db' (us_org_id u)"
    using r assms(2)
    by (simp add: organization_is_suspended_def admin_coerce_canonical default_org_def
        ORG_STATUS_ACTIVE_def ORG_STATUS_SUSPENDED_def)
  then have "login C E email pw None db' redis = Inr (issue_token_pair E u redis)"
    using r got assms(3,4) by (simp add: login_def guard_then needs_reset_simp verify_password_def
        is_well_formed_argon2_def ARGON2_PREFIX_def) (metis starts_with.simps(2) list.distinct(1))
  moreover have "\<exists>e. register C ids2 now2 email pw2 rc2 db' = Inl e"
    by (simp add: register_def got fail_def)
  ultimately show ?thesis using r by (simp add: ROLE_PROJECT_CENTER_def)
qed

theorem register_then_login_witness:
  defines "ids \<equiv> \<lparr>si_org_id = ''0123abcd-0123-4567-89ab-0000000000bb'',
     si_user_id = ''0123abcd-0123-4567-89ab-0000000000cc'', si_referral_id = ''r'', si_reward_id = ''w'',
     si_code_hex = ''0011223344'', si_salt = ''s''\<rparr>"
  shows "\<exists>u db'. register ex_crypto ids 0 ''b@x'' ''longenough'' None ex_auth = Inr (u, db')
    \<and> login ex_crypto (ex_env 0) ''b@x'' ''longenough'' None db' (Some Map.empty)
      = Inr (issue_token_pair (ex_env 0) u (Some Map.empty))"
proof -
  have i: "is_uuid (si_org_id ids)" unfolding ids_def by code_simp
  obtain u db' where r: "register ex_crypto ids 0 ''b@x'' ''longenough'' None ex_auth = Inr (u, db')"
    by (simp add: register_def hash_password_def add_account_def insert_row_def ex_auth_def ex_user_def
        ensure_referral_code_def default_org_def ids_def Let_def)
  have laws: "argon2_verify ex_crypto (argon2_hash ex_crypto salt p) p"
    "starts_with (argon2_hash ex_crypto salt p) ARGON2_PREFIX" for salt p
  proof -
    have "drop (length (a @ p) - length p) (a @ p) = p" for a by simp
    from this [of "''$argon2'' @ salt"] show "argon2_verify ex_crypto (argon2_hash ex_crypto salt p) p"
      by (simp only: ex_crypto_def crypto.select_convs append_assoc)
    show "starts_with (argon2_hash ex_crypto salt p) ARGON2_PREFIX"
      by (simp add: ex_crypto_def ARGON2_PREFIX_def)
  qed
  from register_then_login [OF r i laws] r show ?thesis by blast
qed

end
