(* ===== verification/Commands.thy ===== *)
theory Commands imports Topics Access Redis
begin

text \<open>
  Device commands (\<open>app/services/command_service.py\<close>): the status machine, the ACK and timeout
  handlers, the flush of a reconnected device's queue, and the request-scoped service.  The state is
  what the code keeps in Redis (status records with a time to live, per-device queues, the set of
  online devices, cached tokens, schedules), the tables it reads, and logs of what it sends: MQTT
  messages, status events, activity rows and armed ACK timers.  A handler returns its result with
  the state, because Redis keeps what was written before an exception.  The MQTT publisher is a
  parameter that says whether the broker took a message; the failing Redis list operations of the
  offline path are an argument.
\<close>

section \<open>The status machine\<close>

datatype command_status = SENT | QUEUED | CONFIRMED | UNACKNOWLEDGED

datatype command_event = ISSUE_ONLINE | ISSUE_OFFLINE | EV_ACK | TIMEOUT | RECONNECT_FLUSH

definition TERMINAL_STATUSES :: "command_status set" where
  "TERMINAL_STATUSES = {CONFIRMED, UNACKNOWLEDGED}"

fun next_status :: "command_status option \<Rightarrow> command_event \<Rightarrow> command_status option" where
  "next_status None ISSUE_ONLINE = Some SENT"
| "next_status None ISSUE_OFFLINE = Some QUEUED"
| "next_status (Some QUEUED) RECONNECT_FLUSH = Some SENT"
| "next_status (Some SENT) EV_ACK = Some CONFIRMED"
| "next_status (Some SENT) TIMEOUT = Some UNACKNOWLEDGED"
| "next_status _ _ = None"

section \<open>State\<close>

record command_record =
  cr_command_id :: string
  cr_device_id :: string
  cr_org_id :: string
  cr_type :: string
  cr_value :: "rat option"
  cr_target :: "string option"
  cr_status :: command_status
  cr_created_at :: timestamp
  cr_updated_at :: timestamp

record device_row =
  dv_id :: uuid
  dv_org_id :: uuid

record credential_row =
  cd_device_id :: uuid
  cd_token :: string
  cd_revoked :: bool

record activity =
  al_org_id :: uuid
  al_user_id :: "uuid option"
  al_device_id :: uuid
  al_action :: string
  al_command_id :: string
  al_status :: command_status

record schedule =
  sc_schedule_id :: string
  sc_device_id :: string
  sc_org_id :: string
  sc_cron :: string
  sc_type :: string
  sc_value :: "rat option"
  sc_created_at :: timestamp

record ('m, 'q, 't, 's) cmd_state =
  cs_records :: 'm
  cs_queues :: "string \<Rightarrow> 'q \<times> timestamp option"
  cs_online :: "string set"
  cs_tokens :: 't
  cs_schedules :: "string \<Rightarrow> 's"
  cs_devices :: "device_row list"
  cs_credentials :: "credential_row list"
  cs_published :: "(string \<times> json) list"
  cs_events :: "(string \<times> string \<times> command_status) list"
  cs_activity :: "activity list"
  cs_timers :: "(timestamp \<times> string) list"

text \<open>The Redis commands at the types of the records, the queues, the tokens and the schedules.\<close>

record ('m, 'q, 't, 's) cmd_redis =
  rd_records :: "('m, string, command_record) kv_cmds"
  rd_queue :: "('q, (string \<times> json) list) list_cmds"
  rd_tokens :: "('t, string, string) kv_cmds"
  rd_schedules :: "('s, schedule) list_cmds"

section \<open>Records and payloads\<close>

definition COMMAND_TYPES :: "string set" where
  "COMMAND_TYPES = {''on'', ''off'', ''value''}"

definition CommandQueueError :: app_error where
  "CommandQueueError = AppError ''command_queue_failed'' 503"

definition opt_json :: "rat option \<Rightarrow> json" where
  "opt_json v = (case v of None \<Rightarrow> JNull | Some x \<Rightarrow> JFloat x)"

definition command_mqtt_payload :: "command_record \<Rightarrow> json" where
  "command_mqtt_payload r = JObj
     ([(''command_id'', JStr (cr_command_id r)), (''type'', JStr (cr_type r))]
      @ (case cr_target r of Some (c # cs) \<Rightarrow> [(''target'', JStr (c # cs))] | _ \<Rightarrow> [])
      @ (case cr_value r of Some v \<Rightarrow> [(''value'', JFloat v)] | None \<Rightarrow> []))"

definition load_record ::
  "('m, 'q, 't, 's) cmd_redis \<Rightarrow> timestamp \<Rightarrow> ('m, 'q, 't, 's) cmd_state \<Rightarrow> string \<Rightarrow> command_record option"
where
  "load_record D now s command_id = kv_get (rd_records D) now (cs_records s) command_id"

definition save_record ::
  "('m, 'q, 't, 's) cmd_redis \<Rightarrow> timestamp \<Rightarrow> command_record \<Rightarrow> ('m, 'q, 't, 's) cmd_state
     \<Rightarrow> ('m, 'q, 't, 's) cmd_state" where
  "save_record D now r s =
     (let ttl = (if cr_status r \<in> TERMINAL_STATUSES then 3600 else 172800)
      in s\<lparr>cs_records := kv_set (rd_records D) now (cr_command_id r) r (Some ttl) (cs_records s)\<rparr>)"

definition with_status :: "timestamp \<Rightarrow> command_record \<Rightarrow> command_status \<Rightarrow> command_record" where
  "with_status now r st = r\<lparr>cr_status := st, cr_updated_at := now\<rparr>"

definition publish_status_event ::
  "command_record \<Rightarrow> ('m, 'q, 't, 's) cmd_state \<Rightarrow> ('m, 'q, 't, 's) cmd_state" where
  "publish_status_event r s =
     s\<lparr>cs_events := cs_events s @ [(cr_device_id r, cr_command_id r, cr_status r)]\<rparr>"

section \<open>ACK, timeout and reconnect\<close>

definition apply_event ::
  "command_event \<Rightarrow> ('m, 'q, 't, 's) cmd_redis \<Rightarrow> timestamp \<Rightarrow> string \<Rightarrow> ('m, 'q, 't, 's) cmd_state
     \<Rightarrow> command_record option \<times> ('m, 'q, 't, 's) cmd_state" where
  "apply_event ev D now command_id s =
     (case load_record D now s command_id of
        None \<Rightarrow> (None, s)
      | Some r \<Rightarrow>
          (case next_status (Some (cr_status r)) ev of
             None \<Rightarrow> (None, s)
           | Some new \<Rightarrow>
               (let updated = with_status now r new
                in (Some updated, publish_status_event updated (save_record D now updated s)))))"

definition confirm_command ::
  "('m, 'q, 't, 's) cmd_redis \<Rightarrow> timestamp \<Rightarrow> string \<Rightarrow> ('m, 'q, 't, 's) cmd_state
     \<Rightarrow> command_record option \<times> ('m, 'q, 't, 's) cmd_state" where
  "confirm_command = apply_event EV_ACK"

definition expire_command ::
  "('m, 'q, 't, 's) cmd_redis \<Rightarrow> timestamp \<Rightarrow> string \<Rightarrow> ('m, 'q, 't, 's) cmd_state
     \<Rightarrow> command_record option \<times> ('m, 'q, 't, 's) cmd_state" where
  "expire_command = apply_event TIMEOUT"

definition schedule_ack_timeout ::
  "timestamp \<Rightarrow> string \<Rightarrow> int \<Rightarrow> ('m, 'q, 't, 's) cmd_state \<Rightarrow> ('m, 'q, 't, 's) cmd_state" where
  "schedule_ack_timeout now command_id timeout_seconds s =
     s\<lparr>cs_timers := cs_timers s @ [(now + usec timeout_seconds, command_id)]\<rparr>"

text \<open>A queue that has expired reads as empty.\<close>

definition live_queue ::
  "('m, 'q, 't, 's) cmd_redis \<Rightarrow> timestamp \<Rightarrow> ('m, 'q, 't, 's) cmd_state \<Rightarrow> string \<Rightarrow> 'q" where
  "live_queue D now s dev =
     (case cs_queues s dev of
        (q, None) \<Rightarrow> q
      | (q, Some e) \<Rightarrow> if now < e then q else l_empty (rd_queue D))"

text \<open>The expiry of the key: an empty or expired list has no key and so no expiry.\<close>

definition live_expiry ::
  "('m, 'q, 't, 's) cmd_redis \<Rightarrow> timestamp \<Rightarrow> ('m, 'q, 't, 's) cmd_state \<Rightarrow> string \<Rightarrow> timestamp option"
where
  "live_expiry D now s dev =
     (if llen (rd_queue D) (live_queue D now s dev) = 0 then None else snd (cs_queues s dev))"

definition set_queue ::
  "string \<Rightarrow> 'q \<Rightarrow> ('m, 'q, 't, 's) cmd_state \<Rightarrow> ('m, 'q, 't, 's) cmd_state" where
  "set_queue dev q s = s\<lparr>cs_queues := (cs_queues s)(dev := (q, snd (cs_queues s dev)))\<rparr>"

partial_function (option) flush_loop ::
  "('m, 'q, 't, 's) cmd_redis \<Rightarrow> (string \<Rightarrow> json \<Rightarrow> bool) \<Rightarrow> timestamp \<Rightarrow> string \<Rightarrow> string
     \<Rightarrow> command_record list \<Rightarrow> ('m, 'q, 't, 's) cmd_state
     \<Rightarrow> (command_record list result \<times> ('m, 'q, 't, 's) cmd_state) option" where
  "flush_loop D pub now dev tpc flushed s =
     (case lpop (rd_queue D) (live_queue D now s dev) of
        None \<Rightarrow> Some (Inr flushed, s)
      | Some (queued, q') \<Rightarrow>
          (let s1 = set_queue dev q' s in
           (case dict_get queued ''command_id'' of
              JStr command_id \<Rightarrow>
                (case load_record D now s1 command_id of
                   None \<Rightarrow> flush_loop D pub now dev tpc flushed s1
                 | Some r \<Rightarrow>
                     (case next_status (Some (cr_status r)) RECONNECT_FLUSH of
                        None \<Rightarrow> flush_loop D pub now dev tpc flushed s1
                      | Some new \<Rightarrow>
                          (let updated = with_status now r new in
                           (if \<not> pub tpc (command_mqtt_payload updated)
                            then Some (Inl PublishFailed, s1)
                            else flush_loop D pub now dev tpc (flushed @ [updated])
                              (publish_status_event updated (save_record D now updated
                                (s1\<lparr>cs_published := cs_published s1
                                    @ [(tpc, command_mqtt_payload updated)]\<rparr>)))))))
            | _ \<Rightarrow> Some (Inl KeyError, s1))))"

definition queue_device_id :: "credential_row list \<Rightarrow> string \<Rightarrow> string" where
  "queue_device_id credentials device_id =
     (case find (\<lambda>c. cd_token c = device_id \<and> \<not> cd_revoked c) credentials of
        Some c \<Rightarrow> cd_device_id c
      | None \<Rightarrow> device_id)"

definition flush_queued_commands ::
  "('m, 'q, 't, 's) cmd_redis \<Rightarrow> (string \<Rightarrow> json \<Rightarrow> bool) \<Rightarrow> timestamp \<Rightarrow> string \<Rightarrow> string
     \<Rightarrow> ('m, 'q, 't, 's) cmd_state
     \<Rightarrow> (command_record list result \<times> ('m, 'q, 't, 's) cmd_state) option" where
  "flush_queued_commands D pub now org_id device_id s =
     flush_loop D pub now (queue_device_id (cs_credentials s) device_id)
       (token_command_topic device_id) [] s"

section \<open>The request-scoped service\<close>

definition validate_command :: "string \<Rightarrow> rat option \<Rightarrow> unit result" where
  "validate_command ty v =
     (if ty \<notin> COMMAND_TYPES then fail (ValidationError ''invalid_command_type'')
      else if ty = ''value'' \<and> v = None then fail (ValidationError ''missing_command_value'')
      else Inr ())"

definition log_command ::
  "principal \<Rightarrow> device_row \<Rightarrow> command_record \<Rightarrow> ('m, 'q, 't, 's) cmd_state \<Rightarrow> ('m, 'q, 't, 's) cmd_state"
where
  "log_command p device r s =
     s\<lparr>cs_activity := cs_activity s @ [\<lparr>al_org_id = dv_org_id device,
         al_user_id = parse_uuid (pr_user_id p), al_device_id = dv_id device,
         al_action = ''device.command'', al_command_id = cr_command_id r, al_status = cr_status r\<rparr>]\<rparr>"

definition token_cache_key :: "uuid \<Rightarrow> string" where
  "token_cache_key device_id = ''iotaps:mqtt_token:'' @ device_id"

definition online_topic ::
  "('m, 'q, 't, 's) cmd_redis \<Rightarrow> timestamp \<Rightarrow> device_row \<Rightarrow> ('m, 'q, 't, 's) cmd_state
     \<Rightarrow> string \<times> ('m, 'q, 't, 's) cmd_state" where
  "online_topic D now device s =
     (let key = token_cache_key (dv_id device);
          from_db = (case find (\<lambda>c. cd_device_id c = dv_id device \<and> \<not> cd_revoked c) (cs_credentials s) of
              Some c \<Rightarrow> (token_command_topic (cd_token c),
                  s\<lparr>cs_tokens := kv_set (rd_tokens D) now key (cd_token c) (Some 3600) (cs_tokens s)\<rparr>)
            | None \<Rightarrow> (command_topic (dv_org_id device) (dv_id device), s))
      in (case kv_get (rd_tokens D) now (cs_tokens s) key of
            Some (c # cs) \<Rightarrow> (token_command_topic (c # cs), s)
          | _ \<Rightarrow> from_db))"

datatype queue_fault = NoFault | PushFails | TrimFails | ExpireFails

definition push_command ::
  "('m, 'q, 't, 's) cmd_redis \<Rightarrow> timestamp \<Rightarrow> string \<Rightarrow> (string \<times> json) list
     \<Rightarrow> ('m, 'q, 't, 's) cmd_state \<Rightarrow> ('m, 'q, 't, 's) cmd_state" where
  "push_command D now dev item s =
     (let q = ltrim (rd_queue D) (rpush (rd_queue D) item (live_queue D now s dev)) (-100) (-1)
      in s\<lparr>cs_queues := (cs_queues s)(dev := (q, Some (now + usec 604800)))\<rparr>)"

definition issue_command ::
  "('m, 'q, 't, 's) cmd_redis \<Rightarrow> (string \<Rightarrow> json \<Rightarrow> bool) \<Rightarrow> queue_fault \<Rightarrow> principal \<Rightarrow> timestamp
     \<Rightarrow> string \<Rightarrow> uuid \<Rightarrow> string \<Rightarrow> rat option \<Rightarrow> string option \<Rightarrow> int
     \<Rightarrow> ('m, 'q, 't, 's) cmd_state \<Rightarrow> command_record result \<times> ('m, 'q, 't, 's) cmd_state" where
  "issue_command D pub fault p now command_id device_id ty v0 target ack_timeout_seconds s =
     (case validate_command ty v0 of
        Inl e \<Rightarrow> (Inl e, s)
      | Inr _ \<Rightarrow>
          (let v = (if ty \<noteq> ''value'' then None else v0) in
           case scope_get p dv_id dv_org_id (cs_devices s) device_id of
             Inl e \<Rightarrow> (Inl e, s)
           | Inr device \<Rightarrow>
               (let online = (dv_id device \<in> cs_online s);
                    status = (case next_status None (if online then ISSUE_ONLINE else ISSUE_OFFLINE) of
                       Some st \<Rightarrow> st | None \<Rightarrow> SENT);
                    r = \<lparr>cr_command_id = command_id, cr_device_id = dv_id device,
                       cr_org_id = dv_org_id device, cr_type = ty, cr_value = v, cr_target = target,
                       cr_status = status, cr_created_at = now, cr_updated_at = now\<rparr>
                in if online then
                     (let (tpc, s1) = online_topic D now device s in
                      if \<not> pub tpc (command_mqtt_payload r) then (Inl PublishFailed, s1)
                      else
                        (let s2 = save_record D now r
                               (s1\<lparr>cs_published := cs_published s1 @ [(tpc, command_mqtt_payload r)]\<rparr>);
                             s3 = (if ack_timeout_seconds > 0
                                   then schedule_ack_timeout now command_id ack_timeout_seconds s2 else s2)
                         in (Inr r, log_command p device r (publish_status_event r s3))))
                   else
                     (let item = [(''command_id'', JStr command_id), (''type'', JStr ty),
                            (''value'', opt_json v),
                            (''target'', (case target of None \<Rightarrow> JNull | Some t \<Rightarrow> JStr t))];
                          dev = dv_id device in
                      case fault of
                        PushFails \<Rightarrow> (fail CommandQueueError, s)
                      | TrimFails \<Rightarrow>
                          (fail CommandQueueError,
                           s\<lparr>cs_queues := (cs_queues s)(dev :=
                              (rpush (rd_queue D) item (live_queue D now s dev), live_expiry D now s dev))\<rparr>)
                      | ExpireFails \<Rightarrow>
                          (fail CommandQueueError,
                           s\<lparr>cs_queues := (cs_queues s)(dev :=
                              (ltrim (rd_queue D) (rpush (rd_queue D) item (live_queue D now s dev)) (-100) (-1),
                               live_expiry D now s dev))\<rparr>)
                      | NoFault \<Rightarrow>
                          (let s1 = save_record D now r (push_command D now dev item s)
                           in (Inr r, log_command p device r (publish_status_event r s1)))))))"

definition get_command ::
  "('m, 'q, 't, 's) cmd_redis \<Rightarrow> principal \<Rightarrow> timestamp \<Rightarrow> uuid \<Rightarrow> string \<Rightarrow> ('m, 'q, 't, 's) cmd_state
     \<Rightarrow> command_record result" where
  "get_command D p now device_id command_id s =
     bind_res (scope_get p dv_id dv_org_id (cs_devices s) device_id) (\<lambda>device.
       case load_record D now s command_id of
         None \<Rightarrow> fail (NotFoundError ''command_not_found'')
       | Some r \<Rightarrow>
           if cr_device_id r \<noteq> dv_id device then fail (NotFoundError ''command_not_found'') else Inr r)"

definition create_schedule ::
  "('m, 'q, 't, 's) cmd_redis \<Rightarrow> principal \<Rightarrow> timestamp \<Rightarrow> string \<Rightarrow> uuid \<Rightarrow> string \<Rightarrow> string \<Rightarrow> rat option
     \<Rightarrow> ('m, 'q, 't, 's) cmd_state \<Rightarrow> (schedule \<times> ('m, 'q, 't, 's) cmd_state) result" where
  "create_schedule D p now schedule_id device_id cron ty v s =
     bind_res (validate_command ty v) (\<lambda>_.
     bind_res (guard_res (strip cron = []) (ValidationError ''invalid_cron'')) (\<lambda>_.
     bind_res (scope_get p dv_id dv_org_id (cs_devices s) device_id) (\<lambda>device.
       let dev = dv_id device;
           sched = \<lparr>sc_schedule_id = schedule_id, sc_device_id = dev, sc_org_id = dv_org_id device,
              sc_cron = strip cron, sc_type = ty, sc_value = (if ty = ''value'' then v else None),
              sc_created_at = now\<rparr>;
           L = rd_schedules D
       in Inr (sched, s\<lparr>cs_schedules := (cs_schedules s)(dev :=
            ltrim L (rpush L sched (cs_schedules s dev)) (-50) (-1))\<rparr>))))"

definition list_schedules ::
  "('m, 'q, 't, 's) cmd_redis \<Rightarrow> principal \<Rightarrow> uuid \<Rightarrow> ('m, 'q, 't, 's) cmd_state \<Rightarrow> schedule list result" where
  "list_schedules D p device_id s =
     bind_res (scope_get p dv_id dv_org_id (cs_devices s) device_id) (\<lambda>device.
       Inr (lrange (rd_schedules D) (cs_schedules s (dv_id device)) 0 (-1)))"

section \<open>The store contract\<close>

lemma load_record_simps [simp]:
  "load_record D now (s\<lparr>cs_published := x\<rparr>) k = load_record D now s k"
  "load_record D now (s\<lparr>cs_events := y\<rparr>) k = load_record D now s k"
  "load_record D now (publish_status_event r s) k = load_record D now s k"
  "load_record D now (set_queue dev q s) k = load_record D now s k"
  "load_record D now (push_command D now' dev item s) k = load_record D now s k"
  "load_record D now (schedule_ack_timeout now' c t s) k = load_record D now s k"
  "load_record D now (log_command p d r s) k = load_record D now s k"
  by (simp_all add: load_record_def publish_status_event_def set_queue_def push_command_def
      schedule_ack_timeout_def log_command_def Let_def)

lemma live_queue_simps [simp]:
  "live_queue D now (s\<lparr>cs_published := x\<rparr>) dev = live_queue D now s dev"
  "live_queue D now (publish_status_event r s) dev = live_queue D now s dev"
  "live_queue D now (save_record D now' r s) dev = live_queue D now s dev"
  by (simp_all add: live_queue_def publish_status_event_def save_record_def Let_def)

lemma with_status_simps [simp]:
  "cr_status (with_status now r st) = st"
  "cr_command_id (with_status now r st) = cr_command_id r"
  by (simp_all add: with_status_def)

text \<open>Records are stored under their own id.\<close>

definition ids_ok ::
  "('m, 'q, 't, 's) cmd_redis \<Rightarrow> timestamp \<Rightarrow> ('m, 'q, 't, 's) cmd_state \<Rightarrow> bool" where
  "ids_ok D now s = (\<forall>k r. load_record D now s k = Some r \<longrightarrow> cr_command_id r = k)"

locale command_store =
  rec: redis_keys "rd_records D" +
  que: redis_lists "rd_queue D" items +
  tok: redis_keys "rd_tokens D" +
  sch: redis_lists "rd_schedules D" sched_items
  for D :: "('m, 'q, 't, 's) cmd_redis" and items :: "'q \<Rightarrow> (string \<times> json) list list"
    and sched_items :: "'s \<Rightarrow> schedule list"
begin

lemma load_save:
  "load_record D now (save_record D now r s) k =
     (if k = cr_command_id r then Some r else load_record D now s k)"
  by (simp add: load_record_def save_record_def rec.get_set usec_def Let_def)

lemma load_later: "now \<le> now' \<Longrightarrow> load_record D now' s k = load_record D now s k \<or> load_record D now' s k = None"
  using rec.get_earlier [of now' "cs_records s" k _ now]
  by (cases "load_record D now' s k") (auto simp: load_record_def)

lemma live_after_pop:
  assumes "lpop (rd_queue D) (live_queue D now s dev) = Some (x, q')"
  shows "live_queue D now (set_queue dev q' s) dev = q'"
    and "items (live_queue D now s dev) = x # items q'"
proof -
  show "items (live_queue D now s dev) = x # items q'" using que.lpop_Some [OF assms] .
  then show "live_queue D now (set_queue dev q' s) dev = q'"
    by (auto simp: live_queue_def set_queue_def split: prod.splits option.splits if_splits)
qed

text \<open>A push keeps the newest hundred items, and the key lives on.\<close>

lemma queue_after_push:
  "items (live_queue D now (push_command D now dev item s) dev) =
     (let q = items (live_queue D now s dev) @ [item] in drop (length q - 100) q)"
  using slice_last [of 100 "items (live_queue D now s dev) @ [item]"]
  by (simp add: live_queue_def push_command_def usec_def Let_def)

text \<open>One step of the flush, on the queue's first item.\<close>

lemma flush_step_skip:
  assumes "lpop (rd_queue D) (live_queue D now s dev) = Some (x, q')"
    and "dict_get x ''command_id'' = JStr c"
    and "load_record D now s c = None \<or> (\<exists>r. load_record D now s c = Some r \<and> cr_status r \<noteq> QUEUED)"
  shows "flush_loop D pub now dev tpc fl s = flush_loop D pub now dev tpc fl (set_queue dev q' s)"
proof -
  have "next_status (Some st) RECONNECT_FLUSH = None" if "st \<noteq> QUEUED" for st
    using that by (cases st) simp_all
  with assms show ?thesis by (subst flush_loop.simps) auto
qed

definition sent_state where
  "sent_state now tpc r s =
     publish_status_event (with_status now r SENT) (save_record D now (with_status now r SENT)
       (s\<lparr>cs_published := cs_published s @ [(tpc, command_mqtt_payload (with_status now r SENT))]\<rparr>))"

lemma flush_step_send:
  assumes "lpop (rd_queue D) (live_queue D now s dev) = Some (x, q')"
    and "dict_get x ''command_id'' = JStr c" "load_record D now s c = Some r" "cr_status r = QUEUED"
  shows "flush_loop D pub now dev tpc fl s =
    (if pub tpc (command_mqtt_payload (with_status now r SENT))
     then flush_loop D pub now dev tpc (fl @ [with_status now r SENT])
            (sent_state now tpc r (set_queue dev q' s))
     else Some (Inl PublishFailed, set_queue dev q' s))"
  using assms by (subst flush_loop.simps) (simp add: sent_state_def Let_def)

lemma sent_state_simps [simp]:
  "live_queue D now (sent_state now tpc r s) dev = live_queue D now s dev"
  "load_record D now (sent_state now tpc r s) k =
     (if k = cr_command_id r then Some (with_status now r SENT) else load_record D now s k)"
  "cs_published (sent_state now tpc r s) =
     cs_published s @ [(tpc, command_mqtt_payload (with_status now r SENT))]"
  by (simp_all add: sent_state_def load_save)
    (simp add: publish_status_event_def save_record_def Let_def)

lemma set_queue_published [simp]: "cs_published (set_queue dev q s) = cs_published s"
  by (simp add: set_queue_def)

lemma ids_ok_sent: "ids_ok D now s \<Longrightarrow> ids_ok D now (sent_state now tpc r (set_queue dev q s))"
  by (simp add: ids_ok_def)

text \<open>The flush returns whatever the queue holds, and moves only queued commands, to SENT.\<close>

lemma flush_loop_status:
  assumes "ids_ok D now s"
  shows "\<exists>res s'. flush_loop D pub now dev tpc fl s = Some (res, s')
     \<and> (\<forall>k. load_record D now s' k = load_record D now s k
          \<or> (\<exists>r. load_record D now s k = Some r \<and> cr_status r = QUEUED
               \<and> load_record D now s' k = Some (with_status now r SENT)))"
  using assms
proof (induction "length (items (live_queue D now s dev))" arbitrary: s fl rule: less_induct)
  case less
  show ?case
  proof (cases "lpop (rd_queue D) (live_queue D now s dev)")
    case None
    then show ?thesis by (subst flush_loop.simps) simp
  next
    case (Some p)
    obtain x q' where p: "p = (x, q')" by (cases p)
    note pop = Some [unfolded p]
    note live = live_after_pop [OF pop]
    let ?s1 = "set_queue dev q' s"
    have ok1: "ids_ok D now ?s1" using less.prems by (simp add: ids_ok_def)
    consider (bad) "\<nexists>c. dict_get x ''command_id'' = JStr c"
      | (skip) c where "dict_get x ''command_id'' = JStr c" "load_record D now s c = None
          \<or> (\<exists>r. load_record D now s c = Some r \<and> cr_status r \<noteq> QUEUED)"
      | (send) c r where "dict_get x ''command_id'' = JStr c" "load_record D now s c = Some r"
          "cr_status r = QUEUED"
      by (metis not_None_eq)
    then show ?thesis
    proof cases
      case bad
      with pop show ?thesis
        by (subst flush_loop.simps) (cases "dict_get x ''command_id''"; auto)
    next
      case skip
      have "length (items (live_queue D now ?s1 dev)) < length (items (live_queue D now s dev))"
        by (simp add: live)
      from less.hyps [OF this ok1] flush_step_skip [OF pop skip] show ?thesis by simp
    next
      case send
      let ?s2 = "sent_state now tpc r ?s1"
      have id: "cr_command_id r = c" using less.prems send(2) by (simp add: ids_ok_def)
      show ?thesis
      proof (cases "pub tpc (command_mqtt_payload (with_status now r SENT))")
        case False
        with flush_step_send [OF pop send] show ?thesis by simp
      next
        case True
        have "length (items (live_queue D now ?s2 dev)) < length (items (live_queue D now s dev))"
          by (simp add: live)
        from less.hyps [OF this ids_ok_sent [OF less.prems], of "fl @ [with_status now r SENT]"]
        obtain res s' where res: "flush_loop D pub now dev tpc (fl @ [with_status now r SENT]) ?s2 = Some (res, s')"
          "\<forall>k. load_record D now s' k = load_record D now ?s2 k
          \<or> (\<exists>r. load_record D now ?s2 k = Some r \<and> cr_status r = QUEUED
               \<and> load_record D now s' k = Some (with_status now r SENT))" by blast
        have "load_record D now s' k = load_record D now s k
          \<or> (\<exists>r. load_record D now s k = Some r \<and> cr_status r = QUEUED
               \<and> load_record D now s' k = Some (with_status now r SENT))" for k
          using res(2) [rule_format, of k] send id by (cases "k = c") auto
        with res(1) True flush_step_send [OF pop send] show ?thesis by simp
      qed
    qed
  qed
qed

end

text \<open>What a flush of a list of queued items delivers, given the stored records.\<close>

fun flush_spec ::
  "timestamp \<Rightarrow> (string \<Rightarrow> command_record option) \<Rightarrow> (string \<times> json) list list \<Rightarrow> command_record list" where
  "flush_spec now store [] = []"
| "flush_spec now store (x # xs) =
     (case dict_get x ''command_id'' of
        JStr c \<Rightarrow>
          (case store c of
             Some r \<Rightarrow>
               if cr_status r = QUEUED
               then with_status now r SENT # flush_spec now (store(c \<mapsto> with_status now r SENT)) xs
               else flush_spec now store xs
           | None \<Rightarrow> flush_spec now store xs)
      | _ \<Rightarrow> [])"

lemma flush_spec_ids:
  assumes "\<forall>k r. store k = Some r \<longrightarrow> cr_command_id r = k"
    and "list_all (\<lambda>y. \<exists>d. d \<noteq> c \<and> dict_get y ''command_id'' = JStr d) xs"
  shows "\<forall>r \<in> set (flush_spec now store xs). cr_command_id r \<noteq> c"
  using assms
proof (induction xs arbitrary: store)
  case Nil
  show ?case by simp
next
  case (Cons x xs)
  obtain d where d: "d \<noteq> c" "dict_get x ''command_id'' = JStr d" using Cons.prems(2) by auto
  have rest: "list_all (\<lambda>y. \<exists>d. d \<noteq> c \<and> dict_get y ''command_id'' = JStr d) xs"
    using Cons.prems(2) by simp
  show ?case
  proof (cases "store d")
    case None
    then show ?thesis using d Cons.IH [OF Cons.prems(1) rest] by simp
  next
    case (Some r)
    have "\<forall>k r'. (store(d \<mapsto> with_status now r SENT)) k = Some r' \<longrightarrow> cr_command_id r' = k"
      using Cons.prems(1) Some by auto
    from Cons.IH [OF this rest] Cons.IH [OF Cons.prems(1) rest] Cons.prems(1) Some d
    show ?thesis by (auto simp del: fun_upd_apply)
  qed
qed

context command_store
begin

lemma flush_loop_delivers:
  assumes "ids_ok D now s" "\<And>t x. pub t x"
    and "\<forall>x \<in> set (items (live_queue D now s dev)). \<exists>c. dict_get x ''command_id'' = JStr c"
  shows "\<exists>s'. flush_loop D pub now dev tpc fl s
        = Some (Inr (fl @ flush_spec now (load_record D now s) (items (live_queue D now s dev))), s')
     \<and> items (live_queue D now s' dev) = []
     \<and> cs_published s' = cs_published s @ map (\<lambda>r. (tpc, command_mqtt_payload r))
         (flush_spec now (load_record D now s) (items (live_queue D now s dev)))"
  using assms(1,3)
proof (induction "items (live_queue D now s dev)" arbitrary: s fl)
  case Nil
  then have "lpop (rd_queue D) (live_queue D now s dev) = None" using que.lpop_None by simp
  with Nil show ?case by (subst flush_loop.simps) (simp flip: Nil.hyps)
next
  case (Cons x xs)
  obtain q' where pop: "lpop (rd_queue D) (live_queue D now s dev) = Some (x, q')" "items q' = xs"
    using que.lpop_cases [of "live_queue D now s dev"] Cons.hyps(2) by auto
  note live = live_after_pop [OF pop(1)]
  let ?s1 = "set_queue dev q' s"
  have q: "items (live_queue D now s dev) = x # xs" using Cons.hyps(2) by simp
  have ok1: "ids_ok D now ?s1" using Cons.prems by (simp add: ids_ok_def)
  obtain c where c: "dict_get x ''command_id'' = JStr c" using Cons.prems(2) q by auto
  show ?case
  proof (cases "\<exists>r. load_record D now s c = Some r \<and> cr_status r = QUEUED")
    case False
    then have skip: "load_record D now s c = None
        \<or> (\<exists>r. load_record D now s c = Some r \<and> cr_status r \<noteq> QUEUED)" by (metis not_None_eq)
    then have spec: "flush_spec now (load_record D now s) (x # xs) = flush_spec now (load_record D now s) xs"
      using c by auto
    have "load_record D now ?s1 = load_record D now s" by (rule ext) simp
    moreover have "xs = items (live_queue D now ?s1 dev)" using live(1) pop(2) by simp
    moreover note Cons.hyps(1) [OF this ok1, of fl]
    ultimately show ?thesis
      using Cons.prems(2) flush_step_skip [OF pop(1) c skip, of pub tpc fl] unfolding q spec by simp
  next
    case True
    then obtain r where r: "load_record D now s c = Some r" "cr_status r = QUEUED" by blast
    let ?u = "with_status now r SENT" and ?s2 = "sent_state now tpc r ?s1"
    have id: "cr_command_id r = c" using Cons.prems(1) r by (simp add: ids_ok_def)
    have store: "load_record D now ?s2 = (load_record D now s)(c \<mapsto> ?u)"
      by (rule ext) (simp add: id)
    have spec: "flush_spec now (load_record D now s) (x # xs)
        = ?u # flush_spec now ((load_record D now s)(c \<mapsto> ?u)) xs" using c r by simp
    have "xs = items (live_queue D now ?s2 dev)" using live(1) pop(2) by simp
    from Cons.hyps(1) [OF this ids_ok_sent [OF Cons.prems(1)], of "fl @ [?u]"] Cons.prems(2)
    show ?thesis
      using flush_step_send [OF pop(1) c r, of pub tpc fl] assms(2) live(1) pop(2)
      unfolding q spec store by simp
  qed
qed

end

section \<open>The system of command operations\<close>

text \<open>An operation comes some microseconds after the one before.\<close>

datatype cmd_op =
    Op_issue "string \<Rightarrow> json \<Rightarrow> bool" queue_fault principal string uuid string "rat option"
      "string option" int
  | Op_ack string
  | Op_timeout string
  | Op_flush "string \<Rightarrow> json \<Rightarrow> bool" string string

fun cmd_step ::
  "('m, 'q, 't, 's) cmd_redis \<Rightarrow> nat \<times> cmd_op \<Rightarrow> timestamp \<times> ('m, 'q, 't, 's) cmd_state
     \<Rightarrow> timestamp \<times> ('m, 'q, 't, 's) cmd_state" where
  "cmd_step D (dt, op) (t, s) =
     (let now = t + int dt in
      (now, case op of
        Op_issue pub fault p cid dev ty v target tmo \<Rightarrow>
          snd (issue_command D pub fault p now cid dev ty v target tmo s)
      | Op_ack cid \<Rightarrow> snd (confirm_command D now cid s)
      | Op_timeout cid \<Rightarrow> snd (expire_command D now cid s)
      | Op_flush pub org dev \<Rightarrow>
          (case flush_queued_commands D pub now org dev s of Some (res, s') \<Rightarrow> s' | None \<Rightarrow> s)))"

text \<open>Every issue draws a new random id, so no operation after it issues the same command again.\<close>

fun not_reissued :: "string \<Rightarrow> nat \<times> cmd_op \<Rightarrow> bool" where
  "not_reissued k (dt, Op_issue pub fault p cid dev ty v target tmo) = (cid \<noteq> k)"
| "not_reissued k (dt, op) = True"

definition command_status_at ::
  "('m, 'q, 't, 's) cmd_redis \<Rightarrow> timestamp \<times> ('m, 'q, 't, 's) cmd_state \<Rightarrow> string
     \<Rightarrow> command_status option" where
  "command_status_at D st k = map_option cr_status (load_record D (fst st) (snd st) k)"

text \<open>A command's record can lapse, and otherwise follows the transition table.\<close>

inductive cmd_moves :: "command_status option \<Rightarrow> command_status option \<Rightarrow> bool" where
  lapse: "cmd_moves x None"
| legal: "next_status (Some st) ev = Some st' \<Longrightarrow> cmd_moves (Some st) (Some st')"

inductive_cases cmd_movesE: "cmd_moves x (Some st)"

context command_store
begin

lemma ids_ok_later: "ids_ok D now s \<Longrightarrow> now \<le> now' \<Longrightarrow> ids_ok D now' s"
  using load_later by (metis ids_ok_def option.distinct(1))

lemma apply_event_load:
  assumes "ids_ok D now s"
  shows "load_record D now (snd (apply_event ev D now c s)) k =
    (if k = c then
       (case load_record D now s c of None \<Rightarrow> None
        | Some r \<Rightarrow> (case next_status (Some (cr_status r)) ev of
             None \<Rightarrow> Some r | Some new \<Rightarrow> Some (with_status now r new)))
     else load_record D now s k)"
  using assms
  by (auto simp: apply_event_def ids_ok_def load_save Let_def split: option.split)

lemma issue_load:
  "(\<exists>r. cr_command_id r = c \<and> load_record D now (snd (issue_command D pub fault p now c dev ty v target tmo s)) k
      = (if k = c then Some r else load_record D now s k))
   \<or> load_record D now (snd (issue_command D pub fault p now c dev ty v target tmo s)) k = load_record D now s k"
proof -
  have topic: "load_record D now (snd (online_topic D now d s)) k = load_record D now s k" for d
    by (simp add: online_topic_def load_record_def Let_def split: option.split list.split)
  have faulty: "load_record D now (s\<lparr>cs_queues := qs\<rparr>) k = load_record D now s k" for qs
    by (simp add: load_record_def)
  show ?thesis
  proof (cases "validate_command ty v")
    case (Inl e)
    then show ?thesis by (simp add: issue_command_def)
  next
    case valid: (Inr u)
    show ?thesis
    proof (cases "scope_get p dv_id dv_org_id (cs_devices s) dev")
      case (Inl e)
      with valid show ?thesis by (simp add: issue_command_def Let_def)
    next
      case (Inr d)
      obtain tpc s1 where t: "online_topic D now d s = (tpc, s1)" by fastforce
      have s1: "load_record D now s1 k = load_record D now s k" using topic [of d] by (simp add: t)
      show ?thesis
      proof (cases "dv_id d \<in> cs_online s")
        case True
        with valid Inr t s1 show ?thesis
          by (simp add: issue_command_def Let_def load_save)
      next
        case False
        with valid Inr faulty show ?thesis
          by (cases fault) (auto simp: issue_command_def Let_def load_save)
      qed
    qed
  qed
qed

lemma issue_ids_ok:
  assumes "ids_ok D now s"
  shows "ids_ok D now (snd (issue_command D pub fault p now c dev ty v target tmo s))"
  unfolding ids_ok_def
proof (intro allI impI)
  fix k r
  assume "load_record D now (snd (issue_command D pub fault p now c dev ty v target tmo s)) k = Some r"
  with assms issue_load [of c now pub fault p dev ty v target tmo s k] show "cr_command_id r = k"
    by (auto simp: ids_ok_def split: if_splits)
qed

lemma cmd_step_inv:
  assumes "ids_ok D (fst st) (snd st)"
  shows "ids_ok D (fst (cmd_step D x st)) (snd (cmd_step D x st))"
proof -
  obtain dt op t s where x: "x = (dt, op)" "st = (t, s)" by (cases x, cases st)
  let ?now = "t + int dt"
  have ok: "ids_ok D ?now s" using assms by (simp add: x ids_ok_later)
  have ev: "ids_ok D ?now (snd (apply_event ev D ?now c s))" for ev c
    using ok apply_event_load [OF ok] by (auto simp: ids_ok_def split: if_splits option.splits)
  show ?thesis
  proof (cases op)
    case (Op_flush pub org dev)
    obtain res s' where "flush_queued_commands D pub ?now org dev s = Some (res, s')"
      "\<forall>k. load_record D ?now s' k = load_record D ?now s k
          \<or> (\<exists>r. load_record D ?now s k = Some r \<and> cr_status r = QUEUED
               \<and> load_record D ?now s' k = Some (with_status ?now r SENT))"
      using flush_loop_status [OF ok] unfolding flush_queued_commands_def by blast
    with ok Op_flush show ?thesis by (simp add: x ids_ok_def) (metis option.inject with_status_simps(2))
  qed (use ok ev issue_ids_ok [OF ok] in \<open>simp_all add: x confirm_command_def expire_command_def Let_def\<close>)
qed

lemma cmd_step_moves:
  assumes "ids_ok D (fst st) (snd st)" "not_reissued k x"
  shows "command_status_at D (cmd_step D x st) k = command_status_at D st k
    \<or> cmd_moves (command_status_at D st k) (command_status_at D (cmd_step D x st) k)"
proof -
  obtain dt op t s where x: "x = (dt, op)" "st = (t, s)" by (cases x, cases st)
  let ?now = "t + int dt"
  have ok: "ids_ok D ?now s" using assms(1) by (simp add: x ids_ok_later)
  have "load_record D ?now s k = None \<or> load_record D ?now s k = load_record D t s k"
    using load_later [of t ?now s k] by auto
  moreover have "load_record D ?now (snd (cmd_step D x st)) k = load_record D ?now s k
    \<or> (\<exists>r r' ev. load_record D ?now s k = Some r \<and> next_status (Some (cr_status r)) ev = Some (cr_status r')
         \<and> load_record D ?now (snd (cmd_step D x st)) k = Some r')"
  proof (cases op)
    case (Op_issue pub fault p c dev ty v target tmo)
    then have "c \<noteq> k" using assms(2) by (simp add: x)
    then show ?thesis using issue_load [of c ?now pub fault p dev ty v target tmo s k] Op_issue
      by (auto simp: x Let_def)
  next
    case (Op_flush pub org dev)
    obtain res s' where "flush_queued_commands D pub ?now org dev s = Some (res, s')"
      "load_record D ?now s' k = load_record D ?now s k
          \<or> (\<exists>r. load_record D ?now s k = Some r \<and> cr_status r = QUEUED
               \<and> load_record D ?now s' k = Some (with_status ?now r SENT))"
      using flush_loop_status [OF ok] unfolding flush_queued_commands_def by blast
    moreover have "next_status (Some QUEUED) RECONNECT_FLUSH = Some SENT" by simp
    moreover from calculation(2) have "load_record D ?now s' k = load_record D ?now s k
      \<or> (\<exists>r r' ev. load_record D ?now s k = Some r \<and> next_status (Some (cr_status r)) ev = Some (cr_status r')
           \<and> load_record D ?now s' k = Some r')"
      using calculation(3) with_status_simps(1) by metis
    ultimately show ?thesis using Op_flush by (simp add: x Let_def)
  qed (use apply_event_load [OF ok] in
      \<open>auto simp: x confirm_command_def expire_command_def Let_def split: option.split, blast?\<close>)
  ultimately consider (lapsed) "load_record D ?now (snd (cmd_step D x st)) k = None"
    | (same) "load_record D ?now (snd (cmd_step D x st)) k = load_record D t s k"
    | (moved) r r' ev where "load_record D t s k = Some r"
        "next_status (Some (cr_status r)) ev = Some (cr_status r')"
        "load_record D ?now (snd (cmd_step D x st)) k = Some r'"
    by (metis option.distinct(1))
  then show ?thesis
  proof cases
    case lapsed
    then show ?thesis by (simp add: command_status_at_def x Let_def lapse)
  next
    case same
    then show ?thesis by (simp add: command_status_at_def x Let_def)
  next
    case moved
    then show ?thesis by (simp add: command_status_at_def x Let_def legal [OF moved(2)])
  qed
qed

end

sublocale command_store \<subseteq> machine: status_system "cmd_step D" "not_reissued k"
  "\<lambda>st. ids_ok D (fst st) (snd st)" "\<lambda>st (_ :: unit). command_status_at D st k" cmd_moves
  for k
  by unfold_locales (rule cmd_step_inv cmd_step_moves, assumption+)+

context command_store
begin

lemmas status_runs = machine.run_moves and status_closed = machine.run_closed

end

definition ref_redis where
  "ref_redis = \<lparr>rd_records = ttl_maps, rd_queue = plain_lists, rd_tokens = ttl_maps,
     rd_schedules = plain_lists\<rparr>"

interpretation cst: command_store ref_redis "\<lambda>q. q" "\<lambda>q. q"
  unfolding ref_redis_def command_store_def
  by (simp add: tm.redis_keys_axioms pl.redis_lists_axioms)

section \<open>Properties\<close>

lemma terminal_stays: "st \<in> {CONFIRMED, UNACKNOWLEDGED} \<Longrightarrow> next_status (Some st) ev = None"
  by (cases ev) auto

text \<open>C6. Commands follow the transition table: over any run of issues, ACKs, timeouts and reconnect
  flushes, at any times and with any publisher failures, a command's stored status only ever takes
  the transitions QUEUED to SENT, SENT to CONFIRMED and SENT to UNACKNOWLEDGED, or lapses with its
  record; once CONFIRMED or UNACKNOWLEDGED it never becomes anything else.\<close>

theorem command_status_run:
  assumes "command_store D items sched_items" "ids_ok D t s" "list_all (not_reissued k) ops"
    and "st \<in> {CONFIRMED, UNACKNOWLEDGED}"
  shows "cmd_moves\<^sup>*\<^sup>* (command_status_at D (t, s) k)
            (command_status_at D (run_ops (cmd_step D) ops (t, s)) k)
    \<and> (command_status_at D (t, s) k = Some st \<longrightarrow>
        command_status_at D (run_ops (cmd_step D) ops (t, s)) k \<in> {Some st, None})"
proof
  have ok: "ids_ok D (fst (t, s)) (snd (t, s))" using assms(2) by simp
  show "cmd_moves\<^sup>*\<^sup>* (command_status_at D (t, s) k)
            (command_status_at D (run_ops (cmd_step D) ops (t, s)) k)"
    using command_store.status_runs [OF assms(1) ok assms(3)] .
  show "command_status_at D (t, s) k = Some st \<longrightarrow>
        command_status_at D (run_ops (cmd_step D) ops (t, s)) k \<in> {Some st, None}"
  proof
    assume "command_status_at D (t, s) k = Some st"
    then have start: "command_status_at D (t, s) k \<in> {Some st, None}" by simp
    have "y \<in> {Some st, None}" if "x \<in> {Some st, None}" "cmd_moves x y" for x y
      using that(2,1) assms(4) terminal_stays by (cases rule: cmd_moves.cases) auto
    then show "command_status_at D (run_ops (cmd_step D) ops (t, s)) k \<in> {Some st, None}"
      using command_store.status_closed [OF assms(1) ok assms(3) _ start] by blast
  qed
qed

definition ex_record :: "string \<Rightarrow> command_status \<Rightarrow> command_record" where
  "ex_record k st = \<lparr>cr_command_id = k, cr_device_id = ''d1'', cr_org_id = ''o1'', cr_type = ''on'',
     cr_value = None, cr_target = Some ''led'', cr_status = st, cr_created_at = 0, cr_updated_at = 0\<rparr>"

definition ex_cmd_state where
  "ex_cmd_state recs q = \<lparr>cs_records = recs,
     cs_queues = (\<lambda>d. if d = ''d1'' then (q, Some (usec 604800)) else ([], None)), cs_online = {},
     cs_tokens = Map.empty, cs_schedules = (\<lambda>_. []),
     cs_devices = [\<lparr>dv_id = ''d1'', dv_org_id = ''o1''\<rparr>],
     cs_credentials = [\<lparr>cd_device_id = ''d1'', cd_token = ''tok'', cd_revoked = False\<rparr>],
     cs_published = [], cs_events = [], cs_activity = [], cs_timers = []\<rparr>"

theorem command_status_run_witness:
  defines "s \<equiv> ex_cmd_state [''c'' \<mapsto> (ex_record ''c'' CONFIRMED, None)] []"
  shows "command_status_at ref_redis (run_ops (cmd_step ref_redis) [(5, Op_timeout ''c''), (1, Op_ack ''c'')] (0, s)) ''c''
    \<in> {Some CONFIRMED, None}"
proof -
  have "ids_ok ref_redis 0 s"
    by (auto simp: ids_ok_def load_record_def ref_redis_def s_def ex_cmd_state_def ex_record_def)
  moreover have "command_status_at ref_redis (0, s) ''c'' = Some CONFIRMED"
    by (simp add: command_status_at_def load_record_def ref_redis_def s_def ex_cmd_state_def ex_record_def)
  ultimately show ?thesis
    using command_status_run [OF cst.command_store_axioms, of 0 s "''c''"
        "[(5, Op_timeout ''c''), (1, Op_ack ''c'')]" CONFIRMED] by simp
qed

text \<open>Reconnect delivery: whatever a device's queue holds, the flush returns and leaves the queue
  empty; with a working broker it publishes, in the order they were queued and each once, exactly
  the commands whose record still reads QUEUED, on the device's token topic.\<close>

theorem flush_delivers_in_order:
  assumes "command_store D items sched_items" "ids_ok D now s" "\<And>t x. pub t x"
    and "q = items (live_queue D now s (queue_device_id (cs_credentials s) device_id))"
    and "list_all (\<lambda>x. \<exists>c. dict_get x ''command_id'' = JStr c) q"
  shows "\<exists>s'. flush_queued_commands D pub now org_id device_id s
        = Some (Inr (flush_spec now (load_record D now s) q), s')
    \<and> items (live_queue D now s' (queue_device_id (cs_credentials s) device_id)) = []
    \<and> cs_published s' = cs_published s
        @ map (\<lambda>r. (token_command_topic device_id, command_mqtt_payload r))
            (flush_spec now (load_record D now s) q)"
proof -
  have "\<forall>x \<in> set (items (live_queue D now s (queue_device_id (cs_credentials s) device_id))).
      \<exists>c. dict_get x ''command_id'' = JStr c" using assms(4,5) by (simp add: list_all_iff)
  from command_store.flush_loop_delivers [OF assms(1,2,3) this,
      where tpc = "token_command_topic device_id" and fl = "[]"]
  show ?thesis by (simp add: flush_queued_commands_def assms(4))
qed

theorem flush_delivers_in_order_witness:
  defines "s \<equiv> ex_cmd_state [''a'' \<mapsto> (ex_record ''a'' QUEUED, None), ''b'' \<mapsto> (ex_record ''b'' QUEUED, None)]
      [[(''command_id'', JStr ''b'')], [(''command_id'', JStr ''x'')], [(''command_id'', JStr ''a'')],
       [(''command_id'', JStr ''b'')]]"
  shows "\<exists>s'. flush_queued_commands ref_redis (\<lambda>t x. True) 7 ''tok'' ''tok'' s
      = Some (Inr [with_status 7 (ex_record ''b'' QUEUED) SENT, with_status 7 (ex_record ''a'' QUEUED) SENT], s')"
proof -
  have ok: "ids_ok ref_redis 7 s"
    by (auto simp: ids_ok_def load_record_def ref_redis_def s_def ex_cmd_state_def ex_record_def
        split: if_splits)
  have load: "load_record ref_redis 7 s = [''a'' \<mapsto> ex_record ''a'' QUEUED, ''b'' \<mapsto> ex_record ''b'' QUEUED]"
    by (rule ext) (simp add: load_record_def ref_redis_def s_def ex_cmd_state_def)
  have q: "live_queue ref_redis 7 s (queue_device_id (cs_credentials s) ''tok'')
      = [[(''command_id'', JStr ''b'')], [(''command_id'', JStr ''x'')], [(''command_id'', JStr ''a'')],
       [(''command_id'', JStr ''b'')]]"
    by (simp add: live_queue_def s_def ex_cmd_state_def queue_device_id_def usec_def)
  have "flush_spec 7 (load_record ref_redis 7 s) (live_queue ref_redis 7 s (queue_device_id (cs_credentials s) ''tok''))
      = [with_status 7 (ex_record ''b'' QUEUED) SENT, with_status 7 (ex_record ''a'' QUEUED) SENT]"
    unfolding load q by (simp add: dict_get_def ex_record_def with_status_def)
  then show ?thesis
    using flush_delivers_in_order [OF cst.command_store_axioms ok _ refl, of "\<lambda>t x. True" "''tok''" "''tok''"]
    by (auto simp: q dict_get_def)
qed

text \<open>Issuing a command to a device of the caller.  Online: it is published once and recorded as
  SENT, and when the broker refuses it nothing is recorded.  Offline: it joins the end of the
  device's queue, which keeps its newest hundred, and is recorded as QUEUED; when a queue operation
  fails the request is refused with 503 and nothing is recorded, so no flush will ever deliver it.\<close>

theorem issue_command_outcome:
  assumes "command_store D items sched_items"
    and "validate_command ty v = Inr u" "scope_get p dv_id dv_org_id (cs_devices s) dev = Inr d"
    and "issue_command D pub fault p now cid dev ty v target tmo s = (res, s')"
    and "load_record D now s cid = None"
  shows "(if dv_id d \<in> cs_online s
     then (case res of
        Inr r \<Rightarrow> cr_status r = SENT \<and> cr_command_id r = cid \<and> load_record D now s' cid = Some r
          \<and> cs_published s' = cs_published s @ [(fst (online_topic D now d s), command_mqtt_payload r)]
      | Inl e \<Rightarrow> e = PublishFailed \<and> load_record D now s' cid = None
          \<and> cs_published s' = cs_published s)
     else (case res of
        Inr r \<Rightarrow> fault = NoFault \<and> cr_status r = QUEUED \<and> load_record D now s' cid = Some r
          \<and> cs_published s' = cs_published s
          \<and> (\<exists>item. dict_get item ''command_id'' = JStr cid
              \<and> items (live_queue D now s' (dv_id d)) =
                  (let q = items (live_queue D now s (dv_id d)) @ [item] in drop (length q - 100) q))
      | Inl e \<Rightarrow> fault \<noteq> NoFault \<and> e = Raised (AppError ''command_queue_failed'' 503)
          \<and> load_record D now s' cid = None \<and> cs_published s' = cs_published s))"
proof -
  note laws = command_store.load_save [OF assms(1)]
  have topic: "load_record D now (snd (online_topic D now d s)) cid = load_record D now s cid"
    "cs_published (snd (online_topic D now d s)) = cs_published s"
    by (simp_all add: online_topic_def load_record_def Let_def split: option.split list.split)
  have log: "cs_published (log_command p d r x) = cs_published x"
    "cs_published (publish_status_event r x) = cs_published x"
    "cs_published (save_record D now r x) = cs_published x"
    "cs_published (schedule_ack_timeout now c m x) = cs_published x"
    "cs_published (push_command D now k item x) = cs_published x"
    "live_queue D now (log_command p d r x) k = live_queue D now x k" for r x c m k item
    by (simp_all add: log_command_def publish_status_event_def save_record_def
        schedule_ack_timeout_def push_command_def live_queue_def Let_def)
  show ?thesis
  proof (cases "dv_id d \<in> cs_online s")
    case True
    obtain tpc s1 where t: "online_topic D now d s = (tpc, s1)" by fastforce
    have s1: "load_record D now s1 cid = None" "cs_published s1 = cs_published s"
      using topic assms(5) by (simp_all add: t)
    show ?thesis
      using assms(2-4) True t s1
      by (auto simp: issue_command_def Let_def laws log split: if_splits)
  next
    case False
    have faulty: "load_record D now (s\<lparr>cs_queues := qs\<rparr>) k = load_record D now s k" for qs k
      by (simp add: load_record_def)
    have pushed: "items (live_queue D now (push_command D now (dv_id d) item x) (dv_id d))
        = (let q = items (live_queue D now x (dv_id d)) @ [item] in drop (length q - 100) q)" for item x
      using command_store.queue_after_push [OF assms(1)] .
    have published: "cs_published (s\<lparr>cs_queues := qs\<rparr>) = cs_published s" for qs by simp
    show ?thesis
    proof (cases fault)
      case NoFault
      then show ?thesis using assms(2-4) False
        by (auto simp: issue_command_def Let_def laws log pushed dict_get_def)
    qed (use assms(2-5) False faulty in \<open>auto simp: issue_command_def Let_def fail_def CommandQueueError_def\<close>)
  qed
qed

theorem issue_command_outcome_witness:
  "\<exists>r s'. issue_command ref_redis (\<lambda>t x. True) NoFault \<lparr>pr_user_id = ''u'', pr_org_id = ''o1'',
        pr_role = ''user''\<rparr> 7 ''n'' ''d1'' ''on'' None None 0 (ex_cmd_state Map.empty [])
      = (Inr r, s')
    \<and> cr_status r = QUEUED
    \<and> length (live_queue ref_redis 7 s' ''d1'') = 1"
proof -
  let ?p = "\<lparr>pr_user_id = ''u'', pr_org_id = ''o1'', pr_role = ''user''\<rparr>"
    and ?s = "ex_cmd_state Map.empty []"
  obtain res s' where run: "issue_command ref_redis (\<lambda>t x. True) NoFault ?p 7 ''n'' ''d1'' ''on'' None None 0 ?s
      = (res, s')" by fastforce
  have valid: "validate_command ''on'' None = Inr ()" by (simp add: validate_command_def COMMAND_TYPES_def)
  have scope: "scope_get ?p dv_id dv_org_id (cs_devices ?s) ''d1'' = Inr \<lparr>dv_id = ''d1'', dv_org_id = ''o1''\<rparr>"
    by code_simp
  have load: "load_record ref_redis 7 ?s ''n'' = None"
    by (simp add: load_record_def ref_redis_def ex_cmd_state_def)
  have off: "live_queue ref_redis 7 ?s ''d1'' = []" "''d1'' \<notin> cs_online ?s"
    by (simp_all add: live_queue_def ex_cmd_state_def)
  from issue_command_outcome [OF cst.command_store_axioms valid scope run load]
  show ?thesis by (cases res) (auto simp: off run Let_def)
qed

text \<open>When the broker refuses a queued command during a flush, the flush stops with an error and the
  command is already off the queue while its record still reads QUEUED; no later flush of the rest
  of the queue delivers it.\<close>

theorem refused_flush_drops_command:
  assumes "command_store D items sched_items" "ids_ok D now s" "\<not> pub (token_command_topic dev)
        (command_mqtt_payload (with_status now r SENT))"
    and "q = queue_device_id (cs_credentials s) dev"
    and "items (live_queue D now s q) = x # xs" "dict_get x ''command_id'' = JStr c"
    and "load_record D now s c = Some r" "cr_status r = QUEUED"
    and "list_all (\<lambda>y. \<exists>d. d \<noteq> c \<and> dict_get y ''command_id'' = JStr d) xs"
  shows "\<exists>s'. flush_queued_commands D pub now org_id dev s = Some (Inl PublishFailed, s')
    \<and> items (live_queue D now s' q) = xs \<and> load_record D now s' c = Some r
    \<and> (\<exists>sent s''. flush_queued_commands D (\<lambda>t y. True) now org_id dev s' = Some (Inr sent, s'')
        \<and> (\<forall>r' \<in> set sent. cr_command_id r' \<noteq> c))"
proof -
  obtain q' where pop: "lpop (rd_queue D) (live_queue D now s q) = Some (x, q')" "items q' = xs"
    using redis_lists.lpop_cases [OF command_store.axioms(2) [OF assms(1)], of "live_queue D now s q"] assms(5)
    by auto
  let ?s = "set_queue q q' s"
  have live: "live_queue D now ?s q = q'" using command_store.live_after_pop(1) [OF assms(1) pop(1)] .
  have creds: "cs_credentials ?s = cs_credentials s" by (simp add: set_queue_def)
  have ok: "ids_ok D now ?s" using assms(2) by (simp add: ids_ok_def)
  have stop: "flush_queued_commands D pub now org_id dev s = Some (Inl PublishFailed, ?s)"
    using command_store.flush_step_send [OF assms(1) pop(1) assms(6-8)] assms(3)
    by (simp add: flush_queued_commands_def assms(4))
  have rest: "\<forall>y \<in> set (items (live_queue D now ?s q)). \<exists>d. dict_get y ''command_id'' = JStr d"
    using assms(9) by (auto simp: live pop(2) list_all_iff)
  obtain s'' where again: "flush_queued_commands D (\<lambda>t y. True) now org_id dev ?s
      = Some (Inr (flush_spec now (load_record D now ?s) xs), s'')"
    using command_store.flush_loop_delivers [OF assms(1) ok _ rest, where pub = "\<lambda>t y. True"
        and tpc = "token_command_topic dev" and fl = "[]"]
    by (auto simp: flush_queued_commands_def creds assms(4) live pop(2) simp flip: assms(4))
  have "\<forall>r' \<in> set (flush_spec now (load_record D now ?s) xs). cr_command_id r' \<noteq> c"
    using flush_spec_ids [OF ok [unfolded ids_ok_def] assms(9)] .
  moreover have "cr_command_id r = c" using assms(2,7) by (simp add: ids_ok_def)
  ultimately show ?thesis using stop again live pop(2) assms(7) by auto
qed

theorem refused_flush_drops_command_witness:
  "\<exists>s'. flush_queued_commands ref_redis (\<lambda>t y. False) 7 ''tok'' ''tok''
        (ex_cmd_state [''a'' \<mapsto> (ex_record ''a'' QUEUED, None)] [[(''command_id'', JStr ''a'')]])
      = Some (Inl PublishFailed, s') \<and> live_queue ref_redis 7 s' ''d1'' = []"
proof -
  let ?s = "ex_cmd_state [''a'' \<mapsto> (ex_record ''a'' QUEUED, None)] [[(''command_id'', JStr ''a'')]]"
  have ok: "ids_ok ref_redis 7 ?s"
    by (auto simp: ids_ok_def load_record_def ref_redis_def ex_cmd_state_def ex_record_def
        split: if_splits)
  have load: "load_record ref_redis 7 ?s ''a'' = Some (ex_record ''a'' QUEUED)"
    by (simp add: load_record_def ref_redis_def ex_cmd_state_def)
  have dev: "''d1'' = queue_device_id (cs_credentials ?s) ''tok''"
    by (simp add: queue_device_id_def ex_cmd_state_def)
  have q: "live_queue ref_redis 7 ?s ''d1'' = [(''command_id'', JStr ''a'')] # []"
    by (simp add: live_queue_def ex_cmd_state_def usec_def)
  have c: "dict_get [(''command_id'', JStr ''a'')] ''command_id'' = JStr ''a''"
    by (simp add: dict_get_def)
  have st: "cr_status (ex_record ''a'' QUEUED) = QUEUED" by (simp add: ex_record_def)
  from refused_flush_drops_command [OF cst.command_store_axioms ok _ dev q c load st,
      where pub = "\<lambda>t y. False" and org_id = "''tok''"]
  show ?thesis by simp metis
qed

end
