(* ===== verification/Rule_Service.thy ===== *)
theory Rule_Service imports Access Plans
begin

text \<open>
  The rules of an organization and their graphs (\<open>app/services/rule_service.py\<close>): creating,
  updating and deleting a rule with its nodes and edges, and the active-rule limit of the plan.
  A request that raises leaves the tables as they were, because nothing is committed.  The ids the
  database generates are arguments: \<open>fr_nodes i\<close> is the id of the \<open>i\<close>-th node of the request.
\<close>

section \<open>Tables and requests\<close>

record rule_org =
  ro_id :: uuid
  ro_plan :: "string option"

record rule_row =
  ru_id :: uuid
  ru_org_id :: uuid
  ru_name :: string
  ru_enabled :: bool
  ru_template_id :: "uuid option"
  ru_created_at :: timestamp

record rule_node =
  rn_id :: uuid
  rn_org_id :: uuid
  rn_rule_id :: uuid
  rn_node_type :: string
  rn_config :: json
  rn_position :: json

record rule_edge =
  re_id :: uuid
  re_org_id :: uuid
  re_rule_id :: uuid
  re_from_node_id :: uuid
  re_to_node_id :: uuid

record rules_db =
  rb_orgs :: "rule_org list"
  rb_rules :: "rule_row list"
  rb_nodes :: "rule_node list"
  rb_edges :: "rule_edge list"

text \<open>A node and an edge of a request; \<open>None\<close> is a missing key or null.\<close>

record node_in =
  ni_id :: "string option"
  ni_node_type :: "string option"
  ni_config :: json
  ni_position :: json

record edge_in =
  ei_from :: "string option"
  ei_to :: "string option"

record rule_ids =
  fr_rule :: uuid
  fr_nodes :: "nat \<Rightarrow> uuid"
  fr_edges :: "nat \<Rightarrow> uuid"

section \<open>The plan limit\<close>

definition rule_org_uuid :: "principal \<Rightarrow> uuid result" where
  "rule_org_uuid p = (case parse_uuid (pr_org_id p) of Some u \<Rightarrow> Inr u | None \<Rightarrow> Inl ValueError)"

definition org_plan :: "rules_db \<Rightarrow> uuid \<Rightarrow> string option" where
  "org_plan db org = (case tbl_get ro_id (rb_orgs db) org of Some o' \<Rightarrow> ro_plan o' | None \<Rightarrow> None)"

definition count_active_rules :: "rules_db \<Rightarrow> uuid \<Rightarrow> uuid option \<Rightarrow> nat" where
  "count_active_rules db org exclude_id =
     length (filter (\<lambda>r. ru_org_id r = org \<and> ru_enabled r \<and> Some (ru_id r) \<noteq> exclude_id) (rb_rules db))"

definition enforce_active_limit :: "principal \<Rightarrow> uuid option \<Rightarrow> rules_db \<Rightarrow> unit result" where
  "enforce_active_limit p exclude_id db =
     bind_res (rule_org_uuid p) (\<lambda>org.
       case plan_active_rule_limit (org_plan db org) of
         None \<Rightarrow> Inr ()
       | Some limit \<Rightarrow> guard_res (count_active_rules db org exclude_id \<ge> limit) PlanLimitError)"

section \<open>Graphs\<close>

definition invalid_graph :: app_error where
  "invalid_graph = ValidationError ''invalid_rule_graph''"

fun add_nodes ::
  "uuid \<Rightarrow> uuid \<Rightarrow> (nat \<Rightarrow> uuid) \<Rightarrow> nat \<Rightarrow> node_in list \<Rightarrow> rule_node list \<times> (string \<rightharpoonup> uuid)
     \<Rightarrow> (rule_node list \<times> (string \<rightharpoonup> uuid)) result" where
  "add_nodes org rule_id fresh i [] acc = Inr acc"
| "add_nodes org rule_id fresh i (n # ns) (rows, client_to_db) =
     (case ni_node_type n of
        None \<Rightarrow> fail invalid_graph
      | Some ty \<Rightarrow>
          bind_res (insert_row rn_id \<lparr>rn_id = fresh i, rn_org_id = org, rn_rule_id = rule_id,
              rn_node_type = ty, rn_config = ni_config n, rn_position = ni_position n\<rparr> rows) (\<lambda>rows'.
            add_nodes org rule_id fresh (Suc i) ns
              (rows', (case ni_id n of None \<Rightarrow> client_to_db | Some c \<Rightarrow> client_to_db(c \<mapsto> fresh i)))))"

text \<open>\<open>client_to_db.get(key) if key else None\<close>.\<close>

definition client_node :: "(string \<rightharpoonup> uuid) \<Rightarrow> string option \<Rightarrow> uuid option" where
  "client_node client_to_db key =
     (case key of None \<Rightarrow> None | Some k \<Rightarrow> if k = [] then None else client_to_db k)"

fun add_edges ::
  "uuid \<Rightarrow> uuid \<Rightarrow> (nat \<Rightarrow> uuid) \<Rightarrow> (string \<rightharpoonup> uuid) \<Rightarrow> nat \<Rightarrow> edge_in list \<Rightarrow> rule_edge list
     \<Rightarrow> rule_edge list result" where
  "add_edges org rule_id fresh client_to_db i [] rows = Inr rows"
| "add_edges org rule_id fresh client_to_db i (e # es) rows =
     (case (client_node client_to_db (ei_from e), client_node client_to_db (ei_to e)) of
        (Some a, Some b) \<Rightarrow>
          bind_res (insert_row re_id \<lparr>re_id = fresh i, re_org_id = org, re_rule_id = rule_id,
              re_from_node_id = a, re_to_node_id = b\<rparr> rows) (\<lambda>rows'.
            add_edges org rule_id fresh client_to_db (Suc i) es rows')
      | _ \<Rightarrow> fail invalid_graph)"

definition flush_graph ::
  "principal \<Rightarrow> rule_ids \<Rightarrow> uuid \<Rightarrow> node_in list option \<Rightarrow> edge_in list option \<Rightarrow> rules_db
     \<Rightarrow> rules_db result" where
  "flush_graph p fr rule_id nodes edges db =
     bind_res (rule_org_uuid p) (\<lambda>org.
     bind_res (add_nodes org rule_id (fr_nodes fr) 0 (case nodes of None \<Rightarrow> [] | Some ns \<Rightarrow> ns)
         (rb_nodes db, Map.empty)) (\<lambda>(nodes', client_to_db).
     bind_res (add_edges org rule_id (fr_edges fr) client_to_db 0
         (case edges of None \<Rightarrow> [] | Some es \<Rightarrow> es) (rb_edges db)) (\<lambda>edges'.
       Inr (db\<lparr>rb_nodes := nodes', rb_edges := edges'\<rparr>))))"

definition delete_graph :: "uuid \<Rightarrow> rules_db \<Rightarrow> rules_db" where
  "delete_graph rule_id db =
     db\<lparr>rb_edges := filter (\<lambda>e. re_rule_id e \<noteq> rule_id) (rb_edges db),
        rb_nodes := filter (\<lambda>n. rn_rule_id n \<noteq> rule_id) (rb_nodes db)\<rparr>"

section \<open>The service\<close>

definition list_rules :: "principal \<Rightarrow> rules_db \<Rightarrow> rule_row list" where
  "list_rules p db = sort_key (\<lambda>r. - ru_created_at r) (scope_select p ru_org_id (rb_rules db))"

definition get_rule :: "principal \<Rightarrow> uuid \<Rightarrow> rules_db \<Rightarrow> rule_row result" where
  "get_rule p rule_id db = scope_get p ru_id ru_org_id (rb_rules db) rule_id"

definition get_graph :: "principal \<Rightarrow> uuid \<Rightarrow> rules_db \<Rightarrow> (rule_node list \<times> rule_edge list) result" where
  "get_graph p rule_id db =
     bind_res (get_rule p rule_id db) (\<lambda>_.
       Inr (filter (\<lambda>n. rn_rule_id n = rule_id) (rb_nodes db),
            filter (\<lambda>e. re_rule_id e = rule_id) (rb_edges db)))"

definition invalid_rule_name :: app_error where
  "invalid_rule_name = ValidationError ''invalid_rule_name''"

definition create_rule ::
  "principal \<Rightarrow> rule_ids \<Rightarrow> timestamp \<Rightarrow> string \<Rightarrow> node_in list option \<Rightarrow> edge_in list option \<Rightarrow> bool
     \<Rightarrow> uuid option \<Rightarrow> rules_db \<Rightarrow> (rule_row \<times> rules_db) result" where
  "create_rule p fr now name nodes edges enabled template_id db =
     bind_res (guard_res (strip name = []) invalid_rule_name) (\<lambda>_.
     bind_res (if enabled then enforce_active_limit p None db else Inr ()) (\<lambda>_.
     bind_res (rule_org_uuid p) (\<lambda>org.
       let rule = \<lparr>ru_id = fr_rule fr, ru_org_id = org, ru_name = strip name, ru_enabled = enabled,
             ru_template_id = template_id, ru_created_at = now\<rparr> in
     bind_res (insert_row ru_id rule (rb_rules db)) (\<lambda>rules'.
     bind_res (flush_graph p fr (fr_rule fr) nodes edges (db\<lparr>rb_rules := rules'\<rparr>)) (\<lambda>db'.
       Inr (rule, db'))))))"

definition update_rule ::
  "principal \<Rightarrow> rule_ids \<Rightarrow> uuid \<Rightarrow> string option \<Rightarrow> bool option \<Rightarrow> node_in list option
     \<Rightarrow> edge_in list option \<Rightarrow> bool \<Rightarrow> bool \<Rightarrow> bool \<Rightarrow> rules_db \<Rightarrow> (rule_row \<times> rules_db) result" where
  "update_rule p fr rule_id name enabled nodes edges name_set nodes_set edges_set db =
     bind_res (get_rule p rule_id db) (\<lambda>rule.
     bind_res (if name_set
               then (case name of
                   Some n \<Rightarrow> if strip n = [] then fail invalid_rule_name
                             else Inr (rule\<lparr>ru_name := strip n\<rparr>)
                 | None \<Rightarrow> fail invalid_rule_name)
               else Inr rule) (\<lambda>rule1.
     bind_res (if enabled = Some True \<and> \<not> ru_enabled rule1
               then enforce_active_limit p (Some (ru_id rule1)) db else Inr ()) (\<lambda>_.
       let rule2 = (case enabled of Some b \<Rightarrow> rule1\<lparr>ru_enabled := b\<rparr> | None \<Rightarrow> rule1);
           db1 = db\<lparr>rb_rules := tbl_put ru_id rule2 (rb_rules db)\<rparr> in
     bind_res (if nodes_set \<or> edges_set
               then flush_graph p fr (ru_id rule2) nodes edges (delete_graph (ru_id rule2) db1)
               else Inr db1) (\<lambda>db2.
       Inr (rule2, db2)))))"

definition delete_rule :: "principal \<Rightarrow> uuid \<Rightarrow> rules_db \<Rightarrow> (unit \<times> rules_db) result" where
  "delete_rule p rule_id db =
     bind_res (get_rule p rule_id db) (\<lambda>rule.
       let db1 = delete_graph (ru_id rule) db in
       Inr ((), db1\<lparr>rb_rules := filter (\<lambda>r. ru_id r \<noteq> ru_id rule) (rb_rules db1)\<rparr>))"

section \<open>The invariant\<close>

definition within_rule_limit :: "rules_db \<Rightarrow> uuid \<Rightarrow> bool" where
  "within_rule_limit db org =
     (case plan_active_rule_limit (org_plan db org) of
        None \<Rightarrow> True
      | Some limit \<Rightarrow> count_active_rules db org None \<le> limit)"

definition graphs_ok :: "rule_row list \<Rightarrow> rule_node list \<Rightarrow> rule_edge list \<Rightarrow> bool" where
  "graphs_ok rules nodes edges =
     (distinct (map rn_id nodes)
      \<and> (\<forall>n \<in> set nodes. (rn_rule_id n, rn_org_id n) \<in> (\<lambda>r. (ru_id r, ru_org_id r)) ` set rules)
      \<and> (\<forall>e \<in> set edges. (re_rule_id e, re_org_id e) \<in> (\<lambda>r. (ru_id r, ru_org_id r)) ` set rules
          \<and> (re_from_node_id e, re_rule_id e) \<in> (\<lambda>n. (rn_id n, rn_rule_id n)) ` set nodes
          \<and> (re_to_node_id e, re_rule_id e) \<in> (\<lambda>n. (rn_id n, rn_rule_id n)) ` set nodes))"

definition rules_ok :: "rules_db \<Rightarrow> bool" where
  "rules_ok db =
     (distinct (map ru_id (rb_rules db)) \<and> graphs_ok (rb_rules db) (rb_nodes db) (rb_edges db)
      \<and> (\<forall>org. within_rule_limit db org))"

lemma add_nodes_Inr:
  assumes "add_nodes org rid fresh i ns acc = Inr (rows', m')"
  shows "\<exists>new. rows' = fst acc @ new \<and> (\<forall>n \<in> set new. rn_org_id n = org \<and> rn_rule_id n = rid)
    \<and> (distinct (map rn_id (fst acc)) \<longrightarrow> distinct (map rn_id rows'))
    \<and> (\<forall>k v. m' k = Some v \<longrightarrow> snd acc k = Some v \<or> v \<in> rn_id ` set new)
    \<and> map rn_id new = map fresh [i..<i + length ns]
    \<and> map (\<lambda>n. (rn_node_type n, rn_config n)) new = map (\<lambda>n. (the (ni_node_type n), ni_config n)) ns"
  using assms
proof (induction org rid fresh i ns acc rule: add_nodes.induct)
  case (1 org rid fresh i acc)
  then show ?case by simp
next
  case (2 org rid fresh i n ns rows m)
  obtain ty where ty: "ni_node_type n = Some ty"
    using "2.prems" by (cases "ni_node_type n") (simp_all add: fail_def)
  let ?row = "\<lparr>rn_id = fresh i, rn_org_id = org, rn_rule_id = rid, rn_node_type = ty,
      rn_config = ni_config n, rn_position = ni_position n\<rparr>"
  let ?m = "case ni_id n of None \<Rightarrow> m | Some c \<Rightarrow> m(c \<mapsto> fresh i)"
  have ins: "insert_row rn_id ?row rows = Inr (rows @ [?row])" "fresh i \<notin> rn_id ` set rows"
    using "2.prems" ty by (auto simp: insert_row_def split: if_splits)
  then obtain new where new: "rows' = (rows @ [?row]) @ new"
    "\<forall>n \<in> set new. rn_org_id n = org \<and> rn_rule_id n = rid"
    "distinct (map rn_id (rows @ [?row])) \<longrightarrow> distinct (map rn_id rows')"
    "\<forall>k v. m' k = Some v \<longrightarrow> ?m k = Some v \<or> v \<in> rn_id ` set new"
    "map rn_id new = map fresh [Suc i..<Suc i + length ns]"
    "map (\<lambda>n. (rn_node_type n, rn_config n)) new = map (\<lambda>n. (the (ni_node_type n), ni_config n)) ns"
    using "2.IH" [OF ty, of "rows @ [?row]"] "2.prems" ty ins(1) by auto
  have "\<forall>k v. m' k = Some v \<longrightarrow> m k = Some v \<or> v \<in> rn_id ` set (?row # new)"
    using new(4) by (auto split: option.splits if_splits)
  moreover have "[i..<i + length (n # ns)] = i # [Suc i..<Suc i + length ns]"
    by (simp add: upt_rec)
  ultimately show ?case
    using new ins(2) ty by (intro exI [of _ "?row # new"]) (auto simp: image_iff)
qed

lemma client_node_ran: "client_node m k = Some v \<Longrightarrow> v \<in> ran m"
  by (auto simp: client_node_def ran_def split: option.splits if_splits)

lemma add_edges_Inr:
  assumes "add_edges org rid fresh m i es rows = Inr rows'"
  shows "\<exists>new. rows' = rows @ new
    \<and> (\<forall>e \<in> set new. re_org_id e = org \<and> re_rule_id e = rid
        \<and> re_from_node_id e \<in> ran m \<and> re_to_node_id e \<in> ran m)
    \<and> map (\<lambda>e. (Some (re_from_node_id e), Some (re_to_node_id e))) new
        = map (\<lambda>e. (client_node m (ei_from e), client_node m (ei_to e))) es"
  using assms
proof (induction org rid fresh m i es rows rule: add_edges.induct)
  case (1 org rid fresh m i rows)
  then show ?case by simp
next
  case (2 org rid fresh m i e es rows)
  obtain a b where ab: "client_node m (ei_from e) = Some a" "client_node m (ei_to e) = Some b"
    using "2.prems" by (auto simp: fail_def split: option.splits)
  let ?row = "\<lparr>re_id = fresh i, re_org_id = org, re_rule_id = rid, re_from_node_id = a,
      re_to_node_id = b\<rparr>"
  have ins: "insert_row re_id ?row rows = Inr (rows @ [?row])"
    using "2.prems" ab by (auto simp: insert_row_def split: if_splits)
  then obtain new where new: "rows' = (rows @ [?row]) @ new"
    "\<forall>e \<in> set new. re_org_id e = org \<and> re_rule_id e = rid
        \<and> re_from_node_id e \<in> ran m \<and> re_to_node_id e \<in> ran m"
    "map (\<lambda>e. (Some (re_from_node_id e), Some (re_to_node_id e))) new
        = map (\<lambda>e. (client_node m (ei_from e), client_node m (ei_to e))) es"
    using "2.IH" [OF refl ab, of "rows @ [?row]"] "2.prems" ab ins by auto
  then show ?case
    using client_node_ran [OF ab(1)] client_node_ran [OF ab(2)] ab
    by (intro exI [of _ "?row # new"]) auto
qed

lemma flush_graph_Inr:
  assumes "flush_graph p fr rid nodes edges db = Inr db'"
  obtains org new es m where "rule_org_uuid p = Inr org"
    "db' = db\<lparr>rb_nodes := rb_nodes db @ new, rb_edges := rb_edges db @ es\<rparr>"
    "\<forall>n \<in> set new. rn_org_id n = org \<and> rn_rule_id n = rid"
    "distinct (map rn_id (rb_nodes db)) \<Longrightarrow> distinct (map rn_id (rb_nodes db @ new))"
    "\<forall>e \<in> set es. re_org_id e = org \<and> re_rule_id e = rid
        \<and> re_from_node_id e \<in> rn_id ` set new \<and> re_to_node_id e \<in> rn_id ` set new"
proof -
  obtain org where org: "rule_org_uuid p = Inr org"
    using assms by (cases "rule_org_uuid p") (simp_all add: flush_graph_def)
  let ?ns = "case nodes of None \<Rightarrow> [] | Some ns \<Rightarrow> ns" and ?es = "case edges of None \<Rightarrow> [] | Some es \<Rightarrow> es"
  obtain rows m where ns: "add_nodes org rid (fr_nodes fr) 0 ?ns (rb_nodes db, Map.empty) = Inr (rows, m)"
    using assms org
    by (cases "add_nodes org rid (fr_nodes fr) 0 ?ns (rb_nodes db, Map.empty)") (auto simp: flush_graph_def)
  obtain rows2 where es: "add_edges org rid (fr_edges fr) m 0 ?es (rb_edges db) = Inr rows2"
    using assms org ns
    by (cases "add_edges org rid (fr_edges fr) m 0 ?es (rb_edges db)") (auto simp: flush_graph_def)
  have db': "db' = db\<lparr>rb_nodes := rows, rb_edges := rows2\<rparr>"
    using assms org ns es by (simp add: flush_graph_def)
  obtain new where new: "rows = rb_nodes db @ new"
    "\<forall>n \<in> set new. rn_org_id n = org \<and> rn_rule_id n = rid"
    "distinct (map rn_id (rb_nodes db)) \<longrightarrow> distinct (map rn_id rows)"
    "\<forall>k v. m k = Some v \<longrightarrow> Map.empty k = Some v \<or> v \<in> rn_id ` set new"
    using add_nodes_Inr [OF ns] by (simp only: fst_conv snd_conv) blast
  obtain new_es where ne: "rows2 = rb_edges db @ new_es"
    "\<forall>e \<in> set new_es. re_org_id e = org \<and> re_rule_id e = rid
        \<and> re_from_node_id e \<in> ran m \<and> re_to_node_id e \<in> ran m"
    using add_edges_Inr [OF es] by auto
  have "ran m \<subseteq> rn_id ` set new" using new(4) by (auto simp: ran_def)
  with ne(2) have "\<forall>e \<in> set new_es. re_org_id e = org \<and> re_rule_id e = rid
        \<and> re_from_node_id e \<in> rn_id ` set new \<and> re_to_node_id e \<in> rn_id ` set new" by blast
  with that [OF org _ new(2) _ this] db' new ne show ?thesis by simp
qed

lemma limit_le_iff:
  "within_rule_limit db org \<longleftrightarrow>
     (\<forall>l. plan_active_rule_limit (org_plan db org) = Some l \<longrightarrow> count_active_rules db org None \<le> l)"
  by (auto simp: within_rule_limit_def split: option.split)

lemma enforce_Inr:
  assumes "enforce_active_limit p x db = Inr u" "rule_org_uuid p = Inr org"
    "plan_active_rule_limit (org_plan db org) = Some l"
  shows "count_active_rules db org x < l"
  using assms by (simp add: enforce_active_limit_def not_le)

lemma org_uuid_canonical: "is_uuid (pr_org_id p) \<Longrightarrow> rule_org_uuid p = Inr (pr_org_id p)"
  by (simp add: rule_org_uuid_def is_uuid_def)

text \<open>Adding a graph to a rule that is there, under the rule's organization, keeps the graphs sound.\<close>

lemma graphs_ok_flush:
  assumes "flush_graph p fr rid nodes edges db = Inr db'"
    and "graphs_ok (rb_rules db) (rb_nodes db) (rb_edges db)"
    and "r \<in> set (rb_rules db)" "ru_id r = rid" "rule_org_uuid p = Inr (ru_org_id r)"
  shows "graphs_ok (rb_rules db') (rb_nodes db') (rb_edges db')
    \<and> rb_rules db' = rb_rules db \<and> rb_orgs db' = rb_orgs db"
  using assms(1)
proof (rule flush_graph_Inr)
  fix org new es
  assume a: "rule_org_uuid p = Inr org"
    "db' = db\<lparr>rb_nodes := rb_nodes db @ new, rb_edges := rb_edges db @ es\<rparr>"
    "\<forall>n \<in> set new. rn_org_id n = org \<and> rn_rule_id n = rid"
    "distinct (map rn_id (rb_nodes db)) \<Longrightarrow> distinct (map rn_id (rb_nodes db @ new))"
    "\<forall>e \<in> set es. re_org_id e = org \<and> re_rule_id e = rid
        \<and> re_from_node_id e \<in> rn_id ` set new \<and> re_to_node_id e \<in> rn_id ` set new"
  have org: "org = ru_org_id r" using a(1) assms(5) by simp
  have new_ids: "(i, rid) \<in> (\<lambda>n. (rn_id n, rn_rule_id n)) ` set new" if "i \<in> rn_id ` set new" for i
    using that a(3) by (auto simp: image_iff)
  have mem: "(rid, org) \<in> (\<lambda>r. (ru_id r, ru_org_id r)) ` set (rb_rules db)"
    using assms(3,4) org by (auto simp: image_iff)
  show ?thesis
    using assms(2) a(2-5) mem new_ids unfolding graphs_ok_def
    by (simp add: image_Un ball_Un)
qed

lemma pair_filter:
  "(a, b) \<in> (\<lambda>r. (f r, g r)) ` set (filter (\<lambda>r. f r \<noteq> x) rs)
     \<longleftrightarrow> a \<noteq> x \<and> (a, b) \<in> (\<lambda>r. (f r, g r)) ` set rs"
  "(a, b) \<in> (\<lambda>r. (f r, g r)) ` set (filter (\<lambda>r. g r \<noteq> x) rs)
     \<longleftrightarrow> b \<noteq> x \<and> (a, b) \<in> (\<lambda>r. (f r, g r)) ` set rs"
  by auto

lemma graphs_ok_delete:
  assumes "graphs_ok rules nodes edges"
  shows "graphs_ok rules (filter (\<lambda>n. rn_rule_id n \<noteq> rid) nodes) (filter (\<lambda>e. re_rule_id e \<noteq> rid) edges)
    \<and> graphs_ok (filter (\<lambda>r. ru_id r \<noteq> rid) rules)
        (filter (\<lambda>n. rn_rule_id n \<noteq> rid) nodes) (filter (\<lambda>e. re_rule_id e \<noteq> rid) edges)"
  using assms unfolding graphs_ok_def pair_filter by (auto simp: distinct_map_filter)

lemma graphs_ok_rules:
  "graphs_ok rules nodes edges \<Longrightarrow>
     (\<lambda>r. (ru_id r, ru_org_id r)) ` set rules \<subseteq> (\<lambda>r. (ru_id r, ru_org_id r)) ` set rules' \<Longrightarrow>
     graphs_ok rules' nodes edges"
  unfolding graphs_ok_def by blast

lemma count_put:
  assumes "distinct (map ru_id rules)" "tbl_get ru_id rules (ru_id r') = Some r"
  shows "length (filter (\<lambda>x. ru_org_id x = org \<and> ru_enabled x) (tbl_put ru_id r' rules))
    = length (filter (\<lambda>x. ru_org_id x = org \<and> ru_enabled x \<and> ru_id x \<noteq> ru_id r') rules)
      + (if ru_org_id r' = org \<and> ru_enabled r' then 1 else 0)"
  using assms
proof (induction rules)
  case Nil
  then show ?case by simp
next
  case (Cons x xs)
  show ?case
  proof (cases "ru_id x = ru_id r'")
    case True
    then have "\<forall>y \<in> set xs. ru_id y \<noteq> ru_id r'" using Cons.prems(1) by (auto simp: image_iff)
    then have "tbl_put ru_id r' xs = xs"
      "filter (\<lambda>x. ru_org_id x = org \<and> ru_enabled x \<and> ru_id x \<noteq> ru_id r') xs
        = filter (\<lambda>x. ru_org_id x = org \<and> ru_enabled x) xs"
      by (auto simp: tbl_put_def map_idI intro!: filter_cong)
    with True show ?thesis by simp
  next
    case False
    with Cons show ?thesis by simp
  qed
qed

lemma within_limit_put:
  assumes "distinct (map ru_id (rb_rules db))" "tbl_get ru_id (rb_rules db) (ru_id r') = Some r"
    and "ru_org_id r' = ru_org_id r" "rule_org_uuid p = Inr (ru_org_id r)"
    and "within_rule_limit db org"
    and "ru_enabled r' \<longrightarrow> ru_enabled r \<or> enforce_active_limit p (Some (ru_id r')) db = Inr u"
  shows "within_rule_limit (db\<lparr>rb_rules := tbl_put ru_id r' (rb_rules db)\<rparr>) org"
proof -
  let ?n = "length (filter (\<lambda>x. ru_org_id x = org \<and> ru_enabled x \<and> ru_id x \<noteq> ru_id r') (rb_rules db))"
  have "tbl_put ru_id r (rb_rules db) = rb_rules db"
    using assms(1,2) by (intro tbl_put_id) (auto dest: tbl_get_Some)
  moreover have "ru_id r = ru_id r'" using tbl_get_Some [OF assms(2)] by simp
  ultimately have old: "count_active_rules db org None
      = ?n + (if ru_org_id r = org \<and> ru_enabled r then 1 else 0)"
    using count_put [OF assms(1), of r r org] assms(2) by (simp add: count_active_rules_def)
  have new: "count_active_rules (db\<lparr>rb_rules := tbl_put ru_id r' (rb_rules db)\<rparr>) org None
      = ?n + (if ru_org_id r' = org \<and> ru_enabled r' then 1 else 0)"
    using count_put [OF assms(1,2), of org] by (simp add: count_active_rules_def)
  have "?n < l" if "ru_org_id r = org" "ru_enabled r'" "\<not> ru_enabled r"
      "plan_active_rule_limit (org_plan db org) = Some l" for l
    using enforce_Inr [of p "Some (ru_id r')" db u org l] assms(4,6) that
    by (simp add: count_active_rules_def)
  then show ?thesis
    using assms(3,5) old new
    by (cases "ru_enabled r") (auto simp: limit_le_iff org_plan_def Suc_le_eq split: if_splits)
qed

section \<open>The system of rule operations\<close>

datatype rule_op =
    Op_create principal rule_ids timestamp string "node_in list option" "edge_in list option" bool
      "uuid option"
  | Op_update principal rule_ids uuid "string option" "bool option" "node_in list option"
      "edge_in list option" bool bool bool
  | Op_delete principal uuid

fun rule_step :: "rule_op \<Rightarrow> rules_db \<Rightarrow> rules_db" where
  "rule_step (Op_create p fr now name ns es enabled tid) db =
     commit (create_rule p fr now name ns es enabled tid) db"
| "rule_step (Op_update p fr rid name enabled ns es name_set nodes_set edges_set) db =
     commit (update_rule p fr rid name enabled ns es name_set nodes_set edges_set) db"
| "rule_step (Op_delete p rid) db = commit (delete_rule p rid) db"

text \<open>Updates come from members of an organization, whose token carries its id.\<close>

fun rule_op_ok :: "rule_op \<Rightarrow> bool" where
  "rule_op_ok (Op_update p fr rid name enabled ns es name_set nodes_set edges_set) =
     (\<not> is_super_admin p \<and> is_uuid (pr_org_id p))"
| "rule_op_ok _ = True"

lemma create_rule_ok:
  assumes "rules_ok db" "create_rule p fr now name ns es enabled tid db = Inr (r, db')"
  shows "rules_ok db'"
proof -
  obtain org where org: "rule_org_uuid p = Inr org"
    using assms(2) by (cases "rule_org_uuid p") (auto simp: create_rule_def bind_res_eq_Inr)
  define rule where "rule = \<lparr>ru_id = fr_rule fr, ru_org_id = org, ru_name = strip name,
      ru_enabled = enabled, ru_template_id = tid, ru_created_at = now\<rparr>"
  have checks: "strip name \<noteq> []" "enabled \<longrightarrow> enforce_active_limit p None db = Inr ()"
    using assms(2) by (auto simp: create_rule_def bind_res_eq_Inr split: if_splits)
  have ins: "fr_rule fr \<notin> ru_id ` set (rb_rules db)"
    using assms(2) org checks
    by (auto simp: create_rule_def rule_def insert_row_def bind_res_eq_Inr Let_def split: if_splits)
  let ?db = "db\<lparr>rb_rules := rb_rules db @ [rule]\<rparr>"
  have flush: "flush_graph p fr (fr_rule fr) ns es ?db = Inr db'"
    using assms(2) org checks ins
    by (auto simp: create_rule_def insert_row_def bind_res_eq_Inr Let_def rule_def split: if_splits)
  have "graphs_ok (rb_rules ?db) (rb_nodes ?db) (rb_edges ?db)"
    using assms(1) by (auto simp: rules_ok_def intro: graphs_ok_rules [of "rb_rules db"])
  from graphs_ok_flush [OF flush this, of rule] org
  have db': "graphs_ok (rb_rules db') (rb_nodes db') (rb_edges db')"
    "rb_rules db' = rb_rules db @ [rule]" "rb_orgs db' = rb_orgs db" by (auto simp: rule_def)
  have "count_active_rules db org None < l"
    if "enabled" "plan_active_rule_limit (org_plan db org) = Some l" for l
    using enforce_Inr [of p None db "()" org l] checks(2) that org by simp
  then have "within_rule_limit db' o'" for o'
    using assms(1) db'(2,3)
    by (auto simp: rules_ok_def limit_le_iff org_plan_def count_active_rules_def rule_def Suc_le_eq)
  then show ?thesis using assms(1) db' ins by (auto simp: rules_ok_def rule_def)
qed

lemma update_rule_ok:
  assumes "rules_ok db" "\<not> is_super_admin p" "is_uuid (pr_org_id p)"
    and "update_rule p fr rid name enabled ns es name_set nodes_set edges_set db = Inr (r2, db')"
  shows "rules_ok db'"
proof -
  obtain r where r: "get_rule p rid db = Inr r"
    using assms(4) by (cases "get_rule p rid db") (simp_all add: update_rule_def)
  then have own: "r \<in> set (rb_rules db)" "ru_id r = rid" "tbl_get ru_id (rb_rules db) rid = Some r"
    "ru_org_id r = pr_org_id p" "rule_org_uuid p = Inr (ru_org_id r)"
    using scope_get_Inr [of p ru_id ru_org_id "rb_rules db" rid r] assms(2,3) org_uuid_canonical
    by (auto simp: get_rule_def)
  obtain r1 where r1: "(if name_set
               then (case name of
                   Some n \<Rightarrow> if strip n = [] then fail invalid_rule_name
                             else Inr (r\<lparr>ru_name := strip n\<rparr>)
                 | None \<Rightarrow> fail invalid_rule_name)
               else Inr r) = Inr r1"
    using assms(4) r by (auto simp: update_rule_def bind_res_eq_Inr)
  then have keep: "ru_id r1 = rid" "ru_org_id r1 = ru_org_id r" "ru_enabled r1 = ru_enabled r"
    using own(2) by (auto simp: fail_def split: if_splits option.splits)
  define r2' where "r2' = (case enabled of Some b \<Rightarrow> r1\<lparr>ru_enabled := b\<rparr> | None \<Rightarrow> r1)"
  let ?db1 = "db\<lparr>rb_rules := tbl_put ru_id r2' (rb_rules db)\<rparr>"
  have r2: "ru_id r2' = rid" "ru_org_id r2' = ru_org_id r"
    using keep by (simp_all add: r2'_def split: option.split)
  have limit: "ru_enabled r2' \<longrightarrow> ru_enabled r \<or> enforce_active_limit p (Some (ru_id r2')) db = Inr ()"
    using assms(4) keep r2(1) unfolding update_rule_def r bind_res_simps r1
    by (auto simp: r2'_def bind_res_eq_Inr split: if_splits option.splits)
  have rest: "(if nodes_set \<or> edges_set then flush_graph p fr rid ns es (delete_graph rid ?db1)
      else Inr ?db1) = Inr db'"
    using assms(4) r2(1) unfolding update_rule_def r bind_res_simps r1
    by (auto simp: r2'_def [symmetric] bind_res_eq_Inr Let_def split: if_splits)
  have same: "\<forall>x \<in> set (rb_rules db). ru_id x = rid \<longrightarrow> x = r"
    using own(1,2) assms(1) by (auto simp: rules_ok_def distinct_map dest: inj_onD)
  have ids: "(\<lambda>r. (ru_id r, ru_org_id r)) ` set (rb_rules db)
      \<subseteq> (\<lambda>r. (ru_id r, ru_org_id r)) ` set (rb_rules ?db1)"
    using tbl_put_map [of "rb_rules db" ru_id r2' "\<lambda>r. (ru_id r, ru_org_id r)"] r2 same
    by (simp flip: set_map)
  have mem: "r2' \<in> set (rb_rules ?db1)"
    using own(1,2) r2 by (auto simp: tbl_put_def image_iff)
  have g1: "graphs_ok (rb_rules ?db1) (rb_nodes ?db1) (rb_edges ?db1)"
    using assms(1) ids by (auto simp: rules_ok_def intro: graphs_ok_rules)
  have g2: "graphs_ok (rb_rules db') (rb_nodes db') (rb_edges db')
      \<and> rb_rules db' = rb_rules ?db1 \<and> rb_orgs db' = rb_orgs db"
  proof (cases "nodes_set \<or> edges_set")
    case True
    with rest have "flush_graph p fr rid ns es (delete_graph rid ?db1) = Inr db'" by simp
    from graphs_ok_flush [OF this, of r2'] g1 mem r2 own(5) show ?thesis
      using graphs_ok_delete [OF g1, of rid] by (auto simp: delete_graph_def)
  next
    case False
    with rest g1 show ?thesis by auto
  qed
  have "within_rule_limit ?db1 org" for org
    using within_limit_put [of db r2' r p org] assms(1) own r2 limit by (simp add: rules_ok_def)
  moreover have "count_active_rules db' org None = count_active_rules ?db1 org None"
    "org_plan db' org = org_plan ?db1 org" for org
    using g2 by (simp_all add: count_active_rules_def org_plan_def)
  ultimately have "within_rule_limit db' org" for org by (simp add: limit_le_iff)
  then show ?thesis using g2 assms(1) by (auto simp: rules_ok_def)
qed

lemma delete_rule_ok:
  assumes "rules_ok db" "delete_rule p rid db = Inr (u, db')"
  shows "rules_ok db'"
proof -
  obtain r where "get_rule p rid db = Inr r"
    using assms(2) by (cases "get_rule p rid db") (simp_all add: delete_rule_def)
  with assms(2) have db': "db' = db\<lparr>rb_edges := filter (\<lambda>e. re_rule_id e \<noteq> ru_id r) (rb_edges db),
      rb_nodes := filter (\<lambda>n. rn_rule_id n \<noteq> ru_id r) (rb_nodes db),
      rb_rules := filter (\<lambda>x. ru_id x \<noteq> ru_id r) (rb_rules db)\<rparr>"
    by (simp add: delete_rule_def delete_graph_def Let_def)
  have "count_active_rules db' org None \<le> count_active_rules db org None" for org
    by (auto simp: db' count_active_rules_def intro: length_filter_le_filter)
  then have "within_rule_limit db' org" for org
    using assms(1) by (auto simp: rules_ok_def limit_le_iff org_plan_def db' intro: le_trans)
  then show ?thesis
    using assms(1) graphs_ok_delete [of "rb_rules db" "rb_nodes db" "rb_edges db" "ru_id r"]
    by (simp add: rules_ok_def db' distinct_map_filter)
qed

lemma rule_step_ok: "rules_ok db \<Longrightarrow> rule_op_ok op \<Longrightarrow> rules_ok (rule_step op db)"
  by (cases op) (auto simp: commit_def dest: create_rule_ok update_rule_ok delete_rule_ok split: sum.split)

interpretation rules: guarded_system rule_step rule_op_ok rules_ok
  by unfold_locales (rule rule_step_ok)

section \<open>Properties\<close>


definition ex_node :: "string \<Rightarrow> string \<Rightarrow> (string \<times> json) list \<Rightarrow> node_in" where
  "ex_node i ty cfg = \<lparr>ni_id = Some i, ni_node_type = Some ty, ni_config = JObj cfg, ni_position = JNull\<rparr>"

definition ex_ids :: "string \<Rightarrow> rule_ids" where
  "ex_ids r = \<lparr>fr_rule = r, fr_nodes = (\<lambda>i. r @ replicate (Suc i) CHR ''n''),
     fr_edges = (\<lambda>i. r @ replicate (Suc i) CHR ''e'')\<rparr>"

definition ex_center :: principal where
  "ex_center = \<lparr>pr_user_id = ''u'', pr_org_id = ''0123abcd-0123-4567-89ab-0123456789ab'',
     pr_role = ROLE_PROJECT_CENTER\<rparr>"

definition ex_rules :: rules_db where
  "ex_rules = \<lparr>rb_orgs = [\<lparr>ro_id = ''0123abcd-0123-4567-89ab-0123456789ab'', ro_plan = Some ''free''\<rparr>],
     rb_rules = [], rb_nodes = [], rb_edges = []\<rparr>"


end
