(* ===== verification/Rule_Engine.thy ===== *)
theory Rule_Engine imports Rule_Service Topics Redis_Names
begin

text \<open>
  The execution of rules (\<open>app/workers/alert_checker.py\<close>): ordering a rule's graph into a chain,
  planning the chain for a telemetry sample, running the plan, the sink that performs actions, and
  what the worker does with one message and one event.  \<open>repr\<close> is Python's text of floats and
  containers.  The sleeping of \<open>execute_plan\<close> and the sink are arguments of the run, as in the code;
  the broker and the Redis channel say whether they accept a message.
\<close>

section \<open>Chains\<close>

datatype node_type = TRIGGER | CONDITION | DELAY | ACTION

record rule_node_spec =
  sp_id :: string
  sp_node_type :: node_type
  sp_config :: "(string \<times> json) list"

definition coerce_node_type :: "string \<Rightarrow> node_type option" where
  "coerce_node_type s =
     (let t = lower (strip s) in
      if t = ''trigger'' then Some TRIGGER else if t = ''condition'' then Some CONDITION
      else if t = ''delay'' then Some DELAY else if t = ''action'' then Some ACTION else None)"

definition spec_of_node :: "rule_node \<Rightarrow> rule_node_spec option" where
  "spec_of_node n =
     (case coerce_node_type (rn_node_type n) of
        None \<Rightarrow> None
      | Some ty \<Rightarrow> Some \<lparr>sp_id = rn_id n, sp_node_type = ty,
          sp_config = (case as_dict (rn_config n) of Some d \<Rightarrow> d | None \<Rightarrow> [])\<rparr>)"

text \<open>The dictionaries \<open>specs\<close>, in insertion order, and \<open>adjacency\<close>, in which the first edge wins.\<close>

definition specs_of :: "rule_node list \<Rightarrow> (string \<times> rule_node_spec) list" where
  "specs_of nodes = fold (\<lambda>n specs. case spec_of_node n of None \<Rightarrow> specs
     | Some s \<Rightarrow> AList.update (sp_id s) s specs) nodes []"

fun adjacency_of :: "rule_edge list \<Rightarrow> string \<Rightarrow> string option" where
  "adjacency_of [] a = None"
| "adjacency_of (e # es) a = (if re_from_node_id e = a then Some (re_to_node_id e) else adjacency_of es a)"

function follow ::
  "(string \<times> rule_node_spec) list \<Rightarrow> (string \<Rightarrow> string option) \<Rightarrow> string list \<Rightarrow> string option
     \<Rightarrow> rule_node_spec list" where
  "follow specs adj visited current =
     (case current of
        None \<Rightarrow> []
      | Some c \<Rightarrow>
          (case map_of specs c of
             None \<Rightarrow> []
           | Some s \<Rightarrow> if c \<in> set visited then [] else s # follow specs adj (c # visited) (adj c)))"
  by pat_completeness auto

termination
proof (relation "measure (\<lambda>(specs, adj, visited, current). card (fst ` set specs - set visited))")
  fix specs :: "(string \<times> rule_node_spec) list"
    and adj :: "string \<Rightarrow> string option" and visited current c s
  assume "map_of specs c = Some s" "c \<notin> set visited"
  then have "c \<in> fst ` set specs - set visited" by (auto dest!: map_of_SomeD intro: rev_image_eqI)
  then have "card (fst ` set specs - set visited - {c}) < card (fst ` set specs - set visited)"
    by (intro card_Diff1_less) simp_all
  moreover have "fst ` set specs - set (c # visited) = fst ` set specs - set visited - {c}" by auto
  ultimately show "((specs, adj, c # visited, adj c), specs, adj, visited, current)
      \<in> measure (\<lambda>(specs, adj, visited, current). card (fst ` set specs - set visited))"
    by simp
qed simp

declare follow.simps [simp del]

definition build_chain :: "rule_node list \<Rightarrow> rule_edge list \<Rightarrow> rule_node_spec list" where
  "build_chain nodes edges =
     (let specs = specs_of nodes in
      case find (\<lambda>s. sp_node_type s = TRIGGER) (map snd specs) of
        None \<Rightarrow> []
      | Some trigger \<Rightarrow> follow specs (adjacency_of edges) [] (Some (sp_id trigger)))"

section \<open>Predicates\<close>

definition OPERATORS :: "(string \<times> (rat \<Rightarrow> rat \<Rightarrow> bool)) list" where
  "OPERATORS = [(''gt'', (>)), (''>'', (>)), (''gte'', (\<ge>)), (''>='', (\<ge>)), (''lt'', (<)), (''<'', (<)),
     (''lte'', (\<le>)), (''<='', (\<le>)), (''eq'', (=)), (''=='', (=)), (''ne'', (\<noteq>)), (''!='', (\<noteq>))]"

text \<open>The sample is the \<open>data\<close> of an event; \<open>telemetry.get\<close> raises when it is no dictionary.\<close>

definition telemetry_value :: "json \<Rightarrow> string \<Rightarrow> rat option result" where
  "telemetry_value telemetry key =
     (case as_dict telemetry of
        None \<Rightarrow> Inl AttributeError
      | Some d \<Rightarrow>
          (let data = (case as_dict (dict_get d ''data'') of Some d' \<Rightarrow> d' | None \<Rightarrow> d)
           in Inr (as_number (dict_get data key))))"

definition evaluate_predicate ::
  "(json \<Rightarrow> string) \<Rightarrow> (string \<times> json) list \<Rightarrow> json \<Rightarrow> bool result" where
  "evaluate_predicate repr config telemetry =
     (let key = dict_get config ''key''; op = dict_get config ''op'' in
      if key = JNull then Inr True
      else bind_res (telemetry_value telemetry (py_str repr key)) (\<lambda>v.
        case v of
          None \<Rightarrow> Inr False
        | Some x \<Rightarrow>
            if op = JNull then Inr True
            else (case (map_of OPERATORS (lower (strip (py_str repr op))),
                        as_number (dict_get config ''value'')) of
                (Some comparator, Some threshold) \<Rightarrow> Inr (comparator x threshold)
              | _ \<Rightarrow> Inr False)))"

definition trigger_matches :: "(json \<Rightarrow> string) \<Rightarrow> rule_node_spec \<Rightarrow> json \<Rightarrow> bool result" where
  "trigger_matches repr node telemetry = evaluate_predicate repr (sp_config node) telemetry"

definition condition_true :: "(json \<Rightarrow> string) \<Rightarrow> rule_node_spec \<Rightarrow> json \<Rightarrow> bool result" where
  "condition_true repr node telemetry = evaluate_predicate repr (sp_config node) telemetry"

fun first_number :: "(string \<times> json) list \<Rightarrow> string list \<Rightarrow> rat option" where
  "first_number config [] = None"
| "first_number config (k # ks) =
     (case as_number (dict_get config k) of Some x \<Rightarrow> Some x | None \<Rightarrow> first_number config ks)"

definition delay_seconds :: "rule_node_spec \<Rightarrow> rat" where
  "delay_seconds node =
     (case first_number (sp_config node) [''seconds'', ''duration'', ''delay_seconds''] of
        Some x \<Rightarrow> max 0 x
      | None \<Rightarrow>
          (case as_number (dict_get (sp_config node) ''ms'') of
             Some ms \<Rightarrow> max 0 (ms / 1000)
           | None \<Rightarrow> 0))"

section \<open>Plans\<close>

datatype execution_step = DelayStep rat | ActionStep rule_node_spec

record execution_plan =
  ep_steps :: "execution_step list"
  ep_suppressed :: bool

definition plan_of :: "execution_step list \<Rightarrow> execution_plan" where
  "plan_of steps = \<lparr>ep_steps = steps, ep_suppressed = False\<rparr>"

fun plan_nodes :: "(json \<Rightarrow> string) \<Rightarrow> json \<Rightarrow> rule_node_spec list \<Rightarrow> execution_step list \<Rightarrow> execution_plan result"
where
  "plan_nodes repr telemetry [] steps = Inr (plan_of steps)"
| "plan_nodes repr telemetry (node # nodes) steps =
     (case sp_node_type node of
        CONDITION \<Rightarrow>
          bind_res (condition_true repr node telemetry) (\<lambda>holds.
            if \<not> holds then Inr (plan_of steps) else plan_nodes repr telemetry nodes steps)
      | DELAY \<Rightarrow> plan_nodes repr telemetry nodes (steps @ [DelayStep (delay_seconds node)])
      | ACTION \<Rightarrow> plan_nodes repr telemetry nodes (steps @ [ActionStep node])
      | TRIGGER \<Rightarrow> plan_nodes repr telemetry nodes steps)"

definition plan_chain ::
  "(json \<Rightarrow> string) \<Rightarrow> rule_node_spec list \<Rightarrow> json \<Rightarrow> bool \<Rightarrow> execution_plan result" where
  "plan_chain repr chain telemetry maintenance_mode =
     (if maintenance_mode then Inr \<lparr>ep_steps = [], ep_suppressed = True\<rparr>
      else (case chain of
          [] \<Rightarrow> Inr (plan_of [])
        | trigger # nodes \<Rightarrow>
            if sp_node_type trigger \<noteq> TRIGGER then Inr (plan_of [])
            else bind_res (trigger_matches repr trigger telemetry) (\<lambda>fires.
              if \<not> fires then Inr (plan_of []) else plan_nodes repr telemetry nodes [])))"

definition evaluate ::
  "(json \<Rightarrow> string) \<Rightarrow> rule_node list \<Rightarrow> rule_edge list \<Rightarrow> json \<Rightarrow> bool \<Rightarrow> execution_plan result" where
  "evaluate repr nodes edges telemetry maintenance_mode =
     plan_chain repr (build_chain nodes edges) telemetry maintenance_mode"

section \<open>Actions\<close>

datatype action_kind = COMMAND | NOTIFY | WEBHOOK

record action =
  ac_kind :: action_kind
  ac_config :: "(string \<times> json) list"

definition parse_action :: "(json \<Rightarrow> string) \<Rightarrow> rule_node_spec \<Rightarrow> action option" where
  "parse_action repr node =
     (let c = sp_config node;
          raw_kind = py_or (py_or (dict_get c ''action'') (dict_get c ''kind'')) (dict_get c ''action_type'')
      in if raw_kind = JNull then None
         else (let k = lower (strip (py_str repr raw_kind)) in
           if k = ''command'' then Some \<lparr>ac_kind = COMMAND, ac_config = c\<rparr>
           else if k = ''notify'' then Some \<lparr>ac_kind = NOTIFY, ac_config = c\<rparr>
           else if k = ''webhook'' then Some \<lparr>ac_kind = WEBHOOK, ac_config = c\<rparr>
           else None))"

record telemetry_event =
  te_org_id :: string
  te_device_id :: string
  te_data :: json
  te_rule_id :: "string option"

fun execute_steps ::
  "(json \<Rightarrow> string) \<Rightarrow> (rat \<Rightarrow> 'w \<Rightarrow> 'w) \<Rightarrow> (action \<Rightarrow> telemetry_event \<Rightarrow> 'w \<Rightarrow> 'w) \<Rightarrow> telemetry_event
     \<Rightarrow> execution_step list \<Rightarrow> nat \<Rightarrow> 'w \<Rightarrow> nat \<times> 'w" where
  "execute_steps repr sleep sink event [] dispatched w = (dispatched, w)"
| "execute_steps repr sleep sink event (DelayStep secs # steps) dispatched w =
     execute_steps repr sleep sink event steps dispatched (if secs > 0 then sleep secs w else w)"
| "execute_steps repr sleep sink event (ActionStep node # steps) dispatched w =
     (case parse_action repr node of
        None \<Rightarrow> execute_steps repr sleep sink event steps dispatched w
      | Some a \<Rightarrow> execute_steps repr sleep sink event steps (dispatched + 1) (sink a event w))"

definition execute_plan ::
  "(json \<Rightarrow> string) \<Rightarrow> (rat \<Rightarrow> 'w \<Rightarrow> 'w) \<Rightarrow> (action \<Rightarrow> telemetry_event \<Rightarrow> 'w \<Rightarrow> 'w) \<Rightarrow> execution_plan
     \<Rightarrow> telemetry_event \<Rightarrow> 'w \<Rightarrow> nat \<times> 'w" where
  "execute_plan repr sleep sink plan event w = execute_steps repr sleep sink event (ep_steps plan) 0 w"

fun evaluate_rules ::
  "(json \<Rightarrow> string) \<Rightarrow> (rat \<Rightarrow> 'w \<Rightarrow> 'w) \<Rightarrow> (action \<Rightarrow> telemetry_event \<Rightarrow> 'w \<Rightarrow> 'w) \<Rightarrow> telemetry_event
     \<Rightarrow> (string \<times> rule_node list \<times> rule_edge list) list \<Rightarrow> nat \<Rightarrow> 'w \<Rightarrow> nat result \<times> 'w" where
  "evaluate_rules repr sleep sink event [] dispatched w = (Inr dispatched, w)"
| "evaluate_rules repr sleep sink event ((rule_id, nodes, edges) # rules) dispatched w =
     (case evaluate repr nodes edges (te_data event) False of
        Inl e \<Rightarrow> (Inl e, w)
      | Inr plan \<Rightarrow>
          if ep_steps plan = [] then evaluate_rules repr sleep sink event rules dispatched w
          else (let (n, w') = execute_plan repr sleep sink plan (event\<lparr>te_rule_id := Some rule_id\<rparr>) w
                in evaluate_rules repr sleep sink event rules (dispatched + n) w'))"

definition evaluate_event ::
  "(json \<Rightarrow> string) \<Rightarrow> (rat \<Rightarrow> 'w \<Rightarrow> 'w) \<Rightarrow> (action \<Rightarrow> telemetry_event \<Rightarrow> 'w \<Rightarrow> 'w) \<Rightarrow> telemetry_event
     \<Rightarrow> (string \<times> rule_node list \<times> rule_edge list) list \<Rightarrow> bool \<Rightarrow> 'w \<Rightarrow> nat result \<times> 'w" where
  "evaluate_event repr sleep sink event rules maintenance_mode w =
     (if maintenance_mode then (Inr 0, w) else evaluate_rules repr sleep sink event rules 0 w)"

section \<open>The sink and the worker\<close>

text \<open>What the worker has sent, with the time of each message, and the time now in seconds.\<close>

datatype outlet = Mqtt | Channel

record rule_world =
  rw_now :: rat
  rw_sent :: "(rat \<times> outlet \<times> string \<times> json) list"

definition asyncio_sleep :: "rat \<Rightarrow> rule_world \<Rightarrow> rule_world" where
  "asyncio_sleep secs w = w\<lparr>rw_now := rw_now w + secs\<rparr>"

definition rule_id_json :: "telemetry_event \<Rightarrow> json" where
  "rule_id_json event = (case te_rule_id event of None \<Rightarrow> JNull | Some r \<Rightarrow> JStr r)"

definition do_command ::
  "(string \<Rightarrow> json \<Rightarrow> bool) option \<Rightarrow> action \<Rightarrow> telemetry_event \<Rightarrow> rule_world \<Rightarrow> rule_world" where
  "do_command publisher a event w =
     (let body = JObj ((''type'', dict_or (ac_config a) ''type'' (JStr ''on''))
            # (case map_of (ac_config a) ''value'' of Some v \<Rightarrow> [(''value'', v)] | None \<Rightarrow> []));
          tpc = command_topic (te_org_id event) (te_device_id event)
      in case publisher of
           None \<Rightarrow> w
         | Some pub \<Rightarrow> if pub tpc body then w\<lparr>rw_sent := rw_sent w @ [(rw_now w, Mqtt, tpc, body)]\<rparr> else w)"

definition publish_channel ::
  "(string \<Rightarrow> json \<Rightarrow> bool) \<Rightarrow> telemetry_event \<Rightarrow> json \<Rightarrow> rule_world \<Rightarrow> rule_world" where
  "publish_channel bus event message w =
     (let ch = key_text (DeviceChannel (te_device_id event)) in
      if bus ch message then w\<lparr>rw_sent := rw_sent w @ [(rw_now w, Channel, ch, message)]\<rparr> else w)"

definition notify_message :: "action \<Rightarrow> telemetry_event \<Rightarrow> json" where
  "notify_message a event = JObj [(''type'', JStr ''alert''), (''rule_id'', rule_id_json event),
     (''device_id'', JStr (te_device_id event)), (''title'', dict_get (ac_config a) ''title''),
     (''message'', py_or (dict_get (ac_config a) ''message'') (dict_get (ac_config a) ''body''))]"

definition webhook_message :: "action \<Rightarrow> telemetry_event \<Rightarrow> json" where
  "webhook_message a event = JObj [(''type'', JStr ''webhook''), (''rule_id'', rule_id_json event),
     (''device_id'', JStr (te_device_id event)), (''url'', dict_get (ac_config a) ''url''),
     (''payload'', dict_or (ac_config a) ''payload'' (te_data event))]"

text \<open>\<open>RedisActionSink.__call__\<close>: a refused message raises inside and is only logged.\<close>

definition redis_action_sink ::
  "(string \<Rightarrow> json \<Rightarrow> bool) option \<Rightarrow> (string \<Rightarrow> json \<Rightarrow> bool) \<Rightarrow> action \<Rightarrow> telemetry_event
     \<Rightarrow> rule_world \<Rightarrow> rule_world" where
  "redis_action_sink publisher bus a event w =
     (case ac_kind a of
        COMMAND \<Rightarrow> do_command publisher a event w
      | NOTIFY \<Rightarrow> publish_channel bus event (notify_message a event) w
      | WEBHOOK \<Rightarrow> publish_channel bus event (webhook_message a event) w)"

definition load_rules ::
  "rules_db \<Rightarrow> string \<Rightarrow> (string \<times> rule_node list \<times> rule_edge list) list result" where
  "load_rules db org_id =
     (case parse_uuid org_id of
        None \<Rightarrow> Inl ValueError
      | Some org \<Rightarrow>
          Inr (map (\<lambda>r. (ru_id r, filter (\<lambda>n. rn_rule_id n = ru_id r) (rb_nodes db),
                                 filter (\<lambda>e. re_rule_id e = ru_id r) (rb_edges db)))
                (filter (\<lambda>r. ru_org_id r = org \<and> ru_enabled r) (rb_rules db))))"

record device_mode =
  dm_id :: uuid
  dm_maintenance_mode :: bool

definition device_in_maintenance :: "device_mode list \<Rightarrow> string \<Rightarrow> bool result" where
  "device_in_maintenance devices device_id =
     (case parse_uuid device_id of
        None \<Rightarrow> Inl ValueError
      | Some d \<Rightarrow> Inr (case tbl_get dm_id devices d of Some x \<Rightarrow> dm_maintenance_mode x | None \<Rightarrow> False))"

text \<open>The task the run loop starts for an event; what raises in it is logged and dropped.\<close>

definition handle_event ::
  "(json \<Rightarrow> string) \<Rightarrow> (rat \<Rightarrow> 'w \<Rightarrow> 'w) \<Rightarrow> (action \<Rightarrow> telemetry_event \<Rightarrow> 'w \<Rightarrow> 'w)
     \<Rightarrow> rules_db \<Rightarrow> device_mode list \<Rightarrow> telemetry_event \<Rightarrow> 'w \<Rightarrow> 'w" where
  "handle_event repr sleep sink db devices event w =
     (case device_in_maintenance devices (te_device_id event) of
        Inl e \<Rightarrow> w
      | Inr True \<Rightarrow> w
      | Inr False \<Rightarrow>
          (case load_rules db (te_org_id event) of
             Inl e \<Rightarrow> w
           | Inr rules \<Rightarrow> snd (evaluate_event repr sleep sink event rules False w)))"

text \<open>The event read from one channel message; a payload that is no dictionary raises.\<close>

definition source_event :: "(json \<Rightarrow> string) \<Rightarrow> json option \<Rightarrow> telemetry_event option result" where
  "source_event repr message =
     (case message of
        None \<Rightarrow> Inr None
      | Some payload \<Rightarrow>
          (case as_dict payload of
             None \<Rightarrow> Inl AttributeError
           | Some d \<Rightarrow>
               if \<not> truthy (dict_get d ''device_id'') then Inr None
               else Inr (Some \<lparr>te_org_id = py_str repr (dict_or d ''org_id'' (JStr [])),
                      te_device_id = py_str repr (dict_get d ''device_id''),
                      te_data = py_or (dict_get d ''data'') (JObj []), te_rule_id = None\<rparr>)))"

section \<open>The chain\<close>

definition keyed :: "(string \<times> rule_node_spec) list \<Rightarrow> bool" where
  "keyed specs = (\<forall>k s. map_of specs k = Some s \<longrightarrow> sp_id s = k)"

lemma spec_of_node_id: "spec_of_node n = Some s \<Longrightarrow> sp_id s = rn_id n"
  by (auto simp: spec_of_node_def split: option.splits)

text \<open>Rows with distinct ids become specs in the order of the rows.\<close>

lemma specs_of_distinct:
  assumes "distinct (map rn_id nodes)"
  shows "specs_of nodes = map (\<lambda>s. (sp_id s, s)) (List.map_filter spec_of_node nodes)"
proof -
  let ?add = "\<lambda>n specs. case spec_of_node n of None \<Rightarrow> specs | Some s \<Rightarrow> AList.update (sp_id s) s specs"
  have update_new: "AList.update k v al = al @ [(k, v)]" if "k \<notin> fst ` set al" for k v
    and al :: "(string \<times> rule_node_spec) list"
    using that by (induction al) auto
  have "fold ?add nodes acc = acc @ map (\<lambda>s. (sp_id s, s)) (List.map_filter spec_of_node nodes)"
    if "distinct (map rn_id nodes)" "\<forall>n \<in> set nodes. rn_id n \<notin> fst ` set acc" for acc
    using that
  proof (induction nodes arbitrary: acc)
    case Nil
    show ?case by (simp add: List.map_filter_simps)
  next
    case (Cons n ns)
    show ?case
    proof (cases "spec_of_node n")
      case None
      then show ?thesis using Cons by (simp add: List.map_filter_simps)
    next
      case (Some s)
      then have new: "AList.update (sp_id s) s acc = acc @ [(sp_id s, s)]"
        using Cons.prems(2) spec_of_node_id [OF Some] by (intro update_new) simp
      have "\<forall>m \<in> set ns. rn_id m \<notin> fst ` set (acc @ [(sp_id s, s)])"
        using Cons.prems spec_of_node_id [OF Some] by (auto simp: image_iff)
      with Cons.IH [of "acc @ [(sp_id s, s)]"] Cons.prems(1) Some new
      show ?thesis by (simp add: List.map_filter_simps)
    qed
  qed
  from this [of "[]"] assms show ?thesis by (simp add: specs_of_def)
qed

lemma keyed_specs: "distinct (map rn_id nodes) \<Longrightarrow> keyed (specs_of nodes)"
  by (auto simp: keyed_def specs_of_distinct dest!: map_of_SomeD)

lemma follow_path:
  assumes "keyed specs"
  shows "successively (\<lambda>a b. adj (sp_id a) = Some (sp_id b)) (follow specs adj visited current)
    \<and> distinct (map sp_id (follow specs adj visited current))
    \<and> set visited \<inter> sp_id ` set (follow specs adj visited current) = {}
    \<and> (follow specs adj visited current \<noteq> [] \<longrightarrow>
        current = Some (sp_id (hd (follow specs adj visited current)))
        \<and> (case adj (sp_id (last (follow specs adj visited current))) of
             None \<Rightarrow> True
           | Some k \<Rightarrow> map_of specs k = None
               \<or> k \<in> set visited \<union> sp_id ` set (follow specs adj visited current)))"
  using assms
proof (induction specs adj visited current rule: follow.induct)
  case (1 specs adj visited current)
  show ?case
  proof (cases current)
    case None
    then show ?thesis by (simp add: follow.simps)
  next
    case c: (Some c)
    show ?thesis
    proof (cases "map_of specs c")
      case None
      then show ?thesis using c by (simp add: follow.simps)
    next
      case s: (Some s)
      show ?thesis
      proof (cases "c \<in> set visited")
        case True
        then show ?thesis using c s by (simp add: follow.simps)
      next
        case False
        let ?rest = "follow specs adj (c # visited) (adj c)"
        have id: "sp_id s = c" using "1.prems" s by (simp add: keyed_def)
        have unfold: "follow specs adj visited current = s # ?rest"
          using c s False by (simp add: follow.simps [of specs adj visited])
        note IH = "1.IH" [OF c s False "1.prems"]
        show ?thesis
        proof (cases "?rest = []")
          case True
          have "adj c = None \<or> (\<exists>k. adj c = Some k \<and> (map_of specs k = None \<or> k = c \<or> k \<in> set visited))"
            using True by (auto simp: follow.simps [of specs adj "c # visited"] split: option.splits if_splits)
          then show ?thesis using True unfold id c False by auto
        next
          case nonempty: False
          then show ?thesis using IH unfold id c False
            by (cases ?rest) (auto split: option.splits)
        qed
      qed
    qed
  qed
qed

section \<open>The plan\<close>

text \<open>What a chain should do on a sample: the delays and actions before the first condition that does
  not hold.\<close>

definition node_holds :: "(json \<Rightarrow> string) \<Rightarrow> json \<Rightarrow> rule_node_spec \<Rightarrow> bool" where
  "node_holds repr telemetry node = (evaluate_predicate repr (sp_config node) telemetry = Inr True)"

fun step_of :: "rule_node_spec \<Rightarrow> execution_step list" where
  "step_of node =
     (case sp_node_type node of
        DELAY \<Rightarrow> [DelayStep (delay_seconds node)] | ACTION \<Rightarrow> [ActionStep node] | _ \<Rightarrow> [])"

definition chain_spec :: "(json \<Rightarrow> string) \<Rightarrow> json \<Rightarrow> rule_node_spec list \<Rightarrow> execution_step list" where
  "chain_spec repr telemetry nodes =
     concat (map step_of
       (takeWhile (\<lambda>n. sp_node_type n = CONDITION \<longrightarrow> node_holds repr telemetry n) nodes))"

lemma predicate_total: "\<exists>b. evaluate_predicate repr config (JObj d) = Inr b"
proof -
  have "\<not> isl (evaluate_predicate repr config (JObj d))"
    by (simp add: evaluate_predicate_def telemetry_value_def Let_def split: option.split)
  then show ?thesis by (cases "evaluate_predicate repr config (JObj d)") simp_all
qed

lemma plan_nodes_spec:
  "plan_nodes repr (JObj d) nodes steps = Inr (plan_of (steps @ chain_spec repr (JObj d) nodes))"
proof (induction repr "JObj d" nodes steps rule: plan_nodes.induct)
  case (1 repr steps)
  show ?case by (simp add: chain_spec_def)
next
  case (2 repr node nodes steps)
  obtain b where "evaluate_predicate repr (sp_config node) (JObj d) = Inr b"
    using predicate_total by blast
  with 2 show ?case
    by (cases "sp_node_type node") (auto simp: chain_spec_def node_holds_def condition_true_def)
qed

section \<open>Time\<close>

definition total_delay :: "execution_step list \<Rightarrow> rat" where
  "total_delay steps = (\<Sum>s\<leftarrow>steps. case s of DelayStep d \<Rightarrow> max 0 d | ActionStep n \<Rightarrow> 0)"

lemma total_delay_simps [simp]:
  "total_delay [] = 0"
  "total_delay (DelayStep d # steps) = max 0 d + total_delay steps"
  "total_delay (ActionStep n # steps) = total_delay steps"
  by (simp_all add: total_delay_def)

lemma total_delay_nonneg: "0 \<le> total_delay steps"
  unfolding total_delay_def by (rule sum_list_nonneg) (auto split: execution_step.splits)

lemma execute_steps_append:
  "execute_steps repr sleep sink event (pre @ post) n w =
     (case execute_steps repr sleep sink event pre n w of
        (n1, w1) \<Rightarrow> execute_steps repr sleep sink event post n1 w1)"
  by (induction repr sleep sink event pre n w rule: execute_steps.induct)
    (auto split: option.split)

lemma execute_steps_count:
  "fst (execute_steps repr sleep sink event steps n w) =
     n + length (List.map_filter (\<lambda>s. case s of ActionStep node \<Rightarrow> parse_action repr node | DelayStep d \<Rightarrow> None) steps)"
  by (induction repr sleep sink event steps n w rule: execute_steps.induct)
    (auto simp: List.map_filter_simps split: option.split)

text \<open>What \<open>execute_plan\<close> needs of a world: sleeping takes at least its time and sends nothing, and
  the sink sends at the time it is called or later.\<close>

locale timed_world =
  fixes clock :: "'w \<Rightarrow> rat"
    and sent :: "'w \<Rightarrow> (rat \<times> 'm) list"
    and sleep :: "rat \<Rightarrow> 'w \<Rightarrow> 'w"
    and sink :: "action \<Rightarrow> telemetry_event \<Rightarrow> 'w \<Rightarrow> 'w"
  assumes sleep_clock: "0 < d \<Longrightarrow> clock w + d \<le> clock (sleep d w)"
    and sleep_sent: "sent (sleep d w) = sent w"
    and sink_clock: "clock w \<le> clock (sink a e w)"
    and sink_sent: "\<exists>new. sent (sink a e w) = sent w @ new \<and> (\<forall>x \<in> set new. clock w \<le> fst x)"
begin

lemma steps_clock:
  "clock w + total_delay steps \<le> clock (snd (execute_steps repr sleep sink event steps n w))"
proof (induction steps arbitrary: n w)
  case Nil
  show ?case by simp
next
  case (Cons s steps)
  show ?case
  proof (cases s)
    case (DelayStep d)
    then show ?thesis
      using Cons.IH [of w n] Cons.IH [of "sleep d w" n] sleep_clock [of d w] by (auto simp: max_def)
  next
    case node: (ActionStep node)
    show ?thesis
    proof (cases "parse_action repr node")
      case None
      then show ?thesis using Cons.IH [of w n] node by simp
    next
      case (Some a)
      then show ?thesis
        using Cons.IH [of "sink a event w" "n + 1"] sink_clock [of w a event] node by simp
    qed
  qed
qed

lemma steps_sent:
  "\<exists>new. sent (snd (execute_steps repr sleep sink event steps n w)) = sent w @ new
     \<and> (\<forall>x \<in> set new. clock w \<le> fst x)"
proof (induction steps arbitrary: n w)
  case Nil
  show ?case by simp
next
  case (Cons s steps)
  show ?case
  proof (cases s)
    case (DelayStep d)
    let ?w = "if d > 0 then sleep d w else w"
    have "clock w \<le> clock ?w" using sleep_clock [of d w] by auto
    with Cons.IH [where n = n and w = ?w] DelayStep sleep_sent show ?thesis
      by (fastforce intro: order_trans)
  next
    case node: (ActionStep node)
    show ?thesis
    proof (cases "parse_action repr node")
      case None
      then show ?thesis using Cons.IH node by simp
    next
      case (Some a)
      obtain new where new: "sent (sink a event w) = sent w @ new" "\<forall>x \<in> set new. clock w \<le> fst x"
        using sink_sent by blast
      obtain more where "sent (snd (execute_steps repr sleep sink event steps (n + 1) (sink a event w)))
          = sent (sink a event w) @ more" "\<forall>x \<in> set more. clock (sink a event w) \<le> fst x"
        using Cons.IH by blast
      with new sink_clock [of w a event] Some node show ?thesis
        by (intro exI [of _ "new @ more"]) (auto intro: order_trans)
    qed
  qed
qed

text \<open>Everything sent after a prefix of the plan is sent at least the prefix's delays later.\<close>

lemma deferred:
  "\<exists>m w1 new. execute_steps repr sleep sink event pre n w = (m, w1)
     \<and> sent (snd (execute_steps repr sleep sink event (pre @ post) n w)) = sent w1 @ new
     \<and> (\<forall>x \<in> set new. clock w + total_delay pre \<le> fst x)"
proof -
  obtain m w1 where pre: "execute_steps repr sleep sink event pre n w = (m, w1)" by fastforce
  obtain new where new: "sent (snd (execute_steps repr sleep sink event post m w1)) = sent w1 @ new"
    "\<forall>x \<in> set new. clock w1 \<le> fst x" using steps_sent by blast
  have "clock w + total_delay pre \<le> clock w1"
    using steps_clock [of w pre repr event n] pre by simp
  with pre new show ?thesis by (auto simp: execute_steps_append intro: order_trans)
qed

end

interpretation worker: timed_world rw_now rw_sent asyncio_sleep "redis_action_sink publisher bus"
  for publisher bus
  by unfold_locales
    (auto simp: asyncio_sleep_def redis_action_sink_def do_command_def publish_channel_def Let_def
      split: action_kind.split option.split)

section \<open>From the editor's graph to the chain\<close>

lemma adjacency_map_of:
  "adjacency_of es a = map_of (map (\<lambda>e. (re_from_node_id e, re_to_node_id e)) es) a"
  by (induction es) auto

lemma adjacency_path:
  assumes "map (\<lambda>e. (re_from_node_id e, re_to_node_id e)) es = zip (butlast ids) (tl ids)"
    and "distinct ids" "j < length ids"
  shows "adjacency_of es (ids ! j) = (if Suc j < length ids then Some (ids ! Suc j) else None)"
proof (cases "Suc j < length ids")
  case True
  have "map_of (zip (butlast ids) (tl ids)) (butlast ids ! j) = Some (tl ids ! j)"
    using True assms(2) by (intro map_of_zip_nth) (simp_all add: distinct_butlast)
  with True show ?thesis by (simp add: adjacency_map_of assms(1) nth_butlast nth_tl)
next
  case False
  then have "j = length ids - 1" using assms(3) by simp
  then have "ids ! j \<notin> set (butlast ids)"
    using assms(2,3) by (cases ids rule: rev_cases) (simp_all add: nth_append)
  then have "map_of (zip (butlast ids) (tl ids)) (ids ! j) = None"
    by (auto simp: map_of_eq_None_iff dest: set_zip_leftD)
  with False show ?thesis by (simp add: adjacency_map_of assms(1))
qed

lemma follow_list:
  assumes "distinct (map sp_id ss)" "j < length ss"
    and "\<forall>i < length ss. adj (sp_id (ss ! i)) = (if Suc i < length ss then Some (sp_id (ss ! Suc i)) else None)"
  shows "follow (map (\<lambda>s. (sp_id s, s)) ss) adj (rev (map sp_id (take j ss))) (Some (sp_id (ss ! j)))
    = drop j ss"
  using assms(2)
proof (induction "length ss - j" arbitrary: j)
  case 0
  then show ?case by simp
next
  case (Suc n)
  have get: "map_of (map (\<lambda>s. (sp_id s, s)) ss) (sp_id (ss ! j)) = Some (ss ! j)"
    using assms(1) Suc.prems by (intro map_of_is_SomeI) (auto simp: comp_def)
  have fresh: "sp_id (ss ! j) \<notin> set (map sp_id (take j ss))"
    using assms(1) Suc.prems by (auto simp: in_set_conv_nth nth_eq_iff_index_eq distinct_conv_nth)
  have visited: "sp_id (ss ! j) # rev (map sp_id (take j ss)) = rev (map sp_id (take (Suc j) ss))"
    using Suc.prems by (simp add: take_Suc_conv_app_nth)
  have "follow (map (\<lambda>s. (sp_id s, s)) ss) adj (rev (map sp_id (take j ss))) (Some (sp_id (ss ! j)))
      = ss ! j # follow (map (\<lambda>s. (sp_id s, s)) ss) adj (rev (map sp_id (take (Suc j) ss))) (adj (sp_id (ss ! j)))"
    using get fresh visited by (subst follow.simps) simp
  also have "\<dots> = ss ! j # drop (Suc j) ss"
  proof (cases "Suc j < length ss")
    case True
    with Suc.hyps(1) [of "Suc j"] Suc.hyps(2) assms(3) Suc.prems show ?thesis by simp
  next
    case False
    with assms(3) Suc.prems show ?thesis by (simp add: follow.simps)
  qed
  finally show ?case using Suc.prems by (simp add: Cons_nth_drop_Suc)
qed

text \<open>The chain of a graph whose edges join its nodes one after the other.\<close>

lemma linear_chain:
  assumes "distinct (map rn_id nodes)" "nodes \<noteq> []"
    and "list_all (\<lambda>n. coerce_node_type (rn_node_type n) \<noteq> None) nodes"
    and "coerce_node_type (rn_node_type (hd nodes)) = Some TRIGGER"
    and "map (\<lambda>e. (re_from_node_id e, re_to_node_id e)) edges
      = zip (butlast (map rn_id nodes)) (tl (map rn_id nodes))"
  shows "build_chain nodes edges = map (the \<circ> spec_of_node) nodes"
proof -
  let ?ss = "map (the \<circ> spec_of_node) nodes"
  have some: "spec_of_node n \<noteq> None" if "n \<in> set nodes" for n
    using that assms(3) by (auto simp: list_all_iff spec_of_node_def)
  then have filt: "List.map_filter spec_of_node nodes = ?ss"
    by (induction nodes) (auto simp: List.map_filter_simps split: option.split)
  have ids: "map sp_id ?ss = map rn_id nodes"
    using some spec_of_node_id by (auto intro!: map_cong)
  then have id: "sp_id (?ss ! i) = map rn_id nodes ! i" if "i < length nodes" for i
    using that by (metis length_map nth_map)
  obtain n ns where nodes: "nodes = n # ns" using assms(2) by (cases nodes) auto
  have hd: "sp_node_type (the (spec_of_node n)) = TRIGGER"
    using assms(4) by (simp add: nodes spec_of_node_def)
  have "adjacency_of edges (sp_id (?ss ! i))
      = (if Suc i < length ?ss then Some (sp_id (?ss ! Suc i)) else None)" if "i < length ?ss" for i
    using adjacency_path [OF assms(5,1), of i] that id [of i] id [of "Suc i"] by simp
  moreover have "distinct (map sp_id ?ss)" "0 < length ?ss"
    unfolding ids using assms(1,2) by simp_all
  ultimately have "follow (map (\<lambda>s. (sp_id s, s)) ?ss) (adjacency_of edges)
      (rev (map sp_id (take 0 ?ss))) (Some (sp_id (?ss ! 0))) = drop 0 ?ss"
    by (intro follow_list) blast+
  then have "follow (specs_of nodes) (adjacency_of edges) [] (Some (sp_id (?ss ! 0))) = ?ss"
    unfolding specs_of_distinct [OF assms(1)] filt by simp
  moreover have "find (\<lambda>s. sp_node_type s = TRIGGER) (map snd (specs_of nodes)) = Some (?ss ! 0)"
    unfolding specs_of_distinct [OF assms(1)] filt by (simp add: nodes hd)
  ultimately show ?thesis by (simp add: build_chain_def)
qed

lemma map_path:
  "map (map_prod f f) (zip (butlast xs) (tl xs)) = zip (butlast (map f xs)) (tl (map f xs))"
  by (simp add: map_butlast [symmetric] map_tl [symmetric] zip_map_map map_prod_def)

lemma add_nodes_other:
  "add_nodes org rid fresh i ns acc = Inr (rows', m') \<Longrightarrow> \<forall>n \<in> set ns. ni_id n \<noteq> Some c \<Longrightarrow> m' c = snd acc c"
proof (induction org rid fresh i ns acc rule: add_nodes.induct)
  case (2 org rid fresh i n ns rows m)
  then show ?case
    by (auto simp: insert_row_def fail_def split: option.splits if_splits)
qed simp

lemma add_nodes_map:
  assumes "add_nodes org rid fresh i ns acc = Inr (rows', m')"
    and "distinct (map ni_id ns)" "list_all (\<lambda>n. ni_id n \<noteq> None) ns" "j < length ns"
  shows "m' (the (ni_id (ns ! j))) = Some (fresh (i + j))"
  using assms
proof (induction org rid fresh i ns acc arbitrary: j rule: add_nodes.induct)
  case (1 org rid fresh i acc)
  then show ?case by simp
next
  case (2 org rid fresh i n ns rows m)
  obtain c where c: "ni_id n = Some c" using "2.prems"(3) by auto
  obtain ty row where rest: "ni_node_type n = Some ty"
    "add_nodes org rid fresh (Suc i) ns (row, m(c \<mapsto> fresh i)) = Inr (rows', m')"
    using "2.prems"(1) c by (auto simp: fail_def insert_row_def split: option.splits if_splits)
  show ?case
  proof (cases j)
    case 0
    have "\<forall>k \<in> set ns. ni_id k \<noteq> Some c" using "2.prems"(2) c by force
    from add_nodes_other [OF rest(2) this] c 0 show ?thesis by simp
  next
    case (Suc k)
    with "2.IH" [OF rest(1), of row k] rest(2) "2.prems" c show ?thesis by simp
  qed
qed

section \<open>Properties\<close>

text \<open>A rule's graph becomes one path: it starts at the first trigger, follows the first edge out of
  each node, visits no node twice, and ends only where the edge is missing, leads outside the rule or
  back into the path; so a graph with a cycle still gives a finite chain.\<close>

theorem chain_is_path:
  assumes "distinct (map rn_id nodes)" "chain = build_chain nodes edges"
  shows "successively (\<lambda>a b. adjacency_of edges (sp_id a) = Some (sp_id b)) chain
    \<and> distinct (map sp_id chain)
    \<and> (case find (\<lambda>n. coerce_node_type (rn_node_type n) = Some TRIGGER) nodes of
         None \<Rightarrow> chain = []
       | Some n \<Rightarrow> chain \<noteq> [] \<and> sp_id (hd chain) = rn_id n \<and> sp_node_type (hd chain) = TRIGGER
           \<and> (case adjacency_of edges (sp_id (last chain)) of
                None \<Rightarrow> True
              | Some k \<Rightarrow> map_of (specs_of nodes) k = None \<or> k \<in> sp_id ` set chain))"
proof -
  let ?adj = "adjacency_of edges" and ?specs = "specs_of nodes"
  have snd_specs: "map snd ?specs = List.map_filter spec_of_node nodes"
    by (simp add: specs_of_distinct [OF assms(1)] comp_def)
  have trig: "find (\<lambda>s. sp_node_type s = TRIGGER) (List.map_filter spec_of_node nodes)
      = (case find (\<lambda>n. coerce_node_type (rn_node_type n) = Some TRIGGER) nodes of
           None \<Rightarrow> None | Some n \<Rightarrow> spec_of_node n)" for nodes
    by (induction nodes) (auto simp: List.map_filter_simps spec_of_node_def split: option.split)
  note path = follow_path [OF keyed_specs [OF assms(1)], of ?adj "[]"]
  show ?thesis
  proof (cases "find (\<lambda>n. coerce_node_type (rn_node_type n) = Some TRIGGER) nodes")
    case None
    then have "chain = []" using assms(2) trig [of nodes] snd_specs by (simp add: build_chain_def)
    with None show ?thesis by simp
  next
    case (Some n)
    then have n: "n \<in> set nodes" "coerce_node_type (rn_node_type n) = Some TRIGGER"
      by (auto simp: find_Some_iff)
    then obtain s where s: "spec_of_node n = Some s" "sp_node_type s = TRIGGER" "sp_id s = rn_id n"
      by (auto simp: spec_of_node_def)
    then have chain: "chain = follow ?specs ?adj [] (Some (sp_id s))"
      using assms(2) trig [of nodes] snd_specs Some by (simp add: build_chain_def)
    have "(sp_id s, s) \<in> set ?specs"
      using n(1) s(1) by (auto simp: specs_of_distinct [OF assms(1)] List.map_filter_def intro: rev_image_eqI)
    moreover have "distinct (map fst ?specs)"
    proof -
      have "distinct (map sp_id (List.map_filter spec_of_node ns))
          \<and> sp_id ` set (List.map_filter spec_of_node ns) \<subseteq> rn_id ` set ns"
        if "distinct (map rn_id ns)" for ns
        using that by (induction ns)
          (auto simp: List.map_filter_simps spec_of_node_id split: option.split)
      with assms(1) show ?thesis by (simp add: specs_of_distinct comp_def)
    qed
    ultimately have "map_of ?specs (sp_id s) = Some s" by simp
    then have "chain = s # follow ?specs ?adj [sp_id s] (?adj (sp_id s))"
      unfolding chain by (subst follow.simps) simp
    then have hd: "chain \<noteq> []" "hd chain = s" by simp_all
    with path [of "Some (sp_id s)"] Some s show ?thesis
      unfolding chain by (auto split: option.splits)
  qed
qed

definition ex_rule_node :: "string \<Rightarrow> string \<Rightarrow> (string \<times> json) list \<Rightarrow> rule_node" where
  "ex_rule_node i ty cfg = \<lparr>rn_id = i, rn_org_id = ''o'', rn_rule_id = ''r'', rn_node_type = ty,
     rn_config = JObj cfg, rn_position = JNull\<rparr>"

definition ex_rule_edge :: "string \<Rightarrow> string \<Rightarrow> rule_edge" where
  "ex_rule_edge a b = \<lparr>re_id = a @ b, re_org_id = ''o'', re_rule_id = ''r'', re_from_node_id = a,
     re_to_node_id = b\<rparr>"

definition ex_nodes :: "rule_node list" where
  "ex_nodes = [ex_rule_node ''t'' '' Trigger'' [(''key'', JStr ''temp''), (''op'', JStr ''gt''), (''value'', JInt 30)],
     ex_rule_node ''d'' ''delay'' [(''seconds'', JInt 5)],
     ex_rule_node ''a'' ''action'' [(''action'', JStr ''notify'')]]"

definition ex_edges :: "rule_edge list" where
  "ex_edges = [ex_rule_edge ''t'' ''d'', ex_rule_edge ''d'' ''a'', ex_rule_edge ''a'' ''t'']"

theorem chain_is_path_witness:
  "map sp_id (build_chain ex_nodes ex_edges) = [''t'', ''d'', ''a'']
    \<and> distinct (map sp_id (build_chain ex_nodes ex_edges))"
proof
  show "map sp_id (build_chain ex_nodes ex_edges) = [''t'', ''d'', ''a'']"
    by code_simp
  have "distinct (map rn_id ex_nodes)" by (simp add: ex_nodes_def ex_rule_node_def)
  from chain_is_path [OF this refl]
  show "distinct (map sp_id (build_chain ex_nodes ex_edges))" by blast
qed

text \<open>An action runs exactly when it should: for any sample, the plan of a rule is suppressed in
  Maintenance_Mode, and otherwise holds the delays and actions of the chain, in order, up to the
  first condition the sample does not meet, when the trigger fires, and nothing when it does not.\<close>

theorem plan_exact:
  "evaluate repr nodes edges (JObj d) True = Inr \<lparr>ep_steps = [], ep_suppressed = True\<rparr>
   \<and> evaluate repr nodes edges (JObj d) False = Inr (plan_of
       (case build_chain nodes edges of
          [] \<Rightarrow> []
        | t # rest \<Rightarrow>
            if sp_node_type t = TRIGGER \<and> node_holds repr (JObj d) t
            then chain_spec repr (JObj d) rest else []))"
proof (cases "build_chain nodes edges")
  case Nil
  then show ?thesis by (simp add: evaluate_def plan_chain_def)
next
  case (Cons t rest)
  obtain b where "evaluate_predicate repr (sp_config t) (JObj d) = Inr b"
    using predicate_total by blast
  with Cons show ?thesis
    by (simp add: evaluate_def plan_chain_def node_holds_def trigger_matches_def plan_nodes_spec)
qed

text \<open>What follows a delay is deferred by it: everything the worker sends for the steps after a prefix
  of a plan carries a time at least the prefix's delays later than the start, whatever the broker and
  Redis refuse, and the number of dispatched actions is that of the actions that can be parsed.\<close>

theorem actions_deferred:
  "\<exists>m w1 n w2 new.
     execute_plan repr asyncio_sleep (redis_action_sink publisher bus) (plan_of pre) event w = (m, w1)
   \<and> execute_plan repr asyncio_sleep (redis_action_sink publisher bus) (plan_of (pre @ post)) event w = (n, w2)
   \<and> rw_sent w2 = rw_sent w1 @ new
   \<and> list_all (\<lambda>x. rw_now w + total_delay pre \<le> fst x) new
   \<and> n = length (List.map_filter
       (\<lambda>s. case s of ActionStep node \<Rightarrow> parse_action repr node | DelayStep d \<Rightarrow> None) (pre @ post))"
proof -
  let ?run = "execute_steps repr asyncio_sleep (redis_action_sink publisher bus) event"
  obtain m w1 new where *: "?run pre 0 w = (m, w1)"
    "rw_sent (snd (?run (pre @ post) 0 w)) = rw_sent w1 @ new"
    "\<forall>x \<in> set new. rw_now w + total_delay pre \<le> fst x"
    using worker.deferred [of repr publisher bus event pre 0 w post] by blast
  obtain n w2 where run: "?run (pre @ post) 0 w = (n, w2)" by fastforce
  with execute_steps_count [of repr asyncio_sleep "redis_action_sink publisher bus" event "pre @ post" 0 w]
  have "n = length (List.map_filter
       (\<lambda>s. case s of ActionStep node \<Rightarrow> parse_action repr node | DelayStep d \<Rightarrow> None) (pre @ post))"
    by simp
  with * run show ?thesis
    unfolding execute_plan_def plan_of_def list_all_iff by (simp del: List.map_filter_simps)
qed

lemma handle_event_preserves:
  assumes "\<And>d w. f (sleep d w) = f w" "\<And>a e w. f (sink a e w) = f w"
  shows "f (handle_event repr sleep sink db devices event w) = f w"
proof -
  have steps: "f (snd (execute_steps repr sleep sink e steps n w)) = f w" for e steps n w
  proof (induction steps arbitrary: n w)
    case (Cons s steps)
    then show ?case by (cases s) (auto simp: assms split: option.split)
  qed simp
  have "f (snd (evaluate_rules repr sleep sink event rules n w)) = f w" for rules n w
  proof (induction rules arbitrary: n w)
    case Nil
    show ?case by simp
  next
    case (Cons r rules)
    obtain rid ns es where r: "r = (rid, ns, es)" by (cases r)
    show ?case
    proof (cases "evaluate repr ns es (te_data event) False")
      case (Inl e)
      then show ?thesis by (simp add: r)
    next
      case (Inr plan)
      obtain m w' where run: "execute_plan repr sleep sink plan (event\<lparr>te_rule_id := Some rid\<rparr>) w = (m, w')"
        by fastforce
      then have "f w' = f w" using steps by (metis execute_plan_def snd_conv)
      with Cons.IH Inr run show ?thesis by (simp add: r)
    qed
  qed
  then show ?thesis
    by (simp add: handle_event_def evaluate_event_def split: sum.split bool.split)
qed

text \<open>A device in Maintenance_Mode triggers nothing, whatever the rules; and the worker's own sink, which
  is built without a broker connection, never sends a command, for any device and any rules.\<close>

theorem maintenance_and_commands_silent:
  "(device_in_maintenance devices (te_device_id event) = Inr True \<longrightarrow>
      handle_event repr sleep sink db devices event v = v)
    \<and> filter (\<lambda>x. fst (snd x) = Mqtt)
        (rw_sent (handle_event repr asyncio_sleep (redis_action_sink None bus) db devices event w))
      = filter (\<lambda>x. fst (snd x) = Mqtt) (rw_sent w)"
proof
  show "device_in_maintenance devices (te_device_id event) = Inr True \<longrightarrow>
      handle_event repr sleep sink db devices event v = v"
    by (simp add: handle_event_def)
  show "filter (\<lambda>x. fst (snd x) = Mqtt)
        (rw_sent (handle_event repr asyncio_sleep (redis_action_sink None bus) db devices event w))
      = filter (\<lambda>x. fst (snd x) = Mqtt) (rw_sent w)"
    by (rule handle_event_preserves)
      (auto simp: asyncio_sleep_def redis_action_sink_def do_command_def publish_channel_def Let_def
        split: action_kind.split)
qed

theorem maintenance_and_commands_silent_witness:
  "handle_event (\<lambda>_. []) asyncio_sleep (redis_action_sink None (\<lambda>c m. True)) ex_rules
      [\<lparr>dm_id = ''0123abcd-0123-4567-89ab-0123456789ab'', dm_maintenance_mode = True\<rparr>]
      \<lparr>te_org_id = ''o'', te_device_id = ''0123abcd-0123-4567-89ab-0123456789ab'', te_data = JObj [],
       te_rule_id = None\<rparr> \<lparr>rw_now = 1, rw_sent = []\<rparr> = \<lparr>rw_now = 1, rw_sent = []\<rparr>"
proof -
  let ?ds = "[\<lparr>dm_id = ''0123abcd-0123-4567-89ab-0123456789ab'', dm_maintenance_mode = True\<rparr>]"
    and ?ev = "\<lparr>te_org_id = ''o'', te_device_id = ''0123abcd-0123-4567-89ab-0123456789ab'',
       te_data = JObj [], te_rule_id = None\<rparr>"
  have "device_in_maintenance ?ds (te_device_id ?ev) = Inr True" by code_simp
  then show ?thesis by (rule maintenance_and_commands_silent [THEN conjunct1, rule_format])
qed

lemma created_graph:
  assumes "rules_ok db" "create_rule p fr now name (Some ns) (Some es) enabled tid db = Inr (rule, db')"
    and "is_uuid (pr_org_id p)"
  obtains new ne m rows where
    "get_graph p (ru_id rule) db' = Inr (new, ne)" "distinct (map rn_id new)"
    "add_nodes (pr_org_id p) (fr_rule fr) (fr_nodes fr) 0 ns (rb_nodes db, Map.empty) = Inr (rows, m)"
    "map rn_id new = map (fr_nodes fr) [0..<length ns]"
    "map (\<lambda>n. (rn_node_type n, rn_config n)) new = map (\<lambda>n. (the (ni_node_type n), ni_config n)) ns"
    "map (\<lambda>e. (Some (re_from_node_id e), Some (re_to_node_id e))) ne
        = map (\<lambda>e. (client_node m (ei_from e), client_node m (ei_to e))) es"
proof -
  have "rule_org_uuid p = Inr (pr_org_id p)" using assms(3) by (rule org_uuid_canonical)
  then obtain rows m rows2 where c:
    "add_nodes (pr_org_id p) (fr_rule fr) (fr_nodes fr) 0 ns (rb_nodes db, Map.empty) = Inr (rows, m)"
    "add_edges (pr_org_id p) (fr_rule fr) (fr_edges fr) m 0 es (rb_edges db) = Inr rows2"
    "rule = \<lparr>ru_id = fr_rule fr, ru_org_id = pr_org_id p, ru_name = strip name, ru_enabled = enabled,
       ru_template_id = tid, ru_created_at = now\<rparr>"
    "fr_rule fr \<notin> ru_id ` set (rb_rules db)"
    "db' = db\<lparr>rb_rules := rb_rules db @ [rule], rb_nodes := rows, rb_edges := rows2\<rparr>"
    using assms(2)
    by (auto simp: create_rule_def flush_graph_def insert_row_def bind_res_eq_Inr Let_def
        split: if_splits)
  obtain new where new: "rows = rb_nodes db @ new"
    "\<forall>n \<in> set new. rn_rule_id n = fr_rule fr" "distinct (map rn_id rows)"
    "map rn_id new = map (fr_nodes fr) [0..<length ns]"
    "map (\<lambda>n. (rn_node_type n, rn_config n)) new = map (\<lambda>n. (the (ni_node_type n), ni_config n)) ns"
    using add_nodes_Inr [OF c(1)] assms(1) by (auto simp: rules_ok_def graphs_ok_def)
  obtain ne where ne: "rows2 = rb_edges db @ ne" "\<forall>e \<in> set ne. re_rule_id e = fr_rule fr"
    "map (\<lambda>e. (Some (re_from_node_id e), Some (re_to_node_id e))) ne
        = map (\<lambda>e. (client_node m (ei_from e), client_node m (ei_to e))) es"
    using add_edges_Inr [OF c(2)] by blast
  have old: "\<forall>n \<in> set (rb_nodes db). rn_rule_id n \<noteq> fr_rule fr"
    "\<forall>e \<in> set (rb_edges db). re_rule_id e \<noteq> fr_rule fr"
    using assms(1) c(4) by (auto simp: rules_ok_def graphs_ok_def image_iff) metis+
  have "tbl_get ru_id (rb_rules db @ [rule]) (fr_rule fr) = Some rule"
    using c(3,4) by (auto simp: tbl_get_append tbl_get_None split: option.split dest: tbl_get_key)
  then have "get_graph p (ru_id rule) db' = Inr (new, ne)"
    using c(3,5) new(1,2) ne(1,2) old by (simp add: get_graph_def get_rule_def scope_get_def)
  then show thesis using that c(1) new(1,3,4,5) ne(3) by simp
qed

text \<open>The nodes' client ids lead to the stored rows, one by one.\<close>

lemma client_nodes_rows:
  assumes "add_nodes org rid fresh 0 ns acc = Inr (rows, m)" "distinct (map ni_id ns)"
    and "list_all (\<lambda>n. \<exists>c. ni_id n = Some c \<and> c \<noteq> []) ns" "map rn_id new = map fresh [0..<length ns]"
  shows "map (client_node m) (map ni_id ns) = map Some (map rn_id new)"
proof -
  have len: "length new = length ns" using arg_cong [OF assms(4), of length] by simp
  have "client_node m (ni_id (ns ! j)) = Some (rn_id (new ! j))" if j: "j < length ns" for j
  proof -
    have "list_all (\<lambda>n. ni_id n \<noteq> None) ns" using assms(3) by (auto simp: list_all_iff)
    then have "m (the (ni_id (ns ! j))) = Some (fresh j)"
      using add_nodes_map [OF assms(1,2) _ j] by simp
    moreover obtain k where "ni_id (ns ! j) = Some k" "k \<noteq> []"
      using assms(3) nth_mem [OF j] by (auto simp: list_all_iff)
    moreover have "rn_id (new ! j) = fresh j"
      using j len arg_cong [OF assms(4), of "\<lambda>l. l ! j"] by simp
    ultimately show ?thesis by (simp add: client_node_def)
  qed
  then show ?thesis by (intro nth_equalityI) (simp_all add: len)
qed

lemma stored_path:
  assumes "map (\<lambda>e. (Some (re_from_node_id e), Some (re_to_node_id e))) ne
        = map (\<lambda>e. (client_node m (ei_from e), client_node m (ei_to e))) es"
    and "map (\<lambda>e. (ei_from e, ei_to e)) es = zip (butlast ids) (tl ids)"
    and "map (client_node m) ids = map Some (map rn_id new)"
  shows "map (\<lambda>e. (re_from_node_id e, re_to_node_id e)) ne
      = zip (butlast (map rn_id new)) (tl (map rn_id new))"
proof -
  have "map (map_prod Some Some) (map (\<lambda>e. (re_from_node_id e, re_to_node_id e)) ne)
      = map (map_prod (client_node m) (client_node m)) (map (\<lambda>e. (ei_from e, ei_to e)) es)"
    using assms(1) by (simp add: comp_def)
  also have "\<dots> = map (map_prod Some Some) (zip (butlast (map rn_id new)) (tl (map rn_id new)))"
    unfolding assms(2) map_path assms(3) ..
  finally show ?thesis
    using inj_map_eq_map [OF prod.inj_map [OF inj_Some inj_Some]] by (rule iffD1 [rotated])
qed

text \<open>What the editor draws is what runs: a rule created from a straight graph - the first node a
  trigger, every node of a known kind with a client id of its own, every edge joining a node to the
  next - is stored so that the worker's chain is those nodes, in that order, with their kinds and
  configurations.\<close>

theorem created_rule_runs_in_order:
  assumes "rules_ok db" "create_rule p fr now name (Some ns) (Some es) enabled tid db = Inr (rule, db')"
    and "is_uuid (pr_org_id p)" "ns \<noteq> []" "list_all (\<lambda>n. \<exists>c. ni_id n = Some c \<and> c \<noteq> []) ns"
    and "distinct (map ni_id ns)"
    and "list_all (\<lambda>n. coerce_node_type (the (ni_node_type n)) \<noteq> None) ns"
    and "coerce_node_type (the (ni_node_type (hd ns))) = Some TRIGGER"
    and "map (\<lambda>e. (ei_from e, ei_to e)) es = zip (butlast (map ni_id ns)) (tl (map ni_id ns))"
  shows "\<exists>nodes edges. get_graph p (ru_id rule) db' = Inr (nodes, edges)
    \<and> map (\<lambda>s. (Some (sp_node_type s), sp_config s)) (build_chain nodes edges)
      = map (\<lambda>n. (coerce_node_type (the (ni_node_type n)),
                  case as_dict (ni_config n) of Some d \<Rightarrow> d | None \<Rightarrow> [])) ns"
proof -
  obtain new ne m rows where g: "get_graph p (ru_id rule) db' = Inr (new, ne)" "distinct (map rn_id new)"
    "add_nodes (pr_org_id p) (fr_rule fr) (fr_nodes fr) 0 ns (rb_nodes db, Map.empty) = Inr (rows, m)"
    "map rn_id new = map (fr_nodes fr) [0..<length ns]"
    "map (\<lambda>n. (rn_node_type n, rn_config n)) new = map (\<lambda>n. (the (ni_node_type n), ni_config n)) ns"
    "map (\<lambda>e. (Some (re_from_node_id e), Some (re_to_node_id e))) ne
        = map (\<lambda>e. (client_node m (ei_from e), client_node m (ei_to e))) es"
    using assms(1-3) by (rule created_graph)
  have len: "length new = length ns" using arg_cong [OF g(4), of length] by simp
  have path: "map (\<lambda>e. (re_from_node_id e, re_to_node_id e)) ne
      = zip (butlast (map rn_id new)) (tl (map rn_id new))"
    using g(6) assms(9) client_nodes_rows [OF g(3) assms(6,5) g(4)] by (rule stored_path)
  have rows: "rn_node_type (new ! j) = the (ni_node_type (ns ! j))" "rn_config (new ! j) = ni_config (ns ! j)"
    if "j < length ns" for j
    using that len arg_cong [OF g(5), of "\<lambda>l. l ! j"] by simp_all
  then have kinds: "list_all (\<lambda>n. coerce_node_type (rn_node_type n) \<noteq> None) new"
    using assms(7) len by (simp add: list_all_length)
  have "new \<noteq> []" using len assms(4) by auto
  moreover have "coerce_node_type (rn_node_type (hd new)) = Some TRIGGER"
    using assms(4,8) rows [of 0] len by (cases ns; cases new) auto
  ultimately have "build_chain new ne = map (the \<circ> spec_of_node) new"
    using linear_chain [OF g(2) _ kinds _ path] by blast
  moreover have "map (\<lambda>s. (Some (sp_node_type s), sp_config s)) (map (the \<circ> spec_of_node) new)
      = map (\<lambda>n. (coerce_node_type (the (ni_node_type n)),
                  case as_dict (ni_config n) of Some d \<Rightarrow> d | None \<Rightarrow> [])) ns"
    using rows len kinds
    by (intro nth_equalityI) (auto simp: list_all_length spec_of_node_def)
  ultimately show ?thesis using g(1) by auto
qed

theorem created_rule_runs_in_order_witness:
  "\<exists>rule db' nodes edges. create_rule ex_center (ex_ids ''1'') 0 ''hot''
        (Some [ex_node ''a'' ''trigger'' [], ex_node ''b'' ''delay'' [(''ms'', JInt 5)], ex_node ''c'' ''action'' []])
        (Some [\<lparr>ei_from = Some ''a'', ei_to = Some ''b''\<rparr>, \<lparr>ei_from = Some ''b'', ei_to = Some ''c''\<rparr>])
        True None ex_rules = Inr (rule, db')
    \<and> get_graph ex_center (ru_id rule) db' = Inr (nodes, edges)
    \<and> map sp_node_type (build_chain nodes edges) = [TRIGGER, DELAY, ACTION]"
proof -
  let ?ns = "[ex_node ''a'' ''trigger'' [], ex_node ''b'' ''delay'' [(''ms'', JInt 5)], ex_node ''c'' ''action'' []]"
    and ?es = "[\<lparr>ei_from = Some ''a'', ei_to = Some ''b''\<rparr>, \<lparr>ei_from = Some ''b'', ei_to = Some ''c''\<rparr>]"
  have "isl (create_rule ex_center (ex_ids ''1'') 0 ''hot'' (Some ?ns) (Some ?es) True None ex_rules) = False"
    by code_simp
  then obtain rule db' where run: "create_rule ex_center (ex_ids ''1'') 0 ''hot'' (Some ?ns) (Some ?es)
      True None ex_rules = Inr (rule, db')"
    by (cases "create_rule ex_center (ex_ids ''1'') 0 ''hot'' (Some ?ns) (Some ?es) True None ex_rules") auto
  have ok: "rules_ok ex_rules"
    by (simp add: rules_ok_def graphs_ok_def ex_rules_def limit_le_iff count_active_rules_def)
  have uuid: "is_uuid (pr_org_id ex_center)" by code_simp
  have kinds: "list_all (\<lambda>n. coerce_node_type (the (ni_node_type n)) \<noteq> None) ?ns"
    "map (\<lambda>n. coerce_node_type (the (ni_node_type n))) ?ns = [Some TRIGGER, Some DELAY, Some ACTION]"
    by code_simp+
  have hd: "coerce_node_type (the (ni_node_type (hd ?ns))) = Some TRIGGER" using kinds(2) by simp
  from created_rule_runs_in_order [OF ok run uuid _ _ _ kinds(1) hd]
  obtain nodes edges where g: "get_graph ex_center (ru_id rule) db' = Inr (nodes, edges)"
    "map (\<lambda>s. (Some (sp_node_type s), sp_config s)) (build_chain nodes edges)
      = map (\<lambda>n. (coerce_node_type (the (ni_node_type n)),
                  case as_dict (ni_config n) of Some d \<Rightarrow> d | None \<Rightarrow> [])) ?ns"
    by (auto simp: ex_node_def)
  have "map Some (map sp_node_type (build_chain nodes edges)) = [Some TRIGGER, Some DELAY, Some ACTION]"
    using arg_cong [OF g(2), of "map fst"] kinds(2) by (simp add: comp_def)
  then have "map sp_node_type (build_chain nodes edges) = [TRIGGER, DELAY, ACTION]" by auto
  from conjI [OF run conjI [OF g(1) this]] show ?thesis by (intro exI)
qed

end
