(* ===== verification/Delivery.thy ===== *)
theory Delivery imports Access
begin

text \<open>
  Delivering alerts: the webhook dispatcher (\<open>app/workers/webhook_dispatcher.py\<close>) with its retry
  policy, and the notification sender (\<open>app/workers/notification_sender.py\<close>) with its channels.  The
  HTTP client, the Telegram, e-mail and push senders, the clock and the in-app table act on a world
  of type \<open>'w\<close> and are arguments; an attempt answers with a status, or \<open>None\<close> when it raises.
  \<open>float_text\<close> is \<open>float\<close> on the texts of finite numbers, \<open>repr\<close> the text of a JSON value and \<open>sign\<close>
  the HMAC of a body.
\<close>

section \<open>Retry policies\<close>

definition DEFAULT_MAX_ATTEMPTS :: int where "DEFAULT_MAX_ATTEMPTS = 3"
definition DEFAULT_BACKOFF_INITIAL_SECONDS :: rat where "DEFAULT_BACKOFF_INITIAL_SECONDS = 1"
definition DEFAULT_BACKOFF_FACTOR :: rat where "DEFAULT_BACKOFF_FACTOR = 2"
definition DEFAULT_BACKOFF_MAX_SECONDS :: rat where "DEFAULT_BACKOFF_MAX_SECONDS = 60"

record retry_policy =
  rp_max_attempts :: int
  rp_backoff_initial :: rat
  rp_backoff_factor :: rat
  rp_backoff_max :: rat

definition default_policy :: retry_policy where
  "default_policy = \<lparr>rp_max_attempts = DEFAULT_MAX_ATTEMPTS, rp_backoff_initial = DEFAULT_BACKOFF_INITIAL_SECONDS,
     rp_backoff_factor = DEFAULT_BACKOFF_FACTOR, rp_backoff_max = DEFAULT_BACKOFF_MAX_SECONDS\<rparr>"

fun first_key :: "(string \<times> json) list \<Rightarrow> string list \<Rightarrow> json" where
  "first_key config [] = JNull"
| "first_key config (k # ks) = (case map_of config k of Some v \<Rightarrow> v | None \<Rightarrow> first_key config ks)"

text \<open>\<open>int(text)\<close> on a stripped text: a sign, then digits with single underscores between them.\<close>

definition digit_value :: "char \<Rightarrow> int option" where
  "digit_value c = (if c \<in> set ''0123456789'' then Some (of_char c - 48) else None)"

fun read_digits :: "int \<Rightarrow> string \<Rightarrow> int option" where
  "read_digits acc [] = Some acc"
| "read_digits acc (c # cs) =
     (case digit_value c of
        Some d \<Rightarrow> read_digits (10 * acc + d) cs
      | None \<Rightarrow>
          if c = CHR ''_''
          then (case cs of
                  [] \<Rightarrow> None
                | c' # cs' \<Rightarrow> (case digit_value c' of
                      Some d \<Rightarrow> read_digits (10 * acc + d) cs'
                    | None \<Rightarrow> None))
          else None)"

definition read_unsigned :: "string \<Rightarrow> int option" where
  "read_unsigned s =
     (case s of [] \<Rightarrow> None | c # cs \<Rightarrow> (case digit_value c of Some d \<Rightarrow> read_digits d cs | None \<Rightarrow> None))"

definition int_text :: "string \<Rightarrow> int option" where
  "int_text s =
     (case s of
        [] \<Rightarrow> None
      | c # cs \<Rightarrow>
          if c = CHR ''-'' then map_option uminus (read_unsigned cs)
          else if c = CHR ''+'' then read_unsigned cs
          else read_unsigned s)"

definition coerce_int :: "(json \<Rightarrow> string) \<Rightarrow> json \<Rightarrow> int \<Rightarrow> int" where
  "coerce_int repr v dflt =
     (case v of
        JBool b \<Rightarrow> dflt
      | JInt n \<Rightarrow> n
      | JFloat x \<Rightarrow> py_int x
      | _ \<Rightarrow> (case int_text (strip (py_str repr v)) of Some n \<Rightarrow> n | None \<Rightarrow> dflt))"

definition coerce_float :: "(json \<Rightarrow> string) \<Rightarrow> (string \<Rightarrow> rat option) \<Rightarrow> json \<Rightarrow> rat \<Rightarrow> rat" where
  "coerce_float repr float_text v dflt =
     (case v of
        JBool b \<Rightarrow> dflt
      | JInt n \<Rightarrow> of_int n
      | JFloat x \<Rightarrow> x
      | _ \<Rightarrow> (case float_text (strip (py_str repr v)) of Some x \<Rightarrow> x | None \<Rightarrow> dflt))"

definition policy_from_config ::
  "(json \<Rightarrow> string) \<Rightarrow> (string \<Rightarrow> rat option) \<Rightarrow> json \<Rightarrow> retry_policy" where
  "policy_from_config repr float_text config =
     (case as_dict config of
        None \<Rightarrow> default_policy
      | Some d \<Rightarrow>
          (let attempts = coerce_int repr (first_key d [''max_attempts'', ''max_retries'', ''attempts''])
                 DEFAULT_MAX_ATTEMPTS;
               max_attempts = (if map_of d ''max_attempts'' = None \<and> map_of d ''attempts'' = None
                   \<and> map_of d ''max_retries'' \<noteq> None then attempts + 1 else attempts);
               initial = coerce_float repr float_text
                 (first_key d [''backoff_initial'', ''backoff'', ''initial_delay'', ''delay''])
                 DEFAULT_BACKOFF_INITIAL_SECONDS;
               factor = coerce_float repr float_text
                 (first_key d [''backoff_factor'', ''factor'', ''multiplier'']) DEFAULT_BACKOFF_FACTOR;
               bmax = coerce_float repr float_text
                 (first_key d [''backoff_max'', ''max_backoff'', ''max_delay'']) DEFAULT_BACKOFF_MAX_SECONDS
           in \<lparr>rp_max_attempts = max 1 max_attempts, rp_backoff_initial = max 0 initial,
               rp_backoff_factor = max 0 factor, rp_backoff_max = max 0 bmax\<rparr>))"

definition backoff_for_retry :: "retry_policy \<Rightarrow> int \<Rightarrow> rat" where
  "backoff_for_retry p retry_index =
     (if retry_index < 0 then 0
      else max 0 (min (rp_backoff_initial p * rp_backoff_factor p ^ nat retry_index) (rp_backoff_max p)))"

section \<open>Webhook events\<close>

record webhook_event =
  we_url :: string
  we_payload :: "(string \<times> json) list"
  we_retry_policy :: json
  we_secret :: "string option"
  we_event_type :: "string option"
  we_rule_id :: "string option"
  we_device_id :: "string option"

text \<open>\<open>str(obj[k]) if obj.get(k) else None\<close>.\<close>

definition opt_text :: "(json \<Rightarrow> string) \<Rightarrow> (string \<times> json) list \<Rightarrow> string \<Rightarrow> string option" where
  "opt_text repr obj k = (if truthy (dict_get obj k) then Some (py_str repr (dict_get obj k)) else None)"

text \<open>The decoded message; \<open>None\<close> is data that is no JSON.\<close>

definition parse_webhook_event :: "(json \<Rightarrow> string) \<Rightarrow> json option \<Rightarrow> webhook_event option" where
  "parse_webhook_event repr raw =
     (case (case raw of None \<Rightarrow> None | Some v \<Rightarrow> as_dict v) of
        None \<Rightarrow> None
      | Some obj \<Rightarrow>
          if dict_get obj ''type'' \<noteq> JStr ''webhook'' then None
          else
            (case dict_get obj ''url'' of
               JStr (c # cs) \<Rightarrow>
                 Some \<lparr>we_url = c # cs,
                   we_payload = (case dict_get obj ''payload'' of JObj d \<Rightarrow> d | JNull \<Rightarrow> [] | v \<Rightarrow> [(''data'', v)]),
                   we_retry_policy = (case dict_get obj ''retry_policy'' of JObj d \<Rightarrow> JObj d | _ \<Rightarrow> JNull),
                   we_secret = opt_text repr obj ''secret'', we_event_type = opt_text repr obj ''event_type'',
                   we_rule_id = opt_text repr obj ''rule_id'', we_device_id = opt_text repr obj ''device_id''\<rparr>
             | _ \<Rightarrow> None))"

section \<open>Delivery with retries\<close>

definition is_success :: "int \<Rightarrow> bool" where
  "is_success code = (200 \<le> code \<and> code < 300)"

record delivery_result =
  dr_delivered :: bool
  dr_attempts :: int
  dr_last_status :: "int option"

definition delivery_failed :: "delivery_result \<Rightarrow> bool" where
  "delivery_failed r = (\<not> dr_delivered r)"

type_synonym headers = "(string \<times> string) list"

definition build_headers :: "(string \<Rightarrow> (string \<times> json) list \<Rightarrow> string) \<Rightarrow> webhook_event \<Rightarrow> headers" where
  "build_headers sign ev =
     [(''Content-Type'', ''application/json'')]
     @ (case we_secret ev of
          Some (c # cs) \<Rightarrow> [(''X-IoTAPS-Signature'', sign (c # cs) (we_payload ev))]
        | _ \<Rightarrow> [])"

type_synonym 'w poster = "string \<Rightarrow> (string \<times> json) list \<Rightarrow> headers \<Rightarrow> 'w \<Rightarrow> int option \<times> 'w"

text \<open>The attempts \<open>attempt\<close>, \<open>attempt + 1\<close>, ... with \<open>n\<close> more of them to come after this one.\<close>

fun deliver_loop ::
  "'w poster \<Rightarrow> (rat \<Rightarrow> 'w \<Rightarrow> 'w) \<Rightarrow> retry_policy \<Rightarrow> webhook_event \<Rightarrow> headers \<Rightarrow> nat \<Rightarrow> int \<Rightarrow> 'w
     \<Rightarrow> delivery_result \<times> 'w" where
  "deliver_loop post sleep p ev headers n attempt w =
     (let (status, w1) = post (we_url ev) (we_payload ev) headers w in
      if (case status of Some st \<Rightarrow> is_success st | None \<Rightarrow> False)
      then (\<lparr>dr_delivered = True, dr_attempts = attempt, dr_last_status = status\<rparr>, w1)
      else
        (case n of
           0 \<Rightarrow> (\<lparr>dr_delivered = False, dr_attempts = attempt, dr_last_status = status\<rparr>, w1)
         | Suc m \<Rightarrow>
             (let delay = backoff_for_retry p (attempt - 1);
                  w2 = (if delay > 0 then sleep delay w1 else w1)
              in deliver_loop post sleep p ev headers m (attempt + 1) w2)))"

declare deliver_loop.simps [simp del]

definition deliver_webhook ::
  "(json \<Rightarrow> string) \<Rightarrow> (string \<Rightarrow> rat option) \<Rightarrow> (string \<Rightarrow> (string \<times> json) list \<Rightarrow> string)
     \<Rightarrow> 'w poster \<Rightarrow> (rat \<Rightarrow> 'w \<Rightarrow> 'w) \<Rightarrow> (webhook_event \<Rightarrow> delivery_result \<Rightarrow> 'w \<Rightarrow> 'w)
     \<Rightarrow> webhook_event \<Rightarrow> 'w \<Rightarrow> delivery_result \<times> 'w" where
  "deliver_webhook repr float_text sign post sleep on_failed ev w =
     (let p = policy_from_config repr float_text (we_retry_policy ev);
          (r, w') = deliver_loop post sleep p ev (build_headers sign ev) (nat (rp_max_attempts p) - 1) 1 w
      in (r, if dr_delivered r then w' else on_failed ev r w'))"

section \<open>Notifications\<close>

datatype channel = Telegram | Email | Push | In_app

definition CHANNEL_ORDER :: "channel list" where
  "CHANNEL_ORDER = [Telegram, Email, Push, In_app]"

definition coerce_channel :: "string \<Rightarrow> channel option" where
  "coerce_channel v =
     (let s = lower (strip v) in
      if s = ''telegram'' then Some Telegram else if s = ''email'' then Some Email
      else if s = ''push'' then Some Push else if s = ''in_app'' then Some In_app else None)"

record recipient =
  rc_user_id :: string
  rc_enabled_channels :: "channel set"
  rc_telegram_chat_id :: "string option"
  rc_email :: "string option"
  rc_push_token :: "string option"

definition recipient_build ::
  "string \<Rightarrow> string list \<Rightarrow> string option \<Rightarrow> string option \<Rightarrow> string option \<Rightarrow> recipient" where
  "recipient_build user_id channels telegram_chat_id email push_token =
     \<lparr>rc_user_id = user_id, rc_enabled_channels = set (List.map_filter coerce_channel channels),
      rc_telegram_chat_id = telegram_chat_id, rc_email = email, rc_push_token = push_token\<rparr>"

fun address_for :: "recipient \<Rightarrow> channel \<Rightarrow> string option" where
  "address_for r Telegram = rc_telegram_chat_id r"
| "address_for r Email = rc_email r"
| "address_for r Push = rc_push_token r"
| "address_for r In_app = Some (rc_user_id r)"

record notification_event =
  ne_org_id :: string
  ne_title :: json
  ne_body :: json
  ne_device_id :: "string option"
  ne_rule_id :: "string option"

definition channels_to_deliver :: "recipient \<Rightarrow> channel list" where
  "channels_to_deliver r =
     filter (\<lambda>ch. ch \<in> rc_enabled_channels r \<and> (case address_for r ch of Some (c # cs) \<Rightarrow> True | _ \<Rightarrow> False))
       CHANNEL_ORDER"

text \<open>\<open>"\n".join\<close> of the truthy parts raises for a part that is no text.\<close>

definition compose_text :: "notification_event \<Rightarrow> string result" where
  "compose_text ev =
     (let parts = filter truthy [ne_title ev, ne_body ev] in
      if list_all (\<lambda>v. as_str v \<noteq> None) parts
      then Inr (join_with [CHR 0x0A] (map (\<lambda>v. the (as_str v)) parts)) else Inl TypeError)"

text \<open>The senders: each says whether it raised nothing.  An unwired sender is \<open>None\<close>.\<close>

record 'w delivery_clients =
  dc_telegram :: "(string \<Rightarrow> string \<Rightarrow> 'w \<Rightarrow> bool \<times> 'w) option"
  dc_email :: "(string \<Rightarrow> json \<Rightarrow> json \<Rightarrow> 'w \<Rightarrow> bool \<times> 'w) option"
  dc_push :: "(string \<Rightarrow> json \<Rightarrow> json \<Rightarrow> 'w \<Rightarrow> bool \<times> 'w) option"
  dc_in_app :: "(notification_event \<Rightarrow> recipient \<Rightarrow> 'w \<Rightarrow> bool \<times> 'w) option"

record delivery_report =
  rep_delivered :: "channel list"
  rep_failed :: "channel list"

definition or_empty :: "string option \<Rightarrow> string" where
  "or_empty x = (case x of Some s \<Rightarrow> s | None \<Rightarrow> [])"

definition deliver_channel ::
  "'w delivery_clients \<Rightarrow> notification_event \<Rightarrow> recipient \<Rightarrow> string \<Rightarrow> channel \<Rightarrow> 'w \<Rightarrow> bool \<times> 'w" where
  "deliver_channel clients ev r text ch w =
     (case ch of
        Telegram \<Rightarrow> (case dc_telegram clients of None \<Rightarrow> (False, w)
                      | Some send \<Rightarrow> send (or_empty (rc_telegram_chat_id r)) text w)
      | Email \<Rightarrow> (case dc_email clients of None \<Rightarrow> (False, w)
                      | Some send \<Rightarrow> send (or_empty (rc_email r)) (py_or (ne_title ev) (JStr []))
                          (py_or (ne_body ev) (JStr [])) w)
      | Push \<Rightarrow> (case dc_push clients of None \<Rightarrow> (False, w)
                      | Some send \<Rightarrow> send (or_empty (rc_push_token r)) (py_or (ne_title ev) (JStr []))
                          (py_or (ne_body ev) (JStr [])) w)
      | In_app \<Rightarrow> (case dc_in_app clients of None \<Rightarrow> (False, w) | Some persist \<Rightarrow> persist ev r w))"

fun deliver_channels ::
  "(channel \<Rightarrow> 'w \<Rightarrow> bool \<times> 'w) \<Rightarrow> channel list \<Rightarrow> delivery_report \<Rightarrow> 'w \<Rightarrow> delivery_report \<times> 'w" where
  "deliver_channels send [] rep w = (rep, w)"
| "deliver_channels send (ch # chs) rep w =
     (let (ok, w1) = send ch w;
          rep1 = (if ok then rep\<lparr>rep_delivered := rep_delivered rep @ [ch]\<rparr>
                  else rep\<lparr>rep_failed := rep_failed rep @ [ch]\<rparr>)
      in deliver_channels send chs rep1 w1)"

definition deliver_to_recipient ::
  "'w delivery_clients \<Rightarrow> notification_event \<Rightarrow> recipient \<Rightarrow> 'w \<Rightarrow> delivery_report result \<times> 'w" where
  "deliver_to_recipient clients ev r w =
     (case compose_text ev of
        Inl e \<Rightarrow> (Inl e, w)
      | Inr text \<Rightarrow>
          (let (rep, w') = deliver_channels (deliver_channel clients ev r text) (channels_to_deliver r)
             \<lparr>rep_delivered = [], rep_failed = []\<rparr> w
           in (Inr rep, w')))"

fun process_recipients ::
  "'w delivery_clients \<Rightarrow> notification_event \<Rightarrow> recipient list \<Rightarrow> nat \<Rightarrow> 'w \<Rightarrow> nat result \<times> 'w" where
  "process_recipients clients ev [] delivered_total w = (Inr delivered_total, w)"
| "process_recipients clients ev (r # rs) delivered_total w =
     (case deliver_to_recipient clients ev r w of
        (Inl e, w1) \<Rightarrow> (Inl e, w1)
      | (Inr rep, w1) \<Rightarrow> process_recipients clients ev rs (delivered_total + length (rep_delivered rep)) w1)"

definition process_event ::
  "'w delivery_clients \<Rightarrow> notification_event \<Rightarrow> recipient list \<Rightarrow> 'w \<Rightarrow> nat result \<times> 'w" where
  "process_event clients ev recipients w = process_recipients clients ev recipients 0 w"

definition parse_alert_event :: "(json \<Rightarrow> string) \<Rightarrow> string \<Rightarrow> json option \<Rightarrow> notification_event option" where
  "parse_alert_event repr org_id raw =
     (case (case raw of None \<Rightarrow> None | Some v \<Rightarrow> as_dict v) of
        None \<Rightarrow> None
      | Some obj \<Rightarrow>
          if dict_get obj ''type'' \<noteq> JStr ''alert'' then None
          else Some \<lparr>ne_org_id = py_str repr (dict_or obj ''org_id'' (JStr org_id)),
            ne_title = dict_get obj ''title'', ne_body = py_or (dict_get obj ''message'') (dict_get obj ''body''),
            ne_device_id = opt_text repr obj ''device_id'', ne_rule_id = opt_text repr obj ''rule_id''\<rparr>)"

record alert_user =
  nu_id :: uuid
  nu_org_id :: uuid
  nu_email :: string

definition load_recipients :: "alert_user list \<Rightarrow> notification_event \<Rightarrow> recipient list result" where
  "load_recipients users ev =
     (if ne_org_id ev = [] then Inr []
      else (case parse_uuid (ne_org_id ev) of
          None \<Rightarrow> Inl ValueError
        | Some org \<Rightarrow>
            Inr (map (\<lambda>u. recipient_build (nu_id u)
                   (''in_app'' # (if nu_email u \<noteq> [] then [''email''] else [])) None (Some (nu_email u)) None)
              (filter (\<lambda>u. nu_org_id u = org) users))))"

text \<open>The handling of one event by the run loop, which only logs what raises.\<close>

definition notify_all ::
  "'w delivery_clients \<Rightarrow> alert_user list \<Rightarrow> notification_event option \<Rightarrow> 'w \<Rightarrow> 'w" where
  "notify_all clients users ev w =
     (case ev of
        None \<Rightarrow> w
      | Some e \<Rightarrow>
          (case load_recipients users e of
             Inl x \<Rightarrow> w
           | Inr rs \<Rightarrow> snd (process_event clients e rs w)))"

section \<open>A scripted endpoint\<close>

text \<open>An endpoint that gives the answer \<open>hw_answers i\<close> to the \<open>i\<close>-th post and records the posts and the
  waits.\<close>

record http_world =
  hw_answers :: "nat \<Rightarrow> int option"
  hw_posts :: "(string \<times> (string \<times> json) list \<times> headers) list"
  hw_sleeps :: "rat list"

definition scripted_post :: "http_world poster" where
  "scripted_post url payload headers w =
     (hw_answers w (length (hw_posts w)), w\<lparr>hw_posts := hw_posts w @ [(url, payload, headers)]\<rparr>)"

definition scripted_sleep :: "rat \<Rightarrow> http_world \<Rightarrow> http_world" where
  "scripted_sleep d w = w\<lparr>hw_sleeps := hw_sleeps w @ [d]\<rparr>"

definition answered_ok :: "int option \<Rightarrow> bool" where
  "answered_ok status = (case status of Some st \<Rightarrow> is_success st | None \<Rightarrow> False)"

definition waits :: "retry_policy \<Rightarrow> int \<Rightarrow> nat \<Rightarrow> rat list" where
  "waits p first m = filter (\<lambda>d. d > 0) (map (\<lambda>i. backoff_for_retry p (first + int i)) [0..<m])"

lemma waits_0 [simp]: "waits p first 0 = []"
  by (simp add: waits_def)

lemma waits_Suc:
  "waits p first (Suc m) = (if backoff_for_retry p first > 0 then [backoff_for_retry p first] else []) @ waits p (first + 1) m"
proof -
  have "[0..<Suc m] = 0 # map Suc [0..<m]" by (simp add: upt_conv_Cons map_Suc_upt del: upt_Suc)
  then show ?thesis by (simp add: waits_def o_def algebra_simps del: upt_Suc)
qed

lemma deliver_loop_scripted:
  "\<exists>m. 1 \<le> m \<and> m \<le> Suc n
     \<and> (\<forall>j < m - 1. \<not> answered_ok (hw_answers w (length (hw_posts w) + j)))
     \<and> (let last = hw_answers w (length (hw_posts w) + (m - 1)) in
        (answered_ok last \<or> m = Suc n)
      \<and> deliver_loop scripted_post scripted_sleep p ev hs n attempt w
        = (\<lparr>dr_delivered = answered_ok last, dr_attempts = attempt + int m - 1, dr_last_status = last\<rparr>,
           w\<lparr>hw_posts := hw_posts w @ replicate m (we_url ev, we_payload ev, hs),
             hw_sleeps := hw_sleeps w @ waits p (attempt - 1) (m - 1)\<rparr>))"
proof (induction n arbitrary: attempt w)
  case 0
  show ?case
    by (intro exI [of _ 1])
      (simp add: deliver_loop.simps scripted_post_def answered_ok_def Let_def)
next
  case (Suc n)
  let ?i = "length (hw_posts w)" and ?x = "(we_url ev, we_payload ev, hs)"
  show ?case
  proof (cases "answered_ok (hw_answers w ?i)")
    case True
    then show ?thesis
      by (intro exI [of _ 1])
        (simp add: deliver_loop.simps [of _ _ _ _ _ "Suc n"] scripted_post_def answered_ok_def Let_def)
  next
    case False
    let ?d = "backoff_for_retry p (attempt - 1)"
    let ?w1 = "w\<lparr>hw_posts := hw_posts w @ [?x]\<rparr>"
    define w2 where "w2 = (if ?d > 0 then scripted_sleep ?d ?w1 else ?w1)"
    have step: "deliver_loop scripted_post scripted_sleep p ev hs (Suc n) attempt w
        = deliver_loop scripted_post scripted_sleep p ev hs n (attempt + 1) w2"
      using False by (simp add: deliver_loop.simps [of _ _ _ _ _ "Suc n"] scripted_post_def answered_ok_def Let_def w2_def)
    have w2: "hw_answers w2 = hw_answers w" "length (hw_posts w2) = Suc ?i" "hw_posts w2 = hw_posts w @ [?x]"
      "hw_sleeps w2 = hw_sleeps w @ (if ?d > 0 then [?d] else [])"
      "w2\<lparr>hw_posts := a, hw_sleeps := b\<rparr> = w\<lparr>hw_posts := a, hw_sleeps := b\<rparr>" for a b
      by (simp_all add: scripted_sleep_def w2_def)
    from Suc.IH [of w2 "attempt + 1", unfolded Let_def w2(1,2)] obtain m where m: "1 \<le> m" "m \<le> Suc n"
        "\<forall>j < m - 1. \<not> answered_ok (hw_answers w (Suc ?i + j))"
        "answered_ok (hw_answers w (Suc ?i + (m - 1))) \<or> m = Suc n"
        and loop: "deliver_loop scripted_post scripted_sleep p ev hs n (attempt + 1) w2
         = (\<lparr>dr_delivered = answered_ok (hw_answers w (Suc ?i + (m - 1))), dr_attempts = attempt + 1 + int m - 1,
             dr_last_status = hw_answers w (Suc ?i + (m - 1))\<rparr>,
            w2\<lparr>hw_posts := hw_posts w2 @ replicate m ?x,
              hw_sleeps := hw_sleeps w2 @ waits p (attempt + 1 - 1) (m - 1)\<rparr>)"
      by blast
    have ws: "waits p (attempt - 1) m = (if ?d > 0 then [?d] else []) @ waits p attempt (m - 1)"
      using waits_Suc [of p "attempt - 1" "m - 1"] m(1) by simp
    have before: "\<forall>j < m. \<not> answered_ok (hw_answers w (?i + j))"
    proof (intro allI impI)
      fix j assume "j < m"
      then show "\<not> answered_ok (hw_answers w (?i + j))" using m(3) False by (cases j) auto
    qed
    have idx: "Suc ?i + (m - 1) = ?i + m" using m(1) by simp
    have eq: "deliver_loop scripted_post scripted_sleep p ev hs (Suc n) attempt w
        = (\<lparr>dr_delivered = answered_ok (hw_answers w (?i + m)), dr_attempts = attempt + int (Suc m) - 1,
             dr_last_status = hw_answers w (?i + m)\<rparr>,
           w\<lparr>hw_posts := hw_posts w @ replicate (Suc m) ?x,
             hw_sleeps := hw_sleeps w @ waits p (attempt - 1) m\<rparr>)"
      unfolding step loop idx w2 ws by simp
    show ?thesis
      using m(1,2,4) before eq unfolding idx Let_def
      by (intro exI [of _ "Suc m"]) simp
  qed
qed

lemma backoff_bounds:
  assumes "0 \<le> rp_backoff_max p"
  shows "0 \<le> backoff_for_retry p i \<and> backoff_for_retry p i \<le> rp_backoff_max p"
  using assms by (simp add: backoff_for_retry_def)

lemma policy_nonneg:
  "1 \<le> rp_max_attempts (policy_from_config repr ft config)" "0 \<le> rp_backoff_max (policy_from_config repr ft config)"
  by (auto simp: policy_from_config_def default_policy_def DEFAULT_MAX_ATTEMPTS_def DEFAULT_BACKOFF_MAX_SECONDS_def
      Let_def split: option.split)

lemma waits_bounded:
  "0 \<le> rp_backoff_max p \<Longrightarrow> list_all (\<lambda>d. 0 < d \<and> d \<le> rp_backoff_max p) (waits p i m)"
  by (auto simp: waits_def list_all_iff backoff_bounds)

text \<open>The attempts made when the answers to come are \<open>answers\<close>: up to the first success, or all.\<close>

definition attempts_needed :: "int option list \<Rightarrow> nat" where
  "attempts_needed answers =
     min (Suc (length (takeWhile (\<lambda>x. \<not> answered_ok x) answers))) (length answers)"

lemma attempts_needed_eq:
  assumes "1 \<le> m" "m \<le> n" "\<forall>j < m - 1. \<not> answered_ok (f j)" "answered_ok (f (m - 1)) \<or> m = n"
  shows "attempts_needed (map f [0..<n]) = m"
proof -
  let ?P = "\<lambda>x. \<not> answered_ok x" and ?as = "map f [0..<n]"
  have front: "take (m - 1) ?as @ drop (m - 1) ?as = ?as" by (rule append_take_drop_id)
  have silent: "\<forall>x \<in> set (take (m - 1) ?as). ?P x" using assms(2,3) by (auto simp: take_map take_upt)
  have rest: "drop (m - 1) ?as = f (m - 1) # drop m ?as"
    using assms(1,2) Cons_nth_drop_Suc [of "m - 1" ?as] by (simp del: upt_Suc upt_rec_numeral)
  have tw: "takeWhile ?P ?as = take (m - 1) ?as @ takeWhile ?P (f (m - 1) # drop m ?as)"
    using front silent takeWhile_append2 [of "take (m - 1) ?as" ?P "drop (m - 1) ?as"] rest by metis
  show ?thesis
  proof (cases "answered_ok (f (m - 1))")
    case True
    then show ?thesis using tw assms(1,2) by (simp add: attempts_needed_def)
  next
    case False
    then have "m = n" using assms(4) by simp
    with False tw assms(1) show ?thesis by (simp add: attempts_needed_def)
  qed
qed

definition next_answers :: "http_world \<Rightarrow> nat \<Rightarrow> int option list" where
  "next_answers w n = map (\<lambda>j. hw_answers w (length (hw_posts w) + j)) [0..<n]"

lemma deliver_loop_exact:
  "deliver_loop scripted_post scripted_sleep p ev hs n 1 w
     = (let m = attempts_needed (next_answers w (Suc n)); final = next_answers w (Suc n) ! (m - 1) in
        (\<lparr>dr_delivered = answered_ok final, dr_attempts = int m, dr_last_status = final\<rparr>,
         w\<lparr>hw_posts := hw_posts w @ replicate m (we_url ev, we_payload ev, hs),
           hw_sleeps := hw_sleeps w @ waits p 0 (m - 1)\<rparr>))"
proof -
  from deliver_loop_scripted [of n w p ev hs 1, unfolded Let_def] obtain m where m: "1 \<le> m" "m \<le> Suc n"
      "\<forall>j < m - 1. \<not> answered_ok (hw_answers w (length (hw_posts w) + j))"
      "answered_ok (hw_answers w (length (hw_posts w) + (m - 1))) \<or> m = Suc n"
      and run: "deliver_loop scripted_post scripted_sleep p ev hs n 1 w
        = (\<lparr>dr_delivered = answered_ok (hw_answers w (length (hw_posts w) + (m - 1))), dr_attempts = 1 + int m - 1,
             dr_last_status = hw_answers w (length (hw_posts w) + (m - 1))\<rparr>,
           w\<lparr>hw_posts := hw_posts w @ replicate m (we_url ev, we_payload ev, hs),
             hw_sleeps := hw_sleeps w @ waits p (1 - 1) (m - 1)\<rparr>)"
    by blast
  have needed: "attempts_needed (next_answers w (Suc n)) = m"
    unfolding next_answers_def by (rule attempts_needed_eq) (use m in auto)
  have "m - 1 < Suc n" using m(1,2) by simp
  then have final: "next_answers w (Suc n) ! (m - 1) = hw_answers w (length (hw_posts w) + (m - 1))"
    unfolding next_answers_def by (subst nth_map) (simp_all del: upt_Suc)
  show ?thesis unfolding Let_def needed final run by simp
qed

text \<open>Webhook delivery is exact for every webhook message and whatever the endpoint answers: it posts
  the same signed body to the configured URL until the first 2xx answer and no more often than the
  policy's attempts (which are at least one for any configuration), reports the attempts made and the
  last answer, runs the failure callback exactly when every attempt failed, and between attempts only
  waits the policy's backoffs, each positive and at most the cap.\<close>

theorem delivery_exact:
  "let p = policy_from_config repr float_text (we_retry_policy ev);
       answers = next_answers w (nat (rp_max_attempts p));
       m = attempts_needed answers;
       r = \<lparr>dr_delivered = list_ex answered_ok answers, dr_attempts = int m, dr_last_status = answers ! (m - 1)\<rparr>;
       w' = w\<lparr>hw_posts := hw_posts w @ replicate m (we_url ev, we_payload ev, build_headers sign ev),
              hw_sleeps := hw_sleeps w @ waits p 0 (m - 1)\<rparr>
   in deliver_webhook repr float_text sign scripted_post scripted_sleep on_failed ev w
        = (r, if list_ex answered_ok answers then w' else on_failed ev r w')
    \<and> 1 \<le> m \<and> int m \<le> rp_max_attempts p
    \<and> list_all (\<lambda>d. 0 < d \<and> d \<le> rp_backoff_max p) (waits p 0 (m - 1))"
proof -
  define p where "p = policy_from_config repr float_text (we_retry_policy ev)"
  define answers where "answers = next_answers w (nat (rp_max_attempts p))"
  define m where "m = attempts_needed answers"
  have pos: "1 \<le> rp_max_attempts p" "0 \<le> rp_backoff_max p" unfolding p_def by (rule policy_nonneg)+
  then have n: "nat (rp_max_attempts p) = Suc (nat (rp_max_attempts p) - 1)" by simp
  have len: "length answers = nat (rp_max_attempts p)" by (simp add: answers_def next_answers_def)
  have m_bounds: "1 \<le> m" "int m \<le> rp_max_attempts p"
    using pos(1) by (auto simp: m_def attempts_needed_def len)
  have ok: "answered_ok (answers ! (m - 1)) = list_ex answered_ok answers"
  proof (cases "list_ex answered_ok answers")
    case True
    then have "length (takeWhile (\<lambda>x. \<not> answered_ok x) answers) < length answers"
      by (metis (mono_tags, lifting) length_takeWhile_le linorder_not_le list_ex_iff order_antisym
          set_takeWhileD takeWhile_eq_take take_all)
    with True show ?thesis
      using nth_length_takeWhile [of "\<lambda>x. \<not> answered_ok x" answers] by (simp add: m_def attempts_needed_def)
  next
    case False
    then show ?thesis using m_bounds len by (auto simp: list_ex_iff)
  qed
  have "deliver_loop scripted_post scripted_sleep p ev (build_headers sign ev) (nat (rp_max_attempts p) - 1) 1 w
      = (\<lparr>dr_delivered = list_ex answered_ok answers, dr_attempts = int m, dr_last_status = answers ! (m - 1)\<rparr>,
         w\<lparr>hw_posts := hw_posts w @ replicate m (we_url ev, we_payload ev, build_headers sign ev),
           hw_sleeps := hw_sleeps w @ waits p 0 (m - 1)\<rparr>)"
    unfolding deliver_loop_exact n [symmetric] Let_def answers_def [symmetric] m_def [symmetric] ok by (rule refl)
  then show ?thesis
    using m_bounds waits_bounded [OF pos(2)]
    by (simp add: deliver_webhook_def Let_def p_def [symmetric] answers_def [symmetric] m_def [symmetric])
qed

section \<open>Recording channels\<close>

text \<open>Senders for the channels in \<open>wired\<close> that record the channel and the address and succeed where
  \<open>ok\<close> says so.\<close>

definition recording :: "(channel \<Rightarrow> bool) \<Rightarrow> (channel \<Rightarrow> string \<Rightarrow> bool) \<Rightarrow> (channel \<times> string) list delivery_clients" where
  "recording wired ok =
     \<lparr>dc_telegram = (if wired Telegram then Some (\<lambda>a _ w. (ok Telegram a, w @ [(Telegram, a)])) else None),
      dc_email = (if wired Email then Some (\<lambda>a _ _ w. (ok Email a, w @ [(Email, a)])) else None),
      dc_push = (if wired Push then Some (\<lambda>a _ _ w. (ok Push a, w @ [(Push, a)])) else None),
      dc_in_app = (if wired In_app then Some (\<lambda>_ r w. (ok In_app (rc_user_id r), w @ [(In_app, rc_user_id r)]))
                   else None)\<rparr>"

definition destinations :: "recipient \<Rightarrow> (channel \<times> string) list" where
  "destinations r = map (\<lambda>ch. (ch, or_empty (address_for r ch))) (channels_to_deliver r)"

definition reached :: "(channel \<Rightarrow> bool) \<Rightarrow> (channel \<Rightarrow> string \<Rightarrow> bool) \<Rightarrow> recipient \<Rightarrow> channel list" where
  "reached wired ok r =
     filter (\<lambda>ch. wired ch \<and> ok ch (or_empty (address_for r ch))) (channels_to_deliver r)"

lemma recording_channel:
  "deliver_channel (recording wired ok) ev r text ch w
     = (let a = or_empty (address_for r ch) in
        (wired ch \<and> ok ch a, w @ (if wired ch then [(ch, a)] else [])))"
  by (cases ch) (auto simp: deliver_channel_def recording_def or_empty_def Let_def)

lemma deliver_channels_recording:
  "deliver_channels (deliver_channel (recording wired ok) ev r text) chs rep w
     = (rep\<lparr>rep_delivered := rep_delivered rep
              @ filter (\<lambda>ch. wired ch \<and> ok ch (or_empty (address_for r ch))) chs,
           rep_failed := rep_failed rep
              @ filter (\<lambda>ch. \<not> (wired ch \<and> ok ch (or_empty (address_for r ch)))) chs\<rparr>,
        w @ filter (wired \<circ> fst) (map (\<lambda>ch. (ch, or_empty (address_for r ch))) chs))"
  by (induction chs arbitrary: rep w) (simp_all add: recording_channel Let_def)

lemma deliver_to_recipient_recording:
  "compose_text ev = Inr text \<Longrightarrow>
   deliver_to_recipient (recording wired ok) ev r w
     = (Inr \<lparr>rep_delivered = reached wired ok r,
             rep_failed = filter (\<lambda>ch. ch \<notin> set (reached wired ok r)) (channels_to_deliver r)\<rparr>,
        w @ filter (wired \<circ> fst) (destinations r))"
  by (auto simp: deliver_to_recipient_def deliver_channels_recording reached_def destinations_def
      intro!: filter_cong)

lemma process_recipients_recording:
  "compose_text ev = Inr text \<Longrightarrow>
   process_recipients (recording wired ok) ev rs n w
     = (Inr (n + sum_list (map (length \<circ> reached wired ok) rs)),
        w @ filter (wired \<circ> fst) (concat (map destinations rs)))"
  by (induction rs arbitrary: n w) (simp_all add: deliver_to_recipient_recording)

text \<open>Notifications are exact: for an event whose title and message are texts or absent, every
  recipient is tried once on each wired channel among those it enabled and has an address for, in the
  canonical order and at that address, whatever fails elsewhere; the report of a recipient splits
  exactly these channels into the ones that worked and the ones that did not, and the count is that
  of the channels that worked over all recipients.\<close>

theorem notifications_exact:
  assumes "compose_text ev = Inr text"
  shows "process_event (recording wired ok) ev rs w
           = (Inr (sum_list (map (length \<circ> reached wired ok) rs)),
              w @ filter (wired \<circ> fst) (concat (map destinations rs)))
    \<and> fst (deliver_to_recipient (recording wired ok) ev r w)
           = Inr \<lparr>rep_delivered = reached wired ok r,
                  rep_failed = filter (\<lambda>ch. ch \<notin> set (reached wired ok r)) (channels_to_deliver r)\<rparr>
    \<and> set (channels_to_deliver r) \<subseteq> rc_enabled_channels r \<and> distinct (channels_to_deliver r)"
  using assms
  by (auto simp: process_event_def process_recipients_recording deliver_to_recipient_recording
      channels_to_deliver_def CHANNEL_ORDER_def)

theorem notifications_exact_witness:
  "process_event (recording (\<lambda>ch. ch \<noteq> Telegram) (\<lambda>ch a. ch \<noteq> Push))
      \<lparr>ne_org_id = ''o'', ne_title = JStr ''hot'', ne_body = JNull, ne_device_id = None, ne_rule_id = None\<rparr>
      [recipient_build ''u'' ['' Email'', ''in_app'', ''push'', ''telegram'', ''fax''] (Some ''7'') (Some ''a@b'') (Some ''t'')] []
    = (Inr 2, [(Email, ''a@b''), (Push, ''t''), (In_app, ''u'')])"
proof -
  have coerce: "coerce_channel '' Email'' = Some Email" "coerce_channel ''in_app'' = Some In_app"
      "coerce_channel ''push'' = Some Push" "coerce_channel ''telegram'' = Some Telegram"
      "coerce_channel ''fax'' = None"
    by code_simp+
  have plain: "compose_text \<lparr>ne_org_id = ''o'', ne_title = JStr ''hot'', ne_body = JNull, ne_device_id = None,
      ne_rule_id = None\<rparr> = Inr ''hot''"
    by (simp add: compose_text_def)
  show ?thesis
    unfolding conjunct1 [OF notifications_exact [OF plain]]
    by (simp add: recipient_build_def coerce reached_def destinations_def channels_to_deliver_def CHANNEL_ORDER_def
        or_empty_def)
qed

end
