(* ===== verification/Quota.thy ===== *)
theory Quota imports Access Plans Calendar Redis Redis_Names Topics
begin

text \<open>
  The monthly message quota (\<open>app/services/quota_service.py\<close>): counting one telemetry message
  against its organization, the upgrade prompt at the allowance, and the cached lookup of the plan.
  The counters and the plan cache are Redis structures, used through their interfaces.  Redis is
  reachable; whether the database is, is an argument.
\<close>

section \<open>State\<close>

record quota_result =
  qr_counted :: bool
  qr_count :: int
  qr_limit :: "nat option"
  qr_upgrade_prompt :: bool

record ('c, 'p) quota_state =
  qs_counters :: 'c
  qs_plan_cache :: 'p
  qs_published :: "(string \<times> json) list"

section \<open>Counting\<close>

definition two_digits :: "nat \<Rightarrow> string" where
  "two_digits n = (if n < 10 then CHR ''0'' # nat_str n else nat_str n)"

text \<open>\<open>strftime("%Y%m")\<close>.\<close>

definition resolve_period :: "datetime \<Rightarrow> string" where
  "resolve_period now = nat_str (nat (dt_year now)) @ two_digits (nat (dt_month now))"

definition quota_key :: "string \<Rightarrow> datetime \<Rightarrow> string" where
  "quota_key org_id now = key_text (Quota org_id (resolve_period now))"

definition upgrade_prompt_message :: "string \<Rightarrow> int \<Rightarrow> nat \<Rightarrow> json" where
  "upgrade_prompt_message org_id count limit = JObj [(''type'', JStr ''upgrade_prompt''),
     (''org_id'', JStr org_id), (''reason'', JStr ''message_quota_reached''), (''count'', JInt count),
     (''limit'', JInt (int limit))]"

definition emit_upgrade_prompt ::
  "string \<Rightarrow> int \<Rightarrow> nat \<Rightarrow> ('c, 'p) quota_state \<Rightarrow> ('c, 'p) quota_state" where
  "emit_upgrade_prompt org_id count limit s =
     s\<lparr>qs_published := qs_published s
        @ [(key_text (UpgradePrompt org_id), upgrade_prompt_message org_id count limit)]\<rparr>"

definition uncounted :: "nat option \<Rightarrow> quota_result" where
  "uncounted limit = \<lparr>qr_counted = False, qr_count = 0, qr_limit = limit, qr_upgrade_prompt = False\<rparr>"

definition count_telemetry_message ::
  "'c counter_cmds \<Rightarrow> string \<Rightarrow> string option \<Rightarrow> message_type \<Rightarrow> datetime \<Rightarrow> ('c, 'p) quota_state
     \<Rightarrow> quota_result \<times> ('c, 'p) quota_state" where
  "count_telemetry_message C org_id plan mt now s =
     (if mt \<notin> QUOTA_COUNTED_TYPES then (uncounted None, s)
      else
        (let limit = pl_max_messages_per_month (limits_for_plan plan) in
         if \<not> is_metered plan then (uncounted limit, s)
         else
           (let key = quota_key org_id now;
                (count, counters) = c_incr C (instant now) key (qs_counters s);
                counters' = (case end_of_billing_month now of
                    Inl e \<Rightarrow> counters
                  | Inr e \<Rightarrow> c_expireat C (instant now) key (instant e) counters);
                s1 = s\<lparr>qs_counters := counters'\<rparr>;
                upgrade_prompt = (case limit of None \<Rightarrow> False | Some l \<Rightarrow> count = int l);
                s2 = (if upgrade_prompt then emit_upgrade_prompt org_id count (the limit) s1 else s1)
            in (\<lparr>qr_counted = True, qr_count = count, qr_limit = limit,
                  qr_upgrade_prompt = upgrade_prompt\<rparr>, s2))))"

section \<open>The plan of an organization\<close>

definition ORG_PLAN_CACHE_TTL_SECONDS :: int where
  "ORG_PLAN_CACHE_TTL_SECONDS = 300"

text \<open>The table of plans by organization; \<open>None\<close> as the table is a database that cannot be reached.  A
  text that is no UUID matches no row.\<close>

definition load_org_plan_from_db :: "(uuid \<rightharpoonup> string option) option \<Rightarrow> string \<Rightarrow> string option" where
  "load_org_plan_from_db orgs org_id =
     (case (orgs, parse_uuid org_id) of
        (Some tbl, Some pk) \<Rightarrow> (case tbl pk of Some plan \<Rightarrow> plan | None \<Rightarrow> None)
      | _ \<Rightarrow> None)"

definition resolve_org_plan ::
  "('p, string, string) kv_cmds \<Rightarrow> (uuid \<rightharpoonup> string option) option \<Rightarrow> timestamp \<Rightarrow> string
     \<Rightarrow> ('c, 'p) quota_state \<Rightarrow> string option \<times> ('c, 'p) quota_state" where
  "resolve_org_plan K orgs now org_id s =
     (let cache_key = key_text (OrgPlan org_id) in
      case kv_get K now (qs_plan_cache s) cache_key of
        Some cached \<Rightarrow> (if cached = [] then None else Some cached, s)
      | None \<Rightarrow>
          (case load_org_plan_from_db orgs org_id of
             None \<Rightarrow> (None, s)
           | Some plan \<Rightarrow>
               (Some plan, s\<lparr>qs_plan_cache := kv_set K now cache_key plan
                   (Some ORG_PLAN_CACHE_TTL_SECONDS) (qs_plan_cache s)\<rparr>)))"

section \<open>A month of messages\<close>

text \<open>The messages of one organization, at the given times.\<close>

fun count_messages ::
  "'c counter_cmds \<Rightarrow> string \<Rightarrow> string option \<Rightarrow> datetime list \<Rightarrow> ('c, 'p) quota_state
     \<Rightarrow> quota_result list \<times> ('c, 'p) quota_state" where
  "count_messages C org_id plan [] s = ([], s)"
| "count_messages C org_id plan (t # ts) s =
     (let (r, s1) = count_telemetry_message C org_id plan TELEMETRY t s;
          (rs, s2) = count_messages C org_id plan ts s1
      in (r # rs, s2))"

definition same_month :: "datetime \<Rightarrow> datetime \<Rightarrow> bool" where
  "same_month a b = (dt_year a = dt_year b \<and> dt_month a = dt_month b)"

lemma same_month_key: "same_month a b \<Longrightarrow> quota_key org a = quota_key org b"
  by (simp add: same_month_def quota_key_def resolve_period_def)

lemma same_month_end: "same_month a b \<Longrightarrow> end_of_billing_month a = end_of_billing_month b"
  by (simp add: same_month_def end_of_billing_month_def)

lemma free_metered:
  "\<not> reads_pro plan \<Longrightarrow> is_metered plan \<and> pl_max_messages_per_month (limits_for_plan plan) = Some 20000"
  by (simp add: is_metered_def limits_for_plan_cases FREE_LIMITS_def)

definition prompt_at :: "string \<Rightarrow> nat \<Rightarrow> nat \<Rightarrow> (string \<times> json) list" where
  "prompt_at org i n = (if i < 20000 \<and> 20000 \<le> n
     then [(key_text (UpgradePrompt org), upgrade_prompt_message org 20000 20000)] else [])"

context redis_counters
begin

text \<open>One message of a metered organization.\<close>

lemma count_step:
  assumes "\<not> reads_pro plan" "end_of_billing_month now = Inr e"
    and "c_get C (instant now) (qs_counters s) (quota_key org now) = (if i = 0 then None else Some (int i))"
  obtains counters where
    "count_telemetry_message C org plan TELEMETRY now s =
       (\<lparr>qr_counted = True, qr_count = int (Suc i), qr_limit = Some 20000, qr_upgrade_prompt = (Suc i = 20000)\<rparr>,
        s\<lparr>qs_counters := counters, qs_published := qs_published s @ prompt_at org i (Suc i)\<rparr>)"
    "\<And>t. instant now \<le> t \<Longrightarrow> c_get C t counters (quota_key org now)
       = (if t < instant e then Some (int (Suc i)) else None)"
proof -
  let ?k = "quota_key org now" and ?t = "instant now"
  have n: "fst (c_incr C ?t ?k (qs_counters s)) = int (Suc i)"
    using incr_result [of ?t ?k "qs_counters s"] assms(3) by (cases i) simp_all
  let ?c = "c_expireat C ?t ?k (instant e) (snd (c_incr C ?t ?k (qs_counters s)))"
  have "count_telemetry_message C org plan TELEMETRY now s =
       (\<lparr>qr_counted = True, qr_count = int (Suc i), qr_limit = Some 20000, qr_upgrade_prompt = (Suc i = 20000)\<rparr>,
        s\<lparr>qs_counters := ?c, qs_published := qs_published s @ prompt_at org i (Suc i)\<rparr>)"
    using n free_metered [OF assms(1)] assms(2)
    by (cases "c_incr C ?t ?k (qs_counters s)")
      (auto simp: count_telemetry_message_def QUOTA_COUNTED_TYPES_def emit_upgrade_prompt_def
        prompt_at_def Let_def)
  moreover have "c_get C t ?c ?k = (if t < instant e then Some (int (Suc i)) else None)" if "?t \<le> t" for t
    using count_until [OF that n] by simp
  ultimately show ?thesis by (rule that)
qed

lemma count_run:
  assumes "\<not> reads_pro plan" "list_all (\<lambda>t. valid_datetime t \<and> dt_year t < 9999 \<and> same_month t0 t) moments"
    and "sorted (map instant moments)"
    and "\<forall>t \<in> set moments. c_get C (instant t) (qs_counters s) (quota_key org t0)
        = (if i = 0 then None else Some (int i))"
  shows "map qr_count (fst (count_messages C org plan moments s)) = map int [Suc i..<Suc (i + length moments)]
    \<and> list_all qr_counted (fst (count_messages C org plan moments s))
    \<and> qs_published (snd (count_messages C org plan moments s))
        = qs_published s @ prompt_at org i (i + length moments)"
  using assms(2-4)
proof (induction moments arbitrary: s i)
  case Nil
  show ?case by (simp add: prompt_at_def)
next
  case (Cons t ts)
  have t: "valid_datetime t" "dt_year t < 9999" "same_month t0 t" using Cons.prems(1) by simp_all
  have key: "quota_key org t = quota_key org t0" using same_month_key [OF t(3)] by simp
  obtain e where e: "end_of_billing_month t = Inr e" using month_end_value [OF t(1,2)] by blast
  obtain counters where step: "count_telemetry_message C org plan TELEMETRY t s =
       (\<lparr>qr_counted = True, qr_count = int (Suc i), qr_limit = Some 20000, qr_upgrade_prompt = (Suc i = 20000)\<rparr>,
        s\<lparr>qs_counters := counters, qs_published := qs_published s @ prompt_at org i (Suc i)\<rparr>)"
    and get: "\<And>t'. instant t \<le> t' \<Longrightarrow> c_get C t' counters (quota_key org t)
       = (if t' < instant e then Some (int (Suc i)) else None)"
    using count_step [OF assms(1) e, of s org i] Cons.prems(3) key by auto
  let ?s = "s\<lparr>qs_counters := counters, qs_published := qs_published s @ prompt_at org i (Suc i)\<rparr>"
  have "\<forall>u \<in> set ts. c_get C (instant u) (qs_counters ?s) (quota_key org t0)
        = (if Suc i = 0 then None else Some (int (Suc i)))"
  proof
    fix u
    assume u: "u \<in> set ts"
    then have "valid_datetime u" "dt_year u < 9999" "same_month t0 u" "instant t \<le> instant u"
      using Cons.prems(1,2) by (auto simp: list_all_iff)
    moreover from this e have "end_of_billing_month u = Inr e"
      using same_month_end t(3) by (metis same_month_def)
    ultimately show "c_get C (instant u) (qs_counters ?s) (quota_key org t0)
        = (if Suc i = 0 then None else Some (int (Suc i)))"
      using get [of "instant u"] month_end_later [of u e] key by simp
  qed
  with Cons.IH [of ?s "Suc i"] Cons.prems(1,2)
  have IH: "map qr_count (fst (count_messages C org plan ts ?s)) = map int [Suc (Suc i)..<Suc (Suc i + length ts)]"
    "list_all qr_counted (fst (count_messages C org plan ts ?s))"
    "qs_published (snd (count_messages C org plan ts ?s))
        = qs_published ?s @ prompt_at org (Suc i) (Suc i + length ts)" by simp_all
  have "[Suc i..<Suc (i + length (t # ts))] = Suc i # [Suc (Suc i)..<Suc (Suc i + length ts)]"
    by (simp add: upt_rec)
  moreover have "prompt_at org i (Suc i) @ prompt_at org (Suc i) (Suc i + length ts)
      = prompt_at org i (i + length (t # ts))" by (auto simp: prompt_at_def)
  ultimately show ?case using IH step by (simp add: case_prod_beta)
qed

end

section \<open>Properties\<close>

text \<open>C27. The quota counts and never blocks: over the telemetry messages of one calendar month of an
  organization that is not on Pro, starting without a counter, the counts are 1, 2, 3, ... without a
  gap, and the upgrade prompt is published exactly once, by the message that reaches the allowance of
  20000, however many follow; commands, ACKs and status messages, and Pro organizations, touch nothing.\<close>

theorem quota_prompt_once:
  assumes "redis_counters C" "\<not> reads_pro plan" "sorted (map instant moments)"
    and "list_all (\<lambda>t. valid_datetime t \<and> dt_year t < 9999 \<and> same_month (hd moments) t) moments"
    and "c_get C (instant (hd moments)) (qs_counters s) (quota_key org (hd moments)) = None"
    and "count_messages C org plan moments s = (results, s')"
  shows "map qr_count results = map int [1..<Suc (length moments)] \<and> list_all qr_counted results
    \<and> qs_published s' = qs_published s
        @ (if 20000 \<le> length moments
           then [(key_text (UpgradePrompt org), upgrade_prompt_message org 20000 20000)] else [])
    \<and> (mt \<noteq> TELEMETRY \<or> reads_pro plan' \<longrightarrow>
         (\<exists>l. count_telemetry_message C org plan' mt now s = (uncounted l, s)))"
proof -
  have "\<forall>t \<in> set moments. c_get C (instant t) (qs_counters s) (quota_key org (hd moments)) = None"
  proof
    fix t
    assume t: "t \<in> set moments"
    then have "instant (hd moments) \<le> instant t"
      using assms(3) by (cases moments) auto
    with assms(5) show "c_get C (instant t) (qs_counters s) (quota_key org (hd moments)) = None"
      using redis_counters.no_counter_later [OF assms(1)] by blast
  qed
  then have "map qr_count results = map int [Suc 0..<Suc (length moments)] \<and> list_all qr_counted results
    \<and> qs_published s' = qs_published s @ prompt_at org 0 (length moments)"
    using redis_counters.count_run [OF assms(1,2,4,3), of s org 0] assms(6) by simp
  moreover have "\<exists>l. count_telemetry_message C org plan' mt now s = (uncounted l, s)"
    if "mt \<noteq> TELEMETRY \<or> reads_pro plan'"
    using that unmetered.gate_iff [of plan']
    by (auto simp: count_telemetry_message_def QUOTA_COUNTED_TYPES_def Let_def)
  ultimately show ?thesis by (simp add: prompt_at_def)
qed

definition ex_quota :: "(string \<rightharpoonup> int \<times> timestamp option, string \<rightharpoonup> string \<times> timestamp option) quota_state" where
  "ex_quota = \<lparr>qs_counters = Map.empty, qs_plan_cache = Map.empty, qs_published = []\<rparr>"

theorem quota_prompt_once_witness:
  "map qr_count (fst (count_messages ttl_counters ''o'' (Some ''basic'')
      [DateTime 2026 2 1 0, DateTime 2026 2 1 5, DateTime 2026 2 1 5] ex_quota)) = [1, 2, 3]"
proof -
  let ?ts = "[DateTime 2026 2 1 0, DateTime 2026 2 1 5, DateTime 2026 2 1 5]"
  have "lower (strip ''basic'') \<noteq> PRO_PLAN" by code_simp
  then have plan: "\<not> reads_pro (Some ''basic'')" by simp
  have sorted: "sorted (map instant ?ts)" by (simp add: instant.simps)
  have valid: "list_all (\<lambda>t. valid_datetime t \<and> dt_year t < 9999 \<and> same_month (hd ?ts) t) ?ts"
    by (simp add: valid_date_def days_in_month_def usec_per_day_def same_month_def)
  have none: "c_get ttl_counters (instant (hd ?ts)) (qs_counters ex_quota) (quota_key ''o'' (hd ?ts)) = None"
    by (simp add: ttl_counters_def ex_quota_def)
  have "map int [1..<Suc (length ?ts)] = [1, 2, 3]" by (simp add: upt_rec)
  with quota_prompt_once [OF tc.redis_counters_axioms plan sorted valid none prod.collapse [symmetric]]
  show ?thesis by simp
qed

end
