(* ===== verification/Ingest.thy ===== *)
theory Ingest imports Quota Commands
begin

text \<open>
  The MQTT listener (\<open>app/workers/mqtt_listener.py\<close>): validating payloads and handling telemetry,
  status and ACK messages.  The state is what the handlers touch: the Redis string keys and lists by
  name, the sets of known telemetry keys, the messages published on Redis channels, the quota state,
  the command state of \<open>Commands\<close> (with the set of online devices and the credentials table) and the
  status column of the devices.  A payload is \<open>None\<close> when it is no JSON.  Redis and the database
  answer; the time, the text of the time and the MQTT publisher are arguments.
\<close>

section \<open>State\<close>

record device_status =
  ds_id :: uuid
  ds_status :: string

record ('m, 'q, 't, 's, 'c, 'p, 'l, 'i) ingest_state =
  in_keys :: 'l
  in_lists :: "string \<Rightarrow> 'i"
  in_known :: "string \<Rightarrow> string set \<times> timestamp option"
  in_channels :: "(string \<times> json) list"
  in_quota :: "('c, 'p) quota_state"
  in_commands :: "('m, 'q, 't, 's) cmd_state"
  in_orgs :: "uuid \<rightharpoonup> string option"
  in_devices :: "device_status list"

record ('m, 'q, 't, 's, 'c, 'p, 'l, 'i) ingest_redis =
  ir_keys :: "('l, string, json) kv_cmds"
  ir_lists :: "('i, json) list_cmds"
  ir_counters :: "'c counter_cmds"
  ir_plans :: "('p, string, string) kv_cmds"
  ir_commands :: "('m, 'q, 't, 's) cmd_redis"

definition INGEST_QUEUE :: string where
  "INGEST_QUEUE = key_text IngestQueue"

definition MAX_QUEUE_SIZE :: int where
  "MAX_QUEUE_SIZE = 10000"

definition DISCOVERY_QUEUE :: string where
  "DISCOVERY_QUEUE = ''iotaps:datastream_discovery''"

section \<open>Payloads\<close>

type_synonym payload = "json option"

record reading =
  rd_ts :: string
  rd_data :: "(string \<times> json) list"

definition decode_json :: "payload \<Rightarrow> (string \<times> json) list option" where
  "decode_json p = (case p of Some v \<Rightarrow> as_dict v | None \<Rightarrow> None)"

definition good_reading :: "string \<times> json \<Rightarrow> bool" where
  "good_reading kv = (fst kv \<noteq> [] \<and> is_number (snd kv))"

definition simple_reading :: "string \<Rightarrow> (string \<times> json) list \<Rightarrow> reading option" where
  "simple_reading now_iso obj =
     (let readings = filter (\<lambda>kv. fst kv \<notin> {''ts'', ''data''} \<and> is_number (snd kv)) obj
      in if readings = [] then None else Some \<lparr>rd_ts = now_iso, rd_data = readings\<rparr>)"

definition validate_telemetry_payload :: "string \<Rightarrow> payload \<Rightarrow> reading option" where
  "validate_telemetry_payload now_iso p =
     (case decode_json p of
        None \<Rightarrow> None
      | Some obj \<Rightarrow>
          (case (dict_get obj ''ts'', dict_get obj ''data'') of
             (JStr ts, JObj data) \<Rightarrow>
               if strip ts \<noteq> [] \<and> data \<noteq> []
               then (if list_all good_reading data then Some \<lparr>rd_ts = ts, rd_data = data\<rparr> else None)
               else simple_reading now_iso obj
           | _ \<Rightarrow> simple_reading now_iso obj))"

definition validate_status_payload :: "payload \<Rightarrow> string option" where
  "validate_status_payload p =
     (case decode_json p of
        None \<Rightarrow> None
      | Some obj \<Rightarrow>
          (let st = dict_get obj ''status'' in
           if st = JStr ''online'' then Some ''online''
           else if st = JStr ''offline'' then Some ''offline'' else None))"

section \<open>Telemetry\<close>

definition find_credential :: "credential_row list \<Rightarrow> string \<Rightarrow> uuid option" where
  "find_credential credentials token =
     map_option cd_device_id (find (\<lambda>c. cd_token c = token \<and> \<not> cd_revoked c) credentials)"

definition token2uuid_key :: "string \<Rightarrow> string" where
  "token2uuid_key token = ''iotaps:token2uuid:'' @ token"

definition resolve_device_uuid ::
  "('m, 'q, 't, 's, 'c, 'p, 'l, 'i) ingest_redis \<Rightarrow> timestamp \<Rightarrow> string
     \<Rightarrow> ('m, 'q, 't, 's, 'c, 'p, 'l, 'i) ingest_state
     \<Rightarrow> string \<times> ('m, 'q, 't, 's, 'c, 'p, 'l, 'i) ingest_state" where
  "resolve_device_uuid R now token s =
     (case kv_get (ir_keys R) now (in_keys s) (token2uuid_key token) of
        Some (JStr (c # cs)) \<Rightarrow> (c # cs, s)
      | _ \<Rightarrow>
          (case find_credential (cs_credentials (in_commands s)) token of
             Some device_uuid \<Rightarrow>
               (device_uuid, s\<lparr>in_keys := kv_set (ir_keys R) now (token2uuid_key token)
                   (JStr device_uuid) (Some 3600) (in_keys s)\<rparr>)
           | None \<Rightarrow> (token, s)))"

definition telemetry_message :: "string \<Rightarrow> reading \<Rightarrow> json" where
  "telemetry_message device_id r = JObj [(''type'', JStr ''telemetry''),
     (''device_id'', JStr device_id), (''ts'', JStr (rd_ts r)), (''data'', JObj (rd_data r))]"

definition telemetry_envelope :: "string \<Rightarrow> string \<Rightarrow> reading \<Rightarrow> json" where
  "telemetry_envelope org_id device_id r = JObj [(''org_id'', JStr org_id),
     (''device_id'', JStr device_id), (''ts'', JStr (rd_ts r)), (''data'', JObj (rd_data r))]"

definition publish_to ::
  "redis_key \<Rightarrow> json \<Rightarrow> ('m, 'q, 't, 's, 'c, 'p, 'l, 'i) ingest_state
     \<Rightarrow> ('m, 'q, 't, 's, 'c, 'p, 'l, 'i) ingest_state" where
  "publish_to ch message s = s\<lparr>in_channels := in_channels s @ [(key_text ch, message)]\<rparr>"

definition push_envelope ::
  "('m, 'q, 't, 's, 'c, 'p, 'l, 'i) ingest_redis \<Rightarrow> json \<Rightarrow> ('m, 'q, 't, 's, 'c, 'p, 'l, 'i) ingest_state
     \<Rightarrow> ('m, 'q, 't, 's, 'c, 'p, 'l, 'i) ingest_state" where
  "push_envelope R envelope s =
     s\<lparr>in_lists := (in_lists s)(INGEST_QUEUE :=
        ltrim (ir_lists R) (lpush (ir_lists R) envelope (in_lists s INGEST_QUEUE)) 0 (MAX_QUEUE_SIZE - 1))\<rparr>"

definition known_keys ::
  "timestamp \<Rightarrow> string \<Rightarrow> ('m, 'q, 't, 's, 'c, 'p, 'l, 'i) ingest_state \<Rightarrow> string set" where
  "known_keys now device_id s =
     (case in_known s device_id of
        (known, None) \<Rightarrow> known
      | (known, Some e) \<Rightarrow> if now < e then known else {})"

text \<open>Each new key is registered in the device's set, which lives a day longer, and queued for
  discovery.\<close>

definition discover_datastreams ::
  "('m, 'q, 't, 's, 'c, 'p, 'l, 'i) ingest_redis \<Rightarrow> timestamp \<Rightarrow> string \<Rightarrow> string list
     \<Rightarrow> ('m, 'q, 't, 's, 'c, 'p, 'l, 'i) ingest_state \<Rightarrow> ('m, 'q, 't, 's, 'c, 'p, 'l, 'i) ingest_state" where
  "discover_datastreams R now device_id data_keys s =
     (let already_known = known_keys now device_id s;
          new_keys = filter (\<lambda>k. k \<notin> already_known) (remdups data_keys)
      in if new_keys = [] then s
         else s\<lparr>in_known := (in_known s)(device_id := (already_known \<union> set new_keys, Some (now + usec 86400))),
                in_lists := (in_lists s)(DISCOVERY_QUEUE :=
                  fold (\<lambda>k. lpush (ir_lists R) (JObj [(''device_id'', JStr device_id), (''key'', JStr k)]))
                    new_keys (in_lists s DISCOVERY_QUEUE))\<rparr>)"

definition count_quota ::
  "('m, 'q, 't, 's, 'c, 'p, 'l, 'i) ingest_redis \<Rightarrow> datetime \<Rightarrow> parsed_topic
     \<Rightarrow> ('m, 'q, 't, 's, 'c, 'p, 'l, 'i) ingest_state \<Rightarrow> ('m, 'q, 't, 's, 'c, 'p, 'l, 'i) ingest_state" where
  "count_quota R now parsed s =
     (let (plan, q) = resolve_org_plan (ir_plans R) (Some (in_orgs s)) (instant now) (pt_org_id parsed) (in_quota s)
      in s\<lparr>in_quota := snd (count_telemetry_message (ir_counters R) (pt_org_id parsed) plan
            (pt_type parsed) now q)\<rparr>)"

definition handle_telemetry ::
  "('m, 'q, 't, 's, 'c, 'p, 'l, 'i) ingest_redis \<Rightarrow> datetime \<Rightarrow> string \<Rightarrow> parsed_topic \<Rightarrow> payload
     \<Rightarrow> ('m, 'q, 't, 's, 'c, 'p, 'l, 'i) ingest_state
     \<Rightarrow> bool \<times> ('m, 'q, 't, 's, 'c, 'p, 'l, 'i) ingest_state" where
  "handle_telemetry R now now_iso parsed p s =
     (case validate_telemetry_payload now_iso p of
        None \<Rightarrow> (False, s)
      | Some validated \<Rightarrow>
          (let (device_id, s1) = resolve_device_uuid R (instant now) (pt_device_id parsed) s;
               latest_data = JObj [(''ts'', JStr (rd_ts validated)), (''data'', JObj (rd_data validated))];
               s2 = s1\<lparr>in_keys := kv_set (ir_keys R) (instant now) (key_text (LatestValue device_id))
                        latest_data (Some 300) (in_keys s1)\<rparr>;
               s3 = publish_to (TelemetryChannel device_id) (telemetry_message device_id validated) s2;
               s4 = push_envelope R (telemetry_envelope (pt_org_id parsed) device_id validated) s3;
               s5 = discover_datastreams R (instant now) device_id (map fst (rd_data validated)) s4
           in (True, count_quota R now parsed s5)))"

section \<open>Status and ACK\<close>

definition set_online ::
  "(string set \<Rightarrow> string set) \<Rightarrow> ('m, 'q, 't, 's, 'c, 'p, 'l, 'i) ingest_state
     \<Rightarrow> ('m, 'q, 't, 's, 'c, 'p, 'l, 'i) ingest_state" where
  "set_online f s = s\<lparr>in_commands := (in_commands s)\<lparr>cs_online := f (cs_online (in_commands s))\<rparr>\<rparr>"

definition flush_on_reconnect ::
  "('m, 'q, 't, 's, 'c, 'p, 'l, 'i) ingest_redis \<Rightarrow> (string \<Rightarrow> json \<Rightarrow> bool) option \<Rightarrow> timestamp
     \<Rightarrow> parsed_topic \<Rightarrow> ('m, 'q, 't, 's, 'c, 'p, 'l, 'i) ingest_state
     \<Rightarrow> ('m, 'q, 't, 's, 'c, 'p, 'l, 'i) ingest_state" where
  "flush_on_reconnect R publisher now parsed s =
     (case publisher of
        None \<Rightarrow> s
      | Some pub \<Rightarrow>
          (case flush_queued_commands (ir_commands R) pub now (pt_org_id parsed) (pt_device_id parsed)
                  (in_commands s) of
             Some (res, c) \<Rightarrow> s\<lparr>in_commands := c\<rparr>
           | None \<Rightarrow> s))"

definition handle_status ::
  "('m, 'q, 't, 's, 'c, 'p, 'l, 'i) ingest_redis \<Rightarrow> (string \<Rightarrow> json \<Rightarrow> bool) option \<Rightarrow> timestamp
     \<Rightarrow> parsed_topic \<Rightarrow> payload \<Rightarrow> ('m, 'q, 't, 's, 'c, 'p, 'l, 'i) ingest_state
     \<Rightarrow> string option \<times> ('m, 'q, 't, 's, 'c, 'p, 'l, 'i) ingest_state" where
  "handle_status R publisher now parsed p s =
     (case validate_status_payload p of
        None \<Rightarrow> (None, s)
      | Some status \<Rightarrow>
          (let dev = pt_device_id parsed;
               device_uuid = find_credential (cs_credentials (in_commands s)) dev;
               ids = insert dev (set_option device_uuid);
               s1 = (if status = ''online''
                     then flush_on_reconnect R publisher now parsed (set_online (\<lambda>S. S \<union> ids) s)
                     else set_online (\<lambda>S. S - ids) s);
               s2 = (case device_uuid of
                       None \<Rightarrow> s1
                     | Some d \<Rightarrow> s1\<lparr>in_devices := map (\<lambda>r. if ds_id r = d then r\<lparr>ds_status := status\<rparr> else r)
                         (in_devices s1)\<rparr>);
               publish_id = (case device_uuid of Some (c # cs) \<Rightarrow> c # cs | _ \<Rightarrow> dev)
           in (Some status, publish_to (DeviceChannel publish_id)
                (JObj [(''type'', JStr ''status''), (''device_id'', JStr publish_id), (''status'', JStr status)])
                s2)))"

definition handle_ack ::
  "('m, 'q, 't, 's, 'c, 'p, 'l, 'i) ingest_redis \<Rightarrow> timestamp \<Rightarrow> parsed_topic \<Rightarrow> payload
     \<Rightarrow> ('m, 'q, 't, 's, 'c, 'p, 'l, 'i) ingest_state
     \<Rightarrow> bool \<times> ('m, 'q, 't, 's, 'c, 'p, 'l, 'i) ingest_state" where
  "handle_ack R now parsed p s =
     (case decode_json p of
        None \<Rightarrow> (False, s)
      | Some obj \<Rightarrow>
          (let s1 = (case dict_get obj ''command_id'' of
                 JStr (c # cs) \<Rightarrow>
                   s\<lparr>in_commands := snd (confirm_command (ir_commands R) now (c # cs) (in_commands s))\<rparr>
               | _ \<Rightarrow> s)
           in (True, publish_to (DeviceChannel (pt_device_id parsed))
                (JObj [(''type'', JStr ''ack''), (''device_id'', JStr (pt_device_id parsed)), (''ack'', JObj obj)])
                s1)))"

definition dispatch ::
  "('m, 'q, 't, 's, 'c, 'p, 'l, 'i) ingest_redis \<Rightarrow> (string \<Rightarrow> json \<Rightarrow> bool) option \<Rightarrow> datetime \<Rightarrow> string
     \<Rightarrow> string \<Rightarrow> payload \<Rightarrow> ('m, 'q, 't, 's, 'c, 'p, 'l, 'i) ingest_state
     \<Rightarrow> ('m, 'q, 't, 's, 'c, 'p, 'l, 'i) ingest_state" where
  "dispatch R publisher now now_iso tpc p s =
     (case parse_topic tpc of
        None \<Rightarrow> s
      | Some parsed \<Rightarrow>
          (case pt_type parsed of
             TELEMETRY \<Rightarrow> snd (handle_telemetry R now now_iso parsed p s)
           | STATUS \<Rightarrow> snd (handle_status R publisher (instant now) parsed p s)
           | ACK \<Rightarrow> snd (handle_ack R (instant now) parsed p s)
           | COMMAND \<Rightarrow> s))"

section \<open>Lemmas\<close>

lemma keys_disjoint [simp]:
  "key_text (LatestValue d) \<noteq> token2uuid_key t" "token2uuid_key t \<noteq> key_text (LatestValue d)"
  by (auto simp: token2uuid_key_def key_of_def NAMESPACE_def)

lemma queues_disjoint [simp]: "DISCOVERY_QUEUE \<noteq> INGEST_QUEUE" "INGEST_QUEUE \<noteq> DISCOVERY_QUEUE"
  by (simp_all add: DISCOVERY_QUEUE_def INGEST_QUEUE_def key_of_def NAMESPACE_def)

text \<open>The Redis structures the listener uses, under their contracts.\<close>

locale ingest_store =
  keys: redis_keys "ir_keys R" +
  queues: redis_lists "ir_lists R" queued +
  counters: redis_counters "ir_counters R" +
  org_plans: redis_keys "ir_plans R" +
  commands: command_store "ir_commands R" items sched_items
  for R :: "('m, 'q, 't, 's, 'c, 'p, 'l, 'i) ingest_redis" and queued :: "'i \<Rightarrow> json list"
    and items :: "'q \<Rightarrow> (string \<times> json) list list" and sched_items :: "'s \<Rightarrow> schedule list"
begin

lemma push_envelope_queue:
  "queued (in_lists (push_envelope R x s) INGEST_QUEUE) = take 10000 (x # queued (in_lists s INGEST_QUEUE))"
  using slice_from_zero [of 10000 "x # queued (in_lists s INGEST_QUEUE)"]
  by (simp add: push_envelope_def MAX_QUEUE_SIZE_def)

text \<open>The device of a token: the cached one while the cache lives, else the unrevoked credential's.\<close>

lemma resolve_device_keeps:
  "resolve_device_uuid R now token s = (d, s') \<Longrightarrow>
     in_lists s' = in_lists s \<and> in_channels s' = in_channels s \<and> in_quota s' = in_quota s
     \<and> in_commands s' = in_commands s \<and> in_known s' = in_known s \<and> in_orgs s' = in_orgs s
     \<and> in_devices s' = in_devices s"
  by (auto simp: resolve_device_uuid_def split: option.splits json.splits list.splits)

end

lemma count_quota_keeps [simp]:
  "in_lists (count_quota R now parsed s) = in_lists s"
  "in_channels (count_quota R now parsed s) = in_channels s"
  "in_keys (count_quota R now parsed s) = in_keys s"
  "in_commands (count_quota R now parsed s) = in_commands s"
  "in_devices (count_quota R now parsed s) = in_devices s"
  by (simp_all add: count_quota_def case_prod_beta)

lemma discover_keeps [simp]:
  "in_lists (discover_datastreams R now d ks s) INGEST_QUEUE = in_lists s INGEST_QUEUE"
  "in_channels (discover_datastreams R now d ks s) = in_channels s"
  "in_keys (discover_datastreams R now d ks s) = in_keys s"
  "in_commands (discover_datastreams R now d ks s) = in_commands s"
  "in_devices (discover_datastreams R now d ks s) = in_devices s"
  by (simp_all add: discover_datastreams_def Let_def)

section \<open>Presence\<close>

lemma json_no_str:
  "\<nexists>c. j = JStr c \<Longrightarrow> (case j of JStr c \<Rightarrow> f c | _ \<Rightarrow> z) = z"
  by (cases j) simp_all

lemma flush_loop_keeps:
  assumes "flush_loop D pub now dev tpc fl s = Some y"
  shows "cs_online (snd y) = cs_online s \<and> cs_credentials (snd y) = cs_credentials s"
proof (rule flush_loop.raw_induct [where P = "\<lambda>D pub now dev tpc fl s y.
    cs_online (snd y) = cs_online s \<and> cs_credentials (snd y) = cs_credentials s", OF _ assms], goal_cases)
  case (1 loop D pub now dev tpc fl s y)
  note IH = 1(1) and body = 1(2)
  show ?case
  proof (cases "lpop (rd_queue D) (live_queue D now s dev)")
    case None
    then show ?thesis using body by auto
  next
    case (Some x)
    obtain queued q' where x: "x = (queued, q')" by (cases x)
    let ?s1 = "set_queue dev q' s"
    have s1: "cs_online ?s1 = cs_online s" "cs_credentials ?s1 = cs_credentials s"
      by (simp_all add: set_queue_def)
    show ?thesis
    proof (cases "\<exists>c. dict_get queued ''command_id'' = JStr c")
      case True
      then obtain c where JStr: "dict_get queued ''command_id'' = JStr c" by blast
      consider (skip) "loop D pub now dev tpc fl ?s1 = Some y"
        | (stop) "y = (Inl PublishFailed, ?s1)"
        | (send) r fl' where "loop D pub now dev tpc fl' (publish_status_event r (save_record D now r
            (?s1\<lparr>cs_published := cs_published ?s1 @ [(tpc, command_mqtt_payload r)]\<rparr>))) = Some y"
      proof (cases "load_record D now ?s1 c")
        case None
        with that(1) body JStr Some x show ?thesis by (simp add: Let_def)
      next
        case (Some r)
        show ?thesis
        proof (cases "next_status (Some (cr_status r)) RECONNECT_FLUSH")
          case None
          with that(1) body JStr Some \<open>lpop _ _ = Some x\<close> x show ?thesis by (simp add: Let_def)
        next
          case (Some new)
          with that(2,3) body JStr \<open>load_record _ _ _ _ = Some r\<close> \<open>lpop _ _ = Some x\<close> x show ?thesis
            by (cases "pub tpc (command_mqtt_payload (with_status now r new))") (simp_all add: Let_def)
        qed
      qed
      then show ?thesis
      proof cases
        case skip
        from IH [OF this] s1 show ?thesis by simp
      next
        case stop
        with s1 show ?thesis by simp
      next
        case send
        from IH [OF this] s1 show ?thesis
          by (simp add: publish_status_event_def save_record_def Let_def)
      qed
    next
      case False
      then have "Some (Inl KeyError, ?s1) = Some y"
        using body by (simp only: Some x option.case prod.case json_no_str [OF False] Let_def)
      then have "y = (Inl KeyError, ?s1)" by simp
      with s1 show ?thesis by (simp only: snd_conv simp_thms)
    qed
  qed
qed

text \<open>A delivered message: when it arrives, the text of that time, its topic and its payload.\<close>

record delivered =
  dl_now :: datetime
  dl_now_iso :: string
  dl_topic :: string
  dl_payload :: payload

definition listener_step ::
  "('m, 'q, 't, 's, 'c, 'p, 'l, 'i) ingest_redis \<Rightarrow> (string \<Rightarrow> json \<Rightarrow> bool) option \<Rightarrow> delivered
     \<Rightarrow> ('m, 'q, 't, 's, 'c, 'p, 'l, 'i) ingest_state \<Rightarrow> ('m, 'q, 't, 's, 'c, 'p, 'l, 'i) ingest_state" where
  "listener_step R publisher m s =
     dispatch R publisher (dl_now m) (dl_now_iso m) (dl_topic m) (dl_payload m) s"

text \<open>The status a message reports about the id \<open>k\<close>: a device is known by its token and by its id.\<close>

definition status_about :: "credential_row list \<Rightarrow> string \<Rightarrow> delivered \<Rightarrow> string option" where
  "status_about credentials k m =
     (case parse_topic (dl_topic m) of
        None \<Rightarrow> None
      | Some parsed \<Rightarrow>
          if pt_type parsed = STATUS
             \<and> k \<in> insert (pt_device_id parsed) (set_option (find_credential credentials (pt_device_id parsed)))
          then validate_status_payload (dl_payload m) else None)"

lemma validate_status_cases:
  "validate_status_payload p = Some st \<Longrightarrow> st = ''online'' \<or> st = ''offline''"
  by (auto simp: validate_status_payload_def Let_def split: option.splits if_splits)

lemma handle_telemetry_presence:
  "in_commands (snd (handle_telemetry R now now_iso parsed p s)) = in_commands s"
proof -
  have "in_commands s1 = in_commands s" if "resolve_device_uuid R t d s = (x, s1)" for t d x s1
    using that by (auto simp: resolve_device_uuid_def split: option.splits json.splits list.splits)
  then show ?thesis
    by (auto simp: handle_telemetry_def publish_to_def push_envelope_def Let_def
        split: option.split prod.split)
qed

lemma handle_ack_presence:
  "cs_online (in_commands (snd (handle_ack R now parsed p s))) = cs_online (in_commands s)
   \<and> cs_credentials (in_commands (snd (handle_ack R now parsed p s))) = cs_credentials (in_commands s)"
proof -
  have "cs_online (snd (confirm_command D now c x)) = cs_online x
      \<and> cs_credentials (snd (confirm_command D now c x)) = cs_credentials x" for D c x
    by (auto simp: confirm_command_def apply_event_def publish_status_event_def save_record_def Let_def
        split: option.split)
  then show ?thesis
    by (auto simp: handle_ack_def publish_to_def Let_def split: option.split json.split list.split)
qed

lemma handle_status_presence:
  assumes "validate_status_payload p = Some st"
  shows "cs_online (in_commands (snd (handle_status R publisher now parsed p s)))
      = (let ids = insert (pt_device_id parsed)
               (set_option (find_credential (cs_credentials (in_commands s)) (pt_device_id parsed)))
         in if st = ''online'' then cs_online (in_commands s) \<union> ids else cs_online (in_commands s) - ids)
    \<and> cs_credentials (in_commands (snd (handle_status R publisher now parsed p s)))
      = cs_credentials (in_commands s)"
proof -
  have flush: "cs_online (in_commands (flush_on_reconnect R publisher now parsed x)) = cs_online (in_commands x)
      \<and> cs_credentials (in_commands (flush_on_reconnect R publisher now parsed x))
        = cs_credentials (in_commands x)" for x
  proof (cases publisher)
    case None
    then show ?thesis by (simp add: flush_on_reconnect_def)
  next
    case (Some pub)
    show ?thesis
    proof (cases "flush_queued_commands (ir_commands R) pub now (pt_org_id parsed) (pt_device_id parsed)
        (in_commands x)")
      case None
      with Some show ?thesis by (simp add: flush_on_reconnect_def)
    next
      case y: (Some y)
      obtain res c where "y = (res, c)" by (cases y)
      with y Some flush_loop_keeps [OF y [unfolded flush_queued_commands_def]] show ?thesis
        by (simp add: flush_on_reconnect_def)
    qed
  qed
  show ?thesis
    using assms
    by (cases "find_credential (cs_credentials (in_commands s)) (pt_device_id parsed)")
      (simp_all add: handle_status_def publish_to_def set_online_def Let_def flush)
qed

lemma listener_step_presence:
  "cs_credentials (in_commands (listener_step R publisher m s)) = cs_credentials (in_commands s)
   \<and> (k \<in> cs_online (in_commands (listener_step R publisher m s)) \<longleftrightarrow>
        (case status_about (cs_credentials (in_commands s)) k m of
           None \<Rightarrow> k \<in> cs_online (in_commands s) | Some st \<Rightarrow> st = ''online''))"
proof (cases "parse_topic (dl_topic m)")
  case None
  then show ?thesis by (simp add: listener_step_def dispatch_def status_about_def)
next
  case (Some parsed)
  show ?thesis
  proof (cases "pt_type parsed = STATUS")
    case False
    then show ?thesis
      using Some
      by (cases "pt_type parsed")
        (simp_all add: listener_step_def dispatch_def status_about_def handle_telemetry_presence
          handle_ack_presence)
  next
    case True
    show ?thesis
    proof (cases "validate_status_payload (dl_payload m)")
      case None
      then show ?thesis using True Some
        by (simp add: listener_step_def dispatch_def status_about_def handle_status_def)
    next
      case (Some st)
      then show ?thesis
        using True \<open>parse_topic (dl_topic m) = Some parsed\<close> validate_status_cases [OF Some]
        by (auto simp: listener_step_def dispatch_def status_about_def handle_status_presence Let_def)
    qed
  qed
qed

section \<open>Properties\<close>

text \<open>C21. Telemetry is taken in whole or not at all: a payload outside the contract changes nothing; an
  accepted reading is non-empty and numeric, becomes the device's latest value for exactly five
  minutes, is fanned out once on the device's channel, and heads the ingest queue, which keeps its
  newest ten thousand.\<close>

theorem telemetry_exact:
  assumes "ingest_store R queued items sched_items"
    and "handle_telemetry R now now_iso parsed p s = (ok, s')"
  shows "(case validate_telemetry_payload now_iso p of
       None \<Rightarrow> \<not> ok \<and> s' = s
     | Some r \<Rightarrow> ok \<and> rd_data r \<noteq> [] \<and> list_all (\<lambda>kv. is_number (snd kv)) (rd_data r)
         \<and> (let d = fst (resolve_device_uuid R (instant now) (pt_device_id parsed) s) in
            in_channels s' = in_channels s @ [(key_text (TelemetryChannel d), telemetry_message d r)]
          \<and> queued (in_lists s' INGEST_QUEUE) =
              take 10000 (telemetry_envelope (pt_org_id parsed) d r # queued (in_lists s INGEST_QUEUE))
          \<and> kv_get (ir_keys R) (instant now + int dt) (in_keys s') (key_text (LatestValue d)) =
              (if dt < 300000000
               then Some (JObj [(''ts'', JStr (rd_ts r)), (''data'', JObj (rd_data r))]) else None)))"
proof (cases "validate_telemetry_payload now_iso p")
  case None
  then show ?thesis using assms(2) by (simp add: handle_telemetry_def)
next
  case (Some r)
  have simple: "rd_data x \<noteq> [] \<and> list_all (\<lambda>kv. is_number (snd kv)) (rd_data x)"
    if "simple_reading now_iso obj = Some x" for obj x
    using that by (auto simp: simple_reading_def list_all_iff Let_def split: if_splits)
  have r: "rd_data r \<noteq> [] \<and> list_all (\<lambda>kv. is_number (snd kv)) (rd_data r)"
    using Some simple
    by (auto simp: validate_telemetry_payload_def list_all_iff good_reading_def
        split: option.splits json.splits if_splits)
  obtain d s1 where d: "resolve_device_uuid R (instant now) (pt_device_id parsed) s = (d, s1)" by fastforce
  note keep = ingest_store.resolve_device_keeps [OF assms(1) d]
  have keys: "redis_keys (ir_keys R)" using assms(1) by (simp add: ingest_store_def)
  let ?latest = "JObj [(''ts'', JStr (rd_ts r)), (''data'', JObj (rd_data r))]"
  let ?s2 = "s1\<lparr>in_keys := kv_set (ir_keys R) (instant now) (key_text (LatestValue d)) ?latest (Some 300) (in_keys s1)\<rparr>"
  let ?s3 = "publish_to (TelemetryChannel d) (telemetry_message d r) ?s2"
  have ok: "ok" and s': "s' = count_quota R now parsed (discover_datastreams R (instant now) d (map fst (rd_data r))
      (push_envelope R (telemetry_envelope (pt_org_id parsed) d r) ?s3))"
    using assms(2) Some d by (simp_all add: handle_telemetry_def Let_def)
  have "kv_get (ir_keys R) (instant now + int dt) (in_keys s') (key_text (LatestValue d)) =
      (if dt < 300000000 then Some ?latest else None)"
    using redis_keys.get_set [OF keys, of "instant now" "instant now + int dt" "key_text (LatestValue d)"
        ?latest "Some 300"]
    by (simp add: s' publish_to_def push_envelope_def usec_def)
  moreover have "in_channels s' = in_channels s @ [(key_text (TelemetryChannel d), telemetry_message d r)]"
    using keep by (simp add: s' publish_to_def push_envelope_def)
  moreover have "queued (in_lists s' INGEST_QUEUE) =
      take 10000 (telemetry_envelope (pt_org_id parsed) d r # queued (in_lists s INGEST_QUEUE))"
    using keep by (simp add: s' ingest_store.push_envelope_queue [OF assms(1)] del: take_Suc_Cons)
      (simp add: publish_to_def)
  ultimately show ?thesis using ok r Some d by (simp add: Let_def)
qed

text \<open>Presence follows the last word: after any run of delivered messages, a device - known by its
  token or by its id - is in the set of online devices exactly when the last valid status message
  about it said "online", or when none came and it was online before.\<close>

theorem presence_follows_last_status:
  "let said = List.map_filter (status_about (cs_credentials (in_commands s)) k) msgs
   in k \<in> cs_online (in_commands (run_ops (listener_step R publisher) msgs s)) \<longleftrightarrow>
      (if said = [] then k \<in> cs_online (in_commands s) else last said = ''online'')"
proof (induction msgs arbitrary: s)
  case Nil
  show ?case by (simp add: List.map_filter_simps)
next
  case (Cons m msgs)
  let ?s = "listener_step R publisher m s"
  have creds: "cs_credentials (in_commands ?s) = cs_credentials (in_commands s)"
    by (simp add: listener_step_presence)
  show ?case
    using Cons.IH [of ?s] creds listener_step_presence [of R publisher m s k]
    by (auto simp: List.map_filter_simps Let_def split: option.splits)
qed

section \<open>A listener on the reference structures\<close>

definition ref_listener where
  "ref_listener = \<lparr>ir_keys = ttl_maps, ir_lists = plain_lists, ir_counters = ttl_counters,
     ir_plans = ttl_maps, ir_commands = ref_redis\<rparr>"

interpretation lst: ingest_store ref_listener "\<lambda>q. q" "\<lambda>q. q" "\<lambda>q. q"
  unfolding ref_listener_def ingest_store_def
  by (simp add: tm.redis_keys_axioms pl.redis_lists_axioms tc.redis_counters_axioms
      cst.command_store_axioms)

definition ex_listener where
  "ex_listener = \<lparr>in_keys = Map.empty, in_lists = (\<lambda>k. []), in_known = (\<lambda>k. ({}, None)),
     in_channels = [], in_quota = ex_quota, in_commands = ex_cmd_state Map.empty [],
     in_orgs = Map.empty, in_devices = []\<rparr>"

definition ex_telemetry :: parsed_topic where
  "ex_telemetry = \<lparr>pt_org_id = ''tok'', pt_device_id = ''tok'', pt_type = TELEMETRY\<rparr>"

theorem telemetry_exact_witness:
  "in_lists (snd (handle_telemetry ref_listener (DateTime 2026 2 1 0) ''now'' ex_telemetry
      (Some (JObj [(''temp'', JInt 21)])) ex_listener)) INGEST_QUEUE
   = [telemetry_envelope ''tok'' ''d1'' \<lparr>rd_ts = ''now'', rd_data = [(''temp'', JInt 21)]\<rparr>]"
proof -
  let ?p = "Some (JObj [(''temp'', JInt 21)])"
  have valid: "validate_telemetry_payload ''now'' ?p = Some \<lparr>rd_ts = ''now'', rd_data = [(''temp'', JInt 21)]\<rparr>"
    by (simp add: validate_telemetry_payload_def decode_json_def dict_get_def simple_reading_def
        is_number_def)
  have device: "fst (resolve_device_uuid ref_listener (instant (DateTime 2026 2 1 0)) (pt_device_id ex_telemetry)
      ex_listener) = ''d1''"
    by (simp add: resolve_device_uuid_def ref_listener_def ex_listener_def ex_cmd_state_def
        find_credential_def ex_telemetry_def)
  show ?thesis
    using telemetry_exact [OF lst.ingest_store_axioms, of "DateTime 2026 2 1 0" "''now''" ex_telemetry ?p
        ex_listener _ _ 0, OF prod.collapse [symmetric]]
    by (simp add: valid device Let_def del: prod.collapse)
      (simp add: ex_listener_def ex_telemetry_def)
qed

end
