(* ===== verification/Batch_Writer.thy ===== *)
theory Batch_Writer imports Ingest
begin

text \<open>
  The batch writer (\<open>app/workers/batch_writer.py\<close>): draining the ingest queue the listener fills,
  the idempotent insert into the telemetry table, the registration of discovered datastreams and
  the run loop with its backoff.  The queue is a Redis list by its contract.  What the listener
  pushes while \<open>process_batch\<close> awaits, whether the database is up, how the database reads the values
  of a row (and which it refuses) and \<open>datetime.fromisoformat\<close> are arguments.
\<close>

section \<open>Errors and state\<close>

datatype batch_write_error = TimescaleUnavailable | OtherWriteError

text \<open>A stored row: the primary key is the device and the instant.\<close>

record telemetry_row =
  tr_org_id :: uuid
  tr_device_id :: uuid
  tr_ts :: timestamp
  tr_data :: "(string \<times> json) list"

definition row_key :: "telemetry_row \<Rightarrow> uuid \<times> timestamp" where
  "row_key r = (tr_device_id r, tr_ts r)"

record device_sensor =
  sn_device_id :: uuid
  sn_org_id :: uuid
  sn_key :: string
  sn_display_name :: string
  sn_pin_type :: string

record 'i writer_state =
  ws_queue :: 'i
  ws_discovery :: 'i
  ws_table :: "telemetry_row list"
  ws_sensors :: "device_sensor list"
  ws_devices :: "device_row list"

text \<open>The database: how it reads the four values of a row, \<open>None\<close> when it refuses one of them, and
  the error a refusal surfaces as.\<close>

record telemetry_db =
  db_row :: "json \<Rightarrow> string \<Rightarrow> string \<Rightarrow> (string \<times> json) list \<Rightarrow> telemetry_row option"
  db_refusal :: batch_write_error

definition BATCH_SIZE :: int where
  "BATCH_SIZE = 1000"

definition EMPTY_SLEEP_SECONDS :: rat where
  "EMPTY_SLEEP_SECONDS = 60"

definition BACKOFF_INITIAL_SECONDS :: rat where
  "BACKOFF_INITIAL_SECONDS = 1 / 2"

definition BACKOFF_MAX_SECONDS :: rat where
  "BACKOFF_MAX_SECONDS = 30"

section \<open>Envelopes\<close>

type_synonym envelope = "(string \<times> json) list"

definition parse_envelope :: "payload \<Rightarrow> envelope option" where
  "parse_envelope raw =
     (case decode_json raw of
        None \<Rightarrow> None
      | Some obj \<Rightarrow>
          (case (dict_get obj ''device_id'', dict_get obj ''ts'', dict_get obj ''data'') of
             (JStr device_id, JStr ts, JObj data) \<Rightarrow>
               (if device_id = [] \<or> strip ts = [] then None else Some obj)
           | _ \<Rightarrow> None))"

definition env_str :: "envelope \<Rightarrow> string \<Rightarrow> string" where
  "env_str env k = (case dict_get env k of JStr s \<Rightarrow> s | _ \<Rightarrow> [])"

definition env_data :: "envelope \<Rightarrow> (string \<times> json) list" where
  "env_data env = (case dict_get env ''data'' of JObj d \<Rightarrow> d | _ \<Rightarrow> [])"

text \<open>\<open>iso\<close> is \<open>datetime.fromisoformat\<close> with a naive time read as UTC; \<open>datetime_min\<close> is
  \<open>datetime.min\<close>.\<close>

definition datetime_min :: timestamp where
  "datetime_min = instant (DateTime 1 1 1 0)"

definition parse_ts :: "(string \<Rightarrow> timestamp option) \<Rightarrow> string \<Rightarrow> timestamp" where
  "parse_ts fromiso ts =
     (let t = strip ts;
          t' = (if t \<noteq> [] \<and> last t \<in> {CHR ''Z'', CHR ''z''} then butlast t @ ''+00:00'' else t)
      in case fromiso t' of None \<Rightarrow> datetime_min | Some p \<Rightarrow> p)"

fun latest_loop ::
  "(string \<Rightarrow> timestamp option) \<Rightarrow> envelope list \<Rightarrow> (string \<rightharpoonup> envelope) \<Rightarrow> (string \<rightharpoonup> timestamp)
     \<Rightarrow> (string \<rightharpoonup> envelope)" where
  "latest_loop fromiso [] latest latest_ts = latest"
| "latest_loop fromiso (env # envelopes) latest latest_ts =
     (let device_id = env_str env ''device_id'';
          ts = parse_ts fromiso (env_str env ''ts'')
      in if (case latest_ts device_id of None \<Rightarrow> True | Some t \<Rightarrow> t \<le> ts)
         then latest_loop fromiso envelopes (latest(device_id \<mapsto> env)) (latest_ts(device_id \<mapsto> ts))
         else latest_loop fromiso envelopes latest latest_ts)"

definition latest_value_per_device ::
  "(string \<Rightarrow> timestamp option) \<Rightarrow> envelope list \<Rightarrow> (string \<rightharpoonup> envelope)" where
  "latest_value_per_device fromiso envelopes = latest_loop fromiso envelopes Map.empty Map.empty"

section \<open>The insert\<close>

text \<open>\<open>ON CONFLICT (device_id, ts) DO NOTHING\<close>.\<close>

fun insert_rows :: "telemetry_row list \<Rightarrow> telemetry_row list \<Rightarrow> telemetry_row list" where
  "insert_rows [] table = table"
| "insert_rows (r # rows) table =
     insert_rows rows (if row_key r \<in> row_key ` set table then table else table @ [r])"

text \<open>The row of an envelope; \<open>env["org_id"]\<close> raises when the key is missing.\<close>

definition row_of :: "telemetry_db \<Rightarrow> envelope \<Rightarrow> batch_write_error + telemetry_row option" where
  "row_of DB env =
     (case map_of env ''org_id'' of
        None \<Rightarrow> Inl OtherWriteError
      | Some org_id \<Rightarrow>
          Inr (db_row DB org_id (env_str env ''device_id'') (env_str env ''ts'') (env_data env)))"

fun rows_of :: "telemetry_db \<Rightarrow> envelope list \<Rightarrow> batch_write_error + telemetry_row option list" where
  "rows_of DB [] = Inr []"
| "rows_of DB (env # envelopes) =
     bind_res (row_of DB env) (\<lambda>r. bind_res (rows_of DB envelopes) (\<lambda>rs. Inr (r # rs)))"

definition insert_telemetry ::
  "telemetry_db \<Rightarrow> bool \<Rightarrow> envelope list \<Rightarrow> telemetry_row list \<Rightarrow> batch_write_error + telemetry_row list" where
  "insert_telemetry DB up envelopes table =
     bind_res (rows_of DB envelopes) (\<lambda>rows.
       if rows = [] then Inr table
       else if \<not> up then Inl TimescaleUnavailable
       else if None \<in> set rows then Inl (db_refusal DB)
       else Inr (insert_rows (map the rows) table))"

section \<open>One batch\<close>

text \<open>A poll: whether the database is up, and what arrives at the head of the queue between the
  first LRANGE and LLEN, between LLEN and the second LRANGE, and during the insert.\<close>

record poll =
  po_up :: bool
  po_before_len :: "json list"
  po_before_range :: "json list"
  po_during_insert :: "json list"

definition arrive :: "('i, json) list_cmds \<Rightarrow> json list \<Rightarrow> 'i \<Rightarrow> 'i" where
  "arrive R xs q = fold (lpush R) xs q"

definition read_batch :: "('i, json) list_cmds \<Rightarrow> int \<Rightarrow> poll \<Rightarrow> 'i \<Rightarrow> json list \<times> 'i" where
  "read_batch R batch_size p q =
     (let raw_batch = lrange R q 0 (batch_size - 1);
          q1 = arrive R (po_before_len p) q;
          backlog = int (llen R q1)
      in if backlog > batch_size
         then (let q2 = arrive R (po_before_range p) q1 in (lrange R q2 0 (backlog - 1), q2))
         else (raw_batch, q1))"

definition envelopes_of :: "json list \<Rightarrow> envelope list" where
  "envelopes_of raw_batch = List.map_filter (\<lambda>raw. parse_envelope (Some raw)) raw_batch"

definition process_batch ::
  "('i, json) list_cmds \<Rightarrow> telemetry_db \<Rightarrow> int \<Rightarrow> poll \<Rightarrow> 'i writer_state
     \<Rightarrow> (batch_write_error + nat) \<times> 'i writer_state" where
  "process_batch R DB batch_size p s =
     (let (raw_batch, q) = read_batch R batch_size p (ws_queue s) in
      if raw_batch = [] then (Inr 0, s\<lparr>ws_queue := q\<rparr>)
      else
        (let batch_len = length raw_batch;
             envelopes = envelopes_of raw_batch
         in if envelopes = []
            then (Inr batch_len, s\<lparr>ws_queue := ltrim R q (int batch_len) (-1)\<rparr>)
            else
              (let q' = arrive R (po_during_insert p) q in
               case insert_telemetry DB (po_up p) envelopes (ws_table s) of
                 Inl e \<Rightarrow> (Inl e, s\<lparr>ws_queue := q'\<rparr>)
               | Inr table \<Rightarrow>
                   (Inr batch_len, s\<lparr>ws_queue := ltrim R q' (int batch_len) (-1), ws_table := table\<rparr>))))"

section \<open>Discovered datastreams\<close>

text \<open>\<open>key.replace("_", " ").title()\<close> on ASCII keys: a letter after a letter is lowered, any other raised.\<close>

definition upper_char :: "char \<Rightarrow> char" where
  "upper_char c = (let n = of_char c :: nat in if 97 \<le> n \<and> n \<le> 122 then char_of (n - 32) else c)"

definition is_letter :: "char \<Rightarrow> bool" where
  "is_letter c = (upper_char c \<noteq> c \<or> lower_char c \<noteq> c)"

fun title_from :: "bool \<Rightarrow> string \<Rightarrow> string" where
  "title_from after_letter [] = []"
| "title_from after_letter (c # cs) =
     (if is_letter c then (if after_letter then lower_char c else upper_char c) # title_from True cs
      else c # title_from False cs)"

definition pin_type_of :: "string \<Rightarrow> string" where
  "pin_type_of key =
     (if starts_with key ''led'' \<or> key \<in> {''relay'', ''switch'', ''motor'', ''fan'', ''pump''} then ''toggle''
      else if key \<in> {''brightness'', ''speed'', ''volume'', ''angle'', ''pwm''} then ''slider''
      else ''sensor'')"

definition display_name_of :: "string \<Rightarrow> string" where
  "display_name_of key = title_from False (map (\<lambda>c. if c = CHR ''_'' then CHR '' '' else c) key)"

definition register_sensor ::
  "device_row list \<Rightarrow> json \<Rightarrow> device_sensor list \<Rightarrow> device_sensor list" where
  "register_sensor devices raw sensors =
     (case as_dict raw of
        None \<Rightarrow> sensors
      | Some item \<Rightarrow>
          (case (map_of item ''device_id'', map_of item ''key'') of
             (Some (JStr d), Some (JStr key)) \<Rightarrow>
               (case parse_uuid d of
                  None \<Rightarrow> sensors
                | Some device_id \<Rightarrow>
                    if \<exists>r \<in> set sensors. sn_device_id r = device_id \<and> sn_key r = key then sensors
                    else
                      (case tbl_get dv_id devices device_id of
                         None \<Rightarrow> sensors
                       | Some device \<Rightarrow>
                           sensors @ [\<lparr>sn_device_id = device_id, sn_org_id = dv_org_id device, sn_key = key,
                             sn_display_name = display_name_of key, sn_pin_type = pin_type_of key\<rparr>]))
           | _ \<Rightarrow> sensors))"

fun discovery_loop ::
  "('i, json) list_cmds \<Rightarrow> bool \<Rightarrow> nat \<Rightarrow> 'i writer_state \<Rightarrow> 'i writer_state" where
  "discovery_loop R up 0 s = s"
| "discovery_loop R up (Suc n) s =
     (case rpop R (ws_discovery s) of
        None \<Rightarrow> s
      | Some (raw, q) \<Rightarrow>
          discovery_loop R up n (s\<lparr>ws_discovery := q,
            ws_sensors := (if up then register_sensor (ws_devices s) raw (ws_sensors s) else ws_sensors s)\<rparr>))"

definition process_datastream_discoveries ::
  "('i, json) list_cmds \<Rightarrow> bool \<Rightarrow> 'i writer_state \<Rightarrow> 'i writer_state" where
  "process_datastream_discoveries R up s = discovery_loop R up 50 s"

section \<open>The run loop\<close>

datatype loop = Looping rat | Stopped

record 'i writer_run =
  wr_loop :: loop
  wr_slept :: "rat list"
  wr_state :: "'i writer_state"

definition run_step ::
  "('i, json) list_cmds \<Rightarrow> telemetry_db \<Rightarrow> int \<Rightarrow> poll \<Rightarrow> 'i writer_run \<Rightarrow> 'i writer_run" where
  "run_step R DB batch_size p w =
     (case wr_loop w of
        Stopped \<Rightarrow> w
      | Looping backoff \<Rightarrow>
          (case process_batch R DB batch_size p (wr_state w) of
             (Inl TimescaleUnavailable, s) \<Rightarrow>
               \<lparr>wr_loop = Looping (min (backoff * 2) BACKOFF_MAX_SECONDS), wr_slept = wr_slept w @ [backoff],
                wr_state = s\<rparr>
           | (Inl OtherWriteError, s) \<Rightarrow> w\<lparr>wr_loop := Stopped, wr_state := s\<rparr>
           | (Inr processed, s) \<Rightarrow>
               if processed = 0
               then \<lparr>wr_loop = Looping BACKOFF_INITIAL_SECONDS, wr_slept = wr_slept w @ [EMPTY_SLEEP_SECONDS],
                     wr_state = process_datastream_discoveries R (po_up p) s\<rparr>
               else w\<lparr>wr_loop := Looping BACKOFF_INITIAL_SECONDS, wr_state := s\<rparr>))"

definition run_start :: "'i writer_state \<Rightarrow> 'i writer_run" where
  "run_start s = \<lparr>wr_loop = Looping BACKOFF_INITIAL_SECONDS, wr_slept = [], wr_state = s\<rparr>"

text \<open>A poll during which nothing arrives.\<close>

definition quiet :: "bool \<Rightarrow> poll" where
  "quiet up = \<lparr>po_up = up, po_before_len = [], po_before_range = [], po_during_insert = []\<rparr>"

text \<open>The writer beside the listener: envelopes are pushed, the loop polls, and the supervisor starts
  the process again.\<close>

datatype writer_op = Push json | Poll bool | Restart

definition writer_step ::
  "('i, json) list_cmds \<Rightarrow> telemetry_db \<Rightarrow> int \<Rightarrow> writer_op \<Rightarrow> 'i writer_run \<Rightarrow> 'i writer_run" where
  "writer_step R DB batch_size op w =
     (case op of
        Push raw \<Rightarrow> w\<lparr>wr_state := (wr_state w)\<lparr>ws_queue := lpush R raw (ws_queue (wr_state w))\<rparr>\<rparr>
      | Poll up \<Rightarrow> run_step R DB batch_size (quiet up) w
      | Restart \<Rightarrow> w\<lparr>wr_loop := Looping BACKOFF_INITIAL_SECONDS\<rparr>)"

fun pushed :: "writer_op list \<Rightarrow> json list" where
  "pushed [] = []"
| "pushed (Push raw # ops) = raw # pushed ops"
| "pushed (_ # ops) = pushed ops"

section \<open>The insert is idempotent and append-only\<close>

lemma insert_rows_keys:
  "row_key ` set (insert_rows rows table) = row_key ` set rows \<union> row_key ` set table"
  by (induction rows arbitrary: table) auto

lemma insert_rows_distinct:
  "distinct (map row_key table) \<Longrightarrow> distinct (map row_key (insert_rows rows table))"
  by (induction rows arbitrary: table) auto

lemma insert_rows_extends: "\<exists>new. insert_rows rows table = table @ new \<and> set new \<subseteq> set rows"
proof (induction rows arbitrary: table)
  case Nil
  show ?case by simp
next
  case (Cons r rows)
  from Cons [of "if row_key r \<in> row_key ` set table then table else table @ [r]"]
  show ?case by (cases "row_key r \<in> row_key ` set table") fastforce+
qed

lemma insert_rows_known: "row_key ` set rows \<subseteq> row_key ` set table \<Longrightarrow> insert_rows rows table = table"
  by (induction rows) auto

lemma insert_rows_again: "insert_rows rows (insert_rows rows table) = insert_rows rows table"
  by (simp add: insert_rows_known insert_rows_keys)

lemma rows_of_covers:
  "rows_of DB envelopes = Inr rows \<Longrightarrow> env \<in> set envelopes \<Longrightarrow> \<exists>r \<in> set rows. row_of DB env = Inr r"
  by (induction envelopes arbitrary: rows) (auto simp: bind_res_eq_Inr)

lemma insert_telemetry_Inr:
  assumes "insert_telemetry DB up envelopes table = Inr table'"
  shows "\<exists>rows. rows_of DB envelopes = Inr rows \<and> None \<notin> set rows \<and> table' = insert_rows (map the rows) table"
  using assms by (auto simp: insert_telemetry_def bind_res_eq_Inr split: if_splits)

section \<open>The registry of datastreams\<close>

definition sensor_ok :: "device_row list \<Rightarrow> device_sensor \<Rightarrow> bool" where
  "sensor_ok devices r = (\<exists>d. tbl_get dv_id devices (sn_device_id r) = Some d \<and> sn_org_id r = dv_org_id d
     \<and> sn_pin_type r = pin_type_of (sn_key r) \<and> sn_display_name r = display_name_of (sn_key r))"

definition sensor_key :: "device_sensor \<Rightarrow> uuid \<times> string" where
  "sensor_key r = (sn_device_id r, sn_key r)"

lemma register_sensor_ok:
  "\<exists>new. register_sensor devices raw sensors = sensors @ new \<and> list_all (sensor_ok devices) new
     \<and> (distinct (map sensor_key sensors) \<longrightarrow> distinct (map sensor_key (sensors @ new)))"
proof -
  have "register_sensor devices raw sensors = sensors
      \<or> (\<exists>r. register_sensor devices raw sensors = sensors @ [r] \<and> sensor_ok devices r
           \<and> sensor_key r \<notin> sensor_key ` set sensors)"
    by (auto simp: register_sensor_def sensor_ok_def sensor_key_def
        split: option.split json.split if_split)
  then show ?thesis by auto
qed

lemma discovery_registers:
  "\<exists>new. ws_sensors (discovery_loop R up n s) = ws_sensors s @ new \<and> list_all (sensor_ok (ws_devices s)) new
     \<and> (distinct (map sensor_key (ws_sensors s)) \<longrightarrow> distinct (map sensor_key (ws_sensors s @ new)))"
proof (induction n arbitrary: s)
  case 0
  show ?case by simp
next
  case (Suc n)
  show ?case
  proof (cases "rpop R (ws_discovery s)")
    case None
    then show ?thesis by simp
  next
    case (Some x)
    obtain raw q where x: "x = (raw, q)" by (cases x)
    let ?sensors = "if up then register_sensor (ws_devices s) raw (ws_sensors s) else ws_sensors s"
    let ?s = "s\<lparr>ws_discovery := q, ws_sensors := ?sensors\<rparr>"
    have "\<exists>new. ?sensors = ws_sensors s @ new \<and> list_all (sensor_ok (ws_devices s)) new
        \<and> (distinct (map sensor_key (ws_sensors s)) \<longrightarrow> distinct (map sensor_key ?sensors))"
      using register_sensor_ok [of "ws_devices s" raw "ws_sensors s"] by (cases up) force+
    then obtain new1 where new1: "?sensors = ws_sensors s @ new1" "list_all (sensor_ok (ws_devices s)) new1"
        "distinct (map sensor_key (ws_sensors s)) \<longrightarrow> distinct (map sensor_key ?sensors)" by blast
    obtain new2 where new2: "ws_sensors (discovery_loop R up n ?s) = ?sensors @ new2"
        "list_all (sensor_ok (ws_devices s)) new2"
        "distinct (map sensor_key ?sensors) \<longrightarrow> distinct (map sensor_key (?sensors @ new2))"
      using Suc.IH [of ?s] by auto
    have "ws_sensors (discovery_loop R up (Suc n) s) = ws_sensors s @ (new1 @ new2)"
      using new1(1) new2(1) by (simp add: Some x)
    moreover have "distinct (map sensor_key (ws_sensors s)) \<longrightarrow> distinct (map sensor_key (ws_sensors s @ (new1 @ new2)))"
      using new1(3) new2(3) unfolding new1(1) by simp
    ultimately show ?thesis using new1(2) new2(2) by (intro exI [of _ "new1 @ new2"]) simp
  qed
qed

text \<open>An envelope the insert refuses: while it waits, nothing is stored and nothing leaves the queue.\<close>

definition refused :: "telemetry_db \<Rightarrow> json \<Rightarrow> bool" where
  "refused DB raw =
     (\<exists>env. parse_envelope (Some raw) = Some env
        \<and> (row_of DB env = Inl OtherWriteError \<or> row_of DB env = Inr None))"

section \<open>The queue under the Redis contract\<close>

locale ingest_queue = redis_lists R items
  for R :: "('i, json) list_cmds" and items :: "'i \<Rightarrow> json list"
begin

lemma arrive_items [simp]: "items (arrive R xs q) = rev xs @ items q"
  by (induction xs arbitrary: q) (simp_all add: arrive_def)

lemma discovery_drains:
  "items (ws_discovery (discovery_loop R up n s))
     = take (length (items (ws_discovery s)) - n) (items (ws_discovery s))"
proof (induction n arbitrary: s)
  case 0
  show ?case by simp
next
  case (Suc n)
  show ?case
  proof (cases "rpop R (ws_discovery s)")
    case None
    with rpop_None [of "ws_discovery s"] show ?thesis by simp
  next
    case (Some x)
    obtain raw q where x: "x = (raw, q)" by (cases x)
    with Some have "items (ws_discovery s) = items q @ [raw]" by (simp add: rpop_Some)
    with Some x Suc.IH show ?thesis by simp
  qed
qed

lemma take_slice: "k > 0 \<Longrightarrow> slice xs 0 (k - 1) = take (nat k) xs"
  using slice_from_zero [of "nat k" xs] by simp

lemma read_batch_items:
  assumes "0 < batch_size" "read_batch R batch_size p q = (raw_batch, q')"
  shows "(let xs = rev (po_before_len p) @ items q; base = rev (po_before_range p) @ xs
     in if batch_size < int (length xs) then raw_batch = take (length xs) base \<and> items q' = base
        else raw_batch = items q \<and> items q' = xs)"
  using assms nat_int_add [of "length (po_before_len p)" "length (items q)"]
  by (auto simp: read_batch_def take_slice Let_def split: if_splits)

lemma slice_whole: "slice xs 0 (int (length xs) - 1) = xs"
  using take_slice [of "int (length xs)" xs] by (cases xs) (simp_all add: slice_def)

lemma quiet_simps [simp]:
  "po_up (quiet up) = up" "po_before_len (quiet up) = []" "po_before_range (quiet up) = []"
  "po_during_insert (quiet up) = []" "arrive R [] q = q"
  by (simp_all add: quiet_def arrive_def)

lemma read_quiet:
  assumes "0 < batch_size"
  shows "read_batch R batch_size (quiet up) q = (items q, q)"
  using assms by (simp add: read_batch_def take_slice slice_whole Let_def)

lemma slice_drop: "slice xs (int k) (-1) = drop k xs"
  by (rule slice_to_end)

text \<open>What a quiet poll does to the queue and the table.\<close>

lemma process_quiet_cases:
  assumes "0 < batch_size" "process_batch R DB batch_size (quiet up) s = (res, s')"
  obtains (empty) "items (ws_queue s) = []" "res = Inr 0" "s' = s"
  | (poison) "items (ws_queue s) \<noteq> []" "envelopes_of (items (ws_queue s)) = []"
      "res = Inr (length (items (ws_queue s)))" "items (ws_queue s') = []" "s' = s\<lparr>ws_queue := ws_queue s'\<rparr>"
  | (failed) e where "envelopes_of (items (ws_queue s)) \<noteq> []"
      "insert_telemetry DB up (envelopes_of (items (ws_queue s))) (ws_table s) = Inl e" "res = Inl e" "s' = s"
  | (stored) table where "envelopes_of (items (ws_queue s)) \<noteq> []"
      "insert_telemetry DB up (envelopes_of (items (ws_queue s))) (ws_table s) = Inr table"
      "res = Inr (length (items (ws_queue s)))" "items (ws_queue s') = []"
      "s' = s\<lparr>ws_queue := ws_queue s', ws_table := table\<rparr>"
proof -
  let ?xs = "items (ws_queue s)" and ?t = "ltrim R (ws_queue s) (int (length (items (ws_queue s)))) (-1)"
  have t: "items ?t = []" by (simp add: slice_drop)
  have same: "s\<lparr>ws_queue := ws_queue s\<rparr> = s" by simp
  have body: "(if ?xs = [] then (Inr 0, s)
      else if envelopes_of ?xs = [] then (Inr (length ?xs), s\<lparr>ws_queue := ?t\<rparr>)
      else (case insert_telemetry DB up (envelopes_of ?xs) (ws_table s) of
          Inl e \<Rightarrow> (Inl e, s)
        | Inr table \<Rightarrow> (Inr (length ?xs), s\<lparr>ws_queue := ?t, ws_table := table\<rparr>))) = (res, s')"
    using assms(2)
    by (simp only: process_batch_def read_quiet [OF assms(1)] prod.case Let_def quiet_simps same)
  show thesis
  proof (cases "?xs = []")
    case True
    with body have "res = Inr 0" "s' = s" by simp_all
    with True show thesis by (rule empty)
  next
    case xs: False
    show thesis
    proof (cases "envelopes_of ?xs = []")
      case True
      with body xs have r: "res = Inr (length ?xs)" and s': "s' = s\<lparr>ws_queue := ?t\<rparr>" by simp_all
      from s' t have "items (ws_queue s') = []" "s' = s\<lparr>ws_queue := ws_queue s'\<rparr>" by simp_all
      with xs True r show thesis by (rule poison)
    next
      case False
      show thesis
      proof (cases "insert_telemetry DB up (envelopes_of ?xs) (ws_table s)")
        case (Inl e)
        with body xs False have "res = Inl e" "s' = s" by simp_all
        with False Inl show thesis by (rule failed)
      next
        case (Inr table)
        with body xs False have r: "res = Inr (length ?xs)"
          and s': "s' = s\<lparr>ws_queue := ?t, ws_table := table\<rparr>" by simp_all
        from s' t have "items (ws_queue s') = []" "s' = s\<lparr>ws_queue := ws_queue s', ws_table := table\<rparr>"
          by simp_all
        with False Inr r show thesis by (rule stored)
      qed
    qed
  qed
qed

lemma discoveries_keep:
  "ws_queue (discovery_loop R up n s) = ws_queue s \<and> ws_table (discovery_loop R up n s) = ws_table s
   \<and> ws_devices (discovery_loop R up n s) = ws_devices s"
  by (induction R up n s rule: discovery_loop.induct) (auto split: option.splits)

text \<open>Every step of the writer leaves an envelope in the queue, or its row is in the table.\<close>

definition accounted :: "telemetry_db \<Rightarrow> json \<Rightarrow> 'i writer_state \<Rightarrow> bool" where
  "accounted DB raw s =
     (raw \<in> set (items (ws_queue s)) \<or> parse_envelope (Some raw) = None
      \<or> (\<exists>env r. parse_envelope (Some raw) = Some env \<and> row_of DB env = Inr (Some r)
           \<and> row_key r \<in> row_key ` set (ws_table s)))"

lemma process_quiet_accounted:
  assumes "0 < batch_size" "process_batch R DB batch_size (quiet up) s = (res, s')" "accounted DB raw s"
  shows "accounted DB raw s'"
  using assms(1,2)
proof (cases rule: process_quiet_cases)
  case empty
  with assms show ?thesis by simp
next
  case poison
  have "parse_envelope (Some raw) = None" if "raw \<in> set (items (ws_queue s))"
    using poison(2) that by (auto simp: envelopes_of_def List.map_filter_def filter_empty_conv)
  moreover have "ws_table s' = ws_table s" by (subst poison(5)) simp
  ultimately show ?thesis using assms(3) by (auto simp: accounted_def)
next
  case failed
  with assms show ?thesis by simp
next
  case (stored table)
  then obtain rows where rows: "rows_of DB (envelopes_of (items (ws_queue s))) = Inr rows" "None \<notin> set rows"
      "table = insert_rows (map the rows) (ws_table s)"
    using insert_telemetry_Inr by blast
  have new: "\<exists>r. row_of DB env = Inr (Some r) \<and> row_key r \<in> row_key ` set table"
    if "raw \<in> set (items (ws_queue s))" "parse_envelope (Some raw) = Some env" for env
  proof -
    have "env \<in> set (envelopes_of (items (ws_queue s)))"
      using that by (auto simp: envelopes_of_def List.map_filter_def image_iff intro!: bexI [of _ raw])
    then obtain r where r: "r \<in> set rows" "row_of DB env = Inr r"
      using rows_of_covers [OF rows(1)] by blast
    with rows(2) obtain r' where "r = Some r'" by (cases r) auto
    with r rows(3) show ?thesis by (force simp: insert_rows_keys)
  qed
  have old: "row_key ` set (ws_table s) \<subseteq> row_key ` set table"
    using rows(3) by (simp add: insert_rows_keys)
  have "ws_table s' = table" by (subst stored(5)) simp
  with assms(3) new old show ?thesis
    by (cases "parse_envelope (Some raw)") (auto simp: accounted_def)
qed

definition advances :: "telemetry_db \<Rightarrow> 'i writer_state \<Rightarrow> 'i writer_state \<Rightarrow> bool" where
  "advances DB s s' \<longleftrightarrow>
     (\<forall>raw. accounted DB raw s \<longrightarrow> accounted DB raw s')
     \<and> (distinct (map row_key (ws_table s)) \<longrightarrow> distinct (map row_key (ws_table s')))
     \<and> (\<exists>new. ws_table s' = ws_table s @ new)"

lemma advances_refl [simp]: "advances DB s s"
  by (simp add: advances_def)

lemma advances_trans: "advances DB s s' \<Longrightarrow> advances DB s' s'' \<Longrightarrow> advances DB s s''"
  by (auto simp: advances_def)

lemma advances_process:
  assumes "0 < batch_size" "process_batch R DB batch_size (quiet up) s = (res, s')"
  shows "advances DB s s'"
proof -
  have "ws_table s' = ws_table s \<or> (\<exists>rows. ws_table s' = insert_rows rows (ws_table s))"
    using assms
  proof (cases rule: process_quiet_cases)
    case poison
    have "ws_table s' = ws_table s" by (subst poison(5)) simp
    then show ?thesis by simp
  next
    case (stored table)
    have "ws_table s' = table" by (subst stored(5)) simp
    with insert_telemetry_Inr [OF stored(2)] show ?thesis by auto
  qed simp_all
  then show ?thesis
    using process_quiet_accounted [OF assms] insert_rows_extends
    by (auto simp: advances_def insert_rows_distinct) blast
qed

lemma advances_discoveries: "advances DB s (process_datastream_discoveries R up s)"
  using discoveries_keep [of up 50 s]
  by (simp add: advances_def accounted_def process_datastream_discoveries_def)

lemma advances_step:
  assumes "0 < batch_size"
  shows "advances DB (wr_state w) (wr_state (writer_step R DB batch_size op w))"
proof (cases op)
  case (Push raw)
  then show ?thesis by (auto simp: writer_step_def advances_def accounted_def)
next
  case Restart
  then show ?thesis by (simp add: writer_step_def)
next
  case (Poll up)
  show ?thesis
  proof (cases "wr_loop w")
    case Stopped
    then show ?thesis by (simp add: writer_step_def run_step_def Poll)
  next
    case (Looping b)
    obtain res s' where run: "process_batch R DB batch_size (quiet up) (wr_state w) = (res, s')" by fastforce
    note adv = advances_process [OF assms run]
    show ?thesis
    proof (cases res)
      case (Inl e)
      with run Looping Poll adv show ?thesis by (cases e) (simp_all add: writer_step_def run_step_def)
    next
      case (Inr n)
      with run Looping Poll adv advances_trans [OF adv advances_discoveries] show ?thesis
        by (simp add: writer_step_def run_step_def)
    qed
  qed
qed

lemma advances_run:
  assumes "0 < batch_size"
  shows "advances DB (wr_state w) (wr_state (run_ops (writer_step R DB batch_size) ops w))"
  by (induction ops arbitrary: w) (auto intro: advances_trans advances_step [OF assms])

lemma accounted_pushed:
  assumes "0 < batch_size"
  shows "raw \<in> set (pushed ops) \<Longrightarrow>
    accounted DB raw (wr_state (run_ops (writer_step R DB batch_size) ops w))"
proof (induction ops arbitrary: w)
  case Nil
  then show ?case by simp
next
  case (Cons op ops)
  show ?case
  proof (cases "raw \<in> set (pushed ops)")
    case True
    with Cons.IH show ?thesis by simp
  next
    case False
    with Cons.prems have op: "op = Push raw" by (cases op) auto
    have "accounted DB raw (wr_state (writer_step R DB batch_size op w))"
      by (simp add: op writer_step_def accounted_def)
    with advances_run [OF assms] show ?thesis by (auto simp: advances_def)
  qed
qed

lemma refused_insert:
  assumes "refused DB raw" "raw \<in> set xs"
  shows "envelopes_of xs \<noteq> [] \<and> (\<exists>e. insert_telemetry DB up (envelopes_of xs) table = Inl e)"
proof -
  obtain env where env: "parse_envelope (Some raw) = Some env"
      "row_of DB env = Inl OtherWriteError \<or> row_of DB env = Inr None"
    using assms(1) by (auto simp: refused_def)
  then have mem: "env \<in> set (envelopes_of xs)"
    using assms(2) by (auto simp: envelopes_of_def List.map_filter_def image_iff intro!: bexI [of _ raw])
  have "insert_telemetry DB up (envelopes_of xs) table \<noteq> Inr t" for t
  proof
    assume "insert_telemetry DB up (envelopes_of xs) table = Inr t"
    then obtain rows where rows: "rows_of DB (envelopes_of xs) = Inr rows" "None \<notin> set rows"
      using insert_telemetry_Inr by blast
    with rows_of_covers [OF rows(1) mem] env(2) show False by auto
  qed
  then show ?thesis using mem by (cases "insert_telemetry DB up (envelopes_of xs) table") auto
qed

lemma refused_step:
  assumes "0 < batch_size" "refused DB raw" "raw \<in> set (items (ws_queue (wr_state w)))"
    and "w' = writer_step R DB batch_size op w"
  shows "ws_table (wr_state w') = ws_table (wr_state w)
    \<and> items (ws_queue (wr_state w')) = rev (pushed [op]) @ items (ws_queue (wr_state w))"
proof (cases op)
  case (Poll up)
  obtain e where "process_batch R DB batch_size (quiet up) (wr_state w) = (Inl e, wr_state w)"
  proof -
    obtain res s' where run: "process_batch R DB batch_size (quiet up) (wr_state w) = (res, s')" by fastforce
    from assms(1) run show thesis
    proof (cases rule: process_quiet_cases)
      case empty
      with assms(3) show thesis by simp
    next
      case poison
      with refused_insert [OF assms(2,3)] show thesis by blast
    next
      case (failed e)
      with run that show thesis by simp
    next
      case (stored table)
      with refused_insert [OF assms(2,3), of up "ws_table (wr_state w)"] show thesis by auto
    qed
  qed
  with Poll assms(4) show ?thesis
    by (cases e; cases "wr_loop w") (simp_all add: writer_step_def run_step_def)
qed (use assms in \<open>simp_all add: writer_step_def\<close>)

lemma refused_run:
  assumes "0 < batch_size" "refused DB raw"
  shows "raw \<in> set (items (ws_queue (wr_state w))) \<Longrightarrow>
    ws_table (wr_state (run_ops (writer_step R DB batch_size) ops w)) = ws_table (wr_state w)
    \<and> items (ws_queue (wr_state (run_ops (writer_step R DB batch_size) ops w)))
      = rev (pushed ops) @ items (ws_queue (wr_state w))"
proof (induction ops arbitrary: w)
  case Nil
  show ?case by simp
next
  case (Cons op ops)
  note step = refused_step [OF assms Cons.prems refl, of op]
  have "raw \<in> set (items (ws_queue (wr_state (writer_step R DB batch_size op w))))"
    using step Cons.prems by simp
  from Cons.IH [OF this] step show ?case by (cases op) simp_all
qed

end

text \<open>An outage of \<open>k\<close> polls from the start of the loop: the sleeps double up to the bound and nothing
  else changes.\<close>

definition backoff_at :: "nat \<Rightarrow> rat" where
  "backoff_at i = min (BACKOFF_INITIAL_SECONDS * 2 ^ i) BACKOFF_MAX_SECONDS"

lemma backoff_Suc: "min (backoff_at i * 2) BACKOFF_MAX_SECONDS = backoff_at (Suc i)"
  by (simp add: backoff_at_def BACKOFF_INITIAL_SECONDS_def BACKOFF_MAX_SECONDS_def min_def)

lemma backoff_0: "backoff_at 0 = BACKOFF_INITIAL_SECONDS"
  by (simp add: backoff_at_def BACKOFF_INITIAL_SECONDS_def BACKOFF_MAX_SECONDS_def)

context ingest_queue
begin

lemma outage:
  assumes "0 < batch_size" "rows_of DB (envelopes_of (items (ws_queue s))) = Inr rows" "rows \<noteq> []"
  shows "run_ops (run_step R DB batch_size) (replicate k (quiet False))
      \<lparr>wr_loop = Looping (backoff_at i), wr_slept = ss, wr_state = s\<rparr>
    = \<lparr>wr_loop = Looping (backoff_at (i + k)), wr_slept = ss @ map backoff_at [i..<i + k], wr_state = s\<rparr>"
proof (induction k arbitrary: i ss)
  case 0
  show ?case by simp
next
  case (Suc k)
  have down: "insert_telemetry DB False (envelopes_of (items (ws_queue s))) (ws_table s) = Inl TimescaleUnavailable"
    using assms by (simp add: insert_telemetry_def)
  obtain res s' where run: "process_batch R DB batch_size (quiet False) s = (res, s')" by fastforce
  have "res = Inl TimescaleUnavailable \<and> s' = s"
    using assms(1) run
  proof (cases rule: process_quiet_cases)
    case empty
    with assms(2,3) show ?thesis by (simp add: envelopes_of_def List.map_filter_simps)
  next
    case poison
    with assms(2,3) show ?thesis by simp
  qed (use down in simp_all)
  with run have "run_step R DB batch_size (quiet False)
        \<lparr>wr_loop = Looping (backoff_at i), wr_slept = ss, wr_state = s\<rparr>
      = \<lparr>wr_loop = Looping (backoff_at (Suc i)), wr_slept = ss @ [backoff_at i], wr_state = s\<rparr>"
    by (simp add: run_step_def backoff_Suc)
  with Suc.IH [of "Suc i" "ss @ [backoff_at i]"] show ?case by (simp add: upt_rec)
qed

lemma drained:
  assumes "0 < batch_size" "rows_of DB (envelopes_of (items (ws_queue s))) = Inr rows" "rows \<noteq> []"
    and "None \<notin> set rows"
  shows "\<exists>n s'. process_batch R DB batch_size (quiet True) s = (Inr n, s') \<and> n \<noteq> 0
    \<and> items (ws_queue s') = [] \<and> ws_table s' = insert_rows (map the rows) (ws_table s)"
proof -
  have up: "insert_telemetry DB True (envelopes_of (items (ws_queue s))) (ws_table s)
      = Inr (insert_rows (map the rows) (ws_table s))"
    using assms by (simp add: insert_telemetry_def)
  have envs: "envelopes_of (items (ws_queue s)) \<noteq> []" using assms(2,3) by auto
  obtain res s' where run: "process_batch R DB batch_size (quiet True) s = (res, s')" by fastforce
  with assms(1) show ?thesis
  proof (cases rule: process_quiet_cases)
    case empty
    with envs show ?thesis by (simp add: envelopes_of_def List.map_filter_simps)
  next
    case poison
    with envs show ?thesis by simp
  next
    case failed
    with up show ?thesis by simp
  next
    case (stored table)
    have "items (ws_queue s) \<noteq> []" using envs by (auto simp: envelopes_of_def List.map_filter_simps)
    moreover have "ws_table s' = table" by (subst stored(5)) simp
    ultimately show ?thesis using run stored(2,3,4) up by simp
  qed
qed

end

section \<open>Properties\<close>

text \<open>C19. What one batch does to the queue, whatever the listener pushes meanwhile: with the whole backlog
  read when it is over the batch size, the first \<open>n\<close> entries that were read are stored, each key once,
  and LTRIM cuts the first \<open>n\<close> entries of the queue as it then is.  Entries pushed after the read
  stand before the ones that were read: they are cut unsaved, and as many saved ones stay.\<close>

theorem batch_trim_exact:
  assumes "ingest_queue R items" "0 < batch_size" "process_batch R DB batch_size p s = (Inr n, s')"
  shows "let xs = rev (po_before_len p) @ items (ws_queue s); over = batch_size < int (length xs);
      base = (if over then rev (po_before_range p) @ xs else items (ws_queue s));
      late = (if over then [] else po_before_len p)
        @ (if envelopes_of (take n base) = [] then [] else po_during_insert p)
    in n = (if over then length xs else length (items (ws_queue s)))
     \<and> items (ws_queue s') = drop n (rev late @ base)
     \<and> (\<exists>rows. rows_of DB (envelopes_of (take n base)) = Inr rows \<and> None \<notin> set rows
          \<and> ws_table s' = insert_rows (map the rows) (ws_table s))
     \<and> (length late \<le> n \<longrightarrow> items (ws_queue s') = drop (n - length late) base)"
proof -
  note slice_drop = ingest_queue.slice_drop [OF assms(1)]
    and arrive_items = ingest_queue.arrive_items [OF assms(1)]
    and items_ltrim = redis_lists.items_ltrim [OF assms(1) [unfolded ingest_queue_def]]
  obtain raw q where read: "read_batch R batch_size p (ws_queue s) = (raw, q)" by fastforce
  let ?xs = "rev (po_before_len p) @ items (ws_queue s)"
  let ?over = "batch_size < int (length ?xs)"
  let ?base = "if ?over then rev (po_before_range p) @ ?xs else items (ws_queue s)"
  let ?seen = "if ?over then [] else po_before_len p"
  let ?saved = "\<exists>rows. rows_of DB (envelopes_of raw) = Inr rows \<and> None \<notin> set rows
    \<and> ws_table s' = insert_rows (map the rows) (ws_table s)"
  note got = ingest_queue.read_batch_items [OF assms(1,2) read]
  have "raw = take (length raw) ?base \<and> length raw = (if ?over then length ?xs else length (items (ws_queue s)))
    \<and> items q = rev ?seen @ ?base"
  proof (cases ?over)
    case True
    with got have r: "raw = take (length ?xs) (rev (po_before_range p) @ ?xs)"
      and q: "items q = rev (po_before_range p) @ ?xs" by (simp_all only: Let_def if_True)
    from r have "length raw = length ?xs" by simp
    with r have "raw = take (length raw) (rev (po_before_range p) @ ?xs)" by metis
    with \<open>length raw = length ?xs\<close> q True show ?thesis by (simp only: if_True rev.simps append_Nil simp_thms)
  next
    case False
    with got have r: "raw = items (ws_queue s)" and q: "items q = ?xs" by (simp_all only: Let_def if_False)
    with False show ?thesis by (simp only: if_False take_all order_refl simp_thms)
  qed
  then have raw: "raw = take (length raw) ?base"
      "length raw = (if ?over then length ?xs else length (items (ws_queue s)))"
    and q: "items q = rev ?seen @ ?base" by blast+
  let ?late = "?seen @ (if envelopes_of raw = [] then [] else po_during_insert p)"
  have "n = length raw \<and> items (ws_queue s') = drop n (rev ?late @ ?base) \<and> ?saved"
  proof (cases "raw = []")
    case True
    with assms(3) read q show ?thesis by (auto simp: process_batch_def envelopes_of_def List.map_filter_simps)
  next
    case raw_ne: False
    show ?thesis
    proof (cases "envelopes_of raw = []")
      case True
      with assms(3) read q raw_ne show ?thesis
        by (auto simp: process_batch_def Let_def items_ltrim slice_drop)
    next
      case False
      then obtain table where t: "insert_telemetry DB (po_up p) (envelopes_of raw) (ws_table s) = Inr table"
        using assms(3) read raw_ne
        by (cases "insert_telemetry DB (po_up p) (envelopes_of raw) (ws_table s)")
          (simp_all add: process_batch_def Let_def)
      with assms(3) read raw_ne False have "n = length raw"
          "s' = s\<lparr>ws_queue := ltrim R (arrive R (po_during_insert p) q) (int n) (-1), ws_table := table\<rparr>"
        by (auto simp: process_batch_def Let_def)
      with insert_telemetry_Inr [OF t] q False show ?thesis
        by (simp add: items_ltrim slice_drop arrive_items)
    qed
  qed
  moreover have "drop n (rev late @ ?base) = drop (n - length late) ?base" if "length late \<le> n" for late
    using that by simp
  ultimately show ?thesis using raw unfolding Let_def by metis
qed



lemma reading_ts:
  "validate_telemetry_payload now_iso p = Some r \<Longrightarrow> strip now_iso \<noteq> [] \<Longrightarrow> strip (rd_ts r) \<noteq> []"
  by (auto simp: validate_telemetry_payload_def simple_reading_def Let_def
      split: option.splits json.splits if_splits)

lemma parse_telemetry_envelope:
  "d \<noteq> [] \<Longrightarrow> strip (rd_ts r) \<noteq> [] \<Longrightarrow>
     \<exists>env. parse_envelope (Some (telemetry_envelope org d r)) = Some env
       \<and> row_of DB env = Inr (db_row DB (JStr org) d (rd_ts r) (rd_data r))"
  by (simp add: parse_envelope_def telemetry_envelope_def decode_json_def dict_get_def row_of_def
      env_str_def env_data_def)

text \<open>C28. One telemetry message on a token topic stops all persistence: if the database refuses an
  organization id that is no UUID, then after a device has published a valid reading on its own
  topic the writer stores nothing more and keeps the whole queue, over any polls, pushes and restarts
  (until ten thousand newer messages push the envelope out).\<close>

theorem token_telemetry_wedges:
  assumes "ingest_store L items citems sched_items" "0 < batch_size"
    and refuses: "\<And>org d t x. parse_uuid org = None \<Longrightarrow> db_row DB (JStr org) d t x = None"
    and tpc: "split_on slash tpc = [TOPIC_ROOT, token, mt_value TELEMETRY]" "token \<noteq> []" "parse_uuid token = None"
    and valid: "validate_telemetry_payload now_iso p = Some r" "strip now_iso \<noteq> []"
    and creds: "\<forall>c \<in> set (cs_credentials (in_commands s)). cd_device_id c \<noteq> []"
    and s': "s' = dispatch L publisher now now_iso tpc p s"
    and w: "ws_queue (wr_state w) = in_lists s' INGEST_QUEUE"
      "w' = run_ops (writer_step (ir_lists L) DB batch_size) ops w"
  shows "ws_table (wr_state w') = ws_table (wr_state w)
    \<and> items (ws_queue (wr_state w')) = rev (pushed ops) @ items (in_lists s' INGEST_QUEUE)
    \<and> telemetry_envelope token (fst (resolve_device_uuid L (instant now) token s)) r
        \<in> set (items (ws_queue (wr_state w')))"
proof -
  have queue: "ingest_queue (ir_lists L) items"
    using assms(1) by (simp add: ingest_store_def ingest_queue_def)
  let ?parsed = "\<lparr>pt_org_id = token, pt_device_id = token, pt_type = TELEMETRY\<rparr>"
  have "tpc \<noteq> []" using tpc(1) by auto
  then have parsed: "parse_topic tpc = Some ?parsed"
    using tpc by (simp add: parse_topic_def del: mt_value.simps)
  obtain d s1 where d: "resolve_device_uuid L (instant now) token s = (d, s1)" by fastforce
  note keep = ingest_store.resolve_device_keeps [OF assms(1) d]
  have "d \<noteq> []"
    using d creds tpc(2)
    by (auto simp: resolve_device_uuid_def find_credential_def find_Some_iff
        split: option.splits json.splits list.splits dest: nth_mem)
  let ?x = "telemetry_envelope token d r"
  obtain env where env: "parse_envelope (Some ?x) = Some env"
      "row_of DB env = Inr (db_row DB (JStr token) d (rd_ts r) (rd_data r))"
    using parse_telemetry_envelope [OF \<open>d \<noteq> []\<close> reading_ts [OF valid]] by blast
  have refused: "refused DB ?x" using env refuses [OF tpc(3)] by (simp add: refused_def)
  have "items (in_lists s' INGEST_QUEUE) = take 10000 (?x # items (in_lists s INGEST_QUEUE))"
    using keep valid parsed d s'
    by (simp add: dispatch_def handle_telemetry_def Let_def ingest_store.push_envelope_queue [OF assms(1)]
        del: take_Suc_Cons) (simp add: publish_to_def)
  then have x: "?x \<in> set (items (ws_queue (wr_state w)))" using w(1) by simp
  from ingest_queue.refused_run [OF queue assms(2) refused x] w x d show ?thesis by simp
qed

text \<open>Discovered datastreams are registered once: a cycle takes at most the fifty oldest discoveries, keeps
  every sensor, and adds only sensors of existing devices, in the device's organization, with the
  control type and the name its key spells; no device gets a key twice.\<close>

theorem discoveries_registered_once:
  assumes "ingest_queue R items" "distinct (map sensor_key (ws_sensors s))"
    and "s' = process_datastream_discoveries R up s"
  shows "(\<exists>new. ws_sensors s' = ws_sensors s @ new
        \<and> list_all (\<lambda>r. \<exists>d. tbl_get dv_id (ws_devices s) (sn_device_id r) = Some d \<and> sn_org_id r = dv_org_id d
             \<and> sn_pin_type r = pin_type_of (sn_key r) \<and> sn_display_name r = display_name_of (sn_key r)) new)
    \<and> distinct (map (\<lambda>r. (sn_device_id r, sn_key r)) (ws_sensors s'))
    \<and> items (ws_discovery s') = take (length (items (ws_discovery s)) - 50) (items (ws_discovery s))
    \<and> items (ws_queue s') = items (ws_queue s) \<and> ws_table s' = ws_table s"
  using discovery_registers [of R up 50 s] ingest_queue.discovery_drains [OF assms(1), of up 50 s]
    ingest_queue.discoveries_keep [OF assms(1), of up 50 s] assms(2,3)
  by (auto simp: process_datastream_discoveries_def sensor_ok_def [abs_def] sensor_key_def [abs_def])

section \<open>A writer on the reference structures\<close>

interpretation iq: ingest_queue plain_lists "\<lambda>q. q"
  unfolding ingest_queue_def by (rule pl.redis_lists_axioms)

definition ref_db :: telemetry_db where
  "ref_db = \<lparr>db_row = (\<lambda>org d t x. case org of
       JStr org_id \<Rightarrow> map_option (\<lambda>u. \<lparr>tr_org_id = u, tr_device_id = d, tr_ts = int (length t), tr_data = x\<rparr>)
         (parse_uuid org_id)
     | _ \<Rightarrow> None), db_refusal = OtherWriteError\<rparr>"

definition ex_org :: uuid where
  "ex_org = ''11111111-1111-1111-1111-111111111111''"

definition ex_writer :: "json list \<Rightarrow> json list writer_state" where
  "ex_writer q = \<lparr>ws_queue = q, ws_discovery = [], ws_table = [], ws_sensors = [], ws_devices = []\<rparr>"

definition ex_envelope :: "string \<Rightarrow> json" where
  "ex_envelope ts = telemetry_envelope ex_org ''d1'' \<lparr>rd_ts = ts, rd_data = [(''temp'', JInt 21)]\<rparr>"

definition ex_row :: "string \<Rightarrow> telemetry_row" where
  "ex_row ts = \<lparr>tr_org_id = ex_org, tr_device_id = ''d1'', tr_ts = int (length ts), tr_data = [(''temp'', JInt 21)]\<rparr>"

lemma ex_org_uuid: "parse_uuid ex_org = Some ex_org"
  by code_simp

lemma ex_envelope_row:
  assumes "strip ts \<noteq> []"
  shows "\<exists>env. parse_envelope (Some (ex_envelope ts)) = Some env \<and> row_of ref_db env = Inr (Some (ex_row ts))"
  using parse_telemetry_envelope [where d = "''d1''" and r = "\<lparr>rd_ts = ts, rd_data = [(''temp'', JInt 21)]\<rparr>"
      and org = ex_org and DB = ref_db] assms
  by (simp add: ex_envelope_def ref_db_def ex_org_uuid ex_row_def)

lemma ex_strip: "strip ''a'' = ''a''" "strip ''bb'' = ''bb''"
  by code_simp+


theorem batch_trim_exact_witness:
  "\<exists>s'. process_batch plain_lists ref_db 1000
      \<lparr>po_up = True, po_before_len = [], po_before_range = [], po_during_insert = [ex_envelope ''bb'']\<rparr>
      (ex_writer [ex_envelope ''a'']) = (Inr 1, s')
    \<and> ws_queue s' = [ex_envelope ''a''] \<and> ws_table s' = [ex_row ''a'']"
proof -
  let ?p = "\<lparr>po_up = True, po_before_len = [], po_before_range = [], po_during_insert = [ex_envelope ''bb'']\<rparr>"
    and ?s = "ex_writer [ex_envelope ''a'']"
  obtain env where env: "parse_envelope (Some (ex_envelope ''a'')) = Some env" "row_of ref_db env = Inr (Some (ex_row ''a''))"
    using ex_envelope_row [of "''a''"] by (auto simp: ex_strip)
  have envs: "envelopes_of [ex_envelope ''a''] = [env]"
    by (simp add: envelopes_of_def List.map_filter_simps env)
  have "insert_telemetry ref_db True [env] [] = Inr [ex_row ''a'']"
    by (simp add: insert_telemetry_def env)
  then obtain s' where run: "process_batch plain_lists ref_db 1000 ?p ?s = (Inr 1, s')"
    by (simp add: process_batch_def read_batch_def arrive_def plain_lists_def ex_writer_def envs slice_def)
  with batch_trim_exact [OF iq.ingest_queue_axioms _ run] show ?thesis
    by (auto simp: ex_writer_def envs env bind_res_eq_Inr Let_def)
qed



definition ex_message_state where
  "ex_message_state = dispatch ref_listener None (DateTime 2026 2 1 0) ''a'' ''iotaps/tok/telemetry''
     (Some (JObj [(''temp'', JInt 21)])) ex_listener"

definition ex_backlog where
  "ex_backlog = run_start (ex_writer (in_lists ex_message_state INGEST_QUEUE))"

theorem token_telemetry_wedges_witness:
  "ws_queue (wr_state ex_backlog) \<noteq> []
   \<and> ws_table (wr_state (run_ops (writer_step (ir_lists ref_listener) ref_db 1000) [Poll True, Restart, Poll True]
       ex_backlog)) = []"
proof -
  let ?p = "Some (JObj [(''temp'', JInt 21)])" and ?r = "\<lparr>rd_ts = ''a'', rd_data = [(''temp'', JInt 21)]\<rparr>"
    and ?ops = "[Poll True, Restart, Poll True]"
  have tpc: "split_on slash ''iotaps/tok/telemetry'' = [TOPIC_ROOT, ''tok'', mt_value TELEMETRY]" by code_simp
  have uuid: "parse_uuid ''tok'' = None" by code_simp
  have valid: "validate_telemetry_payload ''a'' ?p = Some ?r"
    by (simp add: validate_telemetry_payload_def decode_json_def dict_get_def simple_reading_def
        is_number_def)
  have refuses: "db_row ref_db (JStr org) d t x = None" if "parse_uuid org = None" for org d t x
    using that by (simp add: ref_db_def)
  have creds: "\<forall>c \<in> set (cs_credentials (in_commands ex_listener)). cd_device_id c \<noteq> []"
    by (simp add: ex_listener_def ex_cmd_state_def)
  have w: "ws_queue (wr_state ex_backlog) = in_lists ex_message_state INGEST_QUEUE"
    and table: "ws_table (wr_state ex_backlog) = []"
    by (simp_all add: ex_backlog_def run_start_def ex_writer_def)
  have bs: "0 < (1000::int)" and ts: "strip ''a'' \<noteq> []" and tok: "''tok'' \<noteq> []" by (simp_all add: ex_strip)
  note wedged = token_telemetry_wedges [OF lst.ingest_store_axioms bs refuses tpc tok uuid valid ts creds
      ex_message_state_def w refl, of ?ops]
  have "ws_table (wr_state (run_ops (writer_step (ir_lists ref_listener) ref_db 1000) ?ops ex_backlog))
      = ws_table (wr_state ex_backlog)"
    by (rule conjunct1 [OF wedged])
  moreover have "in_lists ex_message_state INGEST_QUEUE \<noteq> []"
    using wedged by (auto simp del: run_ops_simps)
  ultimately show ?thesis unfolding w by (simp only: table simp_thms)
qed

definition ex_discovery :: "json list writer_state" where
  "ex_discovery = \<lparr>ws_queue = [], ws_discovery = [JObj [(''device_id'', JStr ex_org), (''key'', JStr ''led_red'')],
     JObj [(''device_id'', JStr ex_org), (''key'', JStr ''led_red'')]], ws_table = [], ws_sensors = [],
     ws_devices = [\<lparr>dv_id = ex_org, dv_org_id = ''o1''\<rparr>]\<rparr>"

theorem discoveries_registered_once_witness:
  "map (\<lambda>r. (sn_org_id r, sn_display_name r, sn_pin_type r))
     (ws_sensors (process_datastream_discoveries plain_lists True ex_discovery)) = [(''o1'', ''Led Red'', ''toggle'')]
   \<and> distinct (map (\<lambda>r. (sn_device_id r, sn_key r))
       (ws_sensors (process_datastream_discoveries plain_lists True ex_discovery)))"
proof -
  have "display_name_of ''led_red'' = ''Led Red''" "pin_type_of ''led_red'' = ''toggle''" by code_simp+
  moreover have "rpop plain_lists [x, y] = Some (y, [x])" "rpop plain_lists [x] = Some (x, [])"
      "rpop plain_lists ([] :: json list) = None" for x y :: json
    by (simp_all add: plain_lists_def)
  ultimately have "map (\<lambda>r. (sn_org_id r, sn_display_name r, sn_pin_type r))
      (ws_sensors (process_datastream_discoveries plain_lists True ex_discovery)) = [(''o1'', ''Led Red'', ''toggle'')]"
    by (simp add: process_datastream_discoveries_def ex_discovery_def register_sensor_def ex_org_uuid eval_nat_numeral)
  then show ?thesis
    using discoveries_registered_once [OF iq.ingest_queue_axioms _ refl, of ex_discovery True]
    by (simp add: ex_discovery_def)
qed

end
