(* ===== verification/Devices.thy ===== *)
theory Devices imports Access Topics Plans "HOL-Library.List_Lexorder" "HOL-Library.Char_ord"
begin

text \<open>
  Devices: choosing an MQTT node (\<open>app/services/node_assignment.py\<close>) and the tenant-scoped device
  service (\<open>app/services/device_service.py\<close>).  The state \<open>fleet\<close> is the tables the service reads and
  writes.  Ids, tokens and device uids that are generated are arguments of the operations; an
  operation that fails leaves the committed tables as they were, because its transaction is rolled back.
  What other sessions do to the nodes while one is being claimed is an argument of \<open>assign_node\<close>.
\<close>

section \<open>Nodes\<close>

record mqtt_node =
  mn_id :: uuid
  mn_status :: "string option"
  mn_active_connections :: int
  mn_capacity :: int

definition ACTIVE_STATUS :: string where
  "ACTIVE_STATUS = ''active''"

definition NoCapacityError :: app_error where
  "NoCapacityError = AppError ''no_mqtt_capacity'' 503"

definition has_space :: "mqtt_node \<Rightarrow> bool" where
  "has_space n = (mn_active_connections n < mn_capacity n)"

definition node_candidates :: "mqtt_node list \<Rightarrow> mqtt_node list" where
  "node_candidates nodes =
     sort_key mn_active_connections (filter (\<lambda>n. mn_status n = Some ACTIVE_STATUS \<and> has_space n) nodes)"

text \<open>The guarded UPDATE of one candidate after the other; \<open>others i\<close> is what other sessions have done to
  the table before the \<open>i\<close>-th one.\<close>

fun claim_loop ::
  "(nat \<Rightarrow> mqtt_node list \<Rightarrow> mqtt_node list) \<Rightarrow> nat \<Rightarrow> uuid list \<Rightarrow> mqtt_node list
     \<Rightarrow> mqtt_node result \<times> mqtt_node list" where
  "claim_loop others i [] nodes = (fail NoCapacityError, nodes)"
| "claim_loop others i (k # ks) nodes =
     (let now = others i nodes in
      case find (\<lambda>n. mn_id n = k \<and> has_space n) now of
        Some n \<Rightarrow>
          (let n' = n\<lparr>mn_active_connections := mn_active_connections n + 1\<rparr>
           in (Inr n', tbl_put mn_id n' now))
      | None \<Rightarrow> claim_loop others (Suc i) ks now)"

definition assign_node ::
  "(nat \<Rightarrow> mqtt_node list \<Rightarrow> mqtt_node list) \<Rightarrow> mqtt_node list \<Rightarrow> mqtt_node result \<times> mqtt_node list" where
  "assign_node others nodes = claim_loop others 0 (map mn_id (node_candidates nodes)) nodes"

text \<open>No other session.\<close>

definition alone :: "nat \<Rightarrow> mqtt_node list \<Rightarrow> mqtt_node list" where
  "alone i nodes = nodes"

section \<open>The tables\<close>

record fleet_device =
  fd_id :: uuid
  fd_org_id :: uuid
  fd_device_uid :: "string option"
  fd_label :: "string option"
  fd_group_id :: "uuid option"
  fd_node_id :: "uuid option"
  fd_status :: string
  fd_maintenance_mode :: bool
  fd_is_simulator :: bool
  fd_sim_interval_sec :: int
  fd_template_id :: "uuid option"

record mqtt_credential =
  mc_org_id :: uuid
  mc_device_id :: uuid
  mc_token :: string
  mc_acl_pattern :: string
  mc_revoked :: bool

record device_group =
  dg_id :: uuid
  dg_org_id :: uuid
  dg_name :: string

record fleet_user =
  fu_id :: uuid
  fu_org_id :: uuid

record activity_log =
  al_org_id :: uuid
  al_user_id :: "uuid option"
  al_device_id :: "uuid option"
  al_action :: string
  al_detail :: json

record fleet =
  fl_devices :: "fleet_device list"
  fl_credentials :: "mqtt_credential list"
  fl_nodes :: "mqtt_node list"
  fl_groups :: "device_group list"
  fl_assignments :: "device_assignment list"
  fl_users :: "fleet_user list"
  fl_orgs :: "uuid \<rightharpoonup> string option"
  fl_templates :: "uuid list"
  fl_log :: "activity_log list"

definition ACTION_PROVISION :: string where "ACTION_PROVISION = ''device.provision''"
definition ACTION_ASSIGN :: string where "ACTION_ASSIGN = ''device.assign''"
definition ACTION_RENAME :: string where "ACTION_RENAME = ''device.rename''"
definition ACTION_CONFIG_CHANGE :: string where "ACTION_CONFIG_CHANGE = ''device.config_change''"
definition ACTION_DELETE :: string where "ACTION_DELETE = ''device.delete''"

definition device_org_uuid :: "principal \<Rightarrow> uuid result" where
  "device_org_uuid p = (case parse_uuid (pr_org_id p) of Some u \<Rightarrow> Inr u | None \<Rightarrow> Inl ValueError)"

definition log_activity ::
  "principal \<Rightarrow> string \<Rightarrow> uuid option \<Rightarrow> json \<Rightarrow> fleet \<Rightarrow> fleet result" where
  "log_activity p action device_id detail fl =
     bind_res (device_org_uuid p) (\<lambda>org.
       Inr (fl\<lparr>fl_log := fl_log fl @ [\<lparr>al_org_id = org, al_user_id = parse_uuid (pr_user_id p),
         al_device_id = device_id, al_action = action, al_detail = detail\<rparr>]\<rparr>))"

section \<open>Provisioning\<close>

definition fleet_org_plan :: "fleet \<Rightarrow> uuid \<Rightarrow> string option" where
  "fleet_org_plan fl org = (case fl_orgs fl org of Some plan \<Rightarrow> plan | None \<Rightarrow> None)"

definition count_devices :: "fleet \<Rightarrow> uuid \<Rightarrow> nat" where
  "count_devices fl org = length (filter (\<lambda>d. fd_org_id d = org) (fl_devices fl))"

definition enforce_device_limit :: "principal \<Rightarrow> fleet \<Rightarrow> unit result" where
  "enforce_device_limit p fl =
     bind_res (device_org_uuid p) (\<lambda>org.
       case pl_max_devices (limits_for_plan (fleet_org_plan fl org)) of
         None \<Rightarrow> Inr ()
       | Some limit \<Rightarrow> guard_res (count_devices fl org \<ge> limit) PlanLimitError)"

definition opt_json :: "string option \<Rightarrow> json" where
  "opt_json x = (case x of None \<Rightarrow> JNull | Some s \<Rightarrow> JStr s)"

definition check_group :: "principal \<Rightarrow> fleet \<Rightarrow> uuid option \<Rightarrow> unit result" where
  "check_group p fl group_id =
     (case group_id of
        None \<Rightarrow> Inr ()
      | Some g \<Rightarrow> bind_res (scope_get p dg_id dg_org_id (fl_groups fl) g) (\<lambda>_. Inr ()))"

text \<open>The columns the database checks when a device row is written: its organization and template exist
  and its id and uid are free.\<close>

definition insert_device :: "fleet_device \<Rightarrow> fleet \<Rightarrow> fleet result" where
  "insert_device d fl =
     (if fl_orgs fl (fd_org_id d) = None \<or> fd_id d \<in> fd_id ` set (fl_devices fl)
         \<or> (case fd_device_uid d of None \<Rightarrow> False | Some u \<Rightarrow> Some u \<in> fd_device_uid ` set (fl_devices fl))
         \<or> (case fd_template_id d of None \<Rightarrow> False | Some t \<Rightarrow> t \<notin> set (fl_templates fl))
      then Inl IntegrityError
      else Inr (fl\<lparr>fl_devices := fl_devices fl @ [d]\<rparr>))"

definition insert_credential :: "mqtt_credential \<Rightarrow> fleet \<Rightarrow> fleet result" where
  "insert_credential c fl =
     bind_res (insert_row mc_token c (fl_credentials fl)) (\<lambda>rows. Inr (fl\<lparr>fl_credentials := rows\<rparr>))"

definition new_device ::
  "uuid \<Rightarrow> uuid \<Rightarrow> string \<Rightarrow> string option \<Rightarrow> uuid option \<Rightarrow> uuid option \<Rightarrow> fleet_device" where
  "new_device org new_id uid label group_id template_id =
     \<lparr>fd_id = new_id, fd_org_id = org, fd_device_uid = Some uid, fd_label = label,
      fd_group_id = group_id, fd_node_id = None, fd_status = ''offline'', fd_maintenance_mode = False,
      fd_is_simulator = False, fd_sim_interval_sec = 60, fd_template_id = template_id\<rparr>"

definition new_credential :: "principal \<Rightarrow> uuid \<Rightarrow> uuid \<Rightarrow> string \<Rightarrow> mqtt_credential" where
  "new_credential p org device_id token =
     \<lparr>mc_org_id = org, mc_device_id = device_id, mc_token = token,
      mc_acl_pattern = org_acl_pattern (pr_org_id p), mc_revoked = False\<rparr>"

definition provision_device ::
  "principal \<Rightarrow> uuid \<Rightarrow> string \<Rightarrow> string \<Rightarrow> string option \<Rightarrow> uuid option \<Rightarrow> uuid option \<Rightarrow> string option
     \<Rightarrow> fleet \<Rightarrow> ((fleet_device \<times> mqtt_credential \<times> string) \<times> fleet) result" where
  "provision_device p new_id new_uid device_token label group_id template_id device_uid fl =
     bind_res (check_group p fl group_id) (\<lambda>_.
     bind_res (enforce_device_limit p fl) (\<lambda>_.
     bind_res (device_org_uuid p) (\<lambda>org.
       let uid = (case device_uid of Some (c # cs) \<Rightarrow> c # cs | _ \<Rightarrow> new_uid);
           device = new_device org new_id uid label group_id template_id
       in bind_res (insert_device device fl) (\<lambda>fl1.
          let (claimed, nodes) = assign_node alone (fl_nodes fl1) in
          bind_res claimed (\<lambda>node.
            let device' = device\<lparr>fd_node_id := Some (mn_id node)\<rparr>;
                fl2 = fl1\<lparr>fl_nodes := nodes, fl_devices := tbl_put fd_id device' (fl_devices fl1)\<rparr>;
                credential = new_credential p org new_id device_token
            in bind_res (insert_credential credential fl2) (\<lambda>fl3.
               bind_res (log_activity p ACTION_PROVISION (Some new_id)
                 (JObj [(''device_uid'', JStr uid), (''node_id'', JStr (mn_id node))]) fl3) (\<lambda>fl4.
               Inr ((device', credential, device_token), fl4))))))))"

section \<open>Reading and updating\<close>

text \<open>The tables are in the order of creation, so newest first is their reverse.\<close>

definition list_devices ::
  "principal \<Rightarrow> uuid option \<Rightarrow> string option \<Rightarrow> fleet \<Rightarrow> fleet_device list" where
  "list_devices p group_id status fl =
     rev (filter (\<lambda>d. (case status of None \<Rightarrow> True | Some st \<Rightarrow> fd_status d = st)
                    \<and> (case group_id of None \<Rightarrow> True | Some g \<Rightarrow> fd_group_id d = Some g))
            (scope_select p fd_org_id (fl_devices fl)))"

definition get_device :: "principal \<Rightarrow> uuid \<Rightarrow> fleet \<Rightarrow> fleet_device result" where
  "get_device p device_id fl = scope_get p fd_id fd_org_id (fl_devices fl) device_id"

definition put_device :: "fleet_device \<Rightarrow> fleet \<Rightarrow> fleet" where
  "put_device d fl = fl\<lparr>fl_devices := tbl_put fd_id d (fl_devices fl)\<rparr>"

text \<open>\<open>None\<close> as the new label or group is a field the request leaves out; \<open>Some None\<close> sets it to null.\<close>

definition relabel ::
  "principal \<Rightarrow> string option option \<Rightarrow> fleet_device \<Rightarrow> fleet \<Rightarrow> (fleet_device \<times> fleet) result" where
  "relabel p label_set d fl =
     (case label_set of
        None \<Rightarrow> Inr (d, fl)
      | Some label \<Rightarrow>
          if label = fd_label d then Inr (d, fl)
          else bind_res (log_activity p ACTION_RENAME (Some (fd_id d))
              (JObj [(''old_label'', opt_json (fd_label d)), (''new_label'', opt_json label)]) fl)
            (\<lambda>fl1. Inr (d\<lparr>fd_label := label\<rparr>, fl1)))"

definition regroup ::
  "principal \<Rightarrow> fleet \<Rightarrow> uuid option option \<Rightarrow> fleet_device \<Rightarrow> (fleet_device \<times> (string \<times> json) list) result" where
  "regroup p fl group_set d =
     (case group_set of
        None \<Rightarrow> Inr (d, [])
      | Some group_id \<Rightarrow>
          if group_id = fd_group_id d then Inr (d, [])
          else bind_res (check_group p fl group_id)
            (\<lambda>_. Inr (d\<lparr>fd_group_id := group_id\<rparr>, [(''group_id'', opt_json group_id)])))"

definition set_maintenance ::
  "bool option \<Rightarrow> fleet_device \<times> (string \<times> json) list \<Rightarrow> fleet_device \<times> (string \<times> json) list" where
  "set_maintenance maintenance_mode dc =
     (case maintenance_mode of
        None \<Rightarrow> dc
      | Some m \<Rightarrow>
          if m = fd_maintenance_mode (fst dc) then dc
          else ((fst dc)\<lparr>fd_maintenance_mode := m\<rparr>, snd dc @ [(''maintenance_mode'', JBool m)]))"

definition update_device ::
  "principal \<Rightarrow> uuid \<Rightarrow> string option option \<Rightarrow> uuid option option \<Rightarrow> bool option \<Rightarrow> fleet
     \<Rightarrow> (fleet_device \<times> fleet) result" where
  "update_device p device_id label_set group_set maintenance_mode fl =
     bind_res (get_device p device_id fl) (\<lambda>d.
     bind_res (relabel p label_set d fl) (\<lambda>(d1, fl1).
     bind_res (regroup p fl1 group_set d1) (\<lambda>dc.
       let dc' = set_maintenance maintenance_mode dc; config_changes = snd dc' in
       bind_res (if config_changes = [] then Inr fl1
                 else log_activity p ACTION_CONFIG_CHANGE (Some (fd_id d)) (JObj config_changes) fl1) (\<lambda>fl2.
       Inr (fst dc', put_device (fst dc') fl2)))))"

section \<open>Deleting\<close>

text \<open>Deleting the row of a device: the database deletes its credentials and assignments with it and
  clears the reference to it in the log.\<close>

definition drop_device :: "uuid \<Rightarrow> fleet \<Rightarrow> fleet" where
  "drop_device k fl = fl\<lparr>
     fl_devices := filter (\<lambda>d. fd_id d \<noteq> k) (fl_devices fl),
     fl_credentials := filter (\<lambda>c. mc_device_id c \<noteq> k) (fl_credentials fl),
     fl_assignments := filter (\<lambda>a. da_device_id a \<noteq> k) (fl_assignments fl),
     fl_log := map (\<lambda>l. if al_device_id l = Some k then l\<lparr>al_device_id := None\<rparr> else l) (fl_log fl)\<rparr>"

definition delete_device :: "principal \<Rightarrow> uuid \<Rightarrow> fleet \<Rightarrow> (unit \<times> fleet) result" where
  "delete_device p device_id fl =
     bind_res (get_device p device_id fl) (\<lambda>d.
       let fl1 = fl\<lparr>fl_credentials := map (\<lambda>c. if mc_device_id c = fd_id d then c\<lparr>mc_revoked := True\<rparr> else c)
             (fl_credentials fl)\<rparr>
       in bind_res (log_activity p ACTION_DELETE (Some (fd_id d))
            (JObj [(''device_uid'', opt_json (fd_device_uid d))]) fl1) (\<lambda>fl2.
          Inr ((), drop_device (fd_id d) fl2)))"

section \<open>Groups and assignments\<close>

definition list_groups :: "principal \<Rightarrow> fleet \<Rightarrow> device_group list" where
  "list_groups p fl = sort_key dg_name (scope_select p dg_org_id (fl_groups fl))"

definition create_group :: "principal \<Rightarrow> uuid \<Rightarrow> string \<Rightarrow> fleet \<Rightarrow> (device_group \<times> fleet) result" where
  "create_group p new_id name fl =
     bind_res (guard_res (strip name = []) (ValidationError ''invalid_group_name'')) (\<lambda>_.
     bind_res (device_org_uuid p) (\<lambda>org.
       let g = \<lparr>dg_id = new_id, dg_org_id = org, dg_name = strip name\<rparr> in
       if fl_orgs fl org = None then Inl IntegrityError
       else bind_res (insert_row dg_id g (fl_groups fl)) (\<lambda>rows. Inr (g, fl\<lparr>fl_groups := rows\<rparr>))))"

definition assign_device_to_user ::
  "principal \<Rightarrow> uuid \<Rightarrow> uuid \<Rightarrow> fleet \<Rightarrow> (device_assignment \<times> fleet) result" where
  "assign_device_to_user p device_id user_id fl =
     bind_res (get_device p device_id fl) (\<lambda>d.
       case tbl_get fu_id (fl_users fl) user_id of
         None \<Rightarrow> fail (NotFoundError ''not_found'')
       | Some u \<Rightarrow>
           if \<not> scope_bypass p \<and> fu_org_id u \<noteq> pr_org_id p then fail (NotFoundError ''not_found'')
           else
             (case find (\<lambda>a. da_device_id a = fd_id d \<and> da_user_id a = user_id) (fl_assignments fl) of
                Some a \<Rightarrow> Inr (a, fl)
              | None \<Rightarrow>
                  (let a = \<lparr>da_device_id = fd_id d, da_user_id = user_id, da_org_id = fd_org_id d\<rparr> in
                   bind_res (log_activity p ACTION_ASSIGN (Some (fd_id d)) (JObj [(''user_id'', JStr user_id)])
                     (fl\<lparr>fl_assignments := fl_assignments fl @ [a]\<rparr>)) (\<lambda>fl1. Inr (a, fl1)))))"

section \<open>Simulator and QR code\<close>

definition start_simulator :: "principal \<Rightarrow> uuid \<Rightarrow> int \<Rightarrow> fleet \<Rightarrow> (fleet_device \<times> fleet) result" where
  "start_simulator p device_id interval_sec fl =
     bind_res (guard_res (interval_sec < 0) (ValidationError ''invalid_sim_interval'')) (\<lambda>_.
     bind_res (get_device p device_id fl) (\<lambda>d.
       let d' = d\<lparr>fd_is_simulator := True, fd_sim_interval_sec := interval_sec\<rparr> in
       bind_res (log_activity p ACTION_CONFIG_CHANGE (Some (fd_id d))
         (JObj [(''is_simulator'', JBool True), (''sim_interval_sec'', JInt interval_sec)]) (put_device d' fl)) (\<lambda>fl1.
       Inr (d', fl1))))"

definition stop_simulator :: "principal \<Rightarrow> uuid \<Rightarrow> fleet \<Rightarrow> (fleet_device \<times> fleet) result" where
  "stop_simulator p device_id fl =
     bind_res (get_device p device_id fl) (\<lambda>d.
       let d' = d\<lparr>fd_sim_interval_sec := 0\<rparr> in
       bind_res (log_activity p ACTION_CONFIG_CHANGE (Some (fd_id d))
         (JObj [(''simulator_stopped'', JBool True), (''sim_interval_sec'', JInt 0)]) (put_device d' fl)) (\<lambda>fl1.
       Inr (d', fl1)))"

definition device_display_name :: "fleet_device \<Rightarrow> string" where
  "device_display_name d =
     (case fd_label d of
        Some label \<Rightarrow> if strip label \<noteq> [] then label
          else (case fd_device_uid d of Some (c # cs) \<Rightarrow> c # cs | _ \<Rightarrow> fd_id d)
      | None \<Rightarrow> (case fd_device_uid d of Some (c # cs) \<Rightarrow> c # cs | _ \<Rightarrow> fd_id d))"

definition build_qr_payload :: "fleet_device \<Rightarrow> string" where
  "build_qr_payload d = ''iotaps:device?org='' @ fd_org_id d @ ''&id='' @ fd_id d @ ''&uid=''
     @ (case fd_device_uid d of Some u \<Rightarrow> u | None \<Rightarrow> [])"

section \<open>Runs\<close>

datatype fleet_op =
    Provision principal uuid string string "string option" "uuid option" "uuid option" "string option"
  | Update principal uuid "string option option" "uuid option option" "bool option"
  | Delete principal uuid
  | Create_group principal uuid string
  | Assign principal uuid uuid
  | Start_simulator principal uuid int
  | Stop_simulator principal uuid

fun fleet_caller :: "fleet_op \<Rightarrow> principal" where
  "fleet_caller (Provision p _ _ _ _ _ _ _) = p"
| "fleet_caller (Update p _ _ _ _) = p"
| "fleet_caller (Delete p _) = p"
| "fleet_caller (Create_group p _ _) = p"
| "fleet_caller (Assign p _ _) = p"
| "fleet_caller (Start_simulator p _ _) = p"
| "fleet_caller (Stop_simulator p _) = p"

text \<open>A request commits when it succeeds and leaves the tables as they were when it fails.\<close>

fun fleet_step :: "fleet_op \<Rightarrow> fleet \<Rightarrow> fleet" where
  "fleet_step (Provision p i u t l g te du) fl = commit (provision_device p i u t l g te du) fl"
| "fleet_step (Update p i l g m) fl = commit (update_device p i l g m) fl"
| "fleet_step (Delete p i) fl = commit (delete_device p i) fl"
| "fleet_step (Create_group p i n) fl = commit (create_group p i n) fl"
| "fleet_step (Assign p i u) fl = commit (assign_device_to_user p i u) fl"
| "fleet_step (Start_simulator p i n) fl = commit (start_simulator p i n) fl"
| "fleet_step (Stop_simulator p i) fl = commit (stop_simulator p i) fl"

section \<open>Claiming a node\<close>

definition within_capacity :: "mqtt_node list \<Rightarrow> bool" where
  "within_capacity nodes = list_all (\<lambda>n. mn_active_connections n \<le> mn_capacity n) nodes"

lemma within_capacity_put:
  "within_capacity nodes \<Longrightarrow> mn_active_connections n \<le> mn_capacity n \<Longrightarrow> within_capacity (tbl_put mn_id n nodes)"
  by (auto simp: within_capacity_def list_all_iff dest: in_set_tbl_put)

lemma claim_within:
  assumes "\<And>i ns. within_capacity ns \<Longrightarrow> within_capacity (others i ns)" "within_capacity nodes"
    and "claim_loop others i ks nodes = (res, nodes')"
  shows "within_capacity nodes' \<and> (\<forall>n. res = Inr n \<longrightarrow> n \<in> set nodes' \<and> mn_active_connections n \<le> mn_capacity n)"
  using assms(2,3)
proof (induction ks arbitrary: i nodes)
  case Nil
  then show ?case by (auto simp: fail_def)
next
  case (Cons k ks)
  note now = assms(1) [OF Cons.prems(1), of i]
  show ?case
  proof (cases "find (\<lambda>n. mn_id n = k \<and> has_space n) (others i nodes)")
    case None
    with Cons.prems(2) now Cons.IH [of "others i nodes" "Suc i"] show ?thesis by (simp add: Let_def)
  next
    case (Some n)
    let ?n = "n\<lparr>mn_active_connections := mn_active_connections n + 1\<rparr>"
    have n: "n \<in> set (others i nodes)" "has_space n" using Some by (auto simp: find_Some_iff)
    then have "?n \<in> set (tbl_put mn_id ?n (others i nodes))" by (force simp: tbl_put_def)
    with n now within_capacity_put [OF now, of ?n] Cons.prems(2) Some show ?thesis
      by (auto simp: has_space_def Let_def)
  qed
qed

lemma claim_first:
  assumes "distinct (map mn_id nodes)" "n \<in> set nodes" "has_space n"
    and "n' = n\<lparr>mn_active_connections := mn_active_connections n + 1\<rparr>"
  shows "claim_loop alone i (mn_id n # ks) nodes = (Inr n', tbl_put mn_id n' nodes)"
proof -
  have "find (\<lambda>x. mn_id x = mn_id n \<and> has_space x) nodes = Some n"
    using assms(1,2,3) by (induction nodes) (auto simp: image_iff)
  then show ?thesis by (simp add: alone_def assms(4) Let_def)
qed

definition eligible :: "mqtt_node \<Rightarrow> bool" where
  "eligible n = (mn_status n = Some ACTIVE_STATUS \<and> has_space n)"

lemma candidates_eligible: "node_candidates nodes = sort_key mn_active_connections (filter eligible nodes)"
  by (simp add: node_candidates_def eligible_def [abs_def])

lemma assign_alone:
  assumes "distinct (map mn_id nodes)"
  shows "(\<forall>n \<in> set nodes. \<not> eligible n) \<and> assign_node alone nodes = (fail NoCapacityError, nodes)
    \<or> (\<exists>n \<in> set nodes. eligible n
         \<and> (\<forall>m \<in> set nodes. eligible m \<longrightarrow> mn_active_connections n \<le> mn_active_connections m)
         \<and> (let n' = n\<lparr>mn_active_connections := mn_active_connections n + 1\<rparr>
            in assign_node alone nodes = (Inr n', tbl_put mn_id n' nodes)))"
proof (cases "node_candidates nodes")
  case Nil
  then have "filter eligible nodes = []" by (metis candidates_eligible set_empty set_sort)
  with Nil show ?thesis by (auto simp: filter_empty_conv assign_node_def)
next
  case (Cons n ns)
  have set: "set (node_candidates nodes) = {x \<in> set nodes. eligible x}"
    by (auto simp: candidates_eligible)
  have "sorted (map mn_active_connections (n # ns))"
    using sorted_sort_key [of mn_active_connections "filter eligible nodes"] Cons
    by (simp only: candidates_eligible [symmetric])
  then have least: "\<forall>m \<in> set (node_candidates nodes). mn_active_connections n \<le> mn_active_connections m"
    using Cons by auto
  have n: "n \<in> set nodes" "eligible n" using set Cons by auto
  have "assign_node alone nodes = claim_loop alone 0 (mn_id n # map mn_id ns) nodes"
    by (simp only: assign_node_def Cons list.map)
  also have "\<dots> = (let n' = n\<lparr>mn_active_connections := mn_active_connections n + 1\<rparr>
      in (Inr n', tbl_put mn_id n' nodes))"
    using n claim_first [OF assms n(1) _ refl] by (simp add: eligible_def Let_def del: claim_loop.simps)
  finally have run: "assign_node alone nodes = \<dots>" .
  moreover have "\<forall>m \<in> set nodes. eligible m \<longrightarrow> mn_active_connections n \<le> mn_active_connections m"
    using least set by simp
  ultimately show ?thesis using n unfolding Let_def by blast
qed

section \<open>The invariant of the tables\<close>

text \<open>What the invariant is about: the id, the organization and the node of each device.\<close>

definition core :: "fleet \<Rightarrow> (uuid \<times> uuid \<times> uuid option) list" where
  "core fl = map (\<lambda>d. (fd_id d, fd_org_id d, fd_node_id d)) (fl_devices fl)"

definition credentials_ok :: "(uuid \<times> uuid \<times> uuid option) list \<Rightarrow> mqtt_credential list \<Rightarrow> bool" where
  "credentials_ok ds cs \<longleftrightarrow>
     distinct (map mc_token cs) \<and> distinct (map mc_device_id cs)
     \<and> set (map mc_device_id cs) = set (map fst ds)
     \<and> (\<forall>c \<in> set cs. \<not> mc_revoked c \<and> (\<exists>n. (mc_device_id c, mc_org_id c, n) \<in> set ds)
          \<and> mc_acl_pattern c = org_acl_pattern (mc_org_id c))"

definition nodes_ok :: "(uuid \<times> uuid \<times> uuid option) list \<Rightarrow> mqtt_node list \<Rightarrow> bool" where
  "nodes_ok ds ns \<longleftrightarrow>
     distinct (map mn_id ns)
     \<and> (\<forall>n \<in> set ns. int (length (filter (\<lambda>(i, o', k). k = Some (mn_id n)) ds)) \<le> mn_active_connections n
          \<and> mn_active_connections n \<le> mn_capacity n)"

definition limits_ok :: "(uuid \<times> uuid \<times> uuid option) list \<Rightarrow> (uuid \<rightharpoonup> string option) \<Rightarrow> bool" where
  "limits_ok ds orgs \<longleftrightarrow>
     (\<forall>org l. pl_max_devices (limits_for_plan (case orgs org of Some plan \<Rightarrow> plan | None \<Rightarrow> None)) = Some l
        \<longrightarrow> length (filter (\<lambda>(i, o', k). o' = org) ds) \<le> l)"

definition assignments_ok :: "(uuid \<times> uuid \<times> uuid option) list \<Rightarrow> device_assignment list \<Rightarrow> bool" where
  "assignments_ok ds asg \<longleftrightarrow>
     (\<forall>a \<in> set asg. \<exists>n. (da_device_id a, da_org_id a, n) \<in> set ds)
     \<and> distinct (map (\<lambda>a. (da_device_id a, da_user_id a)) asg)"

definition fleet_ok :: "fleet \<Rightarrow> bool" where
  "fleet_ok fl \<longleftrightarrow> distinct (map fst (core fl)) \<and> credentials_ok (core fl) (fl_credentials fl)
     \<and> nodes_ok (core fl) (fl_nodes fl) \<and> limits_ok (core fl) (fl_orgs fl)
     \<and> assignments_ok (core fl) (fl_assignments fl)"

definition fleet_same :: "fleet \<Rightarrow> fleet \<Rightarrow> bool" where
  "fleet_same fl fl' \<longleftrightarrow> core fl' = core fl \<and> fl_credentials fl' = fl_credentials fl
     \<and> fl_nodes fl' = fl_nodes fl \<and> fl_orgs fl' = fl_orgs fl \<and> fl_assignments fl' = fl_assignments fl"

lemma fleet_ok_same: "fleet_ok fl \<Longrightarrow> fleet_same fl fl' \<Longrightarrow> fleet_ok fl'"
  by (simp add: fleet_ok_def fleet_same_def)

lemma core_ids: "map fst (core fl) = map fd_id (fl_devices fl)"
  by (simp add: core_def)

lemma log_Inr:
  "log_activity p action device_id detail fl = Inr fl' \<Longrightarrow> \<exists>l. fl' = fl\<lparr>fl_log := fl_log fl @ [l]\<rparr>"
  by (auto simp: log_activity_def bind_res_eq_Inr)

lemma core_log [simp]: "core (fl\<lparr>fl_log := l\<rparr>) = core fl"
  by (simp add: core_def)

lemma core_put:
  assumes "distinct (map fd_id (fl_devices fl))" "tbl_get fd_id (fl_devices fl) k = Some d"
    and "fd_id d' = fd_id d" "fd_org_id d' = fd_org_id d" "fd_node_id d' = fd_node_id d"
  shows "core (put_device d' fl) = core fl"
proof -
  have "d \<in> set (fl_devices fl)" using assms(2) by (blast dest: tbl_get_Some)
  with assms(1) have "x = d" if "x \<in> set (fl_devices fl)" "fd_id x = fd_id d" for x
    using that by (auto simp: distinct_map dest: inj_onD)
  with assms(3,4,5) show ?thesis
    using tbl_put_map [of "fl_devices fl" fd_id d' "\<lambda>d. (fd_id d, fd_org_id d, fd_node_id d)"]
    by (fastforce simp: core_def put_device_def)
qed

lemma get_device_Inr:
  "get_device p k fl = Inr d \<Longrightarrow> tbl_get fd_id (fl_devices fl) k = Some d \<and> d \<in> set (fl_devices fl) \<and> fd_id d = k
     \<and> (is_super_admin p \<or> fd_org_id d = pr_org_id p)"
  by (auto simp: get_device_def scope_get_def fail_def split: option.splits if_splits dest: tbl_get_Some)

definition same_device :: "fleet_device \<Rightarrow> fleet_device \<Rightarrow> bool" where
  "same_device d d' \<longleftrightarrow> fd_id d' = fd_id d \<and> fd_org_id d' = fd_org_id d \<and> fd_node_id d' = fd_node_id d"

lemma relabel_Inr:
  "relabel p l d fl = Inr (d', fl') \<Longrightarrow> same_device d d' \<and> (\<exists>lg. fl' = fl\<lparr>fl_log := lg\<rparr>)"
  by (auto simp: relabel_def same_device_def bind_res_eq_Inr dest!: log_Inr split: option.splits if_splits
      intro: exI [of _ "fl_log fl"])

lemma regroup_Inr: "regroup p fl g d = Inr dc \<Longrightarrow> same_device d (fst dc)"
  by (auto simp: regroup_def same_device_def bind_res_eq_Inr split: option.splits if_splits)

lemma set_maintenance_same: "same_device (fst dc) (fst (set_maintenance m dc))"
  by (auto simp: set_maintenance_def same_device_def split: option.split)

lemma update_device_Inr:
  assumes "update_device p k l g m fl = Inr (d', fl')"
  shows "\<exists>d lg. get_device p k fl = Inr d \<and> same_device d d' \<and> fl' = put_device d' (fl\<lparr>fl_log := lg\<rparr>)"
proof -
  obtain d d1 fl1 dc fl2 where a: "get_device p k fl = Inr d" "relabel p l d fl = Inr (d1, fl1)"
      "regroup p fl1 g d1 = Inr dc"
    and b: "(if snd (set_maintenance m dc) = [] then Inr fl1
       else log_activity p ACTION_CONFIG_CHANGE (Some (fd_id d)) (JObj (snd (set_maintenance m dc))) fl1) = Inr fl2"
      "d' = fst (set_maintenance m dc)" "fl' = put_device (fst (set_maintenance m dc)) fl2"
    using assms unfolding update_device_def Let_def bind_res_eq_Inr
    by (elim exE conjE) (simp only: bind_res_eq_Inr split: prod.splits, blast)
  then have fl2: "fl2 = fl1 \<or> (\<exists>lg. fl2 = fl1\<lparr>fl_log := lg\<rparr>)" "d' = fst (set_maintenance m dc)"
      "fl' = put_device d' fl2"
    by (auto dest!: log_Inr split: if_splits)
  obtain lg1 where lg1: "fl1 = fl\<lparr>fl_log := lg1\<rparr>" using relabel_Inr [OF a(2)] by blast
  have "same_device d d'"
    using relabel_Inr [OF a(2)] regroup_Inr [OF a(3)] set_maintenance_same [of dc m] fl2(2)
    by (simp add: same_device_def)
  moreover have "\<exists>lg. fl' = put_device d' (fl\<lparr>fl_log := lg\<rparr>)" using fl2 lg1 by auto
  ultimately show ?thesis using a(1) by blast
qed

lemma same_put_log:
  assumes "distinct (map fst (core fl))" "get_device p k fl = Inr d"
    and "same_device d d'"
  shows "fleet_same fl ((put_device d' fl)\<lparr>fl_log := lg\<rparr>) \<and> fleet_same fl (put_device d' (fl\<lparr>fl_log := lg\<rparr>))"
proof -
  have "core (put_device d' fl) = core fl"
    using core_put [of fl k d d'] assms(1,3) get_device_Inr [OF assms(2)]
    by (auto simp: core_ids same_device_def)
  moreover have "core (put_device d' (fl\<lparr>fl_log := lg\<rparr>)) = core (put_device d' fl)"
    by (simp add: core_def put_device_def)
  ultimately show ?thesis by (simp add: fleet_same_def) (simp add: put_device_def)
qed

lemma update_same:
  assumes "distinct (map fst (core fl))" "update_device p k l g m fl = Inr (d', fl')"
  shows "fleet_same fl fl'"
  using update_device_Inr [OF assms(2)] same_put_log [OF assms(1)] by blast

lemma simulator_Inr:
  assumes "start_simulator p k n fl = Inr (d', fl') \<or> stop_simulator p k fl = Inr (d', fl')"
  shows "\<exists>d l. get_device p k fl = Inr d \<and> same_device d d' \<and> fl' = (put_device d' fl)\<lparr>fl_log := l\<rparr>"
proof -
  obtain d l where "get_device p k fl = Inr d" "same_device d d'" "fl' = (put_device d' fl)\<lparr>fl_log := l\<rparr>"
    using assms
    by (auto simp: same_device_def start_simulator_def stop_simulator_def bind_res_eq_Inr Let_def dest!: log_Inr)
  then show ?thesis by blast
qed

lemma simulator_same:
  assumes "distinct (map fst (core fl))"
    and "start_simulator p k n fl = Inr (d', fl') \<or> stop_simulator p k fl = Inr (d', fl')"
  shows "fleet_same fl fl'"
  using simulator_Inr [OF assms(2)] same_put_log [OF assms(1)] by blast

lemma group_same: "create_group p k n fl = Inr (x, fl') \<Longrightarrow> fleet_same fl fl'"
  by (auto simp: create_group_def bind_res_eq_Inr Let_def fleet_same_def core_def split: if_splits)

lemma assign_Inr:
  assumes "assign_device_to_user p k u fl = Inr (a, fl')"
  shows "\<exists>d. get_device p k fl = Inr d \<and> (fl' = fl
    \<or> (find (\<lambda>a. da_device_id a = fd_id d \<and> da_user_id a = u) (fl_assignments fl) = None
      \<and> (\<exists>l. fl' = fl\<lparr>fl_assignments := fl_assignments fl @ [\<lparr>da_device_id = fd_id d, da_user_id = u,
            da_org_id = fd_org_id d\<rparr>], fl_log := l\<rparr>)))"
proof -
  obtain d v where d: "get_device p k fl = Inr d" "tbl_get fu_id (fl_users fl) u = Some v"
      "scope_bypass p \<or> fu_org_id v = pr_org_id p"
    using assms by (auto simp: assign_device_to_user_def bind_res_eq_Inr fail_def split: option.splits if_splits)
  show ?thesis
  proof (cases "find (\<lambda>a. da_device_id a = fd_id d \<and> da_user_id a = u) (fl_assignments fl)")
    case None
    with assms d show ?thesis by (auto simp: assign_device_to_user_def bind_res_eq_Inr Let_def dest!: log_Inr)
  next
    case (Some x)
    with assms d show ?thesis by (auto simp: assign_device_to_user_def)
  qed
qed

lemma assign_ok:
  assumes "fleet_ok fl" "assign_device_to_user p k u fl = Inr (a, fl')"
  shows "fleet_ok fl'"
proof -
  obtain d where d: "get_device p k fl = Inr d"
    and r: "fl' = fl \<or> (find (\<lambda>a. da_device_id a = fd_id d \<and> da_user_id a = u) (fl_assignments fl) = None
      \<and> (\<exists>l. fl' = fl\<lparr>fl_assignments := fl_assignments fl @ [\<lparr>da_device_id = fd_id d, da_user_id = u,
            da_org_id = fd_org_id d\<rparr>], fl_log := l\<rparr>))"
    using assign_Inr [OF assms(2)] by blast
  have "(fd_id d, fd_org_id d, fd_node_id d) \<in> set (core fl)"
    using get_device_Inr [OF d] by (auto simp: core_def)
  then have mem: "\<exists>n. (fd_id d, fd_org_id d, n) \<in> set (core fl)" by blast
  show ?thesis
    using r
  proof (elim disjE exE conjE)
    fix l
    assume none: "find (\<lambda>a. da_device_id a = fd_id d \<and> da_user_id a = u) (fl_assignments fl) = None"
      and fl': "fl' = fl\<lparr>fl_assignments := fl_assignments fl @ [\<lparr>da_device_id = fd_id d, da_user_id = u,
            da_org_id = fd_org_id d\<rparr>], fl_log := l\<rparr>"
    have "core fl' = core fl" by (simp add: core_def fl')
    moreover have "(fd_id d, u) \<notin> (\<lambda>a. (da_device_id a, da_user_id a)) ` set (fl_assignments fl)"
      using none by (auto simp: find_None_iff)
    ultimately show ?thesis using assms(1) mem by (simp add: fleet_ok_def assignments_ok_def fl')
  qed (use assms(1) in simp)
qed

lemma delete_Inr:
  assumes "delete_device p k fl = Inr (x, fl')"
  shows "\<exists>d. get_device p k fl = Inr d
    \<and> fl_devices fl' = filter (\<lambda>d. fd_id d \<noteq> k) (fl_devices fl)
    \<and> fl_credentials fl' = filter (\<lambda>c. mc_device_id c \<noteq> k) (fl_credentials fl)
    \<and> fl_assignments fl' = filter (\<lambda>a. da_device_id a \<noteq> k) (fl_assignments fl)
    \<and> fl_nodes fl' = fl_nodes fl \<and> fl_orgs fl' = fl_orgs fl \<and> fl_groups fl' = fl_groups fl
    \<and> (\<forall>l \<in> set (fl_log fl'). al_device_id l \<noteq> Some k)"
proof -
  obtain d lg where d: "get_device p k fl = Inr d"
    and fl': "fl' = drop_device (fd_id d) (fl\<lparr>fl_credentials := map (\<lambda>c. if mc_device_id c = fd_id d
        then c\<lparr>mc_revoked := True\<rparr> else c) (fl_credentials fl), fl_log := lg\<rparr>)"
    using assms by (auto simp: delete_device_def bind_res_eq_Inr Let_def dest!: log_Inr)
  have "filter (\<lambda>c. mc_device_id c \<noteq> k) (map (\<lambda>c. if mc_device_id c = k then c\<lparr>mc_revoked := True\<rparr> else c) cs)
      = filter (\<lambda>c. mc_device_id c \<noteq> k) cs" for cs
    by (induction cs) auto
  with fl' d get_device_Inr [OF d] show ?thesis by (auto simp: drop_device_def)
qed

lemma core_filter: "fl_devices fl' = filter (\<lambda>d. fd_id d \<noteq> k) (fl_devices fl)
    \<Longrightarrow> core fl' = filter (\<lambda>x. fst x \<noteq> k) (core fl)"
  by (simp add: core_def filter_map o_def)

lemma fewer: "length (filter P (filter (\<lambda>x. fst x \<noteq> k) xs)) \<le> length (filter P xs)"
  unfolding filter_filter by (rule length_filter_le_filter) simp

lemma delete_ok:
  assumes "fleet_ok fl" "delete_device p k fl = Inr (x, fl')"
  shows "fleet_ok fl'"
proof -
  note eff = delete_Inr [OF assms(2)]
  have core: "core fl' = filter (\<lambda>x. fst x \<noteq> k) (core fl)" using eff core_filter by blast
  have "credentials_ok (core fl') (fl_credentials fl')"
    using assms(1) eff unfolding core fleet_ok_def credentials_ok_def
    by (auto simp: distinct_map_filter)
  moreover have "nodes_ok (core fl') (fl_nodes fl')"
    unfolding nodes_ok_def
  proof (intro conjI ballI)
    show "distinct (map mn_id (fl_nodes fl'))" using assms(1) eff by (auto simp: fleet_ok_def nodes_ok_def)
    fix n
    assume "n \<in> set (fl_nodes fl')"
    with assms(1) eff have n: "int (length (filter (\<lambda>(i, o', k). k = Some (mn_id n)) (core fl))) \<le> mn_active_connections n
        \<and> mn_active_connections n \<le> mn_capacity n"
      by (auto simp: fleet_ok_def nodes_ok_def)
    with fewer [of "\<lambda>(i, o', k). k = Some (mn_id n)" k "core fl"]
    show "int (length (filter (\<lambda>(i, o', k). k = Some (mn_id n)) (core fl'))) \<le> mn_active_connections n"
      unfolding core by linarith
    from n show "mn_active_connections n \<le> mn_capacity n" by simp
  qed
  moreover have "limits_ok (core fl') (fl_orgs fl')"
    unfolding limits_ok_def
  proof (intro allI impI)
    fix org l
    assume "pl_max_devices (limits_for_plan (case fl_orgs fl' org of Some plan \<Rightarrow> plan | None \<Rightarrow> None)) = Some l"
    with assms(1) eff have "length (filter (\<lambda>(i, o', k). o' = org) (core fl)) \<le> l"
      by (auto simp: fleet_ok_def limits_ok_def)
    with fewer [of "\<lambda>(i, o', k). o' = org" k "core fl"]
    show "length (filter (\<lambda>(i, o', k). o' = org) (core fl')) \<le> l" unfolding core by linarith
  qed
  moreover have "assignments_ok (core fl') (fl_assignments fl')"
    using assms(1) eff unfolding core fleet_ok_def assignments_ok_def by (auto simp: distinct_map_filter)
  ultimately show ?thesis
    using assms(1) by (simp add: fleet_ok_def core distinct_map_filter)
qed

lemma put_appended: "key r \<notin> key ` set rows \<Longrightarrow> key r' = key r \<Longrightarrow> tbl_put key r' (rows @ [r]) = rows @ [r']"
  by (induction rows) auto

lemma insert_device_Inr:
  "insert_device d fl = Inr fl' \<Longrightarrow>
     fl' = fl\<lparr>fl_devices := fl_devices fl @ [d]\<rparr> \<and> fd_id d \<notin> fd_id ` set (fl_devices fl)
     \<and> fl_orgs fl (fd_org_id d) \<noteq> None"
  by (auto simp: insert_device_def split: if_splits)

lemma insert_credential_Inr:
  "insert_credential c fl = Inr fl' \<longleftrightarrow>
     fl' = fl\<lparr>fl_credentials := fl_credentials fl @ [c]\<rparr> \<and> mc_token c \<notin> mc_token ` set (fl_credentials fl)"
  by (auto simp: insert_credential_def bind_res_eq_Inr insert_row_Inr)

lemma new_device_simps [simp]:
  "fd_id (new_device org i u l g te) = i" "fd_org_id (new_device org i u l g te) = org"
  "fd_node_id (new_device org i u l g te) = None" "fd_group_id (new_device org i u l g te) = g"
  "mc_token (new_credential p org i t) = t" "mc_device_id (new_credential p org i t) = i"
  "mc_org_id (new_credential p org i t) = org" "\<not> mc_revoked (new_credential p org i t)"
  "mc_acl_pattern (new_credential p org i t) = org_acl_pattern (pr_org_id p)"
  by (simp_all add: new_device_def new_credential_def)

definition one_more :: "mqtt_node \<Rightarrow> mqtt_node" where
  "one_more n = n\<lparr>mn_active_connections := mn_active_connections n + 1\<rparr>"

lemma one_more_simps [simp]:
  "mn_id (one_more n) = mn_id n" "mn_active_connections (one_more n) = mn_active_connections n + 1"
  "mn_capacity (one_more n) = mn_capacity n"
  by (simp_all add: one_more_def)

lemma provision_Inr:
  assumes "provision_device p i u t l g te du fl = Inr (r, fl')" "distinct (map mn_id (fl_nodes fl))"
  shows "\<exists>org n d lg. device_org_uuid p = Inr org \<and> enforce_device_limit p fl = Inr ()
    \<and> check_group p fl g = Inr () \<and> n \<in> set (fl_nodes fl) \<and> eligible n
    \<and> (\<forall>m \<in> set (fl_nodes fl). eligible m \<longrightarrow> mn_active_connections n \<le> mn_active_connections m)
    \<and> i \<notin> fd_id ` set (fl_devices fl) \<and> t \<notin> mc_token ` set (fl_credentials fl)
    \<and> fd_id d = i \<and> fd_org_id d = org \<and> fd_node_id d = Some (mn_id n) \<and> fd_group_id d = g
    \<and> r = (d, new_credential p org i t, t)
    \<and> fl' = fl\<lparr>fl_nodes := tbl_put mn_id (one_more n) (fl_nodes fl), fl_devices := fl_devices fl @ [d],
        fl_credentials := fl_credentials fl @ [new_credential p org i t], fl_log := fl_log fl @ [lg]\<rparr>"
proof -
  obtain org where pre: "check_group p fl g = Inr ()" "enforce_device_limit p fl = Inr ()" "device_org_uuid p = Inr org"
    using assms(1) by (auto simp: provision_device_def bind_res_eq_Inr)
  define d where "d = new_device org i (case du of Some (c # cs) \<Rightarrow> c # cs | _ \<Rightarrow> u) l g te"
  obtain fl1 where fl1: "insert_device d fl = Inr fl1"
    using assms(1) pre by (auto simp: provision_device_def bind_res_eq_Inr Let_def d_def)
  note ins = insert_device_Inr [OF fl1]
  have rest: "bind_res (fst (assign_node alone (fl_nodes fl)))
      (\<lambda>node. bind_res (insert_credential (new_credential p org i t)
          (fl1\<lparr>fl_nodes := snd (assign_node alone (fl_nodes fl)),
               fl_devices := tbl_put fd_id (d\<lparr>fd_node_id := Some (mn_id node)\<rparr>) (fl_devices fl1)\<rparr>))
        (\<lambda>fl3. bind_res (log_activity p ACTION_PROVISION (Some i)
            (JObj [(''device_uid'', JStr (case du of Some (c # cs) \<Rightarrow> c # cs | _ \<Rightarrow> u)),
               (''node_id'', JStr (mn_id node))]) fl3)
          (\<lambda>fl4. Inr ((d\<lparr>fd_node_id := Some (mn_id node)\<rparr>, new_credential p org i t, t), fl4)))) = Inr (r, fl')"
    using assms(1) pre fl1 ins
    by (simp add: provision_device_def Let_def d_def [symmetric] case_prod_beta)
  obtain n where n: "n \<in> set (fl_nodes fl)" "eligible n"
      "\<forall>m \<in> set (fl_nodes fl). eligible m \<longrightarrow> mn_active_connections n \<le> mn_active_connections m"
    and run: "assign_node alone (fl_nodes fl) = (Inr (one_more n), tbl_put mn_id (one_more n) (fl_nodes fl))"
    using assign_alone [OF assms(2)] rest by (auto simp: Let_def fail_def one_more_def)
  have put: "tbl_put fd_id (d\<lparr>fd_node_id := Some (mn_id n)\<rparr>) (fl_devices fl @ [d])
      = fl_devices fl @ [d\<lparr>fd_node_id := Some (mn_id n)\<rparr>]"
    using ins by (intro put_appended) auto
  obtain lg where "r = (d\<lparr>fd_node_id := Some (mn_id n)\<rparr>, new_credential p org i t, t)"
      "t \<notin> mc_token ` set (fl_credentials fl)"
      "fl' = fl\<lparr>fl_nodes := tbl_put mn_id (one_more n) (fl_nodes fl),
        fl_devices := fl_devices fl @ [d\<lparr>fd_node_id := Some (mn_id n)\<rparr>],
        fl_credentials := fl_credentials fl @ [new_credential p org i t], fl_log := fl_log fl @ [lg]\<rparr>"
    using rest run ins put
    by (auto simp: bind_res_eq_Inr insert_credential_Inr dest!: log_Inr)
  with pre ins n show ?thesis
    by (intro exI [of _ org] exI [of _ n] exI [of _ "d\<lparr>fd_node_id := Some (mn_id n)\<rparr>"] exI [of _ lg])
      (simp add: d_def)
qed

lemma limits_snoc:
  assumes "limits_ok ds orgs"
    and "\<And>l. pl_max_devices (limits_for_plan (case orgs org of Some plan \<Rightarrow> plan | None \<Rightarrow> None)) = Some l
      \<Longrightarrow> length (filter (\<lambda>(i, o', k). o' = org) ds) < l"
  shows "limits_ok (ds @ [(i, org, k)]) orgs"
  unfolding limits_ok_def
proof (intro allI impI)
  fix org' l
  assume l: "pl_max_devices (limits_for_plan (case orgs org' of Some plan \<Rightarrow> plan | None \<Rightarrow> None)) = Some l"
  with assms(1) have "length (filter (\<lambda>(i, o', k). o' = org') ds) \<le> l" by (auto simp: limits_ok_def)
  with assms(2) [of l] l show "length (filter (\<lambda>(i, o', k). o' = org') (ds @ [(i, org, k)])) \<le> l"
    by (cases "org' = org") auto
qed

lemma nodes_claim:
  assumes "nodes_ok ds ns" "n \<in> set ns" "has_space n"
  shows "nodes_ok (ds @ [(i, org, Some (mn_id n))]) (tbl_put mn_id (one_more n) ns)"
  unfolding nodes_ok_def
proof (intro conjI ballI)
  have ids: "distinct (map mn_id ns)" using assms(1) by (simp add: nodes_ok_def)
  then show "distinct (map mn_id (tbl_put mn_id (one_more n) ns))" by simp
  fix m
  assume "m \<in> set (tbl_put mn_id (one_more n) ns)"
  then have m: "m = one_more n \<or> m \<in> set ns \<and> mn_id m \<noteq> mn_id n"
    by (auto simp: tbl_put_def split: if_splits)
  have n: "int (length (filter (\<lambda>(i, o', k). k = Some (mn_id x)) ds)) \<le> mn_active_connections x
      \<and> mn_active_connections x \<le> mn_capacity x" if "x \<in> set ns" for x
    using assms(1) that by (auto simp: nodes_ok_def)
  from m show "int (length (filter (\<lambda>(i, o', k). k = Some (mn_id m)) (ds @ [(i, org, Some (mn_id n))])))
      \<le> mn_active_connections m"
  proof
    assume "m = one_more n"
    then show ?thesis using n [OF assms(2)] by simp
  next
    assume "m \<in> set ns \<and> mn_id m \<noteq> mn_id n"
    then show ?thesis using n [of m] by auto
  qed
  from m show "mn_active_connections m \<le> mn_capacity m"
  proof
    assume "m = one_more n"
    then show ?thesis using assms(3) by (simp add: has_space_def)
  next
    assume "m \<in> set ns \<and> mn_id m \<noteq> mn_id n"
    then show ?thesis using n [of m] by simp
  qed
qed

lemma provision_ok:
  assumes "fleet_ok fl" "is_uuid (pr_org_id p)" "provision_device p i u t l g te du fl = Inr (r, fl')"
  shows "fleet_ok fl'"
proof -
  have "distinct (map mn_id (fl_nodes fl))" using assms(1) by (simp add: fleet_ok_def nodes_ok_def)
  from provision_Inr [OF assms(3) this] obtain org n d lg where
      org: "device_org_uuid p = Inr org" and lim: "enforce_device_limit p fl = Inr ()"
    and n: "n \<in> set (fl_nodes fl)" "eligible n"
    and fresh: "i \<notin> fd_id ` set (fl_devices fl)" "t \<notin> mc_token ` set (fl_credentials fl)"
    and d: "fd_id d = i" "fd_org_id d = org" "fd_node_id d = Some (mn_id n)"
    and fl': "fl' = fl\<lparr>fl_nodes := tbl_put mn_id (one_more n) (fl_nodes fl), fl_devices := fl_devices fl @ [d],
        fl_credentials := fl_credentials fl @ [new_credential p org i t], fl_log := fl_log fl @ [lg]\<rparr>"
    by blast
  have p: "org = pr_org_id p" using org assms(2) by (simp add: device_org_uuid_def is_uuid_def)
  have core: "core fl' = core fl @ [(i, org, Some (mn_id n))]" by (simp add: core_def fl' d)
  have tables: "fl_credentials fl' = fl_credentials fl @ [new_credential p org i t]"
      "fl_nodes fl' = tbl_put mn_id (one_more n) (fl_nodes fl)" "fl_orgs fl' = fl_orgs fl"
      "fl_assignments fl' = fl_assignments fl"
    by (simp_all add: fl')
  have new: "i \<notin> set (map fst (core fl))" using fresh by (simp add: core_ids)
  have old: "credentials_ok (core fl) (fl_credentials fl)" using assms(1) by (simp add: fleet_ok_def)
  have "credentials_ok (core fl') (fl_credentials fl')"
  proof -
    have "i \<notin> set (map mc_device_id (fl_credentials fl))" using old new by (simp add: credentials_ok_def)
    moreover have "\<not> mc_revoked c \<and> (\<exists>k. (mc_device_id c, mc_org_id c, k) \<in> set (core fl'))
        \<and> mc_acl_pattern c = org_acl_pattern (mc_org_id c)" if "c \<in> set (fl_credentials fl')" for c
      using that old p by (auto simp: credentials_ok_def core tables)
    ultimately show ?thesis using old fresh(2) by (simp add: credentials_ok_def core tables)
  qed
  moreover have "nodes_ok (core fl') (fl_nodes fl')"
    using assms(1) n nodes_claim [of "core fl" "fl_nodes fl" n i org]
    by (simp add: fleet_ok_def core eligible_def tables)
  moreover have "limits_ok (core fl') (fl_orgs fl')"
  proof -
    have "count_devices fl org < m" if "pl_max_devices (limits_for_plan (fleet_org_plan fl org)) = Some m" for m
      using lim org that by (simp add: enforce_device_limit_def not_le)
    moreover have "count_devices fl org = length (filter (\<lambda>(i, o', k). o' = org) (core fl))"
      by (simp add: count_devices_def core_def filter_map o_def)
    ultimately show ?thesis
      using assms(1) limits_snoc [of "core fl" "fl_orgs fl" org i "Some (mn_id n)"]
      by (simp add: fleet_ok_def core fleet_org_plan_def tables)
  qed
  moreover have "assignments_ok (core fl') (fl_assignments fl')"
    using assms(1) by (auto simp: fleet_ok_def assignments_ok_def core tables)
  ultimately show ?thesis using assms(1) new by (simp add: fleet_ok_def core)
qed

lemma fleet_step_ok:
  assumes "fleet_ok fl" "is_uuid (pr_org_id (fleet_caller op))"
  shows "fleet_ok (fleet_step op fl)"
proof -
  have ids: "distinct (map fst (core fl))" using assms(1) by (simp add: fleet_ok_def)
  have keep: "fleet_ok (commit f fl)" if "\<And>x fl'. f fl = Inr (x, fl') \<Longrightarrow> fleet_ok fl'"
    for f :: "fleet \<Rightarrow> py_exc + ('a \<times> fleet)"
    using that assms(1) by (simp add: commit_def split: sum.split prod.split)
  show ?thesis
    using assms
    by (cases op)
      (auto intro!: keep intro: fleet_ok_same update_same [OF ids] simulator_same [OF ids] group_same
        provision_ok delete_ok assign_ok)
qed

interpretation fleet_sys: guarded_system fleet_step "\<lambda>op. is_uuid (pr_org_id (fleet_caller op))" fleet_ok
  by unfold_locales (rule fleet_step_ok)

section \<open>What an operation may touch\<close>

text \<open>The rows of organizations other than \<open>org\<close>.\<close>

definition others_rows where
  "others_rows org fl = (filter (\<lambda>d. fd_org_id d \<noteq> org) (fl_devices fl),
     filter (\<lambda>c. mc_org_id c \<noteq> org) (fl_credentials fl),
     filter (\<lambda>g. dg_org_id g \<noteq> org) (fl_groups fl),
     filter (\<lambda>a. da_org_id a \<noteq> org) (fl_assignments fl))"

lemma filter_tbl_put:
  assumes "\<And>x. x \<in> set rows \<Longrightarrow> key x = key r \<Longrightarrow> \<not> P x" "\<not> P r"
  shows "filter P (tbl_put key r rows) = filter P rows"
  using assms by (induction rows) (auto simp: tbl_put_def)

lemma others_put:
  assumes "distinct (map fst (core fl))" "get_device p k fl = Inr d" "same_device d d'" "fd_org_id d = org"
  shows "others_rows org (put_device d' fl) = others_rows org fl"
proof -
  have "x = d" if "x \<in> set (fl_devices fl)" "fd_id x = fd_id d'" for x
    using that assms(1,3) get_device_Inr [OF assms(2)]
    by (auto simp: core_ids same_device_def distinct_map dest: inj_onD)
  with assms(3,4) have "filter (\<lambda>d. fd_org_id d \<noteq> org) (tbl_put fd_id d' (fl_devices fl))
      = filter (\<lambda>d. fd_org_id d \<noteq> org) (fl_devices fl)"
    by (intro filter_tbl_put) (auto simp: same_device_def)
  then show ?thesis by (simp add: others_rows_def put_device_def)
qed

lemma others_log [simp]: "others_rows org (fl\<lparr>fl_log := l\<rparr>) = others_rows org fl"
  by (simp add: others_rows_def)

lemma hex_lower: "is_hex c \<Longrightarrow> lower_char c \<noteq> slash"
proof -
  have "list_all (\<lambda>c. lower_char c \<noteq> slash) ''0123456789abcdefABCDEF''" by code_simp
  then show "is_hex c \<Longrightarrow> lower_char c \<noteq> slash" unfolding is_hex_def list_all_iff by blast
qed

lemma uuid_plain:
  assumes "is_uuid s"
  shows "plain_level s"
proof -
  obtain h where h: "list_all is_hex h" "s = canonical_uuid (lower h)"
    using assms by (auto simp: is_uuid_def parse_uuid_def Let_def split: if_splits)
  have "slash \<notin> set (lower h)" using h(1) hex_lower by (fastforce simp: lower_def list_all_iff)
  then have "slash \<notin> set s"
    unfolding h(2) canonical_uuid_def by (auto dest: in_set_takeD in_set_dropD)
  moreover have "CHR ''-'' \<in> set s" by (simp add: h(2) canonical_uuid_def)
  ultimately show ?thesis by (auto simp: plain_level_def)
qed

lemma delete_others:
  assumes "fleet_ok fl" "delete_device p k fl = Inr (x, fl')" "get_device p k fl = Inr d" "fd_org_id d = org"
  shows "others_rows org fl' = others_rows org fl"
proof -
  note eff = delete_Inr [OF assms(2)] and d = get_device_Inr [OF assms(3)]
  have dist: "distinct (map fst (core fl))" using assms(1) by (simp add: fleet_ok_def)
  have own: "o' = org" if "(k, o', n) \<in> set (core fl)" for o' n
  proof -
    obtain d' where "d' \<in> set (fl_devices fl)" "fd_id d' = k" "fd_org_id d' = o'"
      using \<open>(k, o', n) \<in> set (core fl)\<close> by (auto simp: core_def)
    with d dist assms(4) show ?thesis by (auto simp: core_ids distinct_map dest: inj_onD)
  qed
  have "filter (\<lambda>c. mc_org_id c \<noteq> org \<and> mc_device_id c \<noteq> k) (fl_credentials fl)
      = filter (\<lambda>c. mc_org_id c \<noteq> org) (fl_credentials fl)"
    using assms(1) own by (intro filter_cong refl) (auto simp: fleet_ok_def credentials_ok_def)
  moreover have "filter (\<lambda>a. da_org_id a \<noteq> org \<and> da_device_id a \<noteq> k) (fl_assignments fl)
      = filter (\<lambda>a. da_org_id a \<noteq> org) (fl_assignments fl)"
    using assms(1) own by (intro filter_cong refl) (auto simp: fleet_ok_def assignments_ok_def)
  moreover have "filter (\<lambda>d. fd_org_id d \<noteq> org \<and> fd_id d \<noteq> k) (fl_devices fl)
      = filter (\<lambda>d. fd_org_id d \<noteq> org) (fl_devices fl)"
    using own by (intro filter_cong refl) (force simp: core_def)
  ultimately show ?thesis using eff by (auto simp: others_rows_def conj_commute)
qed

lemma append_others:
  "fd_org_id d = org \<Longrightarrow> mc_org_id c = org \<Longrightarrow>
     others_rows org (fl\<lparr>fl_nodes := ns, fl_devices := fl_devices fl @ [d],
       fl_credentials := fl_credentials fl @ [c]\<rparr>) = others_rows org fl"
  "dg_org_id g = org \<Longrightarrow> others_rows org (fl\<lparr>fl_groups := fl_groups fl @ [g]\<rparr>) = others_rows org fl"
  "da_org_id a = org \<Longrightarrow> others_rows org (fl\<lparr>fl_assignments := fl_assignments fl @ [a]\<rparr>)
     = others_rows org fl"
  by (simp_all add: others_rows_def)

lemma put_log_others:
  assumes "distinct (map fst (core fl))" "get_device p k fl = Inr d" "same_device d d'" "fd_org_id d = org"
  shows "others_rows org ((put_device d' fl)\<lparr>fl_log := lg\<rparr>) = others_rows org fl"
    "others_rows org (put_device d' (fl\<lparr>fl_log := lg\<rparr>)) = others_rows org fl"
proof -
  show "others_rows org ((put_device d' fl)\<lparr>fl_log := lg\<rparr>) = others_rows org fl"
    using others_put [OF assms] by simp
  moreover have "others_rows org (put_device d' (fl\<lparr>fl_log := lg\<rparr>)) = others_rows org (put_device d' fl)"
    by (simp add: others_rows_def put_device_def)
  ultimately show "others_rows org (put_device d' (fl\<lparr>fl_log := lg\<rparr>)) = others_rows org fl" by simp
qed

text \<open>The caller's own organization is the only one whose rows an operation changes.\<close>

lemma provision_others:
  assumes "provision_device p i u t l g te du fl = Inr (r, fl')" "distinct (map mn_id (fl_nodes fl))"
    and "device_org_uuid p = Inr org"
  shows "others_rows org fl' = others_rows org fl"
  using provision_Inr [OF assms(1,2)] assms(3) by (auto simp: append_others)

lemma update_others:
  assumes "update_device p k l g m fl = Inr (d', fl')" "distinct (map fst (core fl))"
    and "\<And>d. get_device p k fl = Inr d \<Longrightarrow> fd_org_id d = org"
  shows "others_rows org fl' = others_rows org fl"
  using update_device_Inr [OF assms(1)] put_log_others [OF assms(2)] assms(3) by blast

lemma simulator_others:
  assumes "start_simulator p k n fl = Inr (d', fl') \<or> stop_simulator p k fl = Inr (d', fl')"
    and "distinct (map fst (core fl))" "\<And>d. get_device p k fl = Inr d \<Longrightarrow> fd_org_id d = org"
  shows "others_rows org fl' = others_rows org fl"
  using simulator_Inr [OF assms(1)] put_log_others [OF assms(2)] assms(3) by blast

lemma group_others:
  assumes "create_group p i n fl = Inr (x, fl')" "device_org_uuid p = Inr org"
  shows "others_rows org fl' = others_rows org fl"
  using assms by (auto simp: create_group_def bind_res_eq_Inr Let_def insert_row_Inr append_others split: if_splits)

lemma assign_others:
  assumes "assign_device_to_user p k u fl = Inr (x, fl')" "\<And>d. get_device p k fl = Inr d \<Longrightarrow> fd_org_id d = org"
  shows "others_rows org fl' = others_rows org fl"
  using assign_Inr [OF assms(1)] assms(2) by (auto simp: append_others)

lemma delete_own_others:
  assumes "delete_device p k fl = Inr (x, fl')" "fleet_ok fl" "\<And>d. get_device p k fl = Inr d \<Longrightarrow> fd_org_id d = org"
  shows "others_rows org fl' = others_rows org fl"
  using delete_others [OF assms(2,1)] delete_Inr [OF assms(1)] assms(3) by blast

lemma commit_others:
  fixes f :: "fleet \<Rightarrow> py_exc + ('a \<times> fleet)"
  shows "(\<And>x fl'. f fl = Inr (x, fl') \<Longrightarrow> others_rows org fl' = others_rows org fl)
    \<Longrightarrow> others_rows org (commit f fl) = others_rows org fl"
  by (simp add: commit_def split: sum.split prod.split)

section \<open>Properties\<close>

text \<open>Node assignment: with no other session it takes an active node with space that has the fewest
  connections and adds one, or refuses with 503 exactly when there is none; and whatever other
  sessions claim between the SELECT and the guarded UPDATEs, no node ever exceeds its capacity.\<close>

theorem node_assignment_exact:
  assumes "distinct (map mn_id nodes)"
  shows "(if \<exists>n \<in> set nodes. mn_status n = Some ACTIVE_STATUS \<and> mn_active_connections n < mn_capacity n
     then \<exists>n \<in> set nodes. mn_status n = Some ACTIVE_STATUS \<and> mn_active_connections n < mn_capacity n
       \<and> (\<forall>m \<in> set nodes. mn_status m = Some ACTIVE_STATUS \<and> mn_active_connections m < mn_capacity m
            \<longrightarrow> mn_active_connections n \<le> mn_active_connections m)
       \<and> assign_node alone nodes
         = (Inr (n\<lparr>mn_active_connections := mn_active_connections n + 1\<rparr>),
            tbl_put mn_id (n\<lparr>mn_active_connections := mn_active_connections n + 1\<rparr>) nodes)
     else assign_node alone nodes = (fail NoCapacityError, nodes))
   \<and> ((\<forall>i ns. list_all (\<lambda>n. mn_active_connections n \<le> mn_capacity n) ns
          \<longrightarrow> list_all (\<lambda>n. mn_active_connections n \<le> mn_capacity n) (others i ns))
      \<longrightarrow> list_all (\<lambda>n. mn_active_connections n \<le> mn_capacity n) nodes
      \<longrightarrow> list_all (\<lambda>n. mn_active_connections n \<le> mn_capacity n) (snd (assign_node others nodes)))"
proof -
  have "list_all (\<lambda>n. mn_active_connections n \<le> mn_capacity n) (snd (assign_node others nodes))"
    if "\<forall>i ns. list_all (\<lambda>n. mn_active_connections n \<le> mn_capacity n) ns
          \<longrightarrow> list_all (\<lambda>n. mn_active_connections n \<le> mn_capacity n) (others i ns)"
      "list_all (\<lambda>n. mn_active_connections n \<le> mn_capacity n) nodes"
    using claim_within [of others nodes, OF _ _ prod.collapse [symmetric]] that
    unfolding within_capacity_def assign_node_def by blast
  with assign_alone [OF assms] show ?thesis
    by (auto simp: eligible_def has_space_def Let_def)
qed

text \<open>C31. The tables stay sound under any run of device operations by callers of any organization: every
  device has exactly one credential, with a token of its own, for its organization, and that grants
  exactly the topics of the organization; no node holds more devices than it counts connections, or
  more connections than its capacity; no organization has more devices than its plan allows; every
  assignment is of a device of its organization, once per user.\<close>

theorem fleet_invariant:
  assumes "fleet_ok fl" "list_all (\<lambda>op. is_uuid (pr_org_id (fleet_caller op))) ops"
    and "fl' = run_ops fleet_step ops fl"
  shows "fleet_ok fl'"
  using fleet_sys.run_inv [OF assms(1,2)] assms(3) by simp

text \<open>C33. Device operations stay within the tenant: whatever operation a caller who is not a super admin
  asks for, the devices, credentials, groups and assignments of every other organization are
  untouched.\<close>

theorem device_tenant_isolation:
  assumes "fleet_ok fl" "is_uuid (pr_org_id (fleet_caller op))" "\<not> is_super_admin (fleet_caller op)"
  shows "others_rows (pr_org_id (fleet_caller op)) (fleet_step op fl) = others_rows (pr_org_id (fleet_caller op)) fl"
proof -
  let ?org = "pr_org_id (fleet_caller op)"
  have ids: "distinct (map fst (core fl))" using assms(1) by (simp add: fleet_ok_def)
  have nodes: "distinct (map mn_id (fl_nodes fl))" using assms(1) by (simp add: fleet_ok_def nodes_ok_def)
  have org: "device_org_uuid (fleet_caller op) = Inr ?org"
    using assms(2) by (simp add: device_org_uuid_def is_uuid_def)
  have own: "fd_org_id d = ?org" if "get_device (fleet_caller op) k fl = Inr d" for k d
    using get_device_Inr [OF that] assms(3) by blast
  show ?thesis
    using org own
    by (cases op)
      (auto intro!: commit_others intro: provision_others [OF _ nodes] update_others [OF _ ids]
        simulator_others [OF _ ids] group_others assign_others delete_own_others [OF _ assms(1)])
qed

text \<open>C35. Provisioning: at the plan's device limit it is refused with the plan-limit error; otherwise a
  success adds exactly one device to the caller's organization, within the limit, on the active node
  with the fewest connections, and hands out a token that no other credential has, with the access
  pattern of the organization: it grants every topic of the organization and none of the token topics
  the device itself publishes on.\<close>

theorem provision_device_exact:
  assumes "fleet_ok fl" "is_uuid (pr_org_id p)" "check_group p fl g = Inr ()"
    and "slash \<notin> set t" "t \<noteq> pr_org_id p"
    and limit: "pl_max_devices (limits_for_plan (fleet_org_plan fl (pr_org_id p))) = cap"
  shows "((case cap of None \<Rightarrow> False | Some m \<Rightarrow> count_devices fl (pr_org_id p) \<ge> m)
      \<longrightarrow> provision_device p i u t l g te du fl = fail PlanLimitError)
    \<and> (\<forall>d c secret fl'. provision_device p i u t l g te du fl = Inr ((d, c, secret), fl')
      \<longrightarrow> fl_devices fl' = fl_devices fl @ [d] \<and> fd_org_id d = pr_org_id p
        \<and> (\<forall>m. cap = Some m \<longrightarrow> count_devices fl' (pr_org_id p) \<le> m)
        \<and> (\<exists>n \<in> set (fl_nodes fl). fd_node_id d = Some (mn_id n) \<and> mn_status n = Some ACTIVE_STATUS
             \<and> (\<forall>m \<in> set (fl_nodes fl). mn_status m = Some ACTIVE_STATUS \<and> mn_active_connections m < mn_capacity m
                  \<longrightarrow> mn_active_connections n \<le> mn_active_connections m))
        \<and> fl_credentials fl' = fl_credentials fl @ [c] \<and> mc_token c = t \<and> secret = t
        \<and> t \<notin> mc_token ` set (fl_credentials fl)
        \<and> (\<forall>tpc. topic_matches_filter (mc_acl_pattern c) tpc
             \<longleftrightarrow> (\<exists>rest. split_on slash tpc = TOPIC_ROOT # pr_org_id p # rest))
        \<and> \<not> topic_matches_filter (mc_acl_pattern c) (token_command_topic t))"
proof -
  let ?org = "pr_org_id p"
  have org: "device_org_uuid p = Inr ?org" using assms(2) by (simp add: device_org_uuid_def is_uuid_def)
  have nodes: "distinct (map mn_id (fl_nodes fl))" using assms(1) by (simp add: fleet_ok_def nodes_ok_def)
  have acl: "topic_matches_filter (org_acl_pattern ?org) tpc \<longleftrightarrow> (\<exists>rest. split_on slash tpc = TOPIC_ROOT # ?org # rest)"
    for tpc
    using org_can_access_split [OF uuid_plain [OF assms(2)]] by (simp add: org_can_access_def)
  have own: "split_on slash (token_command_topic t) = [TOPIC_ROOT, t, mt_value COMMAND]"
    using assms(4) by (simp add: token_command_topic_def split_on_append_sep split_on_no_sep)
  have refused: "provision_device p i u t l g te du fl = fail PlanLimitError"
    if "case cap of None \<Rightarrow> False | Some m \<Rightarrow> count_devices fl ?org \<ge> m"
    using that limit org assms(3)
    by (auto simp: provision_device_def enforce_device_limit_def fail_def split: option.splits)
  have granted: "fl_devices fl' = fl_devices fl @ [d] \<and> fd_org_id d = ?org
      \<and> (\<forall>m. cap = Some m \<longrightarrow> count_devices fl' ?org \<le> m)
      \<and> (\<exists>n \<in> set (fl_nodes fl). fd_node_id d = Some (mn_id n) \<and> mn_status n = Some ACTIVE_STATUS
           \<and> (\<forall>m \<in> set (fl_nodes fl). mn_status m = Some ACTIVE_STATUS \<and> mn_active_connections m < mn_capacity m
                \<longrightarrow> mn_active_connections n \<le> mn_active_connections m))
      \<and> fl_credentials fl' = fl_credentials fl @ [c] \<and> mc_token c = t \<and> secret = t
      \<and> t \<notin> mc_token ` set (fl_credentials fl)
      \<and> (\<forall>tpc. topic_matches_filter (mc_acl_pattern c) tpc
           \<longleftrightarrow> (\<exists>rest. split_on slash tpc = TOPIC_ROOT # ?org # rest))
      \<and> \<not> topic_matches_filter (mc_acl_pattern c) (token_command_topic t)"
    if run: "provision_device p i u t l g te du fl = Inr ((d, c, secret), fl')" for d c secret fl'
  proof -
    from provision_Inr [OF run nodes] org obtain n lg where
        eff: "enforce_device_limit p fl = Inr ()" "n \<in> set (fl_nodes fl)" "eligible n"
          "\<forall>m \<in> set (fl_nodes fl). eligible m \<longrightarrow> mn_active_connections n \<le> mn_active_connections m"
          "t \<notin> mc_token ` set (fl_credentials fl)" "fd_org_id d = ?org" "fd_node_id d = Some (mn_id n)"
          "c = new_credential p ?org i t" "secret = t"
          "fl' = fl\<lparr>fl_nodes := tbl_put mn_id (one_more n) (fl_nodes fl), fl_devices := fl_devices fl @ [d],
            fl_credentials := fl_credentials fl @ [new_credential p ?org i t], fl_log := fl_log fl @ [lg]\<rparr>"
      by auto
    have "count_devices fl ?org < m" if "cap = Some m" for m
      using eff(1) that limit org by (simp add: enforce_device_limit_def not_le)
    moreover have "count_devices fl' ?org = Suc (count_devices fl ?org)"
      using eff(6,10) by (simp add: count_devices_def)
    ultimately have "\<forall>m. cap = Some m \<longrightarrow> count_devices fl' ?org \<le> m" by (simp add: Suc_le_eq)
    moreover have "mn_status n = Some ACTIVE_STATUS"
      "\<forall>m \<in> set (fl_nodes fl). mn_status m = Some ACTIVE_STATUS \<and> mn_active_connections m < mn_capacity m
         \<longrightarrow> mn_active_connections n \<le> mn_active_connections m"
      using eff(3,4) by (simp_all add: eligible_def has_space_def)
    moreover have "\<forall>tpc. topic_matches_filter (mc_acl_pattern c) tpc
        \<longleftrightarrow> (\<exists>rest. split_on slash tpc = TOPIC_ROOT # ?org # rest)"
      "\<not> topic_matches_filter (mc_acl_pattern c) (token_command_topic t)"
      using eff(8) assms(5) by (simp_all add: acl own)
    ultimately show ?thesis using eff by (intro conjI bexI [of _ n]) simp_all
  qed
  show ?thesis
    by (rule conjI [OF impI allI [OF allI [OF allI [OF allI [OF impI]]]]])
      (rule refused, assumption, rule granted, assumption)
qed

text \<open>Deletion: afterwards no credential carries a token of the device, no assignment names it, and the
  rows of other devices are as before; the connection the node counted for it is never given back.\<close>

theorem delete_device_exact:
  assumes "fleet_ok fl" "delete_device p k fl = Inr (x, fl')"
  shows "k \<in> fd_id ` set (fl_devices fl) \<and> k \<notin> fd_id ` set (fl_devices fl')
    \<and> (\<forall>c \<in> set (fl_credentials fl). mc_device_id c = k \<longrightarrow> mc_token c \<notin> mc_token ` set (fl_credentials fl'))
    \<and> (\<forall>a \<in> set (fl_assignments fl'). da_device_id a \<noteq> k)
    \<and> (\<forall>d \<in> set (fl_devices fl). fd_id d \<noteq> k \<longrightarrow> d \<in> set (fl_devices fl')
         \<and> (\<forall>c \<in> set (fl_credentials fl). mc_device_id c = fd_id d \<longrightarrow> c \<in> set (fl_credentials fl')))
    \<and> (\<forall>l \<in> set (fl_log fl'). al_device_id l \<noteq> Some k)
    \<and> fl_nodes fl' = fl_nodes fl"
proof -
  obtain d where d: "get_device p k fl = Inr d" using delete_Inr [OF assms(2)] by blast
  have "distinct (map mc_token (fl_credentials fl))" using assms(1) by (simp add: fleet_ok_def credentials_ok_def)
  then have "mc_token c \<notin> mc_token ` set (filter (\<lambda>c. mc_device_id c \<noteq> k) (fl_credentials fl))"
    if "c \<in> set (fl_credentials fl)" "mc_device_id c = k" for c
    using that by (auto simp: distinct_map dest: inj_onD)
  with delete_Inr [OF assms(2)] get_device_Inr [OF d] show ?thesis by auto
qed

section \<open>Witnesses\<close>

definition ex_o1 :: uuid where
  "ex_o1 = ''0123abcd-0123-4567-89ab-0123456789ab''"

definition ex_manager :: principal where
  "ex_manager = \<lparr>pr_user_id = ''u'', pr_org_id = ex_o1, pr_role = ROLE_PROJECT_CENTER\<rparr>"

definition ex_node :: "uuid \<Rightarrow> int \<Rightarrow> mqtt_node" where
  "ex_node k n = \<lparr>mn_id = k, mn_status = Some ''active'', mn_active_connections = n, mn_capacity = 2\<rparr>"

definition ex_fleet :: fleet where
  "ex_fleet = \<lparr>fl_devices = [], fl_credentials = [], fl_nodes = [ex_node ''n1'' 1, ex_node ''n2'' 0], fl_groups = [],
     fl_assignments = [], fl_users = [\<lparr>fu_id = ''u2'', fu_org_id = ex_o1\<rparr>], fl_orgs = [ex_o1 \<mapsto> Some ''free''],
     fl_templates = [], fl_log = []\<rparr>"

lemma ex_uuid: "parse_uuid ex_o1 = Some ex_o1" "is_uuid ex_o1"
  by code_simp+

lemma ex_fleet_ok: "fleet_ok ex_fleet"
  by (simp add: fleet_ok_def core_def ex_fleet_def credentials_ok_def nodes_ok_def limits_ok_def
      assignments_ok_def ex_node_def)

lemma ex_limit: "pl_max_devices (limits_for_plan (Some ''free'')) = Some 2"
  by code_simp

text \<open>One device is provisioned, on the node with no connection.\<close>

definition ex_fleet1 :: fleet where
  "ex_fleet1 = fleet_step (Provision ex_manager ''d1'' ''DEV-1'' ''dT_a'' None None None None) ex_fleet"

lemma ex_provision:
  "\<exists>d. provision_device ex_manager ''d1'' ''DEV-1'' ''dT_a'' None None None None ex_fleet
      = Inr ((d, new_credential ex_manager ex_o1 ''d1'' ''dT_a'', ''dT_a''), ex_fleet1)
    \<and> fl_devices ex_fleet1 = [d] \<and> fd_id d = ''d1'' \<and> fd_org_id d = ex_o1 \<and> fd_node_id d = Some ''n2''
    \<and> fl_nodes ex_fleet1 = [ex_node ''n1'' 1, ex_node ''n2'' 1]
    \<and> fl_credentials ex_fleet1 = [new_credential ex_manager ex_o1 ''d1'' ''dT_a'']"
proof -
  have "sort_key mn_active_connections (filter (\<lambda>n. mn_status n = Some ACTIVE_STATUS \<and> has_space n)
      [ex_node ''n1'' 1, ex_node ''n2'' 0]) = [ex_node ''n2'' 0, ex_node ''n1'' 1]"
    by (simp add: ex_node_def has_space_def ACTIVE_STATUS_def)
  then have "assign_node alone [ex_node ''n1'' 1, ex_node ''n2'' 0]
      = (Inr (ex_node ''n2'' 1), [ex_node ''n1'' 1, ex_node ''n2'' 1])"
    by (simp add: assign_node_def node_candidates_def alone_def Let_def) (simp add: ex_node_def has_space_def Let_def)
  then have claim: "assign_node alone (fl_nodes ex_fleet) = (Inr (ex_node ''n2'' 1), [ex_node ''n1'' 1, ex_node ''n2'' 1])"
    by (simp add: ex_fleet_def)
  let ?d = "(new_device ex_o1 ''d1'' ''DEV-1'' None None None)\<lparr>fd_node_id := Some ''n2''\<rparr>"
    and ?c = "new_credential ex_manager ex_o1 ''d1'' ''dT_a''"
  have org: "device_org_uuid ex_manager = Inr ex_o1" by (simp add: device_org_uuid_def ex_manager_def ex_uuid)
  have "enforce_device_limit ex_manager ex_fleet = Inr ()"
    by (simp add: enforce_device_limit_def org fleet_org_plan_def ex_fleet_def ex_limit count_devices_def)
  moreover have "insert_device (new_device ex_o1 ''d1'' ''DEV-1'' None None None) ex_fleet
      = Inr (ex_fleet\<lparr>fl_devices := [new_device ex_o1 ''d1'' ''DEV-1'' None None None]\<rparr>)"
    by (simp add: insert_device_def ex_fleet_def new_device_def)
  ultimately obtain lg where run: "provision_device ex_manager ''d1'' ''DEV-1'' ''dT_a'' None None None None ex_fleet
      = Inr ((?d, ?c, ''dT_a''), ex_fleet\<lparr>fl_nodes := [ex_node ''n1'' 1, ex_node ''n2'' 1], fl_devices := [?d],
          fl_credentials := [?c], fl_log := lg\<rparr>)"
    by (simp add: provision_device_def check_group_def org claim insert_credential_def insert_row_def
        log_activity_def Let_def) (simp add: ex_fleet_def ex_node_def)
  then have fl1: "ex_fleet1 = ex_fleet\<lparr>fl_nodes := [ex_node ''n1'' 1, ex_node ''n2'' 1], fl_devices := [?d],
      fl_credentials := [?c], fl_log := lg\<rparr>"
    by (simp add: ex_fleet1_def commit_def)
  show ?thesis unfolding fl1 by (intro exI [of _ ?d] conjI run) simp_all
qed

theorem node_assignment_exact_witness:
  "\<exists>n. assign_node alone [ex_node ''n1'' 1, ex_node ''n2'' 0] = (Inr n, tbl_put mn_id n [ex_node ''n1'' 1, ex_node ''n2'' 0])"
proof -
  let ?nodes = "[ex_node ''n1'' 1, ex_node ''n2'' 0]"
  have ids: "distinct (map mn_id ?nodes)"
    and some: "\<exists>n \<in> set ?nodes. mn_status n = Some ACTIVE_STATUS \<and> mn_active_connections n < mn_capacity n"
    by (simp_all add: ex_node_def ACTIVE_STATUS_def)
  from node_assignment_exact [OF ids, THEN conjunct1, unfolded if_P [OF some]] show ?thesis by blast
qed

theorem fleet_invariant_witness:
  "fleet_ok (run_ops fleet_step [Provision ex_manager ''d1'' ''DEV-1'' ''dT_a'' None None None None,
      Assign ex_manager ''d1'' ''u2'', Delete ex_manager ''d1''] ex_fleet)"
  by (rule fleet_invariant [OF ex_fleet_ok _ refl]) (simp add: ex_manager_def ex_uuid)

theorem device_tenant_isolation_witness:
  "others_rows ex_o1 (fleet_step (Delete ex_manager ''d1'') ex_fleet1) = others_rows ex_o1 ex_fleet1"
proof -
  have "fleet_ok ex_fleet1"
    unfolding ex_fleet1_def by (rule fleet_step_ok [OF ex_fleet_ok]) (simp add: ex_manager_def ex_uuid)
  moreover have "\<not> is_super_admin ex_manager"
    by (simp add: is_super_admin_def ex_manager_def ROLE_PROJECT_CENTER_def ROLE_SUPER_ADMIN_def)
  ultimately show ?thesis
    using device_tenant_isolation [of ex_fleet1 "Delete ex_manager ''d1''"] by (simp add: ex_manager_def ex_uuid)
qed

theorem provision_device_exact_witness:
  "\<exists>d. fl_devices ex_fleet1 = [d] \<and> fd_node_id d = Some ''n2''
     \<and> \<not> topic_matches_filter (org_acl_pattern ex_o1) (token_command_topic ''dT_a'')"
proof -
  have org: "pr_org_id ex_manager = ex_o1" by (simp add: ex_manager_def)
  obtain d where run: "provision_device ex_manager ''d1'' ''DEV-1'' ''dT_a'' None None None None ex_fleet
      = Inr ((d, new_credential ex_manager ex_o1 ''d1'' ''dT_a'', ''dT_a''), ex_fleet1)"
    using ex_provision by blast
  have hyps: "is_uuid (pr_org_id ex_manager)" "check_group ex_manager ex_fleet None = Inr ()"
      "slash \<notin> set ''dT_a''" "''dT_a'' \<noteq> pr_org_id ex_manager"
    by (simp_all add: org ex_uuid check_group_def) (simp add: ex_o1_def)
  note exact = provision_device_exact [OF ex_fleet_ok hyps refl, THEN conjunct2, rule_format, OF run]
  have "fl_devices ex_fleet1 = [d]" using exact by (simp add: ex_fleet_def)
  moreover have "\<not> topic_matches_filter (org_acl_pattern ex_o1) (token_command_topic ''dT_a'')"
  proof -
    from exact have "\<not> topic_matches_filter (mc_acl_pattern (new_credential ex_manager ex_o1 ''d1'' ''dT_a''))
        (token_command_topic ''dT_a'')" by blast
    then show ?thesis by (simp only: new_device_simps org simp_thms)
  qed
  ultimately show ?thesis using ex_provision by (metis list.inject)
qed

theorem delete_device_exact_witness:
  "\<exists>fl'. delete_device ex_manager ''d1'' ex_fleet1 = Inr ((), fl') \<and> fl_nodes fl' = [ex_node ''n1'' 1, ex_node ''n2'' 1]
     \<and> (\<forall>c \<in> set (fl_credentials fl'). mc_token c \<noteq> ''dT_a'')"
proof -
  have ok: "fleet_ok ex_fleet1"
    unfolding ex_fleet1_def by (rule fleet_step_ok [OF ex_fleet_ok]) (simp add: ex_manager_def ex_uuid)
  obtain d where n: "fl_devices ex_fleet1 = [d]" "fd_id d = ''d1''" "fd_org_id d = ex_o1"
      "fl_nodes ex_fleet1 = [ex_node ''n1'' 1, ex_node ''n2'' 1]"
      "fl_credentials ex_fleet1 = [new_credential ex_manager ex_o1 ''d1'' ''dT_a'']"
    using ex_provision by blast
  have "get_device ex_manager ''d1'' ex_fleet1 = Inr d"
    using n by (simp add: get_device_def scope_get_def) (simp add: ex_manager_def)
  then obtain fl' where run: "delete_device ex_manager ''d1'' ex_fleet1 = Inr ((), fl')"
    by (auto simp: delete_device_def log_activity_def device_org_uuid_def ex_manager_def ex_uuid bind_res_eq_Inr Let_def)
  note exact = delete_device_exact [OF ok run]
  have "''dT_a'' \<notin> mc_token ` set (fl_credentials fl')" using exact by (simp add: n)
  moreover have "fl_nodes fl' = [ex_node ''n1'' 1, ex_node ''n2'' 1]" using exact by (simp add: n)
  ultimately show ?thesis using run by (metis image_eqI)
qed

end
