(* ===== verification/Rate_Limit.thy ===== *)
theory Rate_Limit imports Tokens
begin

text \<open>
  Rate limiting: the token bucket that a Lua script keeps in Redis (\<open>app/core/rate_limit.py\<close>) and
  the middleware that asks it for every request (\<open>app/core/security/rate_limit_middleware.py\<close>).  A
  bucket is a hash of the tokens left and the time they were counted, under a time to live; its
  HMGET, HMSET and EXPIRE are the commands of the locale \<open>redis_keys\<close> on pairs.  \<open>now\<close> is the clock of
  the API server in seconds, \<open>clk\<close> the clock of Redis.  The lemmas bound what a bucket admits,
  show that it does not starve a client that keeps to the rate, and what it does not bound.
\<close>

section \<open>The bucket\<close>

record rate_limit_policy =
  rl_capacity :: int
  rl_refill_rate :: rat

definition ttl_seconds :: "rate_limit_policy \<Rightarrow> int" where
  "ttl_seconds p =
     (if rl_refill_rate p \<le> 0 then 60
      else max 60 (py_int (of_int (rl_capacity p) / rl_refill_rate p) + 60))"

definition DEFAULT_IP_POLICY :: rate_limit_policy where
  "DEFAULT_IP_POLICY = \<lparr>rl_capacity = 120, rl_refill_rate = 2\<rparr>"

definition DEFAULT_ORG_POLICY :: rate_limit_policy where
  "DEFAULT_ORG_POLICY = \<lparr>rl_capacity = 600, rl_refill_rate = 10\<rparr>"

type_synonym 'm buckets = "('m, redis_key, rat \<times> rat) kv_cmds"

text \<open>The tokens of a bucket after the refill.\<close>

definition refilled :: "int \<Rightarrow> rat \<Rightarrow> rat \<Rightarrow> (rat \<times> rat) option \<Rightarrow> rat" where
  "refilled capacity refill_rate now state =
     (let (tokens, ts) = (case state of None \<Rightarrow> (of_int capacity, now) | Some s \<Rightarrow> s);
          elapsed = (if now - ts < 0 then 0 else now - ts)
      in min (of_int capacity) (tokens + elapsed * refill_rate))"

definition token_bucket ::
  "'m buckets \<Rightarrow> timestamp \<Rightarrow> redis_key \<Rightarrow> int \<Rightarrow> rat \<Rightarrow> rat \<Rightarrow> int \<Rightarrow> int \<Rightarrow> 'm \<Rightarrow> (bool \<times> int \<times> rat) \<times> 'm" where
  "token_bucket K clk key capacity refill_rate now requested ttl m =
     (let tokens = refilled capacity refill_rate now (kv_get K clk m key);
          allowed = (of_int requested \<le> tokens);
          left = (if allowed then tokens - of_int requested else tokens);
          retry_after = (if allowed then 0
                         else if refill_rate > 0 then (of_int requested - tokens) / refill_rate else - 1)
      in ((allowed, floor left, retry_after), kv_set K clk key (left, now) (Some ttl) m))"

record rate_limit_result =
  rr_allowed :: bool
  rr_remaining :: int
  rr_retry_after :: rat

definition retry_after_seconds :: "rate_limit_result \<Rightarrow> int" where
  "retry_after_seconds r =
     (if rr_retry_after r \<le> 0 then 1 else max 1 (py_int (rr_retry_after r + 999 / 1000)))"

text \<open>A Redis that is missing or fails is \<open>None\<close>: the check fails open.\<close>

definition check_rate_limit ::
  "'m buckets \<Rightarrow> timestamp \<Rightarrow> redis_key \<Rightarrow> rate_limit_policy \<Rightarrow> int \<Rightarrow> rat \<Rightarrow> 'm option
     \<Rightarrow> rate_limit_result \<times> 'm option" where
  "check_rate_limit K clk key p cost now redis =
     (case redis of
        None \<Rightarrow> (\<lparr>rr_allowed = True, rr_remaining = rl_capacity p, rr_retry_after = 0\<rparr>, None)
      | Some m \<Rightarrow>
          (let ((allowed, remaining, retry_after), m') =
             token_bucket K clk key (rl_capacity p) (rl_refill_rate p) now cost (ttl_seconds p) m
           in (\<lparr>rr_allowed = allowed, rr_remaining = remaining, rr_retry_after = retry_after\<rparr>, Some m')))"

section \<open>The middleware\<close>

record http_request =
  rq_path :: string
  rq_forwarded :: "string option"
  rq_peer :: "string option"
  rq_authorization :: "string option"

definition client_ip :: "http_request \<Rightarrow> string" where
  "client_ip rq =
     (case rq_forwarded rq of
        Some (c # cs) \<Rightarrow> strip (hd (split_on (CHR '','') (c # cs)))
      | _ \<Rightarrow> (case rq_peer rq of Some (c # cs) \<Rightarrow> c # cs | _ \<Rightarrow> ''unknown''))"

definition bearer_org_id :: "jwt_lib \<Rightarrow> timestamp \<Rightarrow> http_request \<Rightarrow> string option" where
  "bearer_org_id J now rq =
     (case rq_authorization rq of
        None \<Rightarrow> None
      | Some a \<Rightarrow>
          if a = [] \<or> \<not> starts_with (lower a) ''bearer '' then None
          else (case decode_access_token J now (bearer_token a) of
              Inl e \<Rightarrow> None
            | Inr c \<Rightarrow> if ac_org_id c = [] then None else Some (ac_org_id c)))"

definition EXEMPT_PATHS :: "string list" where
  "EXEMPT_PATHS = [''/api/v1/health'', ''/api/v1/docs'', ''/api/v1/openapi.json'']"

definition exempt :: "string list \<Rightarrow> string \<Rightarrow> bool" where
  "exempt paths path = list_ex (\<lambda>p. path = p \<or> starts_with path (p @ ''/'')) paths"

text \<open>The request goes on to the application, or is answered with 429, a Retry-After and a scope.\<close>

datatype verdict = Forwarded | Too_many int string

record limiter =
  lm_ip_policy :: rate_limit_policy
  lm_org_policy :: rate_limit_policy
  lm_exempt_paths :: "string list"

definition default_limiter :: limiter where
  "default_limiter = \<lparr>lm_ip_policy = DEFAULT_IP_POLICY, lm_org_policy = DEFAULT_ORG_POLICY,
     lm_exempt_paths = EXEMPT_PATHS\<rparr>"

text \<open>One clock serves the token's expiry, the buckets' and the time of the request.\<close>

definition seconds :: "timestamp \<Rightarrow> rat" where
  "seconds t = of_int t / 1000000"

definition limit_request ::
  "jwt_lib \<Rightarrow> 'm buckets \<Rightarrow> limiter \<Rightarrow> timestamp \<Rightarrow> http_request \<Rightarrow> 'm option \<Rightarrow> verdict \<times> 'm option" where
  "limit_request J K lm now rq redis =
     (if exempt (lm_exempt_paths lm) (rq_path rq) then (Forwarded, redis)
      else
        (let (ip_result, redis1) =
           check_rate_limit K now (RateLimitIp (client_ip rq)) (lm_ip_policy lm) 1 (seconds now) redis in
         if \<not> rr_allowed ip_result then (Too_many (retry_after_seconds ip_result) ''ip'', redis1)
         else
           (case bearer_org_id J now rq of
              None \<Rightarrow> (Forwarded, redis1)
            | Some org_id \<Rightarrow>
                (let (org_result, redis2) =
                   check_rate_limit K now (RateLimitOrg org_id) (lm_org_policy lm) 1 (seconds now) redis1 in
                 if \<not> rr_allowed org_result then (Too_many (retry_after_seconds org_result) ''org'', redis2)
                 else (Forwarded, redis2)))))"

section \<open>What a bucket admits\<close>

text \<open>The requests of one bucket at the times \<open>ts\<close>, and whether each is admitted.\<close>

fun admissions :: "'m buckets \<Rightarrow> redis_key \<Rightarrow> rate_limit_policy \<Rightarrow> timestamp list \<Rightarrow> 'm option \<Rightarrow> bool list" where
  "admissions K key p [] redis = []"
| "admissions K key p (t # ts) redis =
     (let (r, redis') = check_rate_limit K t key p 1 (seconds t) redis
      in rr_allowed r # admissions K key p ts redis')"

declare admissions.simps(2) [simp del]

definition admitted :: "bool list \<Rightarrow> nat" where
  "admitted bs = length (filter (\<lambda>b. b) bs)"

lemma admitted_Cons [simp]: "admitted [] = 0" "admitted (b # bs) = (if b then 1 else 0) + admitted bs"
  by (simp_all add: admitted_def)

definition available :: "'m buckets \<Rightarrow> redis_key \<Rightarrow> rate_limit_policy \<Rightarrow> timestamp \<Rightarrow> 'm \<Rightarrow> rat" where
  "available K key p t m = refilled (rl_capacity p) (rl_refill_rate p) (seconds t) (kv_get K t m key)"

definition spent :: "'m buckets \<Rightarrow> redis_key \<Rightarrow> rate_limit_policy \<Rightarrow> timestamp \<Rightarrow> 'm \<Rightarrow> 'm" where
  "spent K key p t m =
     kv_set K t key
       (available K key p t m - (if 1 \<le> available K key p t m then 1 else 0), seconds t)
       (Some (ttl_seconds p)) m"

lemma check_spends:
  "check_rate_limit K t key p 1 (seconds t) (Some m)
     = (\<lparr>rr_allowed = (1 \<le> available K key p t m),
         rr_remaining = floor (available K key p t m - (if 1 \<le> available K key p t m then 1 else 0)),
         rr_retry_after = (if 1 \<le> available K key p t m then 0
           else if rl_refill_rate p > 0 then (1 - available K key p t m) / rl_refill_rate p else - 1)\<rparr>,
        Some (spent K key p t m))"
  by (simp add: check_rate_limit_def token_bucket_def available_def spent_def Let_def)

lemma admissions_Cons:
  "admissions K key p (t # ts) (Some m)
     = (1 \<le> available K key p t m) # admissions K key p ts (Some (spent K key p t m))"
  by (simp add: admissions.simps check_spends)

lemma available_le: "available K key p t m \<le> of_int (rl_capacity p)"
  by (simp add: available_def refilled_def Let_def split: option.split prod.split)

lemma py_int_gt: "x < of_int (py_int x) + 1"
proof (cases "x < 0")
  case True
  then show ?thesis using of_int_floor_le [of "- x"] unfolding py_int_def by simp linarith
next
  case False
  then show ?thesis using floor_correct [of x] by (simp add: py_int_def)
qed

text \<open>A bucket expires only after it would be full again.\<close>

lemma ttl_refills:
  assumes "0 < rl_refill_rate p"
  shows "of_int (rl_capacity p) \<le> of_int (ttl_seconds p) * rl_refill_rate p"
proof -
  let ?x = "of_int (rl_capacity p) / rl_refill_rate p"
  have "?x < of_int (py_int ?x) + 60" using py_int_gt [of ?x] by linarith
  then have "?x \<le> of_int (ttl_seconds p)"
    using assms by (simp add: ttl_seconds_def max_def)
  then show ?thesis using assms by (simp add: field_simps)
qed

text \<open>The Redis the buckets live in.\<close>

locale rate_buckets = redis_keys K for K :: "'m buckets"
begin

lemma available_later:
  assumes "0 < rl_refill_rate p" "t \<le> t'" "0 \<le> available K key p t m" "0 \<le> rl_capacity p"
  shows "available K key p t' (spent K key p t m)
    = min (of_int (rl_capacity p))
        (available K key p t m - (if 1 \<le> available K key p t m then 1 else 0)
           + (seconds t' - seconds t) * rl_refill_rate p)"
proof -
  define left where "left = available K key p t m - (if 1 \<le> available K key p t m then 1 else 0)"
  have left: "0 \<le> left" using assms(3) by (simp add: left_def)
  have le: "0 \<le> seconds t' - seconds t" using assms(2) by (simp add: seconds_def divide_right_mono)
  have get: "kv_get K t' (spent K key p t m) key
      = (if t' < t + usec (ttl_seconds p) then Some (left, seconds t) else None)"
    by (simp add: spent_def left_def get_set [OF assms(2)])
  show ?thesis
  proof (cases "t' < t + usec (ttl_seconds p)")
    case True
    with get le show ?thesis by (simp add: available_def [of K key p t'] refilled_def left_def)
  next
    case False
    then have "of_int (ttl_seconds p) * 1000000 \<le> (of_int (t' - t) :: rat)"
      unfolding usec_def by (metis (no_types, lifting) add.commute diff_le_eq le_diff_eq linorder_not_less
        of_int_le_iff of_int_mult of_int_numeral)
    then have "of_int (ttl_seconds p) \<le> seconds t' - seconds t" by (simp add: seconds_def field_simps)
    then have "of_int (ttl_seconds p) * rl_refill_rate p \<le> (seconds t' - seconds t) * rl_refill_rate p"
      using assms(1) by (intro mult_right_mono) auto
    then have "of_int (rl_capacity p) \<le> left + (seconds t' - seconds t) * rl_refill_rate p"
      using ttl_refills [OF assms(1)] left by linarith
    with False get assms(4) show ?thesis
      by (simp add: available_def [of K key p t'] refilled_def left_def)
  qed
qed

lemma available_nonneg_later:
  assumes "0 < rl_refill_rate p" "t \<le> t'" "0 \<le> available K key p t m" "0 \<le> rl_capacity p"
  shows "0 \<le> available K key p t' (spent K key p t m)"
proof -
  have "seconds t \<le> seconds t'" using assms(2) by (simp add: seconds_def divide_right_mono)
  then show ?thesis using assms by (simp add: available_later [OF assms])
qed

lemma admitted_bound:
  assumes "0 < rl_refill_rate p" "0 \<le> rl_capacity p" "sorted (t # ts)" "0 \<le> available K key p t m"
  shows "of_nat (admitted (admissions K key p (t # ts) (Some m)))
    \<le> available K key p t m + rl_refill_rate p * (seconds (last (t # ts)) - seconds t)"
  using assms(3,4)
proof (induction ts arbitrary: t m)
  case Nil
  then show ?case by (simp add: admissions_Cons)
next
  case (Cons u us)
  let ?m = "spent K key p t m" and ?a = "available K key p t m"
  have le: "t \<le> u" using Cons.prems(1) by simp
  have "of_nat (admitted (admissions K key p (u # us) (Some ?m)))
      \<le> available K key p u ?m + rl_refill_rate p * (seconds (last (u # us)) - seconds u)"
    using Cons.prems(1) available_nonneg_later [OF assms(1) le Cons.prems(2) assms(2)]
    by (intro Cons.IH) auto
  also have "available K key p u ?m
      \<le> ?a - (if 1 \<le> ?a then 1 else 0) + rl_refill_rate p * (seconds u - seconds t)"
    unfolding available_later [OF assms(1) le Cons.prems(2) assms(2)] by (simp add: mult.commute)
  finally show ?case
    unfolding admissions_Cons [of K key p t] admitted_Cons
    by (cases "1 \<le> ?a") (simp_all add: right_diff_distrib)
qed

lemma spaced_admitted:
  assumes "0 < rl_refill_rate p" "1 \<le> rl_capacity p" "1 \<le> available K key p t m"
    and "sorted_wrt (\<lambda>a b. a \<le> b) (t # ts)"
    and "list_all (\<lambda>(a, b). 1 \<le> (seconds b - seconds a) * rl_refill_rate p) (zip (t # ts) ts)"
  shows "list_all id (admissions K key p (t # ts) (Some m))"
  using assms(3-5)
proof (induction ts arbitrary: t m)
  case Nil
  then show ?case by (simp add: admissions_Cons)
next
  case (Cons u us)
  have "available K key p u (spent K key p t m) \<ge> 1"
    using Cons.prems assms(1,2) by (subst available_later) auto
  with Cons show ?case by (simp add: admissions_Cons [of K key p t])
qed

end

interpretation rb: rate_buckets "ttl_maps :: (redis_key \<rightharpoonup> (rat \<times> rat) \<times> timestamp option) buckets"
  by (rule rate_buckets.intro) (rule tm.redis_keys_axioms)

section \<open>Properties\<close>

lemma refilled_nonneg:
  "0 \<le> capacity \<Longrightarrow> 0 \<le> refill_rate \<Longrightarrow> (case state of None \<Rightarrow> True | Some (tokens, ts) \<Rightarrow> 0 \<le> tokens) \<Longrightarrow>
   0 \<le> refilled capacity refill_rate now state"
  by (auto simp: refilled_def Let_def split: option.splits)

text \<open>C37. A token bucket bounds what it admits over every window of time: from any state whose stored
  tokens are not negative (in particular without a bucket), the requests of a bucket at times in
  order are admitted at most capacity plus rate times the length of the window, however many there
  are, and the expiry of idle buckets never lets more through.  The tokens stay between zero and the
  capacity.\<close>

theorem bucket_bounds_admissions:
  assumes "redis_keys K" "0 < rl_refill_rate p" "0 \<le> rl_capacity p" "sorted (t # ts)"
    and "case kv_get K t m key of None \<Rightarrow> True | Some (tokens, since) \<Rightarrow> 0 \<le> tokens"
  shows "of_nat (admitted (admissions K key p (t # ts) (Some m)))
      \<le> of_int (rl_capacity p) + rl_refill_rate p * (seconds (last (t # ts)) - seconds t)
    \<and> 0 \<le> available K key p (last (t # ts)) (spent K key p t m)
    \<and> available K key p (last (t # ts)) (spent K key p t m) \<le> of_int (rl_capacity p)"
proof -
  note rb = rate_buckets.intro [OF assms(1)]
  have start: "0 \<le> available K key p t m"
    unfolding available_def using assms(2,3,5) by (intro refilled_nonneg) auto
  have "t \<le> last (t # ts)" using assms(4) by (cases ts rule: rev_cases) auto
  with rate_buckets.available_nonneg_later [OF rb assms(2) _ start assms(3)]
    rate_buckets.admitted_bound [OF rb assms(2-4) start]
  show ?thesis using available_le [of K key p t m] available_le [of K key p] by fastforce
qed

lemma refused_then_admitted:
  assumes "redis_keys K" "0 < rl_refill_rate p" "1 \<le> rl_capacity p" "0 \<le> available K key p t m" "t \<le> t'"
    and "\<not> 1 \<le> available K key p t m"
    and "(1 - available K key p t m) / rl_refill_rate p \<le> seconds t' - seconds t"
  shows "1 \<le> available K key p t' (spent K key p t m)"
proof -
  have "1 - available K key p t m \<le> (seconds t' - seconds t) * rl_refill_rate p"
    using assms(2,7) by (simp add: pos_divide_le_eq)
  then show ?thesis
    using assms(3,6)
      rate_buckets.available_later [OF rate_buckets.intro [OF assms(1)] assms(2,5,4)] by simp
qed

text \<open>The limiter is fair: a client whose bucket holds a token and whose requests are at least the
  time of one token apart is never refused; and a refused client that stays silent for the time its
  result says is admitted.\<close>

theorem polite_clients_pass:
  assumes "redis_keys K" "0 < rl_refill_rate p" "1 \<le> rl_capacity p"
    and "1 \<le> available K key p t m" "sorted (t # ts)"
    and "list_all (\<lambda>(a, b). 1 \<le> (seconds b - seconds a) * rl_refill_rate p) (zip (t # ts) ts)"
    and "0 \<le> available K key' p u n" "check_rate_limit K u key' p 1 (seconds u) (Some n) = (r, Some n')"
    and "\<not> rr_allowed r" "u \<le> u'" "rr_retry_after r \<le> seconds u' - seconds u"
  shows "list_all (\<lambda>b. b) (admissions K key p (t # ts) (Some m))
    \<and> rr_allowed (fst (check_rate_limit K u' key' p 1 (seconds u') (Some n')))"
proof
  show "list_all (\<lambda>b. b) (admissions K key p (t # ts) (Some m))"
    using rate_buckets.spaced_admitted [OF rate_buckets.intro [OF assms(1)] assms(2-6)]
    by (simp add: id_def)
  have "1 \<le> available K key' p u' (spent K key' p u n)"
    using assms(2,8-11) by (intro refused_then_admitted [OF assms(1-3,7)]) (auto simp: check_spends)
  then show "rr_allowed (fst (check_rate_limit K u' key' p 1 (seconds u') (Some n')))"
    using assms(8) by (auto simp: check_spends)
qed

section \<open>Whom the middleware limits\<close>

fun limit_requests ::
  "jwt_lib \<Rightarrow> 'm buckets \<Rightarrow> limiter \<Rightarrow> (timestamp \<times> http_request) list \<Rightarrow> 'm option \<Rightarrow> verdict list" where
  "limit_requests J K lm [] redis = []"
| "limit_requests J K lm ((now, rq) # rqs) redis =
     (let (v, redis') = limit_request J K lm now rq redis in v # limit_requests J K lm rqs redis')"

lemma fresh_ip_forwarded:
  assumes "1 \<le> rl_capacity (lm_ip_policy lm)" "rq_authorization rq = None"
    and "kv_get K now m (RateLimitIp (client_ip rq)) = None"
  shows "\<exists>m'. limit_request J K lm now rq (Some m) = (Forwarded, Some m')
    \<and> (m' = m \<or> (\<exists>v ttl. m' = kv_set K now (RateLimitIp (client_ip rq)) v (Some ttl) m))"
proof -
  have "1 \<le> available K (RateLimitIp (client_ip rq)) (lm_ip_policy lm) now m"
    using assms(1,3) by (simp add: available_def refilled_def)
  then show ?thesis
    using assms(2) by (auto simp: limit_request_def check_spends bearer_org_id_def spent_def)
qed

text \<open>C40. The per-address limit binds only clients that leave the forwarding header alone: requests
  without a token pass, all of them, however fast they come, if each carries another first hop in
  X-Forwarded-For, which the client writes itself.  And when Redis is missing everything passes.\<close>

theorem forwarded_header_evades_limit:
  assumes "redis_keys K" "1 \<le> rl_capacity (lm_ip_policy lm)" "sorted (map fst rqs)"
    and "list_all (\<lambda>(now, rq). rq_authorization rq = None) rqs"
    and "distinct (map (client_ip \<circ> snd) rqs)"
    and "list_all (\<lambda>(now, rq). kv_get K now m (RateLimitIp (client_ip rq)) = None) rqs"
  shows "limit_requests J K lm rqs (Some m) = replicate (length rqs) Forwarded
    \<and> limit_requests J K lm any_rqs None = replicate (length any_rqs) Forwarded"
proof
  show "limit_requests J K lm rqs (Some m) = replicate (length rqs) Forwarded"
    using assms(3-6)
  proof (induction rqs arbitrary: m)
    case Nil
    show ?case by simp
  next
    case (Cons x rqs)
    obtain now rq where x: "x = (now, rq)" by (cases x)
    obtain m' where m': "limit_request J K lm now rq (Some m) = (Forwarded, Some m')"
      "m' = m \<or> (\<exists>v ttl. m' = kv_set K now (RateLimitIp (client_ip rq)) v (Some ttl) m)"
      using fresh_ip_forwarded [OF assms(2), of rq K now m J] Cons.prems by (auto simp: x)
    have "kv_get K t m' (RateLimitIp (client_ip r)) = None" if r: "(t, r) \<in> set rqs" for t r
    proof -
      have "now \<le> t" "client_ip r \<noteq> client_ip rq" "kv_get K t m (RateLimitIp (client_ip r)) = None"
        using Cons.prems r by (force simp: x list_all_iff)+
      with m'(2) show ?thesis by (auto simp: redis_keys.get_set [OF assms(1)])
    qed
    then have "limit_requests J K lm rqs (Some m') = replicate (length rqs) Forwarded"
      using Cons.prems by (intro Cons.IH) (auto simp: list_all_iff)
    with m'(1) show ?case by (simp add: x)
  qed
  have "limit_request J K lm now rq None = (Forwarded, None)" for now rq
    by (auto simp: limit_request_def check_rate_limit_def split: option.split)
  then show "limit_requests J K lm any_rqs None = replicate (length any_rqs) Forwarded"
    by (induction any_rqs) auto
qed

section \<open>Witnesses\<close>

abbreviation "ex_bucket \<equiv> (ttl_maps :: (redis_key \<rightharpoonup> (rat \<times> rat) \<times> timestamp option) buckets)"

theorem bucket_bounds_admissions_witness:
  "admitted (admissions ex_bucket (RateLimitIp ''1.2.3.4'') DEFAULT_IP_POLICY
      (replicate 130 1000000 @ [3000000]) (Some Map.empty)) \<le> 124"
proof -
  let ?ts = "replicate 129 1000000 @ [3000000 :: int]"
  have ts: "replicate 130 1000000 @ [3000000] = 1000000 # ?ts" by (simp add: numeral_eq_Suc)
  have sorted: "sorted (1000000 # ?ts)" by (simp add: sorted_append)
  have pos: "0 < rl_refill_rate DEFAULT_IP_POLICY" "0 \<le> rl_capacity DEFAULT_IP_POLICY"
    by (simp_all add: DEFAULT_IP_POLICY_def)
  have none: "case kv_get ex_bucket 1000000 Map.empty (RateLimitIp ''1.2.3.4'') of
      None \<Rightarrow> True | Some (tokens, since) \<Rightarrow> 0 \<le> tokens" by simp
  have "rat_of_nat (admitted (admissions ex_bucket (RateLimitIp ''1.2.3.4'') DEFAULT_IP_POLICY
      (1000000 # ?ts) (Some Map.empty))) \<le> 124"
    using conjunct1 [OF bucket_bounds_admissions [OF tm.redis_keys_axioms pos sorted none]]
    by (simp add: DEFAULT_IP_POLICY_def seconds_def)
  then show ?thesis unfolding ts by (metis of_nat_le_iff of_nat_numeral)
qed

theorem polite_clients_pass_witness:
  defines "p \<equiv> \<lparr>rl_capacity = 1, rl_refill_rate = 1\<rparr>"
  shows "admissions ex_bucket (RateLimitOrg ''o'') p [0, 1000000, 2500000] (Some Map.empty) = [True, True, True]
    \<and> rr_allowed (fst (check_rate_limit ex_bucket 1000000 (RateLimitOrg ''o'') p 1 1
        (snd (check_rate_limit ex_bucket 0 (RateLimitOrg ''o'') p 1 0
           (Some [RateLimitOrg ''o'' \<mapsto> ((0, 0), None)])))))"
proof -
  let ?o = "RateLimitOrg ''o''" and ?n = "[RateLimitOrg ''o'' \<mapsto> ((0, 0), None)]"
  have p: "0 < rl_refill_rate p" "1 \<le> rl_capacity p" by (simp_all add: p_def)
  have a: "1 \<le> available ex_bucket ?o p 0 Map.empty" "sorted [0, 1000000, 2500000 :: int]"
    "list_all (\<lambda>(a, b). 1 \<le> (seconds b - seconds a) * rl_refill_rate p) (zip [0, 1000000, 2500000] [1000000, 2500000])"
    by (simp_all add: available_def refilled_def p_def seconds_def)
  have av: "available ex_bucket ?o p 0 ?n = 0" by (simp add: available_def refilled_def p_def seconds_def)
  have c: "check_rate_limit ex_bucket 0 ?o p 1 (seconds 0) (Some ?n)
      = (\<lparr>rr_allowed = False, rr_remaining = 0, rr_retry_after = 1\<rparr>, Some (spent ex_bucket ?o p 0 ?n))"
    unfolding check_spends av by (simp add: p_def)
  have "list_all (\<lambda>b. b) (admissions ex_bucket ?o p [0, 1000000, 2500000] (Some Map.empty))
    \<and> rr_allowed (fst (check_rate_limit ex_bucket 1000000 ?o p 1 (seconds 1000000)
        (Some (spent ex_bucket ?o p 0 ?n))))"
    by (rule polite_clients_pass [OF tm.redis_keys_axioms p a _ c])
      (simp_all only: av rate_limit_result.simps seconds_def, simp_all)
  moreover have "length (admissions ex_bucket ?o p [0, 1000000, 2500000] (Some Map.empty)) = 3"
    by (simp add: admissions_Cons)
  moreover have "seconds 1000000 = 1" "seconds 0 = 0" by (simp_all add: seconds_def)
  ultimately show ?thesis
    using c by (auto simp: numeral_eq_Suc length_Suc_conv)
qed

theorem forwarded_header_evades_limit_witness:
  "\<exists>rqs. length rqs = 200 \<and> list_all (\<lambda>(now, rq). now = 5 \<and> rq_peer rq = Some ''6.6.6.6'') rqs
    \<and> limit_requests unary_jwt ex_bucket default_limiter rqs (Some Map.empty) = replicate 200 Forwarded"
proof -
  define mk where "mk n = (5 :: int, \<lparr>rq_path = ''/api/v1/auth/login'', rq_forwarded = Some (replicate (Suc n) (CHR ''1'')),
    rq_peer = Some ''6.6.6.6'', rq_authorization = None\<rparr>)" for n
  define n :: nat where "n = 200"
  let ?rqs = "map mk [0..<n]"
  have ip: "client_ip (snd (mk n)) = replicate (Suc n) (CHR ''1'')" for n
  proof -
    have "strip (replicate (Suc n) (CHR ''1'')) = replicate (Suc n) (CHR ''1'')"
      by (rule strip_no_space) (auto simp: is_space_def)
    then show ?thesis by (simp add: mk_def client_ip_def split_on_no_sep del: replicate_Suc) (simp add: split_on_no_sep)
  qed
  have cap: "1 \<le> rl_capacity (lm_ip_policy default_limiter)"
    by (simp add: default_limiter_def DEFAULT_IP_POLICY_def)
  have facts: "sorted (map fst ?rqs)" "list_all (\<lambda>(now, rq). rq_authorization rq = None) ?rqs"
    "list_all (\<lambda>(now, rq). kv_get ex_bucket now Map.empty (RateLimitIp (client_ip rq)) = None) ?rqs"
    "list_all (\<lambda>(now, rq). now = 5 \<and> rq_peer rq = Some ''6.6.6.6'') ?rqs"
    by (auto simp: sorted_iff_nth_mono list_all_iff mk_def)
  have "map (client_ip \<circ> snd) ?rqs = map (\<lambda>n. replicate (Suc n) (CHR ''1'')) [0..<n]"
    by (simp add: ip del: replicate_Suc)
  moreover have "distinct (map (\<lambda>n. replicate (Suc n) (CHR ''1'')) [0..<n])"
    by (auto simp: distinct_map inj_on_def replicate_eq_replicate)
  ultimately have hops: "distinct (map (client_ip \<circ> snd) ?rqs)" by (simp only:)
  have "limit_requests unary_jwt ex_bucket default_limiter ?rqs (Some Map.empty) = replicate (length ?rqs) Forwarded"
    using conjunct1 [OF forwarded_header_evades_limit [OF tm.redis_keys_axioms cap facts(1,2) hops facts(3)]] .
  with facts(4) show ?thesis by (intro exI [of _ ?rqs]) (simp add: n_def del: upt_rec_numeral)
qed

end
