(* ===== verification/Dashboards.thy ===== *)
theory Dashboards imports Access
begin

text \<open>
  Dashboards and widgets: the service (\<open>app/services/dashboard_service.py\<close>), its tables
  (\<open>app/models/dashboard.py\<close>) and what the public link serves (\<open>app/api/v1/dashboards.py\<close>).  Ids,
  share tokens and the creation time are arguments; deleting a dashboard deletes its widgets by the
  foreign key.  The lemmas give the well-formedness of the rows over every run, what a revoked link
  and a shared link do, and which rows a member can touch.
\<close>

section \<open>Tables\<close>

record dashboard =
  dsh_id :: uuid
  dsh_org_id :: uuid
  dsh_owner_user_id :: "uuid option"
  dsh_name :: string
  dsh_is_public :: bool
  dsh_public_token :: "string option"
  dsh_layout :: json
  dsh_created_at :: timestamp

record widget =
  wg_id :: uuid
  wg_org_id :: uuid
  wg_dashboard_id :: uuid
  wg_type :: string
  wg_config :: json
  wg_layout :: json
  wg_pinned :: bool
  wg_annotations :: json

record dash_db =
  dd_dashboards :: "dashboard list"
  dd_widgets :: "widget list"

definition WIDGET_TYPES :: "string list" where
  "WIDGET_TYPES = [''line'', ''gauge'', ''bar'', ''value'', ''map'', ''toggle'', ''slider'', ''alert_badge'']"

definition new_dashboard :: "uuid \<Rightarrow> uuid \<Rightarrow> uuid option \<Rightarrow> string \<Rightarrow> json \<Rightarrow> timestamp \<Rightarrow> dashboard" where
  "new_dashboard fresh org owner name layout now =
     \<lparr>dsh_id = fresh, dsh_org_id = org, dsh_owner_user_id = owner, dsh_name = name, dsh_is_public = False,
      dsh_public_token = None, dsh_layout = layout, dsh_created_at = now\<rparr>"

definition new_widget :: "uuid \<Rightarrow> uuid \<Rightarrow> uuid \<Rightarrow> string \<Rightarrow> json \<Rightarrow> json \<Rightarrow> widget" where
  "new_widget fresh org dashboard_id type config layout =
     \<lparr>wg_id = fresh, wg_org_id = org, wg_dashboard_id = dashboard_id, wg_type = type, wg_config = config,
      wg_layout = layout, wg_pinned = False, wg_annotations = JArr []\<rparr>"

section \<open>The service\<close>

definition dash_org_uuid :: "principal \<Rightarrow> uuid result" where
  "dash_org_uuid p = (case parse_uuid (pr_org_id p) of Some u \<Rightarrow> Inr u | None \<Rightarrow> Inl ValueError)"

definition owner_user_uuid :: "principal \<Rightarrow> uuid option" where
  "owner_user_uuid p = parse_uuid (pr_user_id p)"

definition invalid_dashboard_name :: app_error where
  "invalid_dashboard_name = ValidationError ''invalid_dashboard_name''"

definition dashboard_not_found :: app_error where
  "dashboard_not_found = NotFoundError ''not_found''"

definition create_dashboard ::
  "principal \<Rightarrow> timestamp \<Rightarrow> uuid \<Rightarrow> string \<Rightarrow> json \<Rightarrow> dash_db \<Rightarrow> (dashboard \<times> dash_db) result" where
  "create_dashboard p now fresh name layout db =
     bind_res (guard_res (strip name = []) invalid_dashboard_name) (\<lambda>_.
     bind_res (dash_org_uuid p) (\<lambda>org.
       let d = new_dashboard fresh org (owner_user_uuid p) (strip name) layout now in
     bind_res (insert_row dsh_id d (dd_dashboards db)) (\<lambda>rows.
       Inr (d, db\<lparr>dd_dashboards := rows\<rparr>))))"

definition list_dashboards :: "principal \<Rightarrow> dash_db \<Rightarrow> dashboard list" where
  "list_dashboards p db =
     (case owner_user_uuid p of
        None \<Rightarrow> []
      | Some owner \<Rightarrow>
          sort_key (\<lambda>d. - dsh_created_at d)
            (filter (\<lambda>d. dsh_owner_user_id d = Some owner) (dd_dashboards db)))"

definition get_dashboard :: "principal \<Rightarrow> uuid \<Rightarrow> dash_db \<Rightarrow> dashboard result" where
  "get_dashboard p dashboard_id db =
     (case tbl_get dsh_id (dd_dashboards db) dashboard_id of
        None \<Rightarrow> fail dashboard_not_found
      | Some d \<Rightarrow>
          if owner_user_uuid p = None \<or> dsh_owner_user_id d \<noteq> owner_user_uuid p
          then fail dashboard_not_found else Inr d)"

definition scoped_dashboard :: "principal \<Rightarrow> uuid \<Rightarrow> dash_db \<Rightarrow> dashboard result" where
  "scoped_dashboard p dashboard_id db = scope_get p dsh_id dsh_org_id (dd_dashboards db) dashboard_id"

definition update_dashboard ::
  "principal \<Rightarrow> uuid \<Rightarrow> string option \<Rightarrow> json \<Rightarrow> bool \<Rightarrow> bool \<Rightarrow> dash_db \<Rightarrow> (dashboard \<times> dash_db) result" where
  "update_dashboard p dashboard_id name layout name_set layout_set db =
     bind_res (scoped_dashboard p dashboard_id db) (\<lambda>d.
     bind_res (if name_set
               then (case name of
                   Some n \<Rightarrow> if strip n = [] then fail invalid_dashboard_name else Inr (d\<lparr>dsh_name := strip n\<rparr>)
                 | None \<Rightarrow> fail invalid_dashboard_name)
               else Inr d) (\<lambda>d1.
       let d2 = (if layout_set then d1\<lparr>dsh_layout := layout\<rparr> else d1)
       in Inr (d2, db\<lparr>dd_dashboards := tbl_put dsh_id d2 (dd_dashboards db)\<rparr>)))"

definition add_widget ::
  "principal \<Rightarrow> uuid \<Rightarrow> uuid \<Rightarrow> string \<Rightarrow> json \<Rightarrow> json \<Rightarrow> dash_db \<Rightarrow> (widget \<times> dash_db) result" where
  "add_widget p fresh dashboard_id type config layout db =
     bind_res (get_dashboard p dashboard_id db) (\<lambda>_.
     bind_res (guard_res (type \<notin> set WIDGET_TYPES) (ValidationError ''invalid_widget_type'')) (\<lambda>_.
     bind_res (dash_org_uuid p) (\<lambda>org.
       let w = new_widget fresh org dashboard_id type config layout in
     bind_res (insert_row wg_id w (dd_widgets db)) (\<lambda>rows.
       Inr (w, db\<lparr>dd_widgets := rows\<rparr>)))))"

definition get_widget :: "principal \<Rightarrow> uuid \<Rightarrow> uuid \<Rightarrow> dash_db \<Rightarrow> widget result" where
  "get_widget p dashboard_id widget_id db =
     bind_res (get_dashboard p dashboard_id db) (\<lambda>_.
       case tbl_get wg_id (dd_widgets db) widget_id of
         None \<Rightarrow> fail dashboard_not_found
       | Some w \<Rightarrow> if wg_dashboard_id w \<noteq> dashboard_id then fail dashboard_not_found else Inr w)"

record widget_patch =
  wp_config :: json
  wp_layout :: json
  wp_pinned :: "bool option"
  wp_annotations :: "json option"
  wp_config_set :: bool
  wp_layout_set :: bool
  wp_pinned_set :: bool
  wp_annotations_set :: bool

definition patched_widget :: "widget_patch \<Rightarrow> widget \<Rightarrow> widget" where
  "patched_widget u w =
     (let w1 = (if wp_config_set u then w\<lparr>wg_config := wp_config u\<rparr> else w);
          w2 = (if wp_layout_set u then w1\<lparr>wg_layout := wp_layout u\<rparr> else w1);
          w3 = (case wp_pinned u of
                  Some b \<Rightarrow> if wp_pinned_set u then w2\<lparr>wg_pinned := b\<rparr> else w2
                | None \<Rightarrow> w2)
      in if wp_annotations_set u
         then w3\<lparr>wg_annotations := (case wp_annotations u of Some a \<Rightarrow> a | None \<Rightarrow> JArr [])\<rparr> else w3)"

definition update_widget ::
  "principal \<Rightarrow> uuid \<Rightarrow> uuid \<Rightarrow> widget_patch \<Rightarrow> dash_db \<Rightarrow> (widget \<times> dash_db) result" where
  "update_widget p dashboard_id widget_id u db =
     bind_res (get_widget p dashboard_id widget_id db) (\<lambda>w.
       let w' = patched_widget u w
       in Inr (w', db\<lparr>dd_widgets := tbl_put wg_id w' (dd_widgets db)\<rparr>))"

definition list_widgets :: "principal \<Rightarrow> uuid \<Rightarrow> dash_db \<Rightarrow> widget list result" where
  "list_widgets p dashboard_id db =
     bind_res (get_dashboard p dashboard_id db) (\<lambda>_.
       Inr (filter (\<lambda>w. wg_dashboard_id w = dashboard_id) (dd_widgets db)))"

definition delete_widget :: "principal \<Rightarrow> uuid \<Rightarrow> uuid \<Rightarrow> dash_db \<Rightarrow> (unit \<times> dash_db) result" where
  "delete_widget p dashboard_id widget_id db =
     bind_res (get_widget p dashboard_id widget_id db) (\<lambda>w.
       Inr ((), db\<lparr>dd_widgets := filter (\<lambda>x. wg_id x \<noteq> wg_id w) (dd_widgets db)\<rparr>))"

text \<open>The column of share tokens is unique.\<close>

definition put_token :: "dashboard \<Rightarrow> dashboard list \<Rightarrow> dashboard list result" where
  "put_token d rows =
     (if dsh_public_token d \<noteq> None
         \<and> list_ex (\<lambda>x. dsh_id x \<noteq> dsh_id d \<and> dsh_public_token x = dsh_public_token d) rows
      then Inl IntegrityError else Inr (tbl_put dsh_id d rows))"

definition enable_sharing :: "principal \<Rightarrow> string \<Rightarrow> uuid \<Rightarrow> dash_db \<Rightarrow> (dashboard \<times> dash_db) result" where
  "enable_sharing p token dashboard_id db =
     bind_res (scoped_dashboard p dashboard_id db) (\<lambda>d.
       let d1 = (case dsh_public_token d of
                   Some (c # cs) \<Rightarrow> d
                 | _ \<Rightarrow> d\<lparr>dsh_public_token := Some token\<rparr>);
           d2 = d1\<lparr>dsh_is_public := True\<rparr> in
     bind_res (put_token d2 (dd_dashboards db)) (\<lambda>rows.
       Inr (d2, db\<lparr>dd_dashboards := rows\<rparr>)))"

definition disable_sharing :: "principal \<Rightarrow> uuid \<Rightarrow> dash_db \<Rightarrow> (dashboard \<times> dash_db) result" where
  "disable_sharing p dashboard_id db =
     bind_res (scoped_dashboard p dashboard_id db) (\<lambda>d.
       let d1 = d\<lparr>dsh_is_public := False, dsh_public_token := None\<rparr>
       in Inr (d1, db\<lparr>dd_dashboards := tbl_put dsh_id d1 (dd_dashboards db)\<rparr>))"

text \<open>The widgets the caller may select are deleted by the code, the others by the cascade.\<close>

definition delete_dashboard :: "principal \<Rightarrow> uuid \<Rightarrow> dash_db \<Rightarrow> (unit \<times> dash_db) result" where
  "delete_dashboard p dashboard_id db =
     bind_res (scoped_dashboard p dashboard_id db) (\<lambda>d.
       let own = filter (\<lambda>w. wg_dashboard_id w = dashboard_id) (scope_select p wg_org_id (dd_widgets db));
           rest = filter (\<lambda>w. wg_id w \<notin> wg_id ` set own) (dd_widgets db)
       in Inr ((), db\<lparr>dd_dashboards := filter (\<lambda>x. dsh_id x \<noteq> dsh_id d) (dd_dashboards db),
                      dd_widgets := filter (\<lambda>w. wg_dashboard_id w \<noteq> dsh_id d) rest\<rparr>))"

definition get_public_dashboard :: "string \<Rightarrow> dash_db \<Rightarrow> (dashboard \<times> widget list) result" where
  "get_public_dashboard public_token db =
     (if public_token = [] then fail dashboard_not_found
      else (case find (\<lambda>d. dsh_public_token d = Some public_token \<and> dsh_is_public d) (dd_dashboards db) of
          None \<Rightarrow> fail dashboard_not_found
        | Some d \<Rightarrow> Inr (d, filter (\<lambda>w. wg_dashboard_id w = dsh_id d) (dd_widgets db))))"

section \<open>What the routes answer\<close>

record public_dashboard =
  pd_id :: uuid
  pd_name :: string
  pd_layout :: json

record public_widget =
  pw_id :: uuid
  pw_dashboard_id :: uuid
  pw_type :: string
  pw_config :: json
  pw_layout :: json
  pw_pinned :: bool
  pw_annotations :: json

definition public_dashboard_out :: "dashboard \<Rightarrow> public_dashboard" where
  "public_dashboard_out d = \<lparr>pd_id = dsh_id d, pd_name = dsh_name d, pd_layout = dsh_layout d\<rparr>"

definition public_widget_out :: "widget \<Rightarrow> public_widget" where
  "public_widget_out w = \<lparr>pw_id = wg_id w, pw_dashboard_id = wg_dashboard_id w, pw_type = wg_type w,
     pw_config = wg_config w, pw_layout = wg_layout w, pw_pinned = wg_pinned w,
     pw_annotations = wg_annotations w\<rparr>"

definition get_public_dashboard_endpoint ::
  "string \<Rightarrow> dash_db \<Rightarrow> (public_dashboard \<times> public_widget list) result" where
  "get_public_dashboard_endpoint token db =
     bind_res (get_public_dashboard token db) (\<lambda>(d, ws).
       Inr (public_dashboard_out d, map public_widget_out ws))"

definition MANAGE_ROLES :: "string list" where
  "MANAGE_ROLES = [ROLE_PROJECT_CENTER, ROLE_DEVICE_USER, ROLE_SUPER_ADMIN]"

text \<open>\<open>rstrip("/")\<close>.\<close>

definition rstrip_slash :: "string \<Rightarrow> string" where
  "rstrip_slash s = rev (dropWhile (\<lambda>c. c = CHR ''/'') (rev s))"

definition share_dashboard ::
  "string \<Rightarrow> principal \<Rightarrow> string \<Rightarrow> uuid \<Rightarrow> dash_db \<Rightarrow> ((string \<times> string) \<times> dash_db) result" where
  "share_dashboard public_base_url p token dashboard_id db =
     bind_res (require_role MANAGE_ROLES p) (\<lambda>_.
     bind_res (enable_sharing p token dashboard_id db) (\<lambda>(d, db').
       let t = (case dsh_public_token d of Some t \<Rightarrow> t | None \<Rightarrow> [])
       in Inr ((t, rstrip_slash public_base_url @ ''/public/dashboards/'' @ t), db')))"

definition dashboard_detail :: "principal \<Rightarrow> uuid \<Rightarrow> dash_db \<Rightarrow> (dashboard \<times> widget list) result" where
  "dashboard_detail p dashboard_id db =
     bind_res (require_role MANAGE_ROLES p) (\<lambda>_.
     bind_res (get_dashboard p dashboard_id db) (\<lambda>d.
     bind_res (list_widgets p dashboard_id db) (\<lambda>ws. Inr (d, ws))))"

section \<open>Runs of operations\<close>

datatype dash_op =
    Op_create_dashboard principal timestamp uuid string json
  | Op_update_dashboard principal uuid "string option" json bool bool
  | Op_add_widget principal uuid uuid string json json
  | Op_update_widget principal uuid uuid widget_patch
  | Op_delete_widget principal uuid uuid
  | Op_enable_sharing principal string uuid
  | Op_disable_sharing principal uuid
  | Op_delete_dashboard principal uuid

fun dash_step :: "dash_op \<Rightarrow> dash_db \<Rightarrow> dash_db" where
  "dash_step (Op_create_dashboard p now fresh name layout) db = commit (create_dashboard p now fresh name layout) db"
| "dash_step (Op_update_dashboard p did name layout ns ls) db = commit (update_dashboard p did name layout ns ls) db"
| "dash_step (Op_add_widget p fresh did type config layout) db = commit (add_widget p fresh did type config layout) db"
| "dash_step (Op_update_widget p did wid u) db = commit (update_widget p did wid u) db"
| "dash_step (Op_delete_widget p did wid) db = commit (delete_widget p did wid) db"
| "dash_step (Op_enable_sharing p token did) db = commit (enable_sharing p token did) db"
| "dash_step (Op_disable_sharing p did) db = commit (disable_sharing p did) db"
| "dash_step (Op_delete_dashboard p did) db = commit (delete_dashboard p did) db"

text \<open>Generated tokens are not empty, and the annotations of a request are a list.\<close>

fun dash_op_ok :: "dash_op \<Rightarrow> bool" where
  "dash_op_ok (Op_enable_sharing p token did) = (token \<noteq> [])"
| "dash_op_ok (Op_update_widget p did wid u) =
     (case wp_annotations u of Some (JArr xs) \<Rightarrow> True | None \<Rightarrow> True | _ \<Rightarrow> False)"
| "dash_op_ok _ = True"

fun op_principal :: "dash_op \<Rightarrow> principal" where
  "op_principal (Op_create_dashboard p now fresh name layout) = p"
| "op_principal (Op_update_dashboard p did name layout ns ls) = p"
| "op_principal (Op_add_widget p fresh did type config layout) = p"
| "op_principal (Op_update_widget p did wid u) = p"
| "op_principal (Op_delete_widget p did wid) = p"
| "op_principal (Op_enable_sharing p token did) = p"
| "op_principal (Op_disable_sharing p did) = p"
| "op_principal (Op_delete_dashboard p did) = p"

definition widget_row_ok :: "widget \<Rightarrow> bool" where
  "widget_row_ok w = (wg_type w \<in> set WIDGET_TYPES \<and> (case wg_annotations w of JArr xs \<Rightarrow> True | _ \<Rightarrow> False))"

definition dashboard_row_ok :: "dashboard \<Rightarrow> bool" where
  "dashboard_row_ok d =
     (dsh_name d \<noteq> [] \<and> strip (dsh_name d) = dsh_name d
      \<and> (dsh_is_public d \<longleftrightarrow> dsh_public_token d \<noteq> None) \<and> dsh_public_token d \<noteq> Some [])"

definition tokens_unique :: "dashboard list \<Rightarrow> bool" where
  "tokens_unique ds =
     (\<forall>d \<in> set ds. \<forall>e \<in> set ds.
        dsh_public_token d = dsh_public_token e \<longrightarrow> dsh_public_token d \<noteq> None \<longrightarrow> dsh_id d = dsh_id e)"

definition dash_ok :: "dash_db \<Rightarrow> bool" where
  "dash_ok db =
     (distinct (map dsh_id (dd_dashboards db)) \<and> distinct (map wg_id (dd_widgets db))
      \<and> list_all dashboard_row_ok (dd_dashboards db) \<and> list_all widget_row_ok (dd_widgets db)
      \<and> wg_dashboard_id ` set (dd_widgets db) \<subseteq> dsh_id ` set (dd_dashboards db)
      \<and> tokens_unique (dd_dashboards db))"

lemma tokens_unique_sub: "tokens_unique ds \<Longrightarrow> set es \<subseteq> set ds \<Longrightarrow> tokens_unique es"
  unfolding tokens_unique_def by (meson subsetD)

lemma tokens_unique_snoc: "tokens_unique ds \<Longrightarrow> dsh_public_token d = None \<Longrightarrow> tokens_unique (ds @ [d])"
proof -
  assume u: "tokens_unique ds" and d: "dsh_public_token d = None"
  show ?thesis
    unfolding tokens_unique_def
  proof (intro ballI impI)
    fix x y
    assume "x \<in> set (ds @ [d])" "y \<in> set (ds @ [d])"
      and eq: "dsh_public_token x = dsh_public_token y" "dsh_public_token x \<noteq> None"
    moreover from eq d have "x \<noteq> d" "y \<noteq> d" by metis+
    ultimately have "x \<in> set ds" "y \<in> set ds" by simp_all
    with u eq show "dsh_id x = dsh_id y" unfolding tokens_unique_def by blast
  qed
qed

lemma tokens_unique_put:
  assumes "tokens_unique ds"
    and "\<And>x t. x \<in> set ds \<Longrightarrow> dsh_public_token d = Some t \<Longrightarrow> dsh_public_token x = Some t \<Longrightarrow> dsh_id x = dsh_id d"
  shows "tokens_unique (tbl_put dsh_id d ds)"
  unfolding tokens_unique_def
proof (intro ballI impI)
  fix x y
  assume m: "x \<in> set (tbl_put dsh_id d ds)" "y \<in> set (tbl_put dsh_id d ds)"
    and eq: "dsh_public_token x = dsh_public_token y" "dsh_public_token x \<noteq> None"
  obtain t where t: "dsh_public_token x = Some t" "dsh_public_token y = Some t" using eq by auto
  show "dsh_id x = dsh_id y"
    using in_set_tbl_put [OF m(1)] in_set_tbl_put [OF m(2)]
  proof (elim disjE)
    assume "x \<in> set ds" "y \<in> set ds"
    then show ?thesis using assms(1) eq unfolding tokens_unique_def by blast
  qed (use assms(2) [of x t] assms(2) [of y t] t in auto)
qed

lemma scoped_Inr:
  "scoped_dashboard p did db = Inr d \<Longrightarrow>
   d \<in> set (dd_dashboards db) \<and> dsh_id d = did \<and> tbl_get dsh_id (dd_dashboards db) did = Some d
     \<and> (is_super_admin p \<or> dsh_org_id d = pr_org_id p)"
  unfolding scoped_dashboard_def by (drule scope_get_Inr) (auto dest: tbl_get_Some)

lemma owned_Inr:
  "get_dashboard p did db = Inr d \<Longrightarrow>
   d \<in> set (dd_dashboards db) \<and> dsh_id d = did \<and> dsh_owner_user_id d = owner_user_uuid p
     \<and> owner_user_uuid p \<noteq> None"
  by (auto simp: get_dashboard_def fail_def split: option.splits if_splits dest: tbl_get_Some)

lemma get_widget_Inr:
  "get_widget p did wid db = Inr w \<Longrightarrow>
   w \<in> set (dd_widgets db) \<and> wg_id w = wid \<and> wg_dashboard_id w = did
     \<and> (\<exists>d. get_dashboard p did db = Inr d)"
  by (auto simp: get_widget_def fail_def bind_res_eq_Inr split: option.splits if_splits dest: tbl_get_Some)

text \<open>What each operation writes.\<close>

lemma create_dashboard_Inr:
  assumes "create_dashboard p now fresh name layout db = Inr (d, db')"
  obtains org where "dash_org_uuid p = Inr org" "strip name \<noteq> []" "fresh \<notin> dsh_id ` set (dd_dashboards db)"
    "d = new_dashboard fresh org (owner_user_uuid p) (strip name) layout now"
    "db' = db\<lparr>dd_dashboards := dd_dashboards db @ [d]\<rparr>"
  using assms by (auto simp: create_dashboard_def bind_res_eq_Inr Let_def insert_row_Inr new_dashboard_def)

lemma update_dashboard_Inr:
  assumes "update_dashboard p did name layout ns ls db = Inr (d', db')"
  obtains d where "scoped_dashboard p did db = Inr d" "dsh_id d' = did"
    "dsh_org_id d' = dsh_org_id d" "dsh_owner_user_id d' = dsh_owner_user_id d"
    "dsh_public_token d' = dsh_public_token d" "dsh_is_public d' = dsh_is_public d"
    "dsh_name d' = dsh_name d \<or> (\<exists>n. dsh_name d' = strip n \<and> strip n \<noteq> [])"
    "db' = db\<lparr>dd_dashboards := tbl_put dsh_id d' (dd_dashboards db)\<rparr>"
proof -
  obtain d where d: "scoped_dashboard p did db = Inr d"
    using assms by (cases "scoped_dashboard p did db") (simp_all add: update_dashboard_def)
  show thesis
    by (rule that [OF d])
      (use assms d scoped_Inr [OF d] in \<open>auto simp: update_dashboard_def bind_res_eq_Inr Let_def fail_def
        split: if_splits option.splits\<close>)
qed

lemma add_widget_Inr:
  assumes "add_widget p fresh did type config layout db = Inr (w, db')"
  obtains d org where "get_dashboard p did db = Inr d" "type \<in> set WIDGET_TYPES" "dash_org_uuid p = Inr org"
    "fresh \<notin> wg_id ` set (dd_widgets db)" "w = new_widget fresh org did type config layout"
    "db' = db\<lparr>dd_widgets := dd_widgets db @ [w]\<rparr>"
  using assms by (auto simp: add_widget_def bind_res_eq_Inr Let_def insert_row_Inr new_widget_def)

lemma update_widget_Inr:
  assumes "update_widget p did wid u db = Inr (w', db')"
  obtains w where "get_widget p did wid db = Inr w" "w' = patched_widget u w"
    "db' = db\<lparr>dd_widgets := tbl_put wg_id w' (dd_widgets db)\<rparr>"
  using assms by (auto simp: update_widget_def bind_res_eq_Inr Let_def)

lemma patched_same [simp]:
  "wg_id (patched_widget u w) = wg_id w" "wg_type (patched_widget u w) = wg_type w"
  "wg_dashboard_id (patched_widget u w) = wg_dashboard_id w" "wg_org_id (patched_widget u w) = wg_org_id w"
  by (simp_all add: patched_widget_def Let_def split: option.split)

lemma patched_annotations:
  "wg_annotations (patched_widget u w)
     = (if wp_annotations_set u then (case wp_annotations u of Some a \<Rightarrow> a | None \<Rightarrow> JArr []) else wg_annotations w)"
  by (simp add: patched_widget_def Let_def split: option.split)

lemma enable_sharing_Inr:
  assumes "enable_sharing p token did db = Inr (d', db')"
  obtains d t where "scoped_dashboard p did db = Inr d" "t = token \<or> dsh_public_token d = Some t \<and> t \<noteq> []"
    "d' = d\<lparr>dsh_public_token := Some t, dsh_is_public := True\<rparr>"
    "\<forall>x \<in> set (dd_dashboards db). dsh_public_token x = Some t \<longrightarrow> dsh_id x = did"
    "db' = db\<lparr>dd_dashboards := tbl_put dsh_id d' (dd_dashboards db)\<rparr>"
proof -
  obtain d where d: "scoped_dashboard p did db = Inr d"
    using assms by (cases "scoped_dashboard p did db") (simp_all add: enable_sharing_def)
  define t where "t = (case dsh_public_token d of Some (c # cs) \<Rightarrow> c # cs | _ \<Rightarrow> token)"
  have d1: "(case dsh_public_token d of Some (c # cs) \<Rightarrow> d | _ \<Rightarrow> d\<lparr>dsh_public_token := Some token\<rparr>)
      = d\<lparr>dsh_public_token := Some t\<rparr>"
    by (auto simp: t_def split: option.split list.split)
  show thesis
  proof (rule that [OF d, of t])
    show "t = token \<or> dsh_public_token d = Some t \<and> t \<noteq> []"
      by (auto simp: t_def split: option.splits list.splits)
  qed (use assms scoped_Inr [OF d] in \<open>auto simp: enable_sharing_def d d1 put_token_def bind_res_eq_Inr Let_def
      list_ex_iff split: if_splits\<close>)
qed

lemma disable_sharing_Inr:
  assumes "disable_sharing p did db = Inr (d', db')"
  obtains d where "scoped_dashboard p did db = Inr d"
    "d' = d\<lparr>dsh_is_public := False, dsh_public_token := None\<rparr>"
    "db' = db\<lparr>dd_dashboards := tbl_put dsh_id d' (dd_dashboards db)\<rparr>"
  using assms by (auto simp: disable_sharing_def bind_res_eq_Inr Let_def)

lemma delete_dashboard_Inr:
  assumes "delete_dashboard p did db = Inr (u, db')"
  obtains d where "scoped_dashboard p did db = Inr d"
    "db' = db\<lparr>dd_dashboards := filter (\<lambda>x. dsh_id x \<noteq> did) (dd_dashboards db), dd_widgets := dd_widgets db'\<rparr>"
    "\<exists>P. dd_widgets db' = filter P (dd_widgets db) \<and> (\<forall>w. P w \<longrightarrow> wg_dashboard_id w \<noteq> did)
       \<and> (distinct (map wg_id (dd_widgets db)) \<longrightarrow>
            (\<forall>w \<in> set (dd_widgets db). wg_dashboard_id w \<noteq> did \<longrightarrow> P w))"
proof -
  obtain d where d: "scoped_dashboard p did db = Inr d"
    using assms by (cases "scoped_dashboard p did db") (simp_all add: delete_dashboard_def)
  let ?own = "filter (\<lambda>w. wg_dashboard_id w = did) (scope_select p wg_org_id (dd_widgets db))"
  let ?P = "\<lambda>w. wg_id w \<notin> wg_id ` set ?own \<and> wg_dashboard_id w \<noteq> did"
  have db': "db' = db\<lparr>dd_dashboards := filter (\<lambda>x. dsh_id x \<noteq> did) (dd_dashboards db),
      dd_widgets := filter ?P (dd_widgets db)\<rparr>"
    using assms scoped_Inr [OF d] by (simp add: delete_dashboard_def d Let_def conj_commute)
  have sub: "set ?own \<subseteq> {w \<in> set (dd_widgets db). wg_dashboard_id w = did}"
    by (auto simp: scope_select_def split: if_splits)
  have others: "distinct (map wg_id (dd_widgets db)) \<longrightarrow>
      (\<forall>w \<in> set (dd_widgets db). wg_dashboard_id w \<noteq> did \<longrightarrow> ?P w)"
  proof (intro impI ballI conjI)
    fix w assume w: "distinct (map wg_id (dd_widgets db))" "w \<in> set (dd_widgets db)" "wg_dashboard_id w \<noteq> did"
    show "wg_id w \<notin> wg_id ` set ?own"
    proof
      assume "wg_id w \<in> wg_id ` set ?own"
      then obtain x where "x \<in> set (dd_widgets db)" "wg_dashboard_id x = did" "wg_id w = wg_id x" using sub by blast
      with w show False by (metis distinct_map inj_onD)
    qed
  qed assumption
  have "\<exists>P. dd_widgets db' = filter P (dd_widgets db) \<and> (\<forall>w. P w \<longrightarrow> wg_dashboard_id w \<noteq> did)
       \<and> (distinct (map wg_id (dd_widgets db)) \<longrightarrow>
            (\<forall>w \<in> set (dd_widgets db). wg_dashboard_id w \<noteq> did \<longrightarrow> P w))"
    by (rule exI [of _ ?P]) (use others in \<open>simp add: db'\<close>)
  then show thesis by (intro that [OF d]) (simp_all add: db')
qed

lemma dash_ok_put:
  assumes "dash_ok db" "dsh_id d' = dsh_id d" "d \<in> set (dd_dashboards db)" "dashboard_row_ok d'"
    and "\<And>x t. x \<in> set (dd_dashboards db) \<Longrightarrow> dsh_public_token d' = Some t \<Longrightarrow> dsh_public_token x = Some t
           \<Longrightarrow> dsh_id x = dsh_id d"
  shows "dash_ok (db\<lparr>dd_dashboards := tbl_put dsh_id d' (dd_dashboards db)\<rparr>)"
proof -
  let ?ds = "dd_dashboards db"
  have ids: "dsh_id ` set (tbl_put dsh_id d' ?ds) = dsh_id ` set ?ds"
    using tbl_put_keys [of dsh_id d' ?ds] by (metis set_map)
  have "tokens_unique (tbl_put dsh_id d' ?ds)"
    using assms(1,2,5) by (intro tokens_unique_put) (simp_all add: dash_ok_def)
  moreover have "list_all dashboard_row_ok (tbl_put dsh_id d' ?ds)"
    using assms(1,4) by (auto simp: dash_ok_def list_all_iff dest: in_set_tbl_put)
  ultimately show ?thesis using assms(1) ids by (simp add: dash_ok_def)
qed

lemma dash_ok_widgets:
  assumes "dash_ok db" "distinct (map wg_id ws)" "list_all widget_row_ok ws"
    and "wg_dashboard_id ` set ws \<subseteq> dsh_id ` set (dd_dashboards db)"
  shows "dash_ok (db\<lparr>dd_widgets := ws\<rparr>)"
  using assms by (simp add: dash_ok_def)

lemma create_dashboard_ok:
  assumes "dash_ok db" "create_dashboard p now fresh name layout db = Inr (d, db')"
  shows "dash_ok db'"
  using assms(2)
proof (rule create_dashboard_Inr)
  fix org
  assume d: "strip name \<noteq> []" "fresh \<notin> dsh_id ` set (dd_dashboards db)"
    "d = new_dashboard fresh org (owner_user_uuid p) (strip name) layout now"
    "db' = db\<lparr>dd_dashboards := dd_dashboards db @ [d]\<rparr>"
  then have "dashboard_row_ok d" "dsh_public_token d = None" "dsh_id d = fresh"
    by (simp_all add: dashboard_row_ok_def new_dashboard_def)
  moreover from this have "tokens_unique (dd_dashboards db @ [d])"
    using assms(1) by (intro tokens_unique_snoc) (simp_all add: dash_ok_def)
  ultimately show ?thesis using d(2) assms(1) unfolding d(4) by (auto simp: dash_ok_def)
qed

lemma update_dashboard_ok:
  assumes "dash_ok db" "update_dashboard p did name layout ns ls db = Inr (d', db')"
  shows "dash_ok db'"
  using assms(2)
proof (rule update_dashboard_Inr)
  fix d
  assume d: "scoped_dashboard p did db = Inr d" "dsh_id d' = did"
    "dsh_public_token d' = dsh_public_token d" "dsh_is_public d' = dsh_is_public d"
    "dsh_name d' = dsh_name d \<or> (\<exists>n. dsh_name d' = strip n \<and> strip n \<noteq> [])"
    "db' = db\<lparr>dd_dashboards := tbl_put dsh_id d' (dd_dashboards db)\<rparr>"
  from scoped_Inr [OF d(1)] have mem: "d \<in> set (dd_dashboards db)" "dsh_id d = did" by auto
  then have "dashboard_row_ok d" using assms(1) by (simp add: dash_ok_def list_all_iff)
  then have row: "dashboard_row_ok d'" using d(3-5) by (auto simp: dashboard_row_ok_def)
  show ?thesis unfolding d(6)
  proof (rule dash_ok_put [OF assms(1) _ mem(1) row])
    show "dsh_id d' = dsh_id d" using d(2) mem(2) by simp
    fix x t
    assume "x \<in> set (dd_dashboards db)" "dsh_public_token d' = Some t" "dsh_public_token x = Some t"
    then show "dsh_id x = dsh_id d"
      using assms(1) mem(1) d(3) unfolding dash_ok_def tokens_unique_def by (metis option.distinct(1))
  qed
qed

lemma enable_sharing_ok:
  assumes "dash_ok db" "token \<noteq> []" "enable_sharing p token did db = Inr (d', db')"
  shows "dash_ok db'"
  using assms(3)
proof (rule enable_sharing_Inr)
  fix d t
  assume d: "scoped_dashboard p did db = Inr d" "t = token \<or> dsh_public_token d = Some t \<and> t \<noteq> []"
    "d' = d\<lparr>dsh_public_token := Some t, dsh_is_public := True\<rparr>"
    "\<forall>x \<in> set (dd_dashboards db). dsh_public_token x = Some t \<longrightarrow> dsh_id x = did"
    "db' = db\<lparr>dd_dashboards := tbl_put dsh_id d' (dd_dashboards db)\<rparr>"
  from scoped_Inr [OF d(1)] have mem: "d \<in> set (dd_dashboards db)" "dsh_id d = did" by auto
  then have "dashboard_row_ok d" using assms(1) by (simp add: dash_ok_def list_all_iff)
  then have row: "dashboard_row_ok d'" using d(2,3) assms(2) by (auto simp: dashboard_row_ok_def)
  show ?thesis unfolding d(5)
    by (rule dash_ok_put [OF assms(1) _ mem(1) row]) (use d mem in auto)
qed

lemma disable_sharing_ok:
  assumes "dash_ok db" "disable_sharing p did db = Inr (d', db')"
  shows "dash_ok db'"
  using assms(2)
proof (rule disable_sharing_Inr)
  fix d
  assume d: "scoped_dashboard p did db = Inr d" "d' = d\<lparr>dsh_is_public := False, dsh_public_token := None\<rparr>"
    "db' = db\<lparr>dd_dashboards := tbl_put dsh_id d' (dd_dashboards db)\<rparr>"
  from scoped_Inr [OF d(1)] have mem: "d \<in> set (dd_dashboards db)" "dsh_id d = did" by auto
  then have "dashboard_row_ok d" using assms(1) by (simp add: dash_ok_def list_all_iff)
  then have row: "dashboard_row_ok d'" using d(2) by (auto simp: dashboard_row_ok_def)
  show ?thesis unfolding d(3)
    by (rule dash_ok_put [OF assms(1) _ mem(1) row]) (use d mem in auto)
qed

lemma add_widget_ok:
  assumes "dash_ok db" "add_widget p fresh did type config layout db = Inr (w, db')"
  shows "dash_ok db'"
  using assms(2)
proof (rule add_widget_Inr)
  fix d org
  assume w: "get_dashboard p did db = Inr d" "type \<in> set WIDGET_TYPES" "fresh \<notin> wg_id ` set (dd_widgets db)"
    "w = new_widget fresh org did type config layout" "db' = db\<lparr>dd_widgets := dd_widgets db @ [w]\<rparr>"
  have "widget_row_ok w" "wg_id w = fresh" "wg_dashboard_id w = did"
    using w(2,4) by (simp_all add: widget_row_ok_def new_widget_def)
  moreover have "did \<in> dsh_id ` set (dd_dashboards db)" using owned_Inr [OF w(1)] by blast
  ultimately show ?thesis unfolding w(5)
    using assms(1) w(3) by (intro dash_ok_widgets) (auto simp: dash_ok_def)
qed

lemma update_widget_ok:
  assumes "dash_ok db" "dash_op_ok (Op_update_widget p did wid u)" "update_widget p did wid u db = Inr (w', db')"
  shows "dash_ok db'"
  using assms(3)
proof (rule update_widget_Inr)
  fix w
  assume w: "get_widget p did wid db = Inr w" "w' = patched_widget u w"
    "db' = db\<lparr>dd_widgets := tbl_put wg_id w' (dd_widgets db)\<rparr>"
  from get_widget_Inr [OF w(1)] have mem: "w \<in> set (dd_widgets db)" "wg_id w = wid" by auto
  then have ok: "widget_row_ok w" "distinct (map wg_id (dd_widgets db))"
    "list_all widget_row_ok (dd_widgets db)"
    "wg_dashboard_id ` set (dd_widgets db) \<subseteq> dsh_id ` set (dd_dashboards db)"
    using assms(1) by (simp_all add: dash_ok_def list_all_iff)
  then have "widget_row_ok w'"
    using assms(2) by (auto simp: w(2) widget_row_ok_def patched_annotations split: option.splits json.splits)
  then have "list_all widget_row_ok (tbl_put wg_id w' (dd_widgets db))"
    using ok(3) by (auto simp: list_all_iff dest: in_set_tbl_put)
  moreover have "wg_dashboard_id ` set (tbl_put wg_id w' (dd_widgets db)) \<subseteq> wg_dashboard_id ` set (dd_widgets db)"
    using mem(1) by (auto simp: w(2) dest!: in_set_tbl_put)
  ultimately show ?thesis unfolding w(3)
    using ok by (intro dash_ok_widgets [OF assms(1)]) auto
qed

lemma delete_widget_ok:
  assumes "dash_ok db" "delete_widget p did wid db = Inr (u, db')"
  shows "dash_ok db'"
proof -
  obtain w where "get_widget p did wid db = Inr w"
    using assms(2) by (cases "get_widget p did wid db") (simp_all add: delete_widget_def)
  with assms(2) have db': "db' = db\<lparr>dd_widgets := filter (\<lambda>x. wg_id x \<noteq> wg_id w) (dd_widgets db)\<rparr>"
    by (simp add: delete_widget_def)
  show ?thesis unfolding db'
    using assms(1) by (intro dash_ok_widgets) (auto simp: dash_ok_def distinct_map_filter list_all_iff)
qed

lemma delete_dashboard_ok:
  assumes "dash_ok db" "delete_dashboard p did db = Inr (u, db')"
  shows "dash_ok db'"
  using assms(2)
proof (rule delete_dashboard_Inr)
  assume ds: "db' = db\<lparr>dd_dashboards := filter (\<lambda>x. dsh_id x \<noteq> did) (dd_dashboards db), dd_widgets := dd_widgets db'\<rparr>"
  assume "\<exists>P. dd_widgets db' = filter P (dd_widgets db) \<and> (\<forall>w. P w \<longrightarrow> wg_dashboard_id w \<noteq> did)
       \<and> (distinct (map wg_id (dd_widgets db)) \<longrightarrow> (\<forall>w \<in> set (dd_widgets db). wg_dashboard_id w \<noteq> did \<longrightarrow> P w))"
  then obtain P where P: "dd_widgets db' = filter P (dd_widgets db)" "\<forall>w. P w \<longrightarrow> wg_dashboard_id w \<noteq> did" by blast
  have ds': "dd_dashboards db' = filter (\<lambda>x. dsh_id x \<noteq> did) (dd_dashboards db)"
    using arg_cong [OF ds, of dd_dashboards] by simp
  have "wg_dashboard_id ` set (filter P (dd_widgets db)) \<subseteq> wg_dashboard_id ` set (dd_widgets db) - {did}"
    using P(2) by auto
  moreover have "wg_dashboard_id ` set (dd_widgets db) - {did}
      \<subseteq> dsh_id ` set (filter (\<lambda>x. dsh_id x \<noteq> did) (dd_dashboards db))"
  proof
    fix i assume "i \<in> wg_dashboard_id ` set (dd_widgets db) - {did}"
    moreover have "wg_dashboard_id ` set (dd_widgets db) \<subseteq> dsh_id ` set (dd_dashboards db)"
      using assms(1) unfolding dash_ok_def by blast
    ultimately have "i \<in> dsh_id ` set (dd_dashboards db)" "i \<noteq> did" by blast+
    then show "i \<in> dsh_id ` set (filter (\<lambda>x. dsh_id x \<noteq> did) (dd_dashboards db))" by auto
  qed
  moreover have "tokens_unique (filter (\<lambda>x. dsh_id x \<noteq> did) (dd_dashboards db))"
    by (rule tokens_unique_sub [of "dd_dashboards db"]) (use assms(1) in \<open>simp_all only: dash_ok_def filter_is_subset\<close>)
  moreover have "list_all dashboard_row_ok (filter (\<lambda>x. dsh_id x \<noteq> did) (dd_dashboards db))"
    "list_all widget_row_ok (filter P (dd_widgets db))"
    using assms(1) by (auto simp: dash_ok_def list_all_iff)
  moreover have "distinct (map dsh_id (filter (\<lambda>x. dsh_id x \<noteq> did) (dd_dashboards db)))"
    "distinct (map wg_id (filter P (dd_widgets db)))"
    using assms(1) by (simp_all add: dash_ok_def distinct_map_filter)
  ultimately show ?thesis unfolding dash_ok_def ds' P(1) by (intro conjI) (assumption | rule subset_trans)+
qed

lemmas dash_oks = create_dashboard_ok update_dashboard_ok add_widget_ok update_widget_ok delete_widget_ok
  enable_sharing_ok disable_sharing_ok delete_dashboard_ok

lemma commit_ok: "dash_ok db \<Longrightarrow> (\<And>x db'. f db = Inr (x, db') \<Longrightarrow> dash_ok db') \<Longrightarrow> dash_ok (commit f db)"
  by (auto simp: commit_def split: sum.split)

lemma dash_step_ok:
  assumes "dash_ok db" "dash_op_ok op"
  shows "dash_ok (dash_step op db)"
proof (cases op)
  case (Op_update_widget p did wid u)
  then show ?thesis
    using assms update_widget_ok [of db p did wid u] by (simp only: dash_step.simps) (blast intro: commit_ok)
next
  case (Op_enable_sharing p token did)
  then show ?thesis
    using assms enable_sharing_ok [of db token p did] by (simp only: dash_step.simps dash_op_ok.simps) (blast intro: commit_ok)
qed (simp_all only: dash_step.simps, (rule commit_ok [OF assms(1)], erule dash_oks [OF assms(1)])+)

interpretation dash: guarded_system dash_step dash_op_ok dash_ok
  by unfold_locales (rule dash_step_ok)

section \<open>Links\<close>

definition token_absent :: "string \<Rightarrow> dash_db \<Rightarrow> bool" where
  "token_absent t db = (\<forall>d \<in> set (dd_dashboards db). dsh_public_token d \<noteq> Some t)"

fun mints :: "string \<Rightarrow> dash_op \<Rightarrow> bool" where
  "mints t (Op_enable_sharing p token did) = (token = t)"
| "mints t _ = False"

lemma token_absent_put:
  "token_absent t db \<Longrightarrow> dsh_public_token d \<noteq> Some t \<Longrightarrow>
   token_absent t (db\<lparr>dd_dashboards := tbl_put dsh_id d (dd_dashboards db)\<rparr>)"
  by (auto simp: token_absent_def dest: in_set_tbl_put)

lemma token_absent_commit:
  "token_absent t db \<Longrightarrow> (\<And>x db'. f db = Inr (x, db') \<Longrightarrow> token_absent t db') \<Longrightarrow> token_absent t (commit f db)"
  by (auto simp: commit_def split: sum.split)

lemma token_absent_step:
  assumes "token_absent t db" "\<not> mints t op"
  shows "token_absent t (dash_step op db)"
proof (cases op)
  case (Op_create_dashboard p now fresh name layout)
  show ?thesis unfolding Op_create_dashboard dash_step.simps
    by (rule token_absent_commit [OF assms(1)], erule create_dashboard_Inr)
      (use assms(1) in \<open>simp add: token_absent_def new_dashboard_def\<close>)
next
  case (Op_update_dashboard p did name layout ns ls)
  show ?thesis unfolding Op_update_dashboard dash_step.simps
  proof (rule token_absent_commit [OF assms(1)], erule update_dashboard_Inr)
    fix d' d db'
    assume d: "scoped_dashboard p did db = Inr d" "dsh_public_token d' = dsh_public_token d"
      "db' = db\<lparr>dd_dashboards := tbl_put dsh_id d' (dd_dashboards db)\<rparr>"
    show "token_absent t db'" unfolding d(3)
      using assms(1) scoped_Inr [OF d(1)] d(2) by (intro token_absent_put) (auto simp: token_absent_def)
  qed
next
  case (Op_enable_sharing p token did)
  show ?thesis unfolding Op_enable_sharing dash_step.simps
  proof (rule token_absent_commit [OF assms(1)], erule enable_sharing_Inr)
    fix d' d u db'
    assume d: "scoped_dashboard p did db = Inr d" "u = token \<or> dsh_public_token d = Some u \<and> u \<noteq> []"
      "d' = d\<lparr>dsh_public_token := Some u, dsh_is_public := True\<rparr>"
      "db' = db\<lparr>dd_dashboards := tbl_put dsh_id d' (dd_dashboards db)\<rparr>"
    show "token_absent t db'" unfolding d(4)
      using assms scoped_Inr [OF d(1)] d(2,3) Op_enable_sharing
      by (intro token_absent_put) (auto simp: token_absent_def)
  qed
next
  case (Op_disable_sharing p did)
  show ?thesis unfolding Op_disable_sharing dash_step.simps
    by (rule token_absent_commit [OF assms(1)], erule disable_sharing_Inr)
      (use token_absent_put [OF assms(1)] in simp)
next
  case (Op_delete_dashboard p did)
  show ?thesis unfolding Op_delete_dashboard dash_step.simps
  proof (rule token_absent_commit [OF assms(1)], erule delete_dashboard_Inr)
    fix db'
    assume "db' = db\<lparr>dd_dashboards := filter (\<lambda>x. dsh_id x \<noteq> did) (dd_dashboards db), dd_widgets := dd_widgets db'\<rparr>"
    from arg_cong [OF this, of dd_dashboards] show "token_absent t db'"
      using assms(1) by (simp add: token_absent_def)
  qed
next
  case (Op_add_widget p fresh did type config layout)
  show ?thesis unfolding Op_add_widget dash_step.simps
    by (rule token_absent_commit [OF assms(1)], erule add_widget_Inr) (use assms(1) in \<open>simp add: token_absent_def\<close>)
next
  case (Op_update_widget p did wid u)
  show ?thesis unfolding Op_update_widget dash_step.simps
    by (rule token_absent_commit [OF assms(1)], erule update_widget_Inr) (use assms(1) in \<open>simp add: token_absent_def\<close>)
next
  case (Op_delete_widget p did wid)
  show ?thesis unfolding Op_delete_widget dash_step.simps
    by (rule token_absent_commit [OF assms(1)])
      (use assms(1) in \<open>auto simp: token_absent_def delete_widget_def bind_res_eq_Inr\<close>)
qed

interpretation links: guarded_system dash_step "\<lambda>op. \<not> mints t op" "token_absent t" for t
  by unfold_locales (rule token_absent_step)

lemma absent_not_found: "token_absent t db \<Longrightarrow> get_public_dashboard t db = fail dashboard_not_found"
  by (auto simp: get_public_dashboard_def token_absent_def find_None_iff find_Some_iff split: option.split)

lemma public_dashboard_found:
  assumes "dash_ok db" "d \<in> set (dd_dashboards db)" "dsh_public_token d = Some t"
  shows "get_public_dashboard t db = Inr (d, filter (\<lambda>w. wg_dashboard_id w = dsh_id d) (dd_widgets db))"
proof -
  have row: "t \<noteq> []" "dsh_is_public d"
    using assms by (auto simp: dash_ok_def list_all_iff dashboard_row_ok_def)
  let ?P = "\<lambda>x. dsh_public_token x = Some t \<and> dsh_is_public x"
  have "find ?P (dd_dashboards db) \<noteq> None" using assms(2,3) row(2) by (auto simp: find_None_iff)
  then obtain e where e: "find ?P (dd_dashboards db) = Some e" by auto
  then have mem: "e \<in> set (dd_dashboards db)" "dsh_public_token e = Some t" by (auto simp: find_Some_iff)
  then have "dsh_id e = dsh_id d"
    using assms unfolding dash_ok_def tokens_unique_def by (metis option.distinct(1))
  then have "e = d" using assms(1,2) mem(1) by (auto simp: dash_ok_def distinct_map dest: inj_onD)
  with e row(1) show ?thesis by (simp add: get_public_dashboard_def)
qed

section \<open>Properties\<close>

text \<open>Every run of dashboard operations keeps the rows well typed: ids are unique, names are stripped and
  not empty, a dashboard is public exactly when it has a token and no two dashboards share one, and
  every widget is of a supported type, carries a list of annotations and belongs to an existing
  dashboard.\<close>

theorem dashboard_rows_well_typed:
  assumes "dash_ok db" "list_all dash_op_ok ops"
  shows "dash_ok (run_ops dash_step ops db)"
  using assms by (rule dash.run_inv)

text \<open>A revoked link stays dead: once sharing of a dashboard is disabled, its old token finds nothing,
  whatever anybody does to any dashboard afterwards, unless the random generator issues the same
  token again.\<close>

theorem revoked_link_stays_dead:
  assumes "dash_ok db" "d \<in> set (dd_dashboards db)" "dsh_public_token d = Some t"
    and "disable_sharing p (dsh_id d) db = Inr (d', db')" "list_all (\<lambda>op. \<not> mints t op) ops"
  shows "get_public_dashboard_endpoint t (run_ops dash_step ops db') = fail dashboard_not_found"
proof -
  have "token_absent t db'"
    using assms(4)
  proof (rule disable_sharing_Inr)
    fix e
    assume e: "scoped_dashboard p (dsh_id d) db = Inr e" "d' = e\<lparr>dsh_is_public := False, dsh_public_token := None\<rparr>"
      "db' = db\<lparr>dd_dashboards := tbl_put dsh_id d' (dd_dashboards db)\<rparr>"
    have "dsh_id x = dsh_id d" if "x \<in> set (dd_dashboards db)" "dsh_public_token x = Some t" for x
      using that assms(1-3) unfolding dash_ok_def tokens_unique_def by (metis option.distinct(1))
    with scoped_Inr [OF e(1)] show ?thesis
      unfolding token_absent_def e(2,3) by (auto simp: tbl_put_def)
  qed
  then have "token_absent t (run_ops dash_step ops db')" using assms(5) by (rule links.run_inv)
  then show ?thesis
    by (simp add: get_public_dashboard_endpoint_def absent_not_found) (simp add: fail_def)
qed

text \<open>What one may not see one may publish: a member of the organization that does not own a dashboard
  finds it neither by id nor in the list, and yet sharing it succeeds and the link serves its name,
  layout and widgets, without authentication.\<close>

theorem colleague_publishes_private_dashboard:
  assumes "dash_ok db" "d \<in> set (dd_dashboards db)" "dsh_org_id d = pr_org_id p"
    and "dsh_owner_user_id d \<noteq> owner_user_uuid p" "pr_role p \<in> set MANAGE_ROLES" "token \<noteq> []" "token_absent token db"
  shows "dashboard_detail p (dsh_id d) db = fail dashboard_not_found \<and> d \<notin> set (list_dashboards p db)
    \<and> (\<exists>t url db'. share_dashboard base p token (dsh_id d) db = Inr ((t, url), db')
        \<and> get_public_dashboard_endpoint t db' = Inr (public_dashboard_out d,
            map public_widget_out (filter (\<lambda>w. wg_dashboard_id w = dsh_id d) (dd_widgets db))))"
proof -
  have get: "tbl_get dsh_id (dd_dashboards db) (dsh_id d) = Some d"
    using assms(1,2) by (simp add: dash_ok_def tbl_get_distinct)
  then have scoped: "scoped_dashboard p (dsh_id d) db = Inr d"
    using assms(3) by (simp add: scoped_dashboard_def scope_get_def)
  have role: "require_role MANAGE_ROLES p = Inr p" using assms(5) by (simp add: require_role_def)
  define t where "t = (case dsh_public_token d of Some (c # cs) \<Rightarrow> c # cs | _ \<Rightarrow> token)"
  define d' where "d' = d\<lparr>dsh_public_token := Some t, dsh_is_public := True\<rparr>"
  define db' where "db' = db\<lparr>dd_dashboards := tbl_put dsh_id d' (dd_dashboards db)\<rparr>"
  have d1: "(case dsh_public_token d of Some (c # cs) \<Rightarrow> d | _ \<Rightarrow> d\<lparr>dsh_public_token := Some token\<rparr>)
      = d\<lparr>dsh_public_token := Some t\<rparr>"
    by (auto simp: t_def split: option.split list.split)
  have t_cases: "t = token \<or> dsh_public_token d = Some t"
    by (auto simp: t_def split: option.split list.split)
  have mine: "dsh_id x = dsh_id d" if "x \<in> set (dd_dashboards db)" "dsh_public_token x = Some t" for x
    using t_cases
  proof
    assume "t = token"
    then show ?thesis using assms(7) that by (simp add: token_absent_def)
  next
    assume "dsh_public_token d = Some t"
    then show ?thesis using assms(1,2) that unfolding dash_ok_def tokens_unique_def by (metis option.distinct(1))
  qed
  have share: "enable_sharing p token (dsh_id d) db = Inr (d', db')"
    using mine by (auto simp: enable_sharing_def scoped Let_def d1 put_token_def d'_def db'_def list_ex_iff)
  have "dash_ok db'" using assms(1,6) share by (rule enable_sharing_ok)
  moreover have "d' \<in> set (dd_dashboards db')" using assms(2) by (auto simp: db'_def d'_def tbl_put_def image_iff)
  ultimately have "get_public_dashboard t db'
      = Inr (d', filter (\<lambda>w. wg_dashboard_id w = dsh_id d') (dd_widgets db'))"
    by (rule public_dashboard_found) (simp add: d'_def)
  then have "get_public_dashboard_endpoint t db' = Inr (public_dashboard_out d,
      map public_widget_out (filter (\<lambda>w. wg_dashboard_id w = dsh_id d) (dd_widgets db)))"
    by (simp add: get_public_dashboard_endpoint_def public_dashboard_out_def d'_def db'_def)
  moreover have "\<exists>url. share_dashboard base p token (dsh_id d) db = Inr ((t, url), db')"
    by (simp add: share_dashboard_def role share d'_def Let_def)
  moreover have "dashboard_detail p (dsh_id d) db = fail dashboard_not_found"
    using assms(4) by (simp add: dashboard_detail_def role get_dashboard_def get fail_def)
  moreover have "d \<notin> set (list_dashboards p db)"
    using assms(4) by (auto simp: list_dashboards_def split: option.split)
  ultimately show ?thesis by blast
qed

text \<open>What of the tables is out of a principal's reach: dashboards of other organizations it does not own,
  and their widgets.\<close>

definition beyond :: "principal \<Rightarrow> dashboard \<Rightarrow> bool" where
  "beyond p d = (dsh_org_id d \<noteq> pr_org_id p \<and> dsh_owner_user_id d \<noteq> owner_user_uuid p)"

definition out_of_reach :: "principal \<Rightarrow> dash_db \<Rightarrow> dashboard list \<times> widget list" where
  "out_of_reach p db =
     (filter (beyond p) (dd_dashboards db),
      filter (\<lambda>w. \<exists>d \<in> set (dd_dashboards db). beyond p d \<and> wg_dashboard_id w = dsh_id d) (dd_widgets db))"

lemma filter_put_same:
  "(\<And>x. x \<in> set rows \<Longrightarrow> key x = key r \<Longrightarrow> \<not> P x) \<Longrightarrow> \<not> P r \<Longrightarrow> filter P (tbl_put key r rows) = filter P rows"
  by (induction rows) auto

lemma out_of_reach_put:
  assumes "dash_ok db" "d \<in> set (dd_dashboards db)" "\<not> beyond p d" "\<not> beyond p d'" "dsh_id d' = dsh_id d"
  shows "out_of_reach p (db\<lparr>dd_dashboards := tbl_put dsh_id d' (dd_dashboards db)\<rparr>) = out_of_reach p db"
proof -
  have filt: "filter (beyond p) (tbl_put dsh_id d' (dd_dashboards db)) = filter (beyond p) (dd_dashboards db)"
  proof (rule filter_put_same)
    show "\<not> beyond p d'" by (rule assms(4))
    fix x assume "x \<in> set (dd_dashboards db)" "dsh_id x = dsh_id d'"
    then have "x = d" using assms(1,2,5) by (auto simp: dash_ok_def distinct_map dest: inj_onD)
    then show "\<not> beyond p x" using assms(3) by simp
  qed
  have "(\<exists>d \<in> set (tbl_put dsh_id d' (dd_dashboards db)). beyond p d \<and> i = dsh_id d)
      \<longleftrightarrow> (\<exists>d \<in> set (dd_dashboards db). beyond p d \<and> i = dsh_id d)" for i
  proof -
    have "(\<exists>d \<in> set ds. beyond p d \<and> i = dsh_id d) \<longleftrightarrow> i \<in> dsh_id ` set (filter (beyond p) ds)" for ds
      by auto
    then show ?thesis by (simp only: filt)
  qed
  with filt show ?thesis by (simp add: out_of_reach_def)
qed

lemma out_of_reach_widgets:
  assumes "filter (\<lambda>w. \<exists>d \<in> set (dd_dashboards db). beyond p d \<and> wg_dashboard_id w = dsh_id d) ws
      = filter (\<lambda>w. \<exists>d \<in> set (dd_dashboards db). beyond p d \<and> wg_dashboard_id w = dsh_id d) (dd_widgets db)"
  shows "out_of_reach p (db\<lparr>dd_widgets := ws\<rparr>) = out_of_reach p db"
  using assms by (simp add: out_of_reach_def)

lemma own_widget_reached:
  assumes "dash_ok db" "get_dashboard p did db = Inr d" "e \<in> set (dd_dashboards db)" "beyond p e"
  shows "did \<noteq> dsh_id e"
proof
  assume "did = dsh_id e"
  with owned_Inr [OF assms(2)] have "e = d"
    using assms(1,3) by (auto simp: dash_ok_def distinct_map dest: inj_onD)
  with owned_Inr [OF assms(2)] assms(4) show False by (simp add: beyond_def)
qed

lemma commit_same:
  "(\<And>x s'. f s = Inr (x, s') \<Longrightarrow> g s' = g s) \<Longrightarrow> g (commit f s) = g s"
  by (auto simp: commit_def split: sum.split)

lemma create_out_of_reach:
  assumes "is_uuid (pr_org_id p)" "create_dashboard p now fresh name layout db = Inr (d, db')" "dash_ok db"
  shows "out_of_reach p db' = out_of_reach p db"
  using assms(2)
proof (rule create_dashboard_Inr)
  fix org
  assume d: "dash_org_uuid p = Inr org" "fresh \<notin> dsh_id ` set (dd_dashboards db)"
    "d = new_dashboard fresh org (owner_user_uuid p) (strip name) layout now"
    "db' = db\<lparr>dd_dashboards := dd_dashboards db @ [d]\<rparr>"
  have "\<not> beyond p d" by (simp add: beyond_def d(3) new_dashboard_def)
  then show ?thesis by (simp add: out_of_reach_def d(4))
qed

lemma scoped_not_beyond:
  "\<not> is_super_admin p \<Longrightarrow> scoped_dashboard p did db = Inr d \<Longrightarrow> \<not> beyond p d"
  using scoped_Inr [of p did db d] by (simp add: beyond_def)

lemma dash_step_out_of_reach:
  assumes "dash_ok db" "\<not> is_super_admin (op_principal op)" "is_uuid (pr_org_id (op_principal op))"
  shows "out_of_reach (op_principal op) (dash_step op db) = out_of_reach (op_principal op) db"
proof (cases op)
  case (Op_create_dashboard p now fresh name layout)
  then show ?thesis
    using assms create_out_of_reach [of p now fresh name layout db] by (auto intro!: commit_same)
next
  case (Op_update_dashboard p did name layout ns ls)
  have "out_of_reach p (commit (update_dashboard p did name layout ns ls) db) = out_of_reach p db"
  proof (rule commit_same, erule update_dashboard_Inr)
    fix d' d db'
    assume d: "scoped_dashboard p did db = Inr d" "dsh_id d' = did" "dsh_org_id d' = dsh_org_id d"
      "dsh_owner_user_id d' = dsh_owner_user_id d" "db' = db\<lparr>dd_dashboards := tbl_put dsh_id d' (dd_dashboards db)\<rparr>"
    have "\<not> beyond p d" using assms(2) Op_update_dashboard scoped_not_beyond [OF _ d(1)] by simp
    then show "out_of_reach p db' = out_of_reach p db" unfolding d(5)
      using scoped_Inr [OF d(1)] d(2-4) by (intro out_of_reach_put [OF assms(1)]) (auto simp: beyond_def)
  qed
  then show ?thesis by (simp add: Op_update_dashboard)
next
  case (Op_enable_sharing p token did)
  have "out_of_reach p (commit (enable_sharing p token did) db) = out_of_reach p db"
  proof (rule commit_same, erule enable_sharing_Inr)
    fix d' d u db'
    assume d: "scoped_dashboard p did db = Inr d" "d' = d\<lparr>dsh_public_token := Some u, dsh_is_public := True\<rparr>"
      "db' = db\<lparr>dd_dashboards := tbl_put dsh_id d' (dd_dashboards db)\<rparr>"
    have "\<not> beyond p d" using assms(2) Op_enable_sharing scoped_not_beyond [OF _ d(1)] by simp
    then show "out_of_reach p db' = out_of_reach p db" unfolding d(3)
      using scoped_Inr [OF d(1)] d(2) by (intro out_of_reach_put [OF assms(1)]) (auto simp: beyond_def)
  qed
  then show ?thesis by (simp add: Op_enable_sharing)
next
  case (Op_disable_sharing p did)
  have "out_of_reach p (commit (disable_sharing p did) db) = out_of_reach p db"
  proof (rule commit_same, erule disable_sharing_Inr)
    fix d' d db'
    assume d: "scoped_dashboard p did db = Inr d" "d' = d\<lparr>dsh_is_public := False, dsh_public_token := None\<rparr>"
      "db' = db\<lparr>dd_dashboards := tbl_put dsh_id d' (dd_dashboards db)\<rparr>"
    have "\<not> beyond p d" using assms(2) Op_disable_sharing scoped_not_beyond [OF _ d(1)] by simp
    then show "out_of_reach p db' = out_of_reach p db" unfolding d(3)
      using scoped_Inr [OF d(1)] d(2) by (intro out_of_reach_put [OF assms(1)]) (auto simp: beyond_def)
  qed
  then show ?thesis by (simp add: Op_disable_sharing)
next
  case (Op_add_widget p fresh did type config layout)
  have "out_of_reach p (commit (add_widget p fresh did type config layout) db) = out_of_reach p db"
  proof (rule commit_same, erule add_widget_Inr)
    fix w d db' org
    assume w: "get_dashboard p did db = Inr d" "w = new_widget fresh org did type config layout"
      "db' = db\<lparr>dd_widgets := dd_widgets db @ [w]\<rparr>"
    show "out_of_reach p db' = out_of_reach p db" unfolding w(3)
      using own_widget_reached [OF assms(1) w(1)]
      by (intro out_of_reach_widgets) (auto simp: w(2) new_widget_def)
  qed
  then show ?thesis by (simp add: Op_add_widget)
next
  case (Op_update_widget p did wid u)
  have "out_of_reach p (commit (update_widget p did wid u) db) = out_of_reach p db"
  proof (rule commit_same, erule update_widget_Inr)
    fix w' w db'
    assume w: "get_widget p did wid db = Inr w" "w' = patched_widget u w"
      "db' = db\<lparr>dd_widgets := tbl_put wg_id w' (dd_widgets db)\<rparr>"
    from get_widget_Inr [OF w(1)] obtain d where d: "get_dashboard p did db = Inr d"
      "w \<in> set (dd_widgets db)" "wg_dashboard_id w = did" by blast
    have same: "x = w" if "x \<in> set (dd_widgets db)" "wg_id x = wg_id w" for x
      using that assms(1) d(2) by (auto simp: dash_ok_def distinct_map dest: inj_onD)
    show "out_of_reach p db' = out_of_reach p db" unfolding w(3)
      using own_widget_reached [OF assms(1) d(1)] same d(3)
      by (intro out_of_reach_widgets filter_put_same) (auto simp: w(2))
  qed
  then show ?thesis by (simp add: Op_update_widget)
next
  case (Op_delete_widget p did wid)
  have "out_of_reach p (commit (delete_widget p did wid) db) = out_of_reach p db"
  proof (rule commit_same)
    fix x db' assume "delete_widget p did wid db = Inr (x, db')"
    then obtain w where w: "get_widget p did wid db = Inr w"
      "db' = db\<lparr>dd_widgets := filter (\<lambda>x. wg_id x \<noteq> wg_id w) (dd_widgets db)\<rparr>"
      by (cases "get_widget p did wid db") (auto simp: delete_widget_def)
    from get_widget_Inr [OF w(1)] obtain d where d: "get_dashboard p did db = Inr d"
      "w \<in> set (dd_widgets db)" "wg_dashboard_id w = did" by blast
    have same: "x = w" if "x \<in> set (dd_widgets db)" "wg_id x = wg_id w" for x
      using that assms(1) d(2) by (auto simp: dash_ok_def distinct_map dest: inj_onD)
    show "out_of_reach p db' = out_of_reach p db" unfolding w(2)
      using own_widget_reached [OF assms(1) d(1)] same d(3)
      by (intro out_of_reach_widgets) (auto intro!: filter_cong)
  qed
  then show ?thesis by (simp add: Op_delete_widget)
next
  case (Op_delete_dashboard p did)
  have "out_of_reach p (commit (delete_dashboard p did) db) = out_of_reach p db"
  proof (rule commit_same, erule delete_dashboard_Inr)
    fix d db'
    assume d: "scoped_dashboard p did db = Inr d"
      and ds: "db' = db\<lparr>dd_dashboards := filter (\<lambda>x. dsh_id x \<noteq> did) (dd_dashboards db), dd_widgets := dd_widgets db'\<rparr>"
      and ex: "\<exists>P. dd_widgets db' = filter P (dd_widgets db) \<and> (\<forall>w. P w \<longrightarrow> wg_dashboard_id w \<noteq> did)
       \<and> (distinct (map wg_id (dd_widgets db)) \<longrightarrow> (\<forall>w \<in> set (dd_widgets db). wg_dashboard_id w \<noteq> did \<longrightarrow> P w))"
    have mine: "\<not> beyond p d" using assms(2) Op_delete_dashboard scoped_not_beyond [OF _ d] by simp
    have same: "x = d" if "x \<in> set (dd_dashboards db)" "dsh_id x = did" for x
      using that assms(1) scoped_Inr [OF d] by (auto simp: dash_ok_def distinct_map dest: inj_onD)
    have ds': "dd_dashboards db' = filter (\<lambda>x. dsh_id x \<noteq> did) (dd_dashboards db)"
      using arg_cong [OF ds, of dd_dashboards] by simp
    have "distinct (map wg_id (dd_widgets db))" using assms(1) by (simp add: dash_ok_def)
    with ex obtain P where P: "dd_widgets db' = filter P (dd_widgets db)"
      "\<forall>w. P w \<longrightarrow> wg_dashboard_id w \<noteq> did"
      "\<forall>w \<in> set (dd_widgets db). wg_dashboard_id w \<noteq> did \<longrightarrow> P w" by blast
    have dsh: "filter (beyond p) (filter (\<lambda>x. dsh_id x \<noteq> did) (dd_dashboards db)) = filter (beyond p) (dd_dashboards db)"
      using same mine by (auto intro!: filter_cong)
    have iff: "P w \<and> (\<exists>e \<in> set (filter (\<lambda>x. dsh_id x \<noteq> did) (dd_dashboards db)). beyond p e \<and> wg_dashboard_id w = dsh_id e)
        \<longleftrightarrow> (\<exists>e \<in> set (dd_dashboards db). beyond p e \<and> wg_dashboard_id w = dsh_id e)"
      if "w \<in> set (dd_widgets db)" for w
      using same mine P(2,3) that by auto
    have "filter (\<lambda>w. \<exists>e \<in> set (filter (\<lambda>x. dsh_id x \<noteq> did) (dd_dashboards db)). beyond p e \<and> wg_dashboard_id w = dsh_id e)
          (filter P (dd_widgets db))
        = filter (\<lambda>w. \<exists>e \<in> set (dd_dashboards db). beyond p e \<and> wg_dashboard_id w = dsh_id e) (dd_widgets db)"
      unfolding filter_filter by (rule filter_cong [OF refl]) (rule iff)
    then show "out_of_reach p db' = out_of_reach p db"
      unfolding out_of_reach_def ds' P(1) by (simp only: dsh)
  qed
  then show ?thesis by (simp add: Op_delete_dashboard)
qed

text \<open>Dashboards are isolated: nothing a user who is no Super_Admin does changes a dashboard of another
  organization that it does not own, nor any widget of it; and its reads give only dashboards it owns.\<close>

theorem dashboard_isolation:
  assumes "dash_ok db" "\<not> is_super_admin (op_principal op)" "is_uuid (pr_org_id (op_principal op))"
  shows "out_of_reach (op_principal op) (dash_step op db) = out_of_reach (op_principal op) db
    \<and> list_all (\<lambda>d. dsh_owner_user_id d = owner_user_uuid (op_principal op)) (list_dashboards (op_principal op) db)
    \<and> (case dashboard_detail (op_principal op) did db of
         Inl e \<Rightarrow> True
       | Inr (d, ws) \<Rightarrow> dsh_owner_user_id d = owner_user_uuid (op_principal op)
           \<and> list_all (\<lambda>w. wg_dashboard_id w = dsh_id d) ws)"
proof (intro conjI)
  show "out_of_reach (op_principal op) (dash_step op db) = out_of_reach (op_principal op) db"
    using assms by (rule dash_step_out_of_reach)
  show "list_all (\<lambda>d. dsh_owner_user_id d = owner_user_uuid (op_principal op)) (list_dashboards (op_principal op) db)"
    by (auto simp: list_dashboards_def list_all_iff split: option.split)
  show "case dashboard_detail (op_principal op) did db of
         Inl e \<Rightarrow> True
       | Inr (d, ws) \<Rightarrow> dsh_owner_user_id d = owner_user_uuid (op_principal op)
           \<and> list_all (\<lambda>w. wg_dashboard_id w = dsh_id d) ws"
    using owned_Inr [of "op_principal op" did db]
    by (auto simp: dashboard_detail_def list_widgets_def bind_res_def list_all_iff split: sum.split)
qed

section \<open>Witnesses\<close>

definition ex_org :: uuid where "ex_org = ''0123abcd-0123-4567-89ab-0123456789ab''"
definition ex_user :: uuid where "ex_user = ''00000000-0000-4000-8000-000000000001''"
definition ex_peer :: uuid where "ex_peer = ''00000000-0000-4000-8000-000000000002''"

definition ex_member :: "uuid \<Rightarrow> principal" where
  "ex_member u = \<lparr>pr_user_id = u, pr_org_id = ex_org, pr_role = ROLE_DEVICE_USER\<rparr>"

definition ex_dashboard :: dashboard where
  "ex_dashboard = \<lparr>dsh_id = ''d1'', dsh_org_id = ex_org, dsh_owner_user_id = Some ex_user, dsh_name = ''home'',
     dsh_is_public = True, dsh_public_token = Some ''t1'', dsh_layout = JNull, dsh_created_at = 5\<rparr>"

definition ex_dash_db :: dash_db where
  "ex_dash_db = \<lparr>dd_dashboards = [ex_dashboard], dd_widgets = [new_widget ''w1'' ex_org ''d1'' ''gauge'' JNull JNull]\<rparr>"

lemma ex_parse: "parse_uuid ex_org = Some ex_org" "parse_uuid ex_user = Some ex_user" "parse_uuid ex_peer = Some ex_peer"
  by code_simp+

lemma ex_dash_ok: "dash_ok ex_dash_db"
proof -
  have "strip ''home'' = ''home''" by code_simp
  then show ?thesis
    by (simp add: dash_ok_def ex_dash_db_def ex_dashboard_def dashboard_row_ok_def widget_row_ok_def new_widget_def
        WIDGET_TYPES_def tokens_unique_def)
qed

theorem dashboard_rows_well_typed_witness:
  "dash_ok (run_ops dash_step
     [Op_create_dashboard (ex_member ex_peer) 6 ''d2'' '' lab '' JNull, Op_enable_sharing (ex_member ex_peer) ''t2'' ''d2'',
      Op_add_widget (ex_member ex_peer) ''w2'' ''d2'' ''map'' JNull JNull, Op_delete_dashboard (ex_member ex_peer) ''d1'']
     ex_dash_db)"
  by (rule dashboard_rows_well_typed [OF ex_dash_ok]) simp

theorem revoked_link_stays_dead_witness:
  "\<exists>d' db'. disable_sharing (ex_member ex_user) ''d1'' ex_dash_db = Inr (d', db')
    \<and> get_public_dashboard_endpoint ''t1'' ex_dash_db \<noteq> fail dashboard_not_found
    \<and> get_public_dashboard_endpoint ''t1''
        (run_ops dash_step [Op_enable_sharing (ex_member ex_peer) ''t2'' ''d1''] db') = fail dashboard_not_found"
proof -
  obtain d' db' where dis: "disable_sharing (ex_member ex_user) (dsh_id ex_dashboard) ex_dash_db = Inr (d', db')"
    by (simp add: disable_sharing_def scoped_dashboard_def scope_get_def ex_dash_db_def ex_dashboard_def ex_member_def Let_def)
  have d: "ex_dashboard \<in> set (dd_dashboards ex_dash_db)" "dsh_public_token ex_dashboard = Some ''t1''"
    "dsh_id ex_dashboard = ''d1''"
    by (simp_all add: ex_dash_db_def ex_dashboard_def)
  have "get_public_dashboard_endpoint ''t1'' ex_dash_db \<noteq> fail dashboard_not_found"
    using public_dashboard_found [OF ex_dash_ok d(1,2)]
    by (simp add: get_public_dashboard_endpoint_def fail_def)
  moreover have "get_public_dashboard_endpoint ''t1''
      (run_ops dash_step [Op_enable_sharing (ex_member ex_peer) ''t2'' ''d1''] db') = fail dashboard_not_found"
    by (rule revoked_link_stays_dead [OF ex_dash_ok d(1,2) dis]) simp
  ultimately show ?thesis using dis d(3) by auto
qed

theorem colleague_publishes_private_dashboard_witness:
  "dashboard_detail (ex_member ex_peer) ''d1'' ex_dash_db = fail dashboard_not_found
   \<and> (\<exists>t url db' out. share_dashboard ''https://x/'' (ex_member ex_peer) ''t2'' ''d1'' ex_dash_db = Inr ((t, url), db')
        \<and> get_public_dashboard_endpoint t db' = Inr out)"
proof -
  have d: "ex_dashboard \<in> set (dd_dashboards ex_dash_db)" "dsh_id ex_dashboard = ''d1''"
    by (simp_all add: ex_dash_db_def ex_dashboard_def)
  have ne: "ex_user \<noteq> ex_peer" by (simp add: ex_user_def ex_peer_def)
  have "dsh_org_id ex_dashboard = pr_org_id (ex_member ex_peer)"
    "dsh_owner_user_id ex_dashboard \<noteq> owner_user_uuid (ex_member ex_peer)"
    "pr_role (ex_member ex_peer) \<in> set MANAGE_ROLES" "''t2'' \<noteq> []" "token_absent ''t2'' ex_dash_db"
    using ne by (simp_all add: ex_dashboard_def ex_member_def owner_user_uuid_def ex_parse MANAGE_ROLES_def
        token_absent_def ex_dash_db_def)
  from colleague_publishes_private_dashboard [OF ex_dash_ok d(1) this, of "''https://x/''"]
  show ?thesis unfolding d(2) by blast
qed

theorem dashboard_isolation_witness:
  defines "p \<equiv> \<lparr>pr_user_id = ex_peer, pr_org_id = ex_user, pr_role = ROLE_PROJECT_CENTER\<rparr>"
  shows "dd_dashboards (dash_step (Op_delete_dashboard p ''d1'') ex_dash_db) = [ex_dashboard]"
proof -
  have ne: "ex_user \<noteq> ex_peer" "ex_user \<noteq> ex_org" by (simp_all add: ex_user_def ex_peer_def ex_org_def)
  have p: "op_principal (Op_delete_dashboard p ''d1'') = p" "\<not> is_super_admin p" "is_uuid (pr_org_id p)"
    by (simp_all add: p_def is_super_admin_def ROLE_PROJECT_CENTER_def ROLE_SUPER_ADMIN_def is_uuid_def ex_parse)
  have "beyond p ex_dashboard"
    using ne by (simp add: beyond_def p_def ex_dashboard_def owner_user_uuid_def ex_parse)
  then have "fst (out_of_reach p ex_dash_db) = [ex_dashboard]"
    by (simp add: out_of_reach_def ex_dash_db_def)
  with dashboard_isolation [OF ex_dash_ok, of "Op_delete_dashboard p ''d1''"] p
  have "filter (beyond p) (dd_dashboards (dash_step (Op_delete_dashboard p ''d1'') ex_dash_db)) = [ex_dashboard]"
    by (simp add: out_of_reach_def)
  moreover have "length (dd_dashboards (dash_step (Op_delete_dashboard p ''d1'') ex_dash_db)) \<le> 1"
    by (simp add: commit_def delete_dashboard_def bind_res_def ex_dash_db_def Let_def split: sum.split)
  ultimately show ?thesis
    by (cases "dd_dashboards (dash_step (Op_delete_dashboard p ''d1'') ex_dash_db)") (auto split: if_splits)
qed

end
