(* ===== verification/Gateway.thy ===== *)
theory Gateway imports Tokens
begin

text \<open>
  The WebSocket gateway (\<open>app/api/ws.py\<close>): the names a client subscribes to and the Redis channels
  behind them, the handshake, a session with its subscriptions and its Redis subscription, and the
  frames and publications it handles.  A payload is of any type \<open>'p\<close>, \<open>None\<close> one that is no text.
  The lemmas show that a session forwards exactly what its subscriptions ask for, and that what it
  forwards does not depend on who the client is.
\<close>

section \<open>Channels\<close>

definition CLIENT_DEVICE_PREFIX :: string where "CLIENT_DEVICE_PREFIX = ''device:''"
definition CLIENT_DASHBOARD_PREFIX :: string where "CLIENT_DASHBOARD_PREFIX = ''dashboard:''"
definition CLIENT_ADMIN_PREFIX :: string where "CLIENT_ADMIN_PREFIX = ''admin:''"

definition client_keys :: "string \<Rightarrow> redis_key list" where
  "client_keys ch =
     (if starts_with ch CLIENT_DEVICE_PREFIX
      then (let i = strip (drop (length CLIENT_DEVICE_PREFIX) ch)
            in if i = [] then [] else [TelemetryChannel i, DeviceChannel i])
      else if starts_with ch CLIENT_DASHBOARD_PREFIX
      then (let i = strip (drop (length CLIENT_DASHBOARD_PREFIX) ch)
            in if i = [] then [] else [DashboardChannel i])
      else if starts_with ch CLIENT_ADMIN_PREFIX
      then (if strip (drop (length CLIENT_ADMIN_PREFIX) ch) = ''stats'' then [AdminStats] else [])
      else [])"

definition resolve_redis_channels :: "string \<Rightarrow> string list" where
  "resolve_redis_channels ch = map key_text (client_keys ch)"

definition is_valid_client_channel :: "string \<Rightarrow> bool" where
  "is_valid_client_channel ch = (resolve_redis_channels ch \<noteq> [])"

section \<open>Handshake\<close>

definition extract_token :: "string option \<Rightarrow> string option \<Rightarrow> string option" where
  "extract_token token_param authorization =
     (case token_param of
        Some (c # cs) \<Rightarrow> Some (strip (c # cs))
      | _ \<Rightarrow> (case authorization of
            None \<Rightarrow> None
          | Some a \<Rightarrow> if a \<noteq> [] \<and> starts_with (lower a) ''bearer '' then Some (bearer_token a) else None))"

definition authenticate :: "jwt_lib \<Rightarrow> timestamp \<Rightarrow> string option \<Rightarrow> principal result" where
  "authenticate J now token =
     (case token of
        Some (c # cs) \<Rightarrow>
          bind_res (decode_access_token J now (c # cs)) (\<lambda>claims.
            Inr \<lparr>pr_user_id = ac_sub claims, pr_org_id = ac_org_id claims, pr_role = ac_role claims\<rparr>)
      | _ \<Rightarrow> Inl TokenError)"

section \<open>Sessions\<close>

record ws_session =
  ws_principal :: principal
  ws_subscriptions :: "string \<rightharpoonup> string list"
  ws_pubsub :: "string set"

type_synonym channel_authorizer = "principal \<Rightarrow> string \<Rightarrow> bool"

definition new_session :: "principal \<Rightarrow> ws_session" where
  "new_session p = \<lparr>ws_principal = p, ws_subscriptions = Map.empty, ws_pubsub = {}\<rparr>"

definition subscribe_channel :: "channel_authorizer option \<Rightarrow> json \<Rightarrow> ws_session \<Rightarrow> ws_session" where
  "subscribe_channel authorizer client_channel s =
     (case client_channel of
        JStr ch \<Rightarrow>
          if ws_subscriptions s ch \<noteq> None then s
          else (let redis_channels = resolve_redis_channels ch in
                if redis_channels = [] then s
                else if (case authorizer of Some f \<Rightarrow> \<not> f (ws_principal s) ch | None \<Rightarrow> False) then s
                else s\<lparr>ws_subscriptions := (ws_subscriptions s)(ch \<mapsto> redis_channels),
                       ws_pubsub := ws_pubsub s \<union> set redis_channels\<rparr>)
      | _ \<Rightarrow> s)"

definition unsubscribe_channel :: "json \<Rightarrow> ws_session \<Rightarrow> ws_session" where
  "unsubscribe_channel client_channel s =
     (case client_channel of
        JStr ch \<Rightarrow>
          (case ws_subscriptions s ch of
             None \<Rightarrow> s
           | Some redis_channels \<Rightarrow>
               s\<lparr>ws_subscriptions := (ws_subscriptions s)(ch := None),
                 ws_pubsub := ws_pubsub s - set redis_channels\<rparr>)
      | _ \<Rightarrow> s)"

definition ws_subscribe :: "channel_authorizer option \<Rightarrow> json list \<Rightarrow> ws_session \<Rightarrow> ws_session" where
  "ws_subscribe authorizer channels s = fold (subscribe_channel authorizer) channels s"

definition ws_unsubscribe :: "json list \<Rightarrow> ws_session \<Rightarrow> ws_session" where
  "ws_unsubscribe channels s = fold unsubscribe_channel channels s"

text \<open>A control frame, decoded; \<open>None\<close> is text that is no JSON.\<close>

definition handle_message :: "channel_authorizer option \<Rightarrow> json option \<Rightarrow> ws_session \<Rightarrow> ws_session" where
  "handle_message authorizer raw s =
     (case raw of
        Some (JObj msg) \<Rightarrow>
          (case dict_get msg ''channels'' of
             JArr channels \<Rightarrow>
               if dict_get msg ''action'' = JStr ''subscribe'' then ws_subscribe authorizer channels s
               else if dict_get msg ''action'' = JStr ''unsubscribe'' then ws_unsubscribe channels s
               else s
           | _ \<Rightarrow> s)
      | _ \<Rightarrow> s)"

text \<open>What the pump sends for one publication on a Redis channel: Redis hands it over only on a
  subscribed channel.\<close>

definition pump_message :: "ws_session \<Rightarrow> string \<Rightarrow> 'p option \<Rightarrow> 'p list" where
  "pump_message s channel payload =
     (if channel \<in> ws_pubsub s then (case payload of Some t \<Rightarrow> [t] | None \<Rightarrow> []) else [])"

datatype 'p ws_event = Frame "json option" | Published string "'p option"

fun ws_run :: "channel_authorizer option \<Rightarrow> 'p ws_event list \<Rightarrow> ws_session \<Rightarrow> 'p list" where
  "ws_run authorizer [] s = []"
| "ws_run authorizer (Frame raw # es) s = ws_run authorizer es (handle_message authorizer raw s)"
| "ws_run authorizer (Published ch payload # es) s = pump_message s ch payload @ ws_run authorizer es s"

definition WS_CLOSE_UNAUTHORIZED :: int where "WS_CLOSE_UNAUTHORIZED = 4401"
definition WS_CLOSE_INTERNAL :: int where "WS_CLOSE_INTERNAL = 1011"

text \<open>A connection is closed with a code, or serves the events in the order given.\<close>

datatype 'p connection = Closed_with int | Served "'p list"

definition websocket_gateway ::
  "jwt_lib \<Rightarrow> timestamp \<Rightarrow> bool \<Rightarrow> string option \<Rightarrow> string option \<Rightarrow> 'p ws_event list \<Rightarrow> 'p connection" where
  "websocket_gateway J now redis token authorization events =
     (case authenticate J now (extract_token token authorization) of
        Inl e \<Rightarrow> Closed_with WS_CLOSE_UNAUTHORIZED
      | Inr p \<Rightarrow> if \<not> redis then Closed_with WS_CLOSE_INTERNAL
                 else Served (ws_run None events (new_session p)))"

section \<open>What a session should forward\<close>

text \<open>The specification of a session: the set of client channels it is subscribed to.\<close>

definition wanted :: "string set \<Rightarrow> string set" where
  "wanted A = (\<Union>ch \<in> A. set (resolve_redis_channels ch))"

definition spec_subscribe :: "(string \<Rightarrow> bool) \<Rightarrow> json \<Rightarrow> string set \<Rightarrow> string set" where
  "spec_subscribe permitted v A =
     (case v of JStr ch \<Rightarrow> if is_valid_client_channel ch \<and> permitted ch then insert ch A else A | _ \<Rightarrow> A)"

definition spec_unsubscribe :: "json \<Rightarrow> string set \<Rightarrow> string set" where
  "spec_unsubscribe v A = (case v of JStr ch \<Rightarrow> A - {ch} | _ \<Rightarrow> A)"

definition spec_frame :: "(string \<Rightarrow> bool) \<Rightarrow> json option \<Rightarrow> string set \<Rightarrow> string set" where
  "spec_frame permitted raw A =
     (case raw of
        Some (JObj msg) \<Rightarrow>
          (case dict_get msg ''channels'' of
             JArr channels \<Rightarrow>
               if dict_get msg ''action'' = JStr ''subscribe'' then fold (spec_subscribe permitted) channels A
               else if dict_get msg ''action'' = JStr ''unsubscribe'' then fold spec_unsubscribe channels A
               else A
           | _ \<Rightarrow> A)
      | _ \<Rightarrow> A)"

fun spec_run :: "(string \<Rightarrow> bool) \<Rightarrow> 'p ws_event list \<Rightarrow> string set \<Rightarrow> 'p list" where
  "spec_run permitted [] A = []"
| "spec_run permitted (Frame raw # es) A = spec_run permitted es (spec_frame permitted raw A)"
| "spec_run permitted (Published ch payload # es) A =
     (if ch \<in> wanted A then (case payload of Some t \<Rightarrow> [t] | None \<Rightarrow> []) else []) @ spec_run permitted es A"

text \<open>A name in its canonical form: no blanks around the part after the prefix.\<close>

definition canonical :: "string \<Rightarrow> bool" where
  "canonical ch =
     (list_all (\<lambda>prefix. starts_with ch prefix \<longrightarrow> strip (drop (length prefix) ch) = drop (length prefix) ch)
        [CLIENT_DEVICE_PREFIX, CLIENT_DASHBOARD_PREFIX, CLIENT_ADMIN_PREFIX])"

definition canonical_json :: "json \<Rightarrow> bool" where
  "canonical_json v = (case v of JStr ch \<Rightarrow> canonical ch | _ \<Rightarrow> True)"

definition canonical_raw :: "json option \<Rightarrow> bool" where
  "canonical_raw raw =
     (case raw of
        Some (JObj msg) \<Rightarrow>
          (case dict_get msg ''channels'' of JArr channels \<Rightarrow> list_all canonical_json channels | _ \<Rightarrow> True)
      | _ \<Rightarrow> True)"

fun canonical_frame :: "'p ws_event \<Rightarrow> bool" where
  "canonical_frame (Frame raw) = canonical_raw raw"
| "canonical_frame (Published ch payload) = True"

lemmas prefixes = CLIENT_DEVICE_PREFIX_def CLIENT_DASHBOARD_PREFIX_def CLIENT_ADMIN_PREFIX_def

lemma canonical_keys:
  assumes "canonical ch" "k \<in> set (client_keys ch)"
  shows "(\<exists>i. ch = ''device:'' @ i \<and> (k = TelemetryChannel i \<or> k = DeviceChannel i))
    \<or> (\<exists>i. ch = ''dashboard:'' @ i \<and> k = DashboardChannel i) \<or> ch = ''admin:stats'' \<and> k = AdminStats"
proof -
  consider (device) i where "ch = ''device:'' @ i" | (dashboard) i where "ch = ''dashboard:'' @ i"
    | (admin) i where "ch = ''admin:'' @ i"
    | (none) "\<not> starts_with ch ''device:''" "\<not> starts_with ch ''dashboard:''" "\<not> starts_with ch ''admin:''"
    by (auto simp: starts_with_iff)
  then show ?thesis
    using assms by cases (auto simp: client_keys_def canonical_def prefixes Let_def split: if_splits)
qed

lemma client_key_clean: "k \<in> set (client_keys ch) \<Longrightarrow> clean_key k"
  by (auto simp: client_keys_def Let_def split: if_splits)

lemma canonical_disjoint:
  assumes "canonical a" "canonical b" "a \<noteq> b"
  shows "set (resolve_redis_channels a) \<inter> set (resolve_redis_channels b) = {}"
proof -
  have "key_text k \<noteq> key_text l" if "k \<in> set (client_keys a)" "l \<in> set (client_keys b)" for k l
  proof
    assume "key_text k = key_text l"
    then have "k = l" using key_text_eq client_key_clean that by blast
    then show False
      using canonical_keys [OF assms(1) that(1)] canonical_keys [OF assms(2) that(2)] assms(3) by auto
  qed
  then show ?thesis by (force simp: resolve_redis_channels_def)
qed

section \<open>A session implements its specification\<close>

definition permits :: "channel_authorizer option \<Rightarrow> principal \<Rightarrow> string \<Rightarrow> bool" where
  "permits authorizer p ch = (case authorizer of Some f \<Rightarrow> f p ch | None \<Rightarrow> True)"

definition simulates :: "ws_session \<Rightarrow> string set \<Rightarrow> bool" where
  "simulates s A =
     (A = dom (ws_subscriptions s) \<and> ws_pubsub s = wanted A
      \<and> (\<forall>ch \<in> A. canonical ch \<and> ws_subscriptions s ch = Some (resolve_redis_channels ch)))"

lemma simulates_subscribe:
  assumes "simulates s A" "canonical_json v"
  shows "simulates (subscribe_channel authorizer v s) (spec_subscribe (permits authorizer (ws_principal s)) v A)
    \<and> ws_principal (subscribe_channel authorizer v s) = ws_principal s"
proof (cases v)
  case (JStr ch)
  show ?thesis
  proof (cases "ch \<in> A")
    case True
    then have "ws_subscriptions s ch \<noteq> None" "insert ch A = A" using assms(1) by (auto simp: simulates_def)
    then show ?thesis using assms(1) by (auto simp: JStr subscribe_channel_def spec_subscribe_def)
  next
    case False
    then have "ws_subscriptions s ch = None" using assms(1) by (auto simp: simulates_def)
    then show ?thesis
      using assms by (auto simp: JStr subscribe_channel_def spec_subscribe_def is_valid_client_channel_def Let_def
          permits_def simulates_def wanted_def canonical_json_def split: option.splits)
  qed
qed (use assms in \<open>simp_all add: subscribe_channel_def spec_subscribe_def\<close>)

lemma wanted_remove:
  assumes "\<forall>x \<in> A. canonical x" "ch \<in> A"
  shows "wanted A - set (resolve_redis_channels ch) = wanted (A - {ch})"
proof
  show "wanted A - set (resolve_redis_channels ch) \<subseteq> wanted (A - {ch})" by (auto simp: wanted_def)
  show "wanted (A - {ch}) \<subseteq> wanted A - set (resolve_redis_channels ch)"
    using canonical_disjoint [of _ ch] assms by (force simp: wanted_def)
qed

lemma simulates_unsubscribe:
  assumes "simulates s A"
  shows "simulates (unsubscribe_channel v s) (spec_unsubscribe v A)
    \<and> ws_principal (unsubscribe_channel v s) = ws_principal s"
proof (cases v)
  case (JStr ch)
  show ?thesis
  proof (cases "ch \<in> A")
    case True
    then have "ws_subscriptions s ch = Some (resolve_redis_channels ch)" "\<forall>x \<in> A. canonical x"
      using assms by (auto simp: simulates_def)
    then show ?thesis
      using assms wanted_remove [of A ch] True
      by (auto simp: JStr unsubscribe_channel_def spec_unsubscribe_def simulates_def)
  next
    case False
    then have "ws_subscriptions s ch = None" "A - {ch} = A" using assms by (auto simp: simulates_def)
    then show ?thesis using assms by (simp add: JStr unsubscribe_channel_def spec_unsubscribe_def)
  qed
qed (use assms in \<open>simp_all add: unsubscribe_channel_def spec_unsubscribe_def\<close>)

lemma simulates_subscribes:
  "simulates s A \<Longrightarrow> list_all canonical_json vs \<Longrightarrow>
   simulates (ws_subscribe authorizer vs s) (fold (spec_subscribe (permits authorizer (ws_principal s))) vs A)
     \<and> ws_principal (ws_subscribe authorizer vs s) = ws_principal s"
proof (induction vs arbitrary: s A)
  case (Cons v vs)
  from simulates_subscribe [OF Cons.prems(1), of v authorizer] Cons.prems(2)
  have step: "simulates (subscribe_channel authorizer v s) (spec_subscribe (permits authorizer (ws_principal s)) v A)"
    "ws_principal (subscribe_channel authorizer v s) = ws_principal s" by simp_all
  from Cons.IH [OF step(1)] Cons.prems(2) step(2) show ?case by (simp add: ws_subscribe_def)
qed (simp add: ws_subscribe_def)

lemma simulates_unsubscribes:
  "simulates s A \<Longrightarrow> simulates (ws_unsubscribe vs s) (fold spec_unsubscribe vs A)
     \<and> ws_principal (ws_unsubscribe vs s) = ws_principal s"
proof (induction vs arbitrary: s A)
  case (Cons v vs)
  from Cons.IH [OF conjunct1 [OF simulates_unsubscribe [OF Cons.prems, of v]]]
    simulates_unsubscribe [OF Cons.prems, of v]
  show ?case by (simp add: ws_unsubscribe_def)
qed (simp add: ws_unsubscribe_def)

lemma simulates_frame:
  assumes "simulates s A" "canonical_raw raw"
  shows "simulates (handle_message authorizer raw s) (spec_frame (permits authorizer (ws_principal s)) raw A)
    \<and> ws_principal (handle_message authorizer raw s) = ws_principal s"
proof (cases raw)
  case (Some j)
  show ?thesis
  proof (cases j)
    case (JObj msg)
    show ?thesis
    proof (cases "dict_get msg ''channels''")
      case (JArr vs)
      then have "list_all canonical_json vs"
        using assms(2) by (simp add: Some JObj canonical_raw_def)
      then show ?thesis
        using simulates_subscribes [OF assms(1), of vs authorizer] simulates_unsubscribes [OF assms(1), of vs] assms(1)
        by (simp add: Some JObj JArr handle_message_def spec_frame_def)
    qed (use assms(1) in \<open>simp_all add: Some JObj handle_message_def spec_frame_def\<close>)
  qed (use assms(1) in \<open>simp_all add: Some handle_message_def spec_frame_def\<close>)
qed (use assms(1) in \<open>simp add: handle_message_def spec_frame_def\<close>)

lemma simulates_run:
  "simulates s A \<Longrightarrow> list_all canonical_frame es \<Longrightarrow>
   ws_run authorizer es s = spec_run (permits authorizer (ws_principal s)) es A"
proof (induction authorizer es s arbitrary: A rule: ws_run.induct)
  case (2 authorizer raw es s)
  from simulates_frame [OF 2(2), of raw authorizer] 2(3)
  have step: "simulates (handle_message authorizer raw s) (spec_frame (permits authorizer (ws_principal s)) raw A)"
    "ws_principal (handle_message authorizer raw s) = ws_principal s" by simp_all
  from 2(1) [OF step(1)] 2(3) step(2) show ?case by simp
next
  case (3 authorizer ch payload es s)
  then show ?case by (simp add: pump_message_def simulates_def)
qed simp

section \<open>Properties\<close>


definition same_view :: "ws_session \<Rightarrow> ws_session \<Rightarrow> bool" where
  "same_view s t = (ws_subscriptions s = ws_subscriptions t \<and> ws_pubsub s = ws_pubsub t)"

lemma same_view_subscribe: "same_view s t \<Longrightarrow> same_view (subscribe_channel None v s) (subscribe_channel None v t)"
  by (auto simp: same_view_def subscribe_channel_def Let_def split: json.split)

lemma same_view_unsubscribe: "same_view s t \<Longrightarrow> same_view (unsubscribe_channel v s) (unsubscribe_channel v t)"
  by (auto simp: same_view_def unsubscribe_channel_def split: json.split option.split)

lemma same_view_fold:
  "(\<And>v s t. same_view s t \<Longrightarrow> same_view (f v s) (f v t)) \<Longrightarrow> same_view s t \<Longrightarrow> same_view (fold f vs s) (fold f vs t)"
  by (induction vs arbitrary: s t) simp_all

lemma same_view_frame: "same_view s t \<Longrightarrow> same_view (handle_message None raw s) (handle_message None raw t)"
  using same_view_fold [of "subscribe_channel None" s t] same_view_fold [of unsubscribe_channel s t]
  by (simp add: handle_message_def ws_subscribe_def ws_unsubscribe_def same_view_subscribe same_view_unsubscribe
      split: option.split json.split)

lemma same_view_run: "same_view s t \<Longrightarrow> ws_run None es s = ws_run None es t"
proof (induction es arbitrary: s t)
  case (Cons e es)
  show ?case
  proof (cases e)
    case (Frame raw)
    then show ?thesis using Cons.IH [OF same_view_frame [OF Cons.prems, of raw]] by simp
  next
    case (Published ch payload)
    then show ?thesis using Cons.IH [OF Cons.prems] Cons.prems by (simp add: pump_message_def same_view_def)
  qed
qed simp

lemma valid_token_served:
  assumes "decode_access_token J now t = Inr k" "strip t = t" "t \<noteq> []"
  shows "websocket_gateway J now True (Some t) None es
    = Served (ws_run None es (new_session \<lparr>pr_user_id = ac_sub k, pr_org_id = ac_org_id k, pr_role = ac_role k\<rparr>))"
  using assms by (cases t) (simp_all add: websocket_gateway_def extract_token_def authenticate_def)


section \<open>Witnesses\<close>

definition ex_frame :: "string \<Rightarrow> string \<Rightarrow> string ws_event" where
  "ex_frame action ch = Frame (Some (JObj [(''action'', JStr action), (''channels'', JArr [JStr ch, JInt 3])]))"

definition ex_session_events :: "string ws_event list" where
  "ex_session_events = [ex_frame ''subscribe'' ''device:x'', ex_frame ''subscribe'' ''dashboard:y'', Frame None,
      ex_frame ''unsubscribe'' ''dashboard:y'', Published ''iotaps:dashboard:y'' (Some ''no''),
      Published ''iotaps:device:x'' (Some ''yes''), Published ''iotaps:device:x'' None]"


definition ex_claims :: "string \<Rightarrow> string \<Rightarrow> string \<Rightarrow> jwt_claims" where
  "ex_claims u org rl = JwtClaims u 0 900 (Some org) (Some rl) None (Some ''j'') (Some ACCESS_TOKEN_TYPE)"

definition ex_jwt :: jwt_lib where
  "ex_jwt = \<lparr>jwt_encode = (\<lambda>c. c_sub c),
     jwt_decode = (\<lambda>now s. if s = ''t1'' then Some (ex_claims ''u1'' ''o1'' ''project_center'')
       else if s = ''t2'' then Some (ex_claims ''u2'' ''o2'' ''device_user'') else None)\<rparr>"


end
