(* ===== verification/Retention.thy ===== *)
theory Retention imports Batch_Writer
begin

text \<open>
  How long telemetry lives: the retention worker (\<open>app/workers/data_retention.py\<close>), the downsampler
  (\<open>app/workers/downsampler.py\<close>) and the rollup views it refreshes
  (\<open>app/alembic/versions/0001_initial_schema.py\<close>), over the telemetry table of the batch writer.
  Whether the database answers, the time and the organizations a sweep loads are arguments.  The
  lemmas show what a sweep deletes, when a rollup is refreshed and how far back rollups reach.
\<close>

section \<open>Retention policies\<close>

definition days :: "int \<Rightarrow> int" where
  "days n = n * usec_per_day"

definition DAYS_PER_MONTH :: int where "DAYS_PER_MONTH = 30"
definition DAYS_PER_YEAR :: int where "DAYS_PER_YEAR = 365"

record retention_policy =
  rt_plan :: string
  rt_raw_max_age :: int
  rt_hourly_max_age :: int

definition FREE_POLICY :: retention_policy where
  "FREE_POLICY = \<lparr>rt_plan = ''free'', rt_raw_max_age = days 7, rt_hourly_max_age = days 7\<rparr>"

definition PRO_POLICY :: retention_policy where
  "PRO_POLICY = \<lparr>rt_plan = ''pro'', rt_raw_max_age = days (3 * DAYS_PER_MONTH),
     rt_hourly_max_age = days DAYS_PER_YEAR\<rparr>"

definition PLAN_POLICIES :: "(string \<times> retention_policy) list" where
  "PLAN_POLICIES = [(''free'', FREE_POLICY), (''pro'', PRO_POLICY)]"

definition DEFAULT_POLICY :: retention_policy where
  "DEFAULT_POLICY = FREE_POLICY"

definition policy_for_plan :: "string option \<Rightarrow> retention_policy" where
  "policy_for_plan plan =
     (case plan of
        None \<Rightarrow> DEFAULT_POLICY
      | Some p \<Rightarrow> (case map_of PLAN_POLICIES (lower (strip p)) of Some policy \<Rightarrow> policy | None \<Rightarrow> DEFAULT_POLICY))"

section \<open>Purging\<close>

definition RAW_TABLE :: string where "RAW_TABLE = ''telemetry''"
definition RAW_TIME_COLUMN :: string where "RAW_TIME_COLUMN = ''ts''"

definition KNOWN_TARGETS :: "(string \<times> string) list" where
  "KNOWN_TARGETS = [(RAW_TABLE, RAW_TIME_COLUMN)]"

record purge_op =
  pg_table :: string
  pg_time_column :: string
  pg_org_id :: uuid
  pg_cutoff :: timestamp

definition plan_purge_ops :: "uuid \<Rightarrow> string option \<Rightarrow> timestamp \<Rightarrow> purge_op list" where
  "plan_purge_ops org_id plan now =
     [\<lparr>pg_table = RAW_TABLE, pg_time_column = RAW_TIME_COLUMN, pg_org_id = org_id,
       pg_cutoff = now - rt_raw_max_age (policy_for_plan plan)\<rparr>]"

definition expired :: "purge_op \<Rightarrow> telemetry_row \<Rightarrow> bool" where
  "expired op r = (tr_org_id r = pg_org_id op \<and> tr_ts r < pg_cutoff op)"

text \<open>\<open>up\<close>: the database answers.  A target outside the allowlist is refused.\<close>

definition delete_expired ::
  "bool \<Rightarrow> purge_op \<Rightarrow> telemetry_row list \<Rightarrow> (batch_write_error + nat) \<times> telemetry_row list" where
  "delete_expired up op table =
     (if (pg_table op, pg_time_column op) \<notin> set KNOWN_TARGETS then (Inl OtherWriteError, table)
      else if \<not> up then (Inl TimescaleUnavailable, table)
      else (Inr (length (filter (expired op) table)), filter (\<lambda>r. \<not> expired op r) table))"

fun purge_ops ::
  "(purge_op \<Rightarrow> bool) \<Rightarrow> purge_op list \<Rightarrow> nat \<Rightarrow> telemetry_row list
     \<Rightarrow> (batch_write_error + nat) \<times> telemetry_row list" where
  "purge_ops up [] total' table = (Inr total', table)"
| "purge_ops up (op # ops) total' table =
     (case delete_expired (up op) op table of
        (Inl e, table') \<Rightarrow> (Inl e, table')
      | (Inr deleted, table') \<Rightarrow> purge_ops up ops (total' + deleted) table')"

definition purge_expired_telemetry ::
  "(purge_op \<Rightarrow> bool) \<Rightarrow> (uuid \<times> string option) list \<Rightarrow> timestamp \<Rightarrow> telemetry_row list
     \<Rightarrow> (batch_write_error + nat) \<times> telemetry_row list" where
  "purge_expired_telemetry up orgs now table =
     purge_ops up (concat (map (\<lambda>(org_id, plan). plan_purge_ops org_id plan now) orgs)) 0 table"

definition SWEEP_INTERVAL_SECONDS :: rat where "SWEEP_INTERVAL_SECONDS = 3600"
definition PURGE_BACKOFF_INITIAL_SECONDS :: rat where "PURGE_BACKOFF_INITIAL_SECONDS = 1"
definition PURGE_BACKOFF_MAX_SECONDS :: rat where "PURGE_BACKOFF_MAX_SECONDS = 60"

text \<open>One turn of the loop.  \<open>sw_orgs\<close> is \<open>None\<close> when loading the plans raises.\<close>

record retention_sweep =
  sw_now :: timestamp
  sw_orgs :: "(uuid \<times> string option) list option"
  sw_up :: "purge_op \<Rightarrow> bool"

record retention_run =
  rr_loop :: loop
  rr_slept :: "rat list"
  rr_table :: "telemetry_row list"

definition retention_step :: "retention_sweep \<Rightarrow> retention_run \<Rightarrow> retention_run" where
  "retention_step sw w =
     (case rr_loop w of
        Stopped \<Rightarrow> w
      | Looping backoff \<Rightarrow>
          (case sw_orgs sw of
             None \<Rightarrow> w\<lparr>rr_loop := Stopped\<rparr>
           | Some orgs \<Rightarrow>
               (case purge_expired_telemetry (sw_up sw) orgs (sw_now sw) (rr_table w) of
                  (Inl TimescaleUnavailable, table) \<Rightarrow>
                    \<lparr>rr_loop = Looping (min (backoff * 2) PURGE_BACKOFF_MAX_SECONDS),
                     rr_slept = rr_slept w @ [backoff], rr_table = table\<rparr>
                | (Inl OtherWriteError, table) \<Rightarrow> w\<lparr>rr_loop := Stopped, rr_table := table\<rparr>
                | (Inr n, table) \<Rightarrow>
                    \<lparr>rr_loop = Looping PURGE_BACKOFF_INITIAL_SECONDS,
                     rr_slept = rr_slept w @ [SWEEP_INTERVAL_SECONDS], rr_table = table\<rparr>)))"

section \<open>Rollups\<close>

record aggregate_spec =
  ag_view :: string
  ag_bucket :: string
  ag_cadence :: int
  ag_lookback :: int

definition DEFAULT_AGGREGATES :: "aggregate_spec list" where
  "DEFAULT_AGGREGATES =
     [\<lparr>ag_view = ''telemetry_5m'', ag_bucket = ''5 minutes'', ag_cadence = 300000000, ag_lookback = 3600000000\<rparr>,
      \<lparr>ag_view = ''telemetry_1h'', ag_bucket = ''1 hour'', ag_cadence = 3600000000, ag_lookback = days 1\<rparr>,
      \<lparr>ag_view = ''telemetry_1d'', ag_bucket = ''1 day'', ag_cadence = days 1, ag_lookback = days 7\<rparr>]"

definition KNOWN_VIEWS :: "string list" where
  "KNOWN_VIEWS = map ag_view DEFAULT_AGGREGATES"

definition due_aggregates ::
  "aggregate_spec list \<Rightarrow> timestamp \<Rightarrow> (string \<rightharpoonup> timestamp) \<Rightarrow> aggregate_spec list" where
  "due_aggregates specs now last_refreshed =
     filter (\<lambda>spec. case last_refreshed (ag_view spec) of None \<Rightarrow> True | Some last' \<Rightarrow> now - last' \<ge> ag_cadence spec) specs"

text \<open>The executor acts on a world of type \<open>'w\<close> and may fail.\<close>

type_synonym 'w refresher = "string \<Rightarrow> timestamp \<Rightarrow> 'w \<Rightarrow> batch_write_error option \<times> 'w"

fun refresh_specs ::
  "'w refresher \<Rightarrow> timestamp \<Rightarrow> aggregate_spec list \<Rightarrow> string list \<Rightarrow> (string \<rightharpoonup> timestamp) \<Rightarrow> 'w
     \<Rightarrow> (batch_write_error + string list) \<times> (string \<rightharpoonup> timestamp) \<times> 'w" where
  "refresh_specs execute now [] refreshed last_refreshed w = (Inr refreshed, last_refreshed, w)"
| "refresh_specs execute now (spec # specs) refreshed last_refreshed w =
     (case execute (ag_view spec) (now - ag_lookback spec) w of
        (Some e, w') \<Rightarrow> (Inl e, last_refreshed, w')
      | (None, w') \<Rightarrow>
          refresh_specs execute now specs (refreshed @ [ag_view spec]) (last_refreshed(ag_view spec \<mapsto> now)) w')"

definition refresh_due_aggregates ::
  "'w refresher \<Rightarrow> aggregate_spec list \<Rightarrow> timestamp \<Rightarrow> (string \<rightharpoonup> timestamp) \<Rightarrow> 'w
     \<Rightarrow> (batch_write_error + string list) \<times> (string \<rightharpoonup> timestamp) \<times> 'w" where
  "refresh_due_aggregates execute specs now last_refreshed w =
     refresh_specs execute now (due_aggregates specs now last_refreshed) [] last_refreshed w"

text \<open>The views of the schema: one row for each device, organization and bucket of the width in the
  view's definition.\<close>

record rollup_row =
  ro_device_id :: uuid
  ro_org_id :: uuid
  ro_bucket :: timestamp
  ro_sample_count :: nat
  ro_last_ts :: timestamp

definition VIEW_BUCKETS :: "(string \<times> int) list" where
  "VIEW_BUCKETS = [(''telemetry_5m'', 300000000), (''telemetry_1h'', 3600000000), (''telemetry_1d'', 86400000000)]"

definition time_bucket :: "int \<Rightarrow> timestamp \<Rightarrow> timestamp" where
  "time_bucket width ts = ts - ts mod width"

definition rollup_of :: "int \<Rightarrow> telemetry_row list \<Rightarrow> rollup_row list" where
  "rollup_of width table =
     (let key = (\<lambda>r. (tr_device_id r, tr_org_id r, time_bucket width (tr_ts r))) in
      map (\<lambda>k. let rows = filter (\<lambda>r. key r = k) table in
          \<lparr>ro_device_id = fst k, ro_org_id = fst (snd k), ro_bucket = snd (snd k), ro_sample_count = length rows,
           ro_last_ts = Max (set (map tr_ts rows))\<rparr>)
        (remdups (map key table)))"

record rollup_db =
  rl_telemetry :: "telemetry_row list"
  rl_views :: "string \<rightharpoonup> rollup_row list"

text \<open>\<open>REFRESH MATERIALIZED VIEW\<close> computes the view anew; the window is not used.\<close>

definition refresh_aggregate :: "bool \<Rightarrow> rollup_db refresher" where
  "refresh_aggregate up view window_start db =
     (if view \<notin> set KNOWN_VIEWS then (Some OtherWriteError, db)
      else if \<not> up then (Some TimescaleUnavailable, db)
      else (None, db\<lparr>rl_views := (rl_views db)(view \<mapsto>
        rollup_of (case map_of VIEW_BUCKETS view of Some width \<Rightarrow> width | None \<Rightarrow> 1) (rl_telemetry db))\<rparr>))"

definition POLL_INTERVAL_SECONDS :: rat where "POLL_INTERVAL_SECONDS = 60"
definition REFRESH_BACKOFF_INITIAL_SECONDS :: rat where "REFRESH_BACKOFF_INITIAL_SECONDS = 1"
definition REFRESH_BACKOFF_MAX_SECONDS :: rat where "REFRESH_BACKOFF_MAX_SECONDS = 60"

text \<open>One turn of the downsampler's loop, at a time \<open>now\<close>.\<close>

record downsample_run =
  dr_loop :: loop
  dr_slept :: "rat list"
  dr_last_refreshed :: "string \<rightharpoonup> timestamp"
  dr_db :: rollup_db

definition downsample_step :: "bool \<Rightarrow> timestamp \<Rightarrow> downsample_run \<Rightarrow> downsample_run" where
  "downsample_step up now w =
     (case dr_loop w of
        Stopped \<Rightarrow> w
      | Looping backoff \<Rightarrow>
          (case refresh_due_aggregates (refresh_aggregate up) DEFAULT_AGGREGATES now (dr_last_refreshed w) (dr_db w) of
             (Inl TimescaleUnavailable, lr, db) \<Rightarrow>
               \<lparr>dr_loop = Looping (min (backoff * 2) REFRESH_BACKOFF_MAX_SECONDS),
                dr_slept = dr_slept w @ [backoff], dr_last_refreshed = lr, dr_db = db\<rparr>
           | (Inl OtherWriteError, lr, db) \<Rightarrow>
               w\<lparr>dr_loop := Stopped, dr_last_refreshed := lr, dr_db := db\<rparr>
           | (Inr views, lr, db) \<Rightarrow>
               \<lparr>dr_loop = Looping REFRESH_BACKOFF_INITIAL_SECONDS,
                dr_slept = dr_slept w @ [POLL_INTERVAL_SECONDS], dr_last_refreshed = lr, dr_db = db\<rparr>))"

section \<open>What a sweep deletes\<close>

text \<open>A row is kept when its organization is not swept or it is within the plan's age.\<close>

definition within_retention :: "(uuid \<times> string option) list \<Rightarrow> timestamp \<Rightarrow> telemetry_row \<Rightarrow> bool" where
  "within_retention orgs now r =
     list_all (\<lambda>(org, plan). org = tr_org_id r \<longrightarrow> now - rt_raw_max_age (policy_for_plan plan) \<le> tr_ts r) orgs"

lemma purge_ops_sub:
  "purge_ops up ops n table = (res, table') \<Longrightarrow> list_all (\<lambda>op. (pg_table op, pg_time_column op) \<in> set KNOWN_TARGETS) ops \<Longrightarrow>
   \<exists>done. set done \<subseteq> set ops \<and> table' = filter (\<lambda>r. list_all (\<lambda>op. \<not> expired op r) done) table
     \<and> (case res of
          Inl e \<Rightarrow> e = TimescaleUnavailable \<and> list_ex (\<lambda>op. \<not> up op) ops
        | Inr m \<Rightarrow> done = ops \<and> m = n + (length table - length table') \<and> list_all up ops)"
proof (induction up ops n table arbitrary: res table' rule: purge_ops.induct)
  case (1 up n table)
  then show ?case by (intro exI [of _ "[]"]) auto
next
  case (2 up op ops n table)
  show ?case
  proof (cases "up op")
    case False
    then show ?thesis
      using 2(2,3) by (intro exI [of _ "[]"]) (auto simp: delete_expired_def)
  next
    case True
    let ?t = "filter (\<lambda>r. \<not> expired op r) table"
    have step: "delete_expired (up op) op table = (Inr (length (filter (expired op) table)), ?t)"
      using True 2(3) by (simp add: delete_expired_def)
    have sizes: "length (filter (expired op) table) + length ?t = length table"
      by (rule sum_length_filter_compl)
    from 2(1) [OF step [symmetric] refl, of res table'] 2(2,3) step
    obtain done' where d: "set done' \<subseteq> set ops" "table' = filter (\<lambda>r. list_all (\<lambda>op. \<not> expired op r) done') ?t"
      "case res of
          Inl e \<Rightarrow> e = TimescaleUnavailable \<and> list_ex (\<lambda>op. \<not> up op) ops
        | Inr m \<Rightarrow> done' = ops \<and> m = n + length (filter (expired op) table) + (length ?t - length table') \<and> list_all up ops"
      by auto
    have "length table' \<le> length ?t" unfolding d(2) by (rule length_filter_le)
    then show ?thesis
      using d sizes True
      by (intro exI [of _ "op # done'"]) (auto simp: conj_commute split: sum.splits)
  qed
qed

lemma planned_ops:
  "list_all (\<lambda>op. (pg_table op, pg_time_column op) \<in> set KNOWN_TARGETS)
     (concat (map (\<lambda>(org_id, plan). plan_purge_ops org_id plan now) orgs))"
  by (auto simp: list_all_iff plan_purge_ops_def KNOWN_TARGETS_def)

lemma planned_within:
  "list_all (\<lambda>op. \<not> expired op r) (concat (map (\<lambda>(org_id, plan). plan_purge_ops org_id plan now) orgs))
     \<longleftrightarrow> within_retention orgs now r"
  by (fastforce simp: list_all_iff plan_purge_ops_def expired_def within_retention_def not_less)

section \<open>Properties\<close>

lemma purge_exact:
  "purge_expired_telemetry up orgs now table = (Inr n, table') \<Longrightarrow> table' = filter (within_retention orgs now) table"
  unfolding purge_expired_telemetry_def
  by (drule purge_ops_sub [OF _ planned_ops]) (auto simp: planned_within)

text \<open>A retention sweep deletes exactly what has expired: when the database answers throughout, the rows
  left are those within the age of their organization's plan (any plan that does not read as "pro"
  counts as Free) and the result counts the others; when it fails in between, the sweep says so and
  has deleted nothing that had not expired.\<close>

theorem retention_exact:
  assumes "purge_expired_telemetry up orgs now table = (res, table')"
  shows "(\<exists>P. table' = filter P table \<and> (\<forall>r. within_retention orgs now r \<longrightarrow> P r))
    \<and> (case res of
         Inl e \<Rightarrow> e = TimescaleUnavailable
       | Inr n \<Rightarrow> table' = filter (within_retention orgs now) table
           \<and> n = length (filter (\<lambda>r. \<not> within_retention orgs now r) table))"
proof -
  let ?ops = "concat (map (\<lambda>(org_id, plan). plan_purge_ops org_id plan now) orgs)"
  obtain done' where d: "set done' \<subseteq> set ?ops" "table' = filter (\<lambda>r. list_all (\<lambda>op. \<not> expired op r) done') table"
    "case res of
       Inl e \<Rightarrow> e = TimescaleUnavailable \<and> list_ex (\<lambda>op. \<not> up op) ?ops
     | Inr m \<Rightarrow> done' = ?ops \<and> m = 0 + (length table - length table') \<and> list_all up ?ops"
    using purge_ops_sub [OF assms [unfolded purge_expired_telemetry_def] planned_ops] by blast
  have keeps: "list_all (\<lambda>op. \<not> expired op r) done'" if "within_retention orgs now r" for r
    using that planned_within [of r now orgs] d(1) by (auto simp: list_all_iff)
  have "length table = length (filter (within_retention orgs now) table)
      + length (filter (\<lambda>r. \<not> within_retention orgs now r) table)"
    by (rule sum_length_filter_compl [symmetric])
  with d keeps show ?thesis
    by (intro conjI exI [of _ "\<lambda>r. list_all (\<lambda>op. \<not> expired op r) done'"])
      (auto simp: planned_within split: sum.splits)
qed

text \<open>C39. Rollups do not outlive the raw rows: after a complete sweep, refreshing any of the views leaves no
  bucket of a swept organization whose newest sample is older than the raw retention of its plan; for
  a Pro organization that is 90 days, although its policy keeps hourly data for 365.\<close>

theorem rollups_end_with_raw:
  assumes "purge_expired_telemetry up orgs now table = (Inr n, rl_telemetry db)" "(org, plan) \<in> set orgs"
    and "refresh_aggregate True view window_start db = (None, db')"
  shows "(\<exists>rows. rl_views db' view = Some rows
      \<and> (\<forall>b \<in> set rows. ro_org_id b = org \<longrightarrow> now - rt_raw_max_age (policy_for_plan plan) \<le> ro_last_ts b))
    \<and> (map_option (lower \<circ> strip) plan = Some ''pro'' \<longrightarrow>
        rt_raw_max_age (policy_for_plan plan) = days 90 \<and> rt_hourly_max_age (policy_for_plan plan) = days 365)"
proof
  define width where "width = (case map_of VIEW_BUCKETS view of Some width \<Rightarrow> width | None \<Rightarrow> 1)"
  have view: "rl_views db' view = Some (rollup_of width (rl_telemetry db))"
    using assms(3) by (auto simp: refresh_aggregate_def width_def split: if_splits)
  have kept: "now - rt_raw_max_age (policy_for_plan plan) \<le> tr_ts r"
    if "r \<in> set (rl_telemetry db)" "tr_org_id r = org" for r
  proof -
    have "r \<in> set (filter (within_retention orgs now) table)"
      using that(1) purge_exact [OF assms(1)] by simp
    then show ?thesis using assms(2) that(2) by (fastforce simp: within_retention_def list_all_iff)
  qed
  have "now - rt_raw_max_age (policy_for_plan plan) \<le> ro_last_ts b"
    if b: "b \<in> set (rollup_of width (rl_telemetry db))" "ro_org_id b = org" for b
  proof -
    let ?key = "\<lambda>r. (tr_device_id r, tr_org_id r, time_bucket width (tr_ts r))"
    from b(1) obtain r0 where r0: "r0 \<in> set (rl_telemetry db)" "ro_org_id b = tr_org_id r0"
      "ro_last_ts b = Max (set (map tr_ts (filter (\<lambda>r. ?key r = ?key r0) (rl_telemetry db))))"
      by (auto simp: rollup_of_def Let_def)
    have "ro_last_ts b \<ge> tr_ts r0" unfolding r0(3) using r0(1) by (intro Max_ge) auto
    with kept [OF r0(1)] r0(2) b(2) show ?thesis by simp
  qed
  with view show "\<exists>rows. rl_views db' view = Some rows
      \<and> (\<forall>b \<in> set rows. ro_org_id b = org \<longrightarrow> now - rt_raw_max_age (policy_for_plan plan) \<le> ro_last_ts b)" by blast
  show "map_option (lower \<circ> strip) plan = Some ''pro'' \<longrightarrow>
        rt_raw_max_age (policy_for_plan plan) = days 90 \<and> rt_hourly_max_age (policy_for_plan plan) = days 365"
    by (auto simp: policy_for_plan_def PLAN_POLICIES_def PRO_POLICY_def DAYS_PER_MONTH_def DAYS_PER_YEAR_def)
qed

lemma purge_down:
  "orgs \<noteq> [] \<Longrightarrow> (\<And>op. \<not> up op) \<Longrightarrow> purge_expired_telemetry up orgs now table = (Inl TimescaleUnavailable, table)"
  by (cases orgs) (auto simp: purge_expired_telemetry_def plan_purge_ops_def delete_expired_def KNOWN_TARGETS_def)

definition db_down :: "retention_sweep \<Rightarrow> bool" where
  "db_down sw = ((case sw_orgs sw of Some (x # xs) \<Rightarrow> True | _ \<Rightarrow> False) \<and> (\<forall>op. \<not> sw_up sw op))"

lemma down_step:
  assumes "db_down sw" "rr_loop w = Looping b"
  shows "retention_step sw w = \<lparr>rr_loop = Looping (min (b * 2) PURGE_BACKOFF_MAX_SECONDS),
    rr_slept = rr_slept w @ [b], rr_table = rr_table w\<rparr>"
proof -
  obtain orgs where o: "sw_orgs sw = Some orgs" "orgs \<noteq> []"
    using assms(1) by (auto simp: db_down_def split: option.splits list.splits)
  have "\<not> sw_up sw op" for op using assms(1) by (simp add: db_down_def)
  with purge_down [OF o(2)] show ?thesis by (simp add: retention_step_def assms(2) o(1))
qed

lemma stopped_stays: "rr_loop w = Stopped \<Longrightarrow> fold retention_step sws w = w"
  by (induction sws) (simp_all add: retention_step_def)

text \<open>Where the database fails decides over the worker: however often it fails while rows are deleted,
  the worker keeps the table, waits between one second and one minute each time and goes on; a single
  failure while the plans are loaded stops it for good.\<close>

theorem outage_purging_or_loading:
  assumes "list_all db_down sws" "rr_loop w = Looping b" "1 \<le> b" "b \<le> PURGE_BACKOFF_MAX_SECONDS"
    and "sw_orgs bad = None"
  shows "(\<exists>b'. rr_loop (fold retention_step sws w) = Looping b' \<and> 1 \<le> b' \<and> b' \<le> PURGE_BACKOFF_MAX_SECONDS)
    \<and> (\<exists>ws. rr_slept (fold retention_step sws w) = rr_slept w @ ws \<and> length ws = length sws
        \<and> list_all (\<lambda>d. 1 \<le> d \<and> d \<le> PURGE_BACKOFF_MAX_SECONDS) ws)
    \<and> rr_table (fold retention_step sws w) = rr_table w
    \<and> fold retention_step later (retention_step bad (fold retention_step sws w))
        = (fold retention_step sws w)\<lparr>rr_loop := Stopped\<rparr>"
proof -
  have run: "(\<exists>b'. rr_loop (fold retention_step sws w) = Looping b' \<and> 1 \<le> b' \<and> b' \<le> PURGE_BACKOFF_MAX_SECONDS)
    \<and> (\<exists>ws. rr_slept (fold retention_step sws w) = rr_slept w @ ws \<and> length ws = length sws
        \<and> list_all (\<lambda>d. 1 \<le> d \<and> d \<le> PURGE_BACKOFF_MAX_SECONDS) ws)
    \<and> rr_table (fold retention_step sws w) = rr_table w"
    using assms(1-4)
  proof (induction sws arbitrary: w b)
    case (Cons sw sws)
    let ?w = "retention_step sw w"
    have step: "?w = \<lparr>rr_loop = Looping (min (b * 2) PURGE_BACKOFF_MAX_SECONDS),
        rr_slept = rr_slept w @ [b], rr_table = rr_table w\<rparr>"
      using Cons.prems by (simp add: down_step)
    have ih: "(\<exists>b'. rr_loop (fold retention_step sws ?w) = Looping b' \<and> 1 \<le> b' \<and> b' \<le> PURGE_BACKOFF_MAX_SECONDS)
      \<and> (\<exists>ws. rr_slept (fold retention_step sws ?w) = rr_slept ?w @ ws \<and> length ws = length sws
        \<and> list_all (\<lambda>d. 1 \<le> d \<and> d \<le> PURGE_BACKOFF_MAX_SECONDS) ws)
      \<and> rr_table (fold retention_step sws ?w) = rr_table ?w"
      using Cons.prems
      by (intro Cons.IH [where b = "min (b * 2) PURGE_BACKOFF_MAX_SECONDS"])
        (simp_all add: step PURGE_BACKOFF_MAX_SECONDS_def)
    then obtain ws where ws: "rr_slept (fold retention_step sws ?w) = rr_slept w @ (b # ws)"
      "length ws = length sws" "list_all (\<lambda>d. 1 \<le> d \<and> d \<le> PURGE_BACKOFF_MAX_SECONDS) (b # ws)"
      using Cons.prems(3,4) by (auto simp: step)
    with ih show ?case by (simp add: step)
  qed (simp add: exI [of _ "[]"])
  moreover have "retention_step bad (fold retention_step sws w) = (fold retention_step sws w)\<lparr>rr_loop := Stopped\<rparr>"
    using run assms(5) by (auto simp: retention_step_def)
  ultimately show ?thesis by (simp add: stopped_stays)
qed

lemma refresh_specs_exact:
  "distinct (map ag_view specs) \<Longrightarrow> refresh_specs execute now specs done' lr w = (res, lr', w') \<Longrightarrow>
   \<exists>k. lr' = (\<lambda>v. if v \<in> ag_view ` set (take k specs) then Some now else lr v)
     \<and> (case res of
          Inr vs \<Rightarrow> k = length specs \<and> vs = done' @ map ag_view specs
        | Inl e \<Rightarrow> k < length specs)"
proof (induction execute now specs done' lr w rule: refresh_specs.induct)
  case (1 execute now refreshed lr w)
  then show ?case by auto
next
  case (2 execute now spec specs refreshed lr w)
  obtain e w1 where e: "execute (ag_view spec) (now - ag_lookback spec) w = (e, w1)" by fastforce
  show ?case
  proof (cases e)
    case (Some x)
    with 2(3) e show ?thesis by (intro exI [of _ 0]) auto
  next
    case None
    have "refresh_specs execute now specs (refreshed @ [ag_view spec]) (lr(ag_view spec \<mapsto> now)) w1 = (res, lr', w')"
      using 2(3) e None by simp
    then have "\<exists>k. lr' = (\<lambda>v. if v \<in> ag_view ` set (take k specs) then Some now else (lr(ag_view spec \<mapsto> now)) v)
      \<and> (case res of
          Inr vs \<Rightarrow> k = length specs \<and> vs = (refreshed @ [ag_view spec]) @ map ag_view specs
        | Inl e \<Rightarrow> k < length specs)"
      using 2(2) by (intro 2(1) [OF e [unfolded None, symmetric] refl]) (simp_all del: fun_upd_apply)
    then obtain k where
      k: "lr' = (\<lambda>v. if v \<in> ag_view ` set (take k specs) then Some now else (lr(ag_view spec \<mapsto> now)) v)"
      "case res of
          Inr vs \<Rightarrow> k = length specs \<and> vs = (refreshed @ [ag_view spec]) @ map ag_view specs
        | Inl e \<Rightarrow> k < length specs" by blast
    then show ?thesis by (intro exI [of _ "Suc k"]) (auto split: sum.splits)
  qed
qed

text \<open>The refresh schedule is exact: a rollup is refreshed when it never was or its cadence has passed,
  in the order of the list, each refreshed one is next due exactly a cadence later and the others
  keep their time; when a refresh fails, those before it are stamped, and it and the later ones stay
  due and are tried again.\<close>

theorem refresh_schedule_exact:
  assumes "distinct (map ag_view specs)" "list_all (\<lambda>spec. 0 < ag_cadence spec) specs"
    and "refresh_due_aggregates execute specs now lr w = (res, lr', w')"
  shows "(\<exists>k. lr' = (\<lambda>v. if v \<in> ag_view ` set (take k (due_aggregates specs now lr)) then Some now else lr v)
      \<and> due_aggregates specs now lr' = drop k (due_aggregates specs now lr)
      \<and> (case res of
           Inr vs \<Rightarrow> k = length (due_aggregates specs now lr) \<and> vs = map ag_view (due_aggregates specs now lr)
         | Inl e \<Rightarrow> k < length (due_aggregates specs now lr)))"
proof -
  let ?due = "due_aggregates specs now lr"
  have dist: "distinct (map ag_view ?due)" using assms(1) by (simp add: due_aggregates_def distinct_map_filter)
  from refresh_specs_exact [OF dist assms(3) [unfolded refresh_due_aggregates_def]] obtain k where
    k: "lr' = (\<lambda>v. if v \<in> ag_view ` set (take k ?due) then Some now else lr v)"
    "case res of Inr vs \<Rightarrow> k = length ?due \<and> vs = [] @ map ag_view ?due | Inl e \<Rightarrow> k < length ?due" by blast
  let ?hit = "\<lambda>spec. ag_view spec \<in> ag_view ` set (take k ?due)"
  have "due_aggregates specs now lr' = filter (\<lambda>spec. \<not> ?hit spec) ?due"
    unfolding due_aggregates_def [of specs now] filter_filter
  proof (rule filter_cong [OF refl])
    fix spec assume "spec \<in> set specs"
    then have "0 < ag_cadence spec" using assms(2) by (simp add: list_all_iff)
    then show "(case lr' (ag_view spec) of None \<Rightarrow> True | Some last' \<Rightarrow> ag_cadence spec \<le> now - last')
      = ((case lr (ag_view spec) of None \<Rightarrow> True | Some last' \<Rightarrow> ag_cadence spec \<le> now - last')
         \<and> ag_view spec \<notin> ag_view ` set (take k (filter
             (\<lambda>spec. case lr (ag_view spec) of None \<Rightarrow> True | Some last' \<Rightarrow> ag_cadence spec \<le> now - last') specs)))"
      unfolding k(1) due_aggregates_def by simp
  qed
  also have "\<dots> = filter (\<lambda>spec. \<not> ?hit spec) (take k ?due) @ filter (\<lambda>spec. \<not> ?hit spec) (drop k ?due)"
    by (metis append_take_drop_id filter_append)
  also have "filter (\<lambda>spec. \<not> ?hit spec) (take k ?due) = []" by (auto simp: filter_empty_conv)
  also have "filter (\<lambda>spec. \<not> ?hit spec) (drop k ?due) = drop k ?due"
  proof (rule filter_True, rule ballI)
    fix x assume "x \<in> set (drop k ?due)"
    moreover have "ag_view ` set (take k ?due) \<inter> ag_view ` set (drop k ?due) = {}"
      using dist by (metis append_take_drop_id distinct_append list.set_map map_append)
    ultimately show "\<not> ?hit x" by blast
  qed
  finally have "due_aggregates specs now lr' = drop k ?due" by simp
  with k show ?thesis by (intro exI [of _ k]) (auto split: sum.splits)
qed


lemma known_views: "KNOWN_VIEWS = [''telemetry_5m'', ''telemetry_1h'', ''telemetry_1d'']"
  by (simp add: KNOWN_VIEWS_def DEFAULT_AGGREGATES_def)

lemma refresh_down:
  "refresh_specs (refresh_aggregate False) now specs vs lr db = (res, lr', db') \<Longrightarrow>
   set (map ag_view specs) \<subseteq> set KNOWN_VIEWS \<Longrightarrow>
   lr' = lr \<and> db' = db \<and> (res = Inl TimescaleUnavailable \<or> specs = [] \<and> res = Inr vs)"
  by (cases specs) (auto simp: refresh_aggregate_def)

lemma downsample_down:
  assumes "dr_loop w = Looping b"
  shows "(\<exists>b'. dr_loop (downsample_step False now w) = Looping b')
    \<and> dr_last_refreshed (downsample_step False now w) = dr_last_refreshed w
    \<and> dr_db (downsample_step False now w) = dr_db w"
proof -
  obtain res lr db where r:
    "refresh_due_aggregates (refresh_aggregate False) DEFAULT_AGGREGATES now (dr_last_refreshed w) (dr_db w) = (res, lr, db)"
    by (metis surj_pair)
  have "set (map ag_view (due_aggregates DEFAULT_AGGREGATES now (dr_last_refreshed w))) \<subseteq> set KNOWN_VIEWS"
    by (auto simp: due_aggregates_def KNOWN_VIEWS_def)
  from refresh_down [OF r [unfolded refresh_due_aggregates_def] this] show ?thesis
    by (auto simp: downsample_step_def assms r)
qed

lemma downsample_outage:
  "dr_loop w = Looping b \<Longrightarrow>
   (\<exists>b'. dr_loop (fold (downsample_step False) nows w) = Looping b')
    \<and> dr_last_refreshed (fold (downsample_step False) nows w) = dr_last_refreshed w
    \<and> dr_db (fold (downsample_step False) nows w) = dr_db w"
proof (induction nows arbitrary: w b)
  case (Cons now nows)
  from downsample_down [OF Cons.prems, of now] obtain b' where
    "dr_loop (downsample_step False now w) = Looping b'" by blast
  from Cons.IH [OF this] downsample_down [OF Cons.prems, of now] show ?case by simp
qed simp

text \<open>The downsampler recovers from an outage: however often a fresh worker wakes while the database is
  away, the first turn after the database is back computes all three rollups from the telemetry there
  is then, stamps them and waits the regular minute.\<close>

theorem downsampler_recovers:
  assumes "dr_loop w = Looping b" "dr_last_refreshed w = Map.empty"
  shows "(let w' = downsample_step True now (fold (downsample_step False) nows w) in
      dr_loop w' = Looping 1 \<and> last (dr_slept w') = 60
      \<and> (\<forall>view \<in> set KNOWN_VIEWS. dr_last_refreshed w' view = Some now)
      \<and> rl_telemetry (dr_db w') = rl_telemetry (dr_db w)
      \<and> list_all (\<lambda>(view, width). rl_views (dr_db w') view = Some (rollup_of width (rl_telemetry (dr_db w)))) VIEW_BUCKETS)"
proof -
  define v where "v = fold (downsample_step False) nows w"
  obtain b' where v: "dr_loop v = Looping b'" "dr_last_refreshed v = Map.empty" "dr_db v = dr_db w"
    using downsample_outage [OF assms(1), of nows] assms(2) by (auto simp: v_def)
  show ?thesis unfolding Let_def v_def [symmetric]
    by (simp add: downsample_step_def refresh_due_aggregates_def due_aggregates_def refresh_aggregate_def known_views
        DEFAULT_AGGREGATES_def VIEW_BUCKETS_def REFRESH_BACKOFF_INITIAL_SECONDS_def POLL_INTERVAL_SECONDS_def v)
qed

section \<open>Concrete runs\<close>

definition ex_row :: "uuid \<Rightarrow> timestamp \<Rightarrow> telemetry_row" where
  "ex_row org ts = \<lparr>tr_org_id = org, tr_device_id = ''d'', tr_ts = ts, tr_data = []\<rparr>"

definition ex_rows :: "telemetry_row list" where
  "ex_rows = [ex_row ''o1'' 0, ex_row ''o1'' (days 50), ex_row ''o2'' 0]"

definition ex_orgs :: "(uuid \<times> string option) list" where
  "ex_orgs = [(''o1'', Some '' PRO ''), (''o3'', None)]"

definition ex_kept :: "telemetry_row list" where
  "ex_kept = [ex_row ''o1'' (days 50), ex_row ''o2'' 0]"

lemma ex_policies: "policy_for_plan (Some '' PRO '') = PRO_POLICY" "policy_for_plan None = FREE_POLICY"
proof -
  have "lower (strip '' PRO '') = ''pro''" by code_simp
  then show "policy_for_plan (Some '' PRO '') = PRO_POLICY" by (simp add: policy_for_plan_def PLAN_POLICIES_def)
qed (simp add: policy_for_plan_def DEFAULT_POLICY_def)

lemmas ex_evals = ex_rows_def ex_orgs_def ex_kept_def ex_row_def ex_policies PRO_POLICY_def FREE_POLICY_def
  days_def DAYS_PER_MONTH_def usec_per_day_def

lemma ex_purge: "purge_expired_telemetry (\<lambda>op. True) ex_orgs (days 100) ex_rows = (Inr 1, ex_kept)"
  by (simp add: purge_expired_telemetry_def plan_purge_ops_def delete_expired_def KNOWN_TARGETS_def expired_def ex_evals)

theorem retention_exact_witness:
  "ex_kept = filter (within_retention ex_orgs (days 100)) ex_rows
    \<and> 1 = length (filter (\<lambda>r. \<not> within_retention ex_orgs (days 100) r) ex_rows)"
  using retention_exact [OF ex_purge] by simp

theorem rollups_end_with_raw_witness:
  "\<exists>rows. rl_views (snd (refresh_aggregate True ''telemetry_1h'' 0 \<lparr>rl_telemetry = ex_kept, rl_views = Map.empty\<rparr>))
       ''telemetry_1h'' = Some rows
     \<and> length rows = 2
     \<and> (\<forall>b \<in> set rows. ro_org_id b = ''o1'' \<longrightarrow> days 10 \<le> ro_last_ts b)"
proof -
  define db where "db = \<lparr>rl_telemetry = ex_kept, rl_views = Map.empty\<rparr>"
  obtain db' where db': "refresh_aggregate True ''telemetry_1h'' 0 db = (None, db')"
    "rl_views db' ''telemetry_1h'' = Some (rollup_of 3600000000 ex_kept)"
    by (simp add: refresh_aggregate_def known_views VIEW_BUCKETS_def db_def)
  have purge: "purge_expired_telemetry (\<lambda>op. True) ex_orgs (days 100) ex_rows = (Inr 1, rl_telemetry db)"
    by (simp add: ex_purge db_def)
  have org: "(''o1'', Some '' PRO '') \<in> set ex_orgs" by (simp add: ex_orgs_def)
  have "length (rollup_of 3600000000 ex_kept) = 2"
    by (simp add: rollup_of_def Let_def time_bucket_def ex_evals)
  moreover have "days 100 - rt_raw_max_age (policy_for_plan (Some '' PRO '')) = days 10"
    by (simp add: ex_evals)
  ultimately show ?thesis
    using rollups_end_with_raw [OF purge org db'(1)] db' by (simp flip: db_def)
qed

definition ex_down :: retention_sweep where
  "ex_down = \<lparr>sw_now = 0, sw_orgs = Some ex_orgs, sw_up = (\<lambda>op. False)\<rparr>"

definition ex_retention_run :: retention_run where
  "ex_retention_run = \<lparr>rr_loop = Looping PURGE_BACKOFF_INITIAL_SECONDS, rr_slept = [], rr_table = ex_rows\<rparr>"

theorem outage_purging_or_loading_witness:
  "rr_table (fold retention_step [ex_down, ex_down] ex_retention_run) = ex_rows
    \<and> rr_loop (fold retention_step ([ex_down, ex_down] @ [ex_down\<lparr>sw_orgs := None\<rparr>] @ [ex_down]) ex_retention_run) = Stopped"
proof -
  have down: "list_all db_down [ex_down, ex_down]" by (simp add: db_down_def ex_down_def ex_orgs_def)
  have start: "rr_loop ex_retention_run = Looping PURGE_BACKOFF_INITIAL_SECONDS" by (simp add: ex_retention_run_def)
  have b: "1 \<le> PURGE_BACKOFF_INITIAL_SECONDS" "PURGE_BACKOFF_INITIAL_SECONDS \<le> PURGE_BACKOFF_MAX_SECONDS"
    by (simp_all add: PURGE_BACKOFF_INITIAL_SECONDS_def PURGE_BACKOFF_MAX_SECONDS_def)
  have bad: "sw_orgs (ex_down\<lparr>sw_orgs := None\<rparr>) = None" by simp
  show ?thesis
    using outage_purging_or_loading [OF down start b bad, of "[ex_down]"] by (simp add: ex_retention_run_def)
qed

theorem refresh_schedule_exact_witness:
  "\<exists>lr'. due_aggregates DEFAULT_AGGREGATES 300000000 lr' = drop 1 (due_aggregates DEFAULT_AGGREGATES 300000000 Map.empty)
     \<and> lr' ''telemetry_5m'' = Some 300000000 \<and> lr' ''telemetry_1h'' = None"
proof -
  define execute :: "nat refresher" where
    "execute = (\<lambda>view start n. if view = ''telemetry_5m'' then (None, Suc n) else (Some TimescaleUnavailable, n))"
  define lr' where "lr' = [''telemetry_5m'' \<mapsto> (300000000 :: timestamp)]"
  have run: "refresh_due_aggregates execute DEFAULT_AGGREGATES 300000000 Map.empty 0 = (Inl TimescaleUnavailable, lr', 1)"
    by (simp add: refresh_due_aggregates_def due_aggregates_def DEFAULT_AGGREGATES_def execute_def lr'_def)
  have dist: "distinct (map ag_view DEFAULT_AGGREGATES)" and cad: "list_all (\<lambda>spec. 0 < ag_cadence spec) DEFAULT_AGGREGATES"
    by (simp_all add: DEFAULT_AGGREGATES_def days_def usec_per_day_def)
  from refresh_schedule_exact [OF dist cad run] obtain k where
    k: "due_aggregates DEFAULT_AGGREGATES 300000000 lr' = drop k (due_aggregates DEFAULT_AGGREGATES 300000000 Map.empty)"
    by blast
  have "k = 1"
    using arg_cong [OF k, of length] by (simp add: due_aggregates_def DEFAULT_AGGREGATES_def days_def usec_per_day_def lr'_def)
  with k show ?thesis by (intro exI [of _ lr']) (simp add: lr'_def)
qed

theorem downsampler_recovers_witness:
  "last (dr_slept (downsample_step True 7 (fold (downsample_step False) [1, 2, 5]
     \<lparr>dr_loop = Looping REFRESH_BACKOFF_INITIAL_SECONDS, dr_slept = [], dr_last_refreshed = Map.empty,
      dr_db = \<lparr>rl_telemetry = ex_rows, rl_views = Map.empty\<rparr>\<rparr>))) = 60"
proof -
  define w where "w = \<lparr>dr_loop = Looping REFRESH_BACKOFF_INITIAL_SECONDS, dr_slept = [], dr_last_refreshed = Map.empty,
      dr_db = \<lparr>rl_telemetry = ex_rows, rl_views = Map.empty\<rparr>\<rparr>"
  have w: "dr_loop w = Looping REFRESH_BACKOFF_INITIAL_SECONDS" "dr_last_refreshed w = Map.empty" by (simp_all add: w_def)
  show ?thesis using downsampler_recovers [OF w, of 7 "[1, 2, 5]"] by (simp add: Let_def flip: w_def)
qed

end
