(* ===== verification/Upkeep.thy ===== *)
theory Upkeep imports Tokens Subscriptions
begin

text \<open>
  Two periodic workers over Redis: the session clean-up (\<open>app/workers/session_cleanup.py\<close>) and the
  expiry reminders (\<open>app/workers/subscription_expiry.py\<close>) with the part of
  \<open>app/services/email_service.py\<close> they reach.  SCAN and TTL join the interface of Redis as the locale
  \<open>redis_scan\<close>; SMTP is an argument.  The lemmas show that the clean-up removes exactly the orphaned
  sessions and how often a reminder is sent.
\<close>

section \<open>SCAN and TTL\<close>

text \<open>\<open>sc_scan t m cursor pattern count\<close> answers the next cursor and a batch of keys.\<close>

record 'm scan_cmds =
  sc_ttl :: "timestamp \<Rightarrow> 'm \<Rightarrow> string \<Rightarrow> int"
  sc_scan :: "timestamp \<Rightarrow> 'm \<Rightarrow> nat \<Rightarrow> string \<Rightarrow> nat \<Rightarrow> nat \<times> string list"

text \<open>The scan phase: batches are joined until the cursor comes back as zero.  Nothing in the code bounds
  the number of rounds.\<close>

partial_function (option) scan_keys :: "(nat \<Rightarrow> nat \<times> string list) \<Rightarrow> nat \<Rightarrow> string list \<Rightarrow> string list option" where
  "scan_keys scan cursor keys =
     (let (cursor', batch) = scan cursor; keys' = List.union batch keys
      in if cursor' = 0 then Some keys' else scan_keys scan cursor' keys')"

text \<open>A pattern without special characters before its final star matches by prefix.\<close>

definition plain_glob :: "string \<Rightarrow> bool" where
  "plain_glob p = list_all (\<lambda>c. c \<notin> set [CHR ''*'', CHR ''?'', CHR ''['', CHR '']'', CHR 0x5C]) p"

locale redis_scan = redis_keys K for K :: "('m, string, string) kv_cmds" +
  fixes T :: "'m scan_cmds"
  assumes ttl_missing: "sc_ttl T t m k = -2 \<longleftrightarrow> kv_get K t m k = None"
    and ttl_set: "t \<le> t' \<Longrightarrow> kv_get K t' (kv_set K t k v ttl m) k \<noteq> None \<Longrightarrow>
        sc_ttl T t' (kv_set K t k v ttl m) k = -1 \<longleftrightarrow> ttl = None"
    and ttl_set_other: "k' \<noteq> k \<Longrightarrow> t \<le> t' \<Longrightarrow> sc_ttl T t' (kv_set K t k v ttl m) k' = sc_ttl T t' m k'"
    and ttl_del_other: "k' \<noteq> k \<Longrightarrow> t \<le> t' \<Longrightarrow> sc_ttl T t' (snd (kv_del K t k m)) k' = sc_ttl T t' m k'"
    and scan_complete: "plain_glob p \<Longrightarrow> 0 < n \<Longrightarrow>
        \<exists>keys. scan_keys (\<lambda>c. sc_scan T t m c (p @ ''*'') n) 0 [] = Some keys
          \<and> set keys = {k. kv_get K t m k \<noteq> None \<and> starts_with k p}"
begin

lemma orphan_present: "sc_ttl T t m k = -1 \<Longrightarrow> kv_get K t m k \<noteq> None"
  using ttl_missing [of t m k] by auto

lemma set_with_ttl_not_orphan: "t \<le> t' \<Longrightarrow> sc_ttl T t' (kv_set K t k v (Some ttl) m) k \<noteq> -1"
  using ttl_set [of t t' k v "Some ttl" m] orphan_present [of t' _ k] by blast

end

text \<open>The reference structure: an association list of keys with their value and end, scanned page by
  page.\<close>

type_synonym alist_store = "(string \<times> string \<times> timestamp option) list"

definition alist_cmds :: "(alist_store, string, string) kv_cmds" where
  "alist_cmds = \<lparr>kv_get = (\<lambda>t m. kv_get ttl_maps t (map_of m)),
     kv_set = (\<lambda>t k v ttl m. AList.update k (v, map_option (\<lambda>d. t + usec d) ttl) m),
     kv_del = (\<lambda>t k m. (fst (kv_del ttl_maps t k (map_of m)), AList.delete k m))\<rparr>"

definition alist_page :: "string list \<Rightarrow> nat \<Rightarrow> nat \<Rightarrow> nat \<times> string list" where
  "alist_page keys cursor n = (if cursor + n < length keys then cursor + n else 0, take n (drop cursor keys))"

definition alist_keys :: "timestamp \<Rightarrow> alist_store \<Rightarrow> string \<Rightarrow> string list" where
  "alist_keys t m pattern =
     filter (\<lambda>k. starts_with k (butlast pattern) \<and> kv_get alist_cmds t m k \<noteq> None) (map fst m)"

definition alist_scan :: "alist_store scan_cmds" where
  "alist_scan = \<lparr>sc_ttl = (\<lambda>t m k. case map_of m k of None \<Rightarrow> -2
       | Some (v, None) \<Rightarrow> -1
       | Some (v, Some e) \<Rightarrow> if t < e then (e - t) div 1000000 else -2),
     sc_scan = (\<lambda>t m cursor pattern n. alist_page (alist_keys t m pattern) cursor n)\<rparr>"

lemma scan_pages:
  "0 < n \<Longrightarrow> \<exists>ks. scan_keys (\<lambda>c. alist_page keys c n) c acc = Some ks \<and> set ks = set acc \<union> set (drop c keys)"
proof (induction "length keys - c" arbitrary: c acc rule: less_induct)
  case less
  let ?k = "List.union (take n (drop c keys)) acc"
  have split: "set (drop c keys) = set (take n (drop c keys)) \<union> set (drop (c + n) keys)"
    by (metis append_take_drop_id drop_drop add.commute set_append)
  show ?case
  proof (cases "c + n < length keys")
    case True
    with less.prems have "length keys - (c + n) < length keys - c" by linarith
    from less.hyps [OF this less.prems, of ?k] obtain ks where
      "scan_keys (\<lambda>c. alist_page keys c n) (c + n) ?k = Some ks" "set ks = set ?k \<union> set (drop (c + n) keys)"
      by blast
    with True less.prems split show ?thesis
      by (subst scan_keys.simps) (auto simp: alist_page_def)
  next
    case False
    with split show ?thesis by (subst scan_keys.simps) (auto simp: alist_page_def)
  qed
qed

interpretation al: redis_keys alist_cmds
proof unfold_locales
  fix t t' :: timestamp and k k' v ttl and m :: alist_store
  show "t \<le> t' \<Longrightarrow> kv_get alist_cmds t' (kv_set alist_cmds t k v ttl m) k' =
         (if k' = k then (if alive t ttl t' then Some v else None) else kv_get alist_cmds t' m k')"
    using tm.get_set [of t t' k v ttl "map_of m" k'] by (simp add: alist_cmds_def update_conv' del: ttl_maps_simps(1))
  show "fst (kv_del alist_cmds t k m) \<longleftrightarrow> kv_get alist_cmds t m k \<noteq> None"
    using tm.del_result [of t k "map_of m"] by (simp add: alist_cmds_def del: ttl_maps_simps)
  show "t \<le> t' \<Longrightarrow> kv_get alist_cmds t' (snd (kv_del alist_cmds t k m)) k'
         = (if k' = k then None else kv_get alist_cmds t' m k')"
    by (simp add: alist_cmds_def delete_conv')
  show "kv_get alist_cmds t' m k = Some v \<Longrightarrow> t \<le> t' \<Longrightarrow> kv_get alist_cmds t m k = Some v"
    using tm.get_earlier [of t' "map_of m" k v t] by (simp add: alist_cmds_def del: ttl_maps_simps)
qed

interpretation als: redis_scan alist_cmds alist_scan
proof unfold_locales
  fix t t' :: timestamp and k k' p :: string and v ttl and n :: nat and m :: alist_store
  show "sc_ttl alist_scan t m k = -2 \<longleftrightarrow> kv_get alist_cmds t m k = None"
  proof -
    have "(e - t) div 1000000 \<noteq> -2" if "t < e" for e
      using that by (smt (verit) pos_imp_zdiv_nonneg_iff)
    then show ?thesis by (auto simp: alist_scan_def alist_cmds_def split: option.splits)
  qed
  show "t \<le> t' \<Longrightarrow> kv_get alist_cmds t' (kv_set alist_cmds t k v ttl m) k \<noteq> None \<Longrightarrow>
        sc_ttl alist_scan t' (kv_set alist_cmds t k v ttl m) k = -1 \<longleftrightarrow> ttl = None"
  proof -
    have "(e - t') div 1000000 \<noteq> -1" if "t' < e" for e
      using that by (smt (verit) pos_imp_zdiv_nonneg_iff)
    then show "t \<le> t' \<Longrightarrow> kv_get alist_cmds t' (kv_set alist_cmds t k v ttl m) k \<noteq> None \<Longrightarrow>
        sc_ttl alist_scan t' (kv_set alist_cmds t k v ttl m) k = -1 \<longleftrightarrow> ttl = None"
      by (cases ttl) (auto simp: alist_scan_def alist_cmds_def update_conv')
  qed
  show "k' \<noteq> k \<Longrightarrow> t \<le> t' \<Longrightarrow> sc_ttl alist_scan t' (kv_set alist_cmds t k v ttl m) k' = sc_ttl alist_scan t' m k'"
    by (simp add: alist_scan_def alist_cmds_def update_conv')
  show "k' \<noteq> k \<Longrightarrow> t \<le> t' \<Longrightarrow> sc_ttl alist_scan t' (snd (kv_del alist_cmds t k m)) k' = sc_ttl alist_scan t' m k'"
    by (simp add: alist_scan_def alist_cmds_def delete_conv')
  show "plain_glob p \<Longrightarrow> 0 < n \<Longrightarrow> \<exists>keys. scan_keys (\<lambda>c. sc_scan alist_scan t m c (p @ ''*'') n) 0 [] = Some keys
      \<and> set keys = {k. kv_get alist_cmds t m k \<noteq> None \<and> starts_with k p}"
  proof -
    assume "0 < n"
    then obtain ks where ks: "scan_keys (\<lambda>c. alist_page (alist_keys t m (p @ ''*'')) c n) 0 [] = Some ks"
      "set ks = set (alist_keys t m (p @ ''*''))"
      using scan_pages [of n "alist_keys t m (p @ ''*'')" 0 "[]"] by auto
    have "k \<in> fst ` set m" if "kv_get alist_cmds t m k \<noteq> None" for k
      using that by (auto simp: alist_cmds_def split: option.splits dest!: map_of_SomeD) (metis fst_conv image_eqI)+
    with ks show ?thesis by (auto simp: alist_scan_def alist_keys_def)
  qed
qed

section \<open>Session clean-up\<close>

definition SESSION_KEY_PATTERN :: string where "SESSION_KEY_PATTERN = refresh_token_key ''*''"
definition SCAN_COUNT :: nat where "SCAN_COUNT = 500"
definition TTL_NO_EXPIRY :: int where "TTL_NO_EXPIRY = -1"

fun delete_orphans ::
  "('m, string, string) kv_cmds \<Rightarrow> 'm scan_cmds \<Rightarrow> timestamp \<Rightarrow> string list \<Rightarrow> nat \<Rightarrow> 'm \<Rightarrow> nat \<times> 'm" where
  "delete_orphans K T t [] deleted m = (deleted, m)"
| "delete_orphans K T t (k # ks) deleted m =
     (if sc_ttl T t m k = TTL_NO_EXPIRY
      then (let (removed, m') = kv_del K t k m in delete_orphans K T t ks (deleted + (if removed then 1 else 0)) m')
      else delete_orphans K T t ks deleted m)"

text \<open>The sweep scans at \<open>t0\<close> and deletes at \<open>t1\<close>; \<open>others\<close> is what other clients do in between.  The order
  of a Python set is arbitrary; here it is the order of the batches.  No value means that the scan never ends.\<close>

definition cleanup_expired_sessions ::
  "('m, string, string) kv_cmds \<Rightarrow> 'm scan_cmds \<Rightarrow> nat \<Rightarrow> timestamp \<Rightarrow> timestamp \<Rightarrow> ('m \<Rightarrow> 'm) \<Rightarrow> 'm \<Rightarrow> (nat \<times> 'm) option" where
  "cleanup_expired_sessions K T scan_count t0 t1 others m =
     map_option (\<lambda>keys. delete_orphans K T t1 keys 0 (others m))
       (scan_keys (\<lambda>c. sc_scan T t0 m c SESSION_KEY_PATTERN scan_count) 0 [])"

lemma session_pattern: "SESSION_KEY_PATTERN = ''iotaps:refresh:'' @ ''*''" "plain_glob ''iotaps:refresh:''"
  by (simp_all add: SESSION_KEY_PATTERN_def refresh_token_key_def key_of_def NAMESPACE_def plain_glob_def)

lemma distinct_scan:
  assumes "scan_keys scan c acc = Some ks" "distinct acc"
  shows "distinct ks"
proof -
  have "distinct acc \<longrightarrow> distinct ks"
    by (rule scan_keys.raw_induct [OF _ assms(1), where P = "\<lambda>scan c acc ks. distinct acc \<longrightarrow> distinct ks"])
      (auto simp: Let_def split: prod.splits if_splits)
  with assms(2) show ?thesis by simp
qed

context redis_scan
begin

lemma delete_orphans_exact:
  "distinct ks \<Longrightarrow> delete_orphans K T t1 ks n m = (n', m') \<Longrightarrow>
   n' = n + length (filter (\<lambda>k. sc_ttl T t1 m k = -1) ks)
   \<and> (\<forall>t k. t1 \<le> t \<longrightarrow> kv_get K t m' k = (if k \<in> set ks \<and> sc_ttl T t1 m k = -1 then None else kv_get K t m k))"
proof (induction ks arbitrary: n m)
  case (Cons k ks)
  show ?case
  proof (cases "sc_ttl T t1 m k = -1")
    case True
    let ?m = "snd (kv_del K t1 k m)"
    have del: "kv_del K t1 k m = (True, ?m)"
      using orphan_present [OF True] del_result [of t1 k m] by (simp add: prod_eq_iff)
    have run: "delete_orphans K T t1 ks (n + 1) ?m = (n', m')"
      using Cons.prems(2) del True by (simp add: TTL_NO_EXPIRY_def split: prod.splits)
    have same: "sc_ttl T t1 ?m k' = sc_ttl T t1 m k'" if "k' \<in> set ks" for k'
      using that Cons.prems(1) by (intro ttl_del_other) auto
    have "filter (\<lambda>k'. sc_ttl T t1 ?m k' = -1) ks = filter (\<lambda>k'. sc_ttl T t1 m k' = -1) ks"
      by (rule filter_cong [OF refl]) (simp add: same)
    with Cons.IH [OF _ run] Cons.prems(1) True same show ?thesis by (auto simp: get_del)
  next
    case False
    with Cons.prems Cons.IH [of n m] show ?thesis by (auto simp: TTL_NO_EXPIRY_def)
  qed
qed simp

lemma cleanup_exact:
  assumes "t0 \<le> t1"
  shows "\<exists>n m' orphans. cleanup_expired_sessions K T SCAN_COUNT t0 t1 others m = Some (n, m')
      \<and> set orphans = {k. kv_get K t0 m k \<noteq> None \<and> starts_with k ''iotaps:refresh:'' \<and> sc_ttl T t1 (others m) k = -1}
      \<and> distinct orphans \<and> n = length orphans
      \<and> (\<forall>t k. t1 \<le> t \<longrightarrow> kv_get K t m' k = (if k \<in> set orphans then None else kv_get K t (others m) k))"
proof -
  have "0 < SCAN_COUNT" by (simp add: SCAN_COUNT_def)
  from scan_complete [OF session_pattern(2) this, of t0 m] obtain keys where
    keys: "scan_keys (\<lambda>c. sc_scan T t0 m c SESSION_KEY_PATTERN SCAN_COUNT) 0 [] = Some keys"
      "set keys = {k. kv_get K t0 m k \<noteq> None \<and> starts_with k ''iotaps:refresh:''}"
    unfolding session_pattern(1) by blast
  obtain n m' where run: "delete_orphans K T t1 keys 0 (others m) = (n, m')" by fastforce
  have "distinct keys" using distinct_scan [OF keys(1)] by simp
  with delete_orphans_exact [OF this run] keys run show ?thesis
    by (intro exI [of _ n] exI [of _ m'] exI [of _ "filter (\<lambda>k. sc_ttl T t1 (others m) k = -1) keys"])
      (simp add: cleanup_expired_sessions_def Collect_conj_eq [symmetric] conj_assoc)
qed

lemma issued_not_orphan:
  "t \<le> t1 \<Longrightarrow> Some m = snd (issue_refresh_token J K cfg t jti user org rl (Some m0)) \<Longrightarrow>
   sc_ttl T t1 m (refresh_token_key jti) \<noteq> -1"
  by (simp add: issue_refresh_token_def set_with_ttl_not_orphan)

end

text \<open>The clean-up ends, and removes exactly the sessions that would never expire: whatever other clients do
  between its scan and its deletions, it deletes the refresh-token keys that were there at the scan
  and have no time to live when it looks, counts them, and changes no other key.  A session the
  token service issues has a time to live, so a sweep never ends one.\<close>

theorem session_cleanup_exact:
  assumes "redis_scan K T" "t0 \<le> t1"
  shows "(\<exists>n m' orphans. cleanup_expired_sessions K T SCAN_COUNT t0 t1 others m = Some (n, m')
      \<and> set orphans = {k. kv_get K t0 m k \<noteq> None \<and> starts_with k ''iotaps:refresh:'' \<and> sc_ttl T t1 (others m) k = -1}
      \<and> distinct orphans \<and> n = length orphans
      \<and> (\<forall>t k. t1 \<le> t \<longrightarrow> kv_get K t m' k = (if k \<in> set orphans then None else kv_get K t (others m) k))
      \<and> (\<forall>J cfg t jti user org rl m0. t \<le> t1 \<and> Some (others m) = snd (issue_refresh_token J K cfg t jti user org rl (Some m0))
           \<longrightarrow> refresh_token_key jti \<notin> set orphans))"
proof -
  obtain n m' orphans where c: "cleanup_expired_sessions K T SCAN_COUNT t0 t1 others m = Some (n, m')"
      "set orphans = {k. kv_get K t0 m k \<noteq> None \<and> starts_with k ''iotaps:refresh:'' \<and> sc_ttl T t1 (others m) k = -1}"
      "distinct orphans" "n = length orphans"
      "\<forall>t k. t1 \<le> t \<longrightarrow> kv_get K t m' k = (if k \<in> set orphans then None else kv_get K t (others m) k)"
    using redis_scan.cleanup_exact [OF assms, of others m] by blast
  have "refresh_token_key jti \<notin> set orphans"
    if "t \<le> t1" "Some (others m) = snd (issue_refresh_token J K cfg t jti user org rl (Some m0))"
    for J cfg t jti user org rl m0
    using redis_scan.issued_not_orphan [OF assms(1) that] by (simp add: c(2))
  with c show ?thesis by blast
qed

definition ex_sessions :: alist_store where
  "ex_sessions = [(''iotaps:refresh:a'', ''u'', None), (''iotaps:refresh:b'', ''u'', Some 9000000), (''x'', ''u'', None)]"

theorem session_cleanup_exact_witness:
  "\<exists>n m'. cleanup_expired_sessions alist_cmds alist_scan SCAN_COUNT 0 1 (\<lambda>m. m) ex_sessions = Some (n, m')
     \<and> kv_get alist_cmds 1 m' ''iotaps:refresh:a'' = None \<and> kv_get alist_cmds 1 m' ''iotaps:refresh:b'' = Some ''u''
     \<and> kv_get alist_cmds 1 m' ''x'' = Some ''u''"
proof -
  obtain n m' orphans where c: "cleanup_expired_sessions alist_cmds alist_scan SCAN_COUNT 0 1 (\<lambda>m. m) ex_sessions = Some (n, m')"
    "set orphans = {k. kv_get alist_cmds 0 ex_sessions k \<noteq> None \<and> starts_with k ''iotaps:refresh:''
        \<and> sc_ttl alist_scan 1 ex_sessions k = -1}"
    "\<forall>t k. 1 \<le> t \<longrightarrow> kv_get alist_cmds t m' k = (if k \<in> set orphans then None else kv_get alist_cmds t ex_sessions k)"
    using session_cleanup_exact [OF als.redis_scan_axioms, of 0 1 "\<lambda>m. m" ex_sessions] by auto
  have "''iotaps:refresh:a'' \<in> set orphans" "''iotaps:refresh:b'' \<notin> set orphans" "''x'' \<notin> set orphans"
    by (simp_all add: c(2) ex_sessions_def alist_cmds_def alist_scan_def)
  with c(1,3) show ?thesis
    by (intro exI [of _ n] exI [of _ m']) (simp add: ex_sessions_def alist_cmds_def)
qed

section \<open>E-mail\<close>

text \<open>A mail is its recipients and its subject; the HTML of the bodies is left out.  \<open>enabled\<close> is
  \<open>settings.email_enabled\<close> and \<open>smtp\<close> whether the server takes the mail in time.  The world is the list
  of the mails handed to SMTP.\<close>

record mail =
  ml_to :: "string list"
  ml_subject :: string

record smtp_server =
  email_enabled :: bool
  smtp_takes :: "mail \<Rightarrow> bool"

definition send_email :: "smtp_server \<Rightarrow> string list \<Rightarrow> string \<Rightarrow> mail list \<Rightarrow> bool \<times> mail list" where
  "send_email S to' subject outbox =
     (let recipients = filter (\<lambda>r. r \<noteq> []) to' in
      if recipients = [] then (False, outbox)
      else if \<not> email_enabled S then (False, outbox)
      else (let m = \<lparr>ml_to = recipients, ml_subject = subject\<rparr> in (smtp_takes S m, outbox @ [m])))"

record mail_user =
  mu_org_id :: uuid
  mu_role :: string
  mu_email :: string

definition org_recipient_emails :: "mail_user list \<Rightarrow> string \<Rightarrow> string list" where
  "org_recipient_emails users org_id =
     (case parse_uuid org_id of
        None \<Rightarrow> []
      | Some org \<Rightarrow>
          (let emails = filter (\<lambda>e. e \<noteq> []) (map mu_email
              (filter (\<lambda>u. mu_org_id u = org \<and> mu_role u = ROLE_PROJECT_CENTER) users))
           in if emails \<noteq> [] then emails
              else filter (\<lambda>e. e \<noteq> []) (map mu_email (filter (\<lambda>u. mu_org_id u = org) users))))"

definition notify_subscription_expiring ::
  "smtp_server \<Rightarrow> mail_user list \<Rightarrow> string \<Rightarrow> int \<Rightarrow> mail list \<Rightarrow> bool \<times> mail list" where
  "notify_subscription_expiring S users org_id days_left outbox =
     (let recipients = org_recipient_emails users org_id in
      if recipients = [] then (False, outbox)
      else send_email S recipients
        (''Your plan expires in '' @ int_str days_left @ (if days_left = 1 then '' day'' else '' days'')) outbox)"

definition notify_subscription_expired :: "smtp_server \<Rightarrow> mail_user list \<Rightarrow> string \<Rightarrow> mail list \<Rightarrow> bool \<times> mail list" where
  "notify_subscription_expired S users org_id outbox =
     (let recipients = org_recipient_emails users org_id in
      if recipients = [] then (False, outbox)
      else send_email S recipients ''Your Pro plan has expired'' outbox)"

section \<open>Expiry reminders\<close>

definition WARNING_THRESHOLDS :: "int list" where "WARNING_THRESHOLDS = [7, 3, 1]"
definition GUARD_TTL_SECONDS :: int where "GUARD_TTL_SECONDS = 30 * 3600"

definition SUB_STATUS_ACTIVE :: string where "SUB_STATUS_ACTIVE = ''active''"

definition days_until :: "datetime \<Rightarrow> timestamp \<Rightarrow> int" where
  "days_until period_end now = ceiling ((of_int (instant period_end - now) :: rat) / of_int usec_per_day)"

record reminder =
  rm_subscription_id :: string
  rm_org_id :: string
  rm_threshold :: int
  rm_days_left :: int
  rm_period_end :: datetime
  rm_device_count :: int

definition reminder_for :: "timestamp \<Rightarrow> subscription \<Rightarrow> reminder option" where
  "reminder_for now s =
     (case sub_period_end s of
        None \<Rightarrow> None
      | Some e \<Rightarrow>
          if (case sub_status s of None \<Rightarrow> [] | Some st \<Rightarrow> st) \<noteq> SUB_STATUS_ACTIVE then None
          else (let left = days_until e now;
                    build = (\<lambda>th. \<lparr>rm_subscription_id = sub_id s, rm_org_id = sub_org_id s, rm_threshold = th,
                       rm_days_left = left, rm_period_end = e, rm_device_count = sub_device_count s\<rparr>) in
                if left \<le> 0 then Some (build 0)
                else (let candidates = filter (\<lambda>t. left \<le> t) WARNING_THRESHOLDS in
                      if candidates = [] then None else Some (build (Min (set candidates))))))"

definition due_reminders :: "subscription list \<Rightarrow> timestamp \<Rightarrow> reminder list" where
  "due_reminders subs now = List.map_filter (reminder_for now) subs"

definition guard_key :: "reminder \<Rightarrow> string" where
  "guard_key r = ''iotaps:subexpiry:'' @ rm_subscription_id r @ '':'' @ int_str (rm_threshold r)"

text \<open>The client is \<open>None\<close> when Redis is not configured; \<open>reach\<close> says whether it answers, an exception lets
  the reminder through.\<close>

definition already_sent ::
  "('m, string, string) kv_cmds \<Rightarrow> bool \<Rightarrow> timestamp \<Rightarrow> reminder \<Rightarrow> 'm option \<Rightarrow> bool \<times> 'm option" where
  "already_sent K reach t r redis =
     (case redis of
        None \<Rightarrow> (False, None)
      | Some m \<Rightarrow>
          if \<not> reach then (False, Some m)
          else (let (was_set, m') = kv_setnx K t (guard_key r) ''1'' GUARD_TTL_SECONDS m in (\<not> was_set, Some m')))"

text \<open>\<open>raises r\<close>: the query for the recipients of \<open>r\<close> fails, which the sweep logs.  The result is the
  reminders that were attempted, whose number the code returns.\<close>

record 'm expiry_world =
  ew_redis :: "'m option"
  ew_outbox :: "mail list"

fun sweep_reminders ::
  "('m, string, string) kv_cmds \<Rightarrow> smtp_server \<Rightarrow> mail_user list \<Rightarrow> (reminder \<Rightarrow> bool) \<Rightarrow> (reminder \<Rightarrow> bool)
     \<Rightarrow> timestamp \<Rightarrow> reminder list \<Rightarrow> 'm expiry_world \<Rightarrow> reminder list \<times> 'm expiry_world" where
  "sweep_reminders K S users reach raises t [] w = ([], w)"
| "sweep_reminders K S users reach raises t (r # rs) w =
     (let (sent_before, redis) = already_sent K (reach r) t r (ew_redis w); w' = w\<lparr>ew_redis := redis\<rparr> in
      if sent_before \<or> raises r then sweep_reminders K S users reach raises t rs w'
      else (let outbox = snd (if rm_threshold r = 0
                then notify_subscription_expired S users (rm_org_id r) (ew_outbox w')
                else notify_subscription_expiring S users (rm_org_id r) (rm_days_left r) (ew_outbox w'));
                (sent, w'') = sweep_reminders K S users reach raises t rs (w'\<lparr>ew_outbox := outbox\<rparr>)
            in (r # sent, w'')))"

definition expiry_sweep ::
  "('m, string, string) kv_cmds \<Rightarrow> smtp_server \<Rightarrow> mail_user list \<Rightarrow> (reminder \<Rightarrow> bool) \<Rightarrow> (reminder \<Rightarrow> bool)
     \<Rightarrow> timestamp \<Rightarrow> subscription list \<Rightarrow> 'm expiry_world \<Rightarrow> reminder list \<times> 'm expiry_world" where
  "expiry_sweep K S users reach raises t subs w =
     sweep_reminders K S users reach raises t
       (due_reminders (filter (\<lambda>s. sub_status s = Some SUB_STATUS_ACTIVE) subs) t) w"

text \<open>The sweeps of a run, at the given times, over the same rows.\<close>

fun expiry_run ::
  "('m, string, string) kv_cmds \<Rightarrow> smtp_server \<Rightarrow> mail_user list \<Rightarrow> subscription list \<Rightarrow> timestamp list
     \<Rightarrow> 'm expiry_world \<Rightarrow> (timestamp \<times> reminder) list" where
  "expiry_run K S users subs [] w = []"
| "expiry_run K S users subs (t # ts) w =
     (let (sent, w') = expiry_sweep K S users (\<lambda>r. True) (\<lambda>r. False) t subs w
      in map (Pair t) sent @ expiry_run K S users subs ts w')"

text \<open>The times a guard lets through: each is at least the guard's life after the one before.\<close>

fun spaced :: "timestamp option \<Rightarrow> timestamp list \<Rightarrow> timestamp list" where
  "spaced last' [] = []"
| "spaced last' (t # ts) =
     (if (case last' of None \<Rightarrow> True | Some l \<Rightarrow> l + usec GUARD_TTL_SECONDS \<le> t)
      then t # spaced (Some t) ts else spaced last' ts)"

lemma least_threshold:
  "filter (\<lambda>t. d \<le> t) WARNING_THRESHOLDS \<noteq> [] \<Longrightarrow> Min (set (filter (\<lambda>t. d \<le> t) WARNING_THRESHOLDS)) \<in> {0, 1, 3, 7}"
  by (cases "d \<le> 1"; cases "d \<le> 3"; cases "d \<le> 7") (simp_all add: WARNING_THRESHOLDS_def)

lemma reminder_for_Some:
  assumes "reminder_for now s = Some r"
  shows "rm_subscription_id r = sub_id s \<and> rm_threshold r \<in> {0, 1, 3, 7} \<and> sub_status s = Some SUB_STATUS_ACTIVE"
proof -
  obtain e where e: "sub_period_end s = Some e" using assms by (auto simp: reminder_for_def split: option.splits)
  let ?c = "filter (\<lambda>t. days_until e now \<le> t) WARNING_THRESHOLDS"
  have "rm_subscription_id r = sub_id s \<and> sub_status s = Some SUB_STATUS_ACTIVE
      \<and> (rm_threshold r = 0 \<or> ?c \<noteq> [] \<and> rm_threshold r = Min (set ?c))"
    using assms e by (auto simp: reminder_for_def Let_def SUB_STATUS_ACTIVE_def split: option.splits if_splits)
  with least_threshold [of "days_until e now"] show ?thesis by auto
qed

lemma threshold_text: "th \<in> {0, 1, 3, 7 :: int} \<Longrightarrow> int_str th = [char_of (48 + nat th)]"
  by (auto simp: int_str_def nat_str.simps [of 0] nat_str.simps [of 1] nat_str.simps [of 3] nat_str.simps [of 7]
      nat_str.simps [of "Suc 0"])

lemma guard_key_eq:
  assumes "rm_threshold r \<in> {0, 1, 3, 7}" "rm_threshold r' \<in> {0, 1, 3, 7}"
  shows "guard_key r = guard_key r' \<longleftrightarrow> rm_subscription_id r = rm_subscription_id r' \<and> rm_threshold r = rm_threshold r'"
  using assms by (auto simp: guard_key_def threshold_text)

lemma due_ids: "set (map rm_subscription_id (due_reminders subs t)) \<subseteq> sub_id ` set subs"
  using reminder_for_Some by (fastforce simp: due_reminders_def List.map_filter_def)

lemma due_distinct: "distinct (map sub_id subs) \<Longrightarrow> distinct (map rm_subscription_id (due_reminders subs t))"
proof (induction subs)
  case (Cons s subs)
  then show ?case
    using due_ids [of subs t] reminder_for_Some [of t s]
    by (auto simp: due_reminders_def map_filter_simps split: option.splits)
qed (simp add: due_reminders_def map_filter_simps)

lemma due_mem: "s \<in> set subs \<Longrightarrow> reminder_for t s = Some r \<Longrightarrow> r \<in> set (due_reminders subs t)"
  by (force simp: due_reminders_def List.map_filter_def)

lemma due_thresholds: "r \<in> set (due_reminders subs t) \<Longrightarrow> rm_threshold r \<in> {0, 1, 3, 7}"
  using reminder_for_Some by (fastforce simp: due_reminders_def List.map_filter_def)

lemma due_guards_distinct:
  assumes "distinct (map sub_id subs)"
  shows "distinct (map guard_key (due_reminders subs t))"
proof -
  have "inj_on guard_key (set (due_reminders subs t))"
  proof (rule inj_onI)
    fix r r' assume rs: "r \<in> set (due_reminders subs t)" "r' \<in> set (due_reminders subs t)" "guard_key r = guard_key r'"
    then have "rm_subscription_id r = rm_subscription_id r'"
      using guard_key_eq due_thresholds by blast
    with rs due_distinct [OF assms, of t] show "r = r'" by (auto simp: distinct_map dest: inj_onD)
  qed
  moreover have "distinct (due_reminders subs t)" using due_distinct [OF assms] by (simp add: distinct_map)
  ultimately show ?thesis by (simp add: distinct_map)
qed

lemma setnx_get:
  "redis_keys K \<Longrightarrow> t \<le> t' \<Longrightarrow> kv_get K t' (snd (kv_setnx K t k v ttl m)) k' =
     (if k' = k \<and> kv_get K t m k = None then (if alive t (Some ttl) t' then Some v else None) else kv_get K t' m k')"
  by (auto simp: kv_setnx_def redis_keys.get_set split: option.split)

lemma setnx_wrote: "fst (kv_setnx K t k v ttl m) \<longleftrightarrow> kv_get K t m k = None"
  by (simp add: kv_setnx_def split: option.split)

text \<open>With Redis answering, a sweep attempts the reminders whose guard is gone and sets those guards.\<close>

lemma sweep_reminders_exact:
  assumes K: "redis_keys K" and "distinct (map guard_key rs)" "ew_redis w = Some m"
  shows "\<exists>m' out. sweep_reminders K S users (\<lambda>r. True) (\<lambda>r. False) t rs w =
      (filter (\<lambda>r. kv_get K t m (guard_key r) = None) rs, \<lparr>ew_redis = Some m', ew_outbox = out\<rparr>)
    \<and> (\<forall>t' k. t \<le> t' \<longrightarrow> kv_get K t' m' k =
        (if k \<in> guard_key ` set rs \<and> kv_get K t m k = None
         then (if alive t (Some GUARD_TTL_SECONDS) t' then Some ''1'' else None) else kv_get K t' m k))"
  using assms(2,3)
proof (induction rs arbitrary: w m)
  case Nil
  then show ?case by (cases w) auto
next
  case (Cons r rs)
  define m1 where "m1 = snd (kv_setnx K t (guard_key r) ''1'' GUARD_TTL_SECONDS m)"
  define free where "free = (kv_get K t m (guard_key r) = None)"
  have nx: "kv_setnx K t (guard_key r) ''1'' GUARD_TTL_SECONDS m = (free, m1)"
    by (simp add: m1_def free_def setnx_wrote prod_eq_iff)
  have g1: "kv_get K t' m1 k = (if k = guard_key r \<and> free
      then (if alive t (Some GUARD_TTL_SECONDS) t' then Some ''1'' else None) else kv_get K t' m k)" if "t \<le> t'" for t' k
    using setnx_get [OF K that] by (simp add: m1_def free_def)
  have sent: "already_sent K True t r (ew_redis w) = (\<not> free, Some m1)"
    using Cons.prems(2) nx by (simp add: already_sent_def)
  define w1 where "w1 = (if free
    then w\<lparr>ew_redis := Some m1, ew_outbox := snd (if rm_threshold r = 0
        then notify_subscription_expired S users (rm_org_id r) (ew_outbox w)
        else notify_subscription_expiring S users (rm_org_id r) (rm_days_left r) (ew_outbox w))\<rparr>
    else w\<lparr>ew_redis := Some m1\<rparr>)"
  have "ew_redis w1 = Some m1" by (simp add: w1_def)
  from Cons.IH [OF _ this] Cons.prems(1) obtain m' out where
    ih: "sweep_reminders K S users (\<lambda>r. True) (\<lambda>r. False) t rs w1 =
      (filter (\<lambda>r. kv_get K t m1 (guard_key r) = None) rs, \<lparr>ew_redis = Some m', ew_outbox = out\<rparr>)"
    "\<And>t' k. t \<le> t' \<Longrightarrow> kv_get K t' m' k =
        (if k \<in> guard_key ` set rs \<and> kv_get K t m1 k = None
         then (if alive t (Some GUARD_TTL_SECONDS) t' then Some ''1'' else None) else kv_get K t' m1 k)"
    by auto
  have "filter (\<lambda>r. kv_get K t m1 (guard_key r) = None) rs = filter (\<lambda>r. kv_get K t m (guard_key r) = None) rs"
  proof (rule filter_cong [OF refl])
    fix r' assume "r' \<in> set rs"
    then have "guard_key r' \<noteq> guard_key r" using Cons.prems(1) by (metis distinct.simps(2) imageI list.set_map list.simps(9))
    then show "(kv_get K t m1 (guard_key r') = None) = (kv_get K t m (guard_key r') = None)" by (simp add: g1)
  qed
  with ih(1) have "sweep_reminders K S users (\<lambda>r. True) (\<lambda>r. False) t (r # rs) w =
      (filter (\<lambda>r. kv_get K t m (guard_key r) = None) (r # rs), \<lparr>ew_redis = Some m', ew_outbox = out\<rparr>)"
    by (cases free; cases "rm_threshold r = 0") (simp_all add: sent w1_def free_def [symmetric] Let_def)
  moreover have "kv_get K t' m' k = (if k \<in> guard_key ` set (r # rs) \<and> kv_get K t m k = None
      then (if alive t (Some GUARD_TTL_SECONDS) t' then Some ''1'' else None) else kv_get K t' m k)"
    if "t \<le> t'" for t' k
    using ih(2) [OF that, of k] g1 [OF that, of k] g1 [of t k] Cons.prems(1) by (auto simp: free_def)
  ultimately show ?case by blast
qed

lemma filter_key_unique: "distinct (map f xs) \<Longrightarrow> x \<in> set xs \<Longrightarrow> filter (\<lambda>y. f y = f x) xs = [x]"
proof (induction xs)
  case (Cons a xs)
  show ?case
  proof (cases "a = x")
    case True
    with Cons.prems(1) have "filter (\<lambda>y. f y = f x) xs = []" by (auto simp: filter_empty_conv image_iff)
    with True show ?thesis by simp
  next
    case False
    with Cons.prems have "f a \<noteq> f x" by auto
    with Cons False show ?thesis by simp
  qed
qed simp

lemma run_spaced:
  assumes K: "redis_keys K" and ids: "distinct (map sub_id subs)" and s: "s \<in> set subs"
  shows "sorted_wrt (<) ts \<Longrightarrow> \<forall>t \<in> set ts. \<exists>r. reminder_for t s = Some r \<and> rm_threshold r = th \<Longrightarrow>
    \<forall>t \<in> set ts. kv_get K t m (''iotaps:subexpiry:'' @ sub_id s @ '':'' @ int_str th)
       = (case last' of None \<Rightarrow> None | Some l \<Rightarrow> if t < l + usec GUARD_TTL_SECONDS then Some ''1'' else None) \<Longrightarrow>
    map fst (filter (\<lambda>(t, r). rm_subscription_id r = sub_id s) (expiry_run K S users subs ts \<lparr>ew_redis = Some m, ew_outbox = out\<rparr>))
      = spaced last' ts"
proof (induction ts arbitrary: m out last')
  case Nil
  then show ?case by simp
next
  case (Cons t ts)
  define key where "key = ''iotaps:subexpiry:'' @ sub_id s @ '':'' @ int_str th"
  define rs where "rs = due_reminders (filter (\<lambda>s. sub_status s = Some SUB_STATUS_ACTIVE) subs) t"
  have ids': "distinct (map sub_id (filter (\<lambda>s. sub_status s = Some SUB_STATUS_ACTIVE) subs))"
    using ids by (simp add: distinct_map_filter)
  obtain r where r: "reminder_for t s = Some r" "rm_threshold r = th" using Cons.prems(2) by auto
  have rid: "rm_subscription_id r = sub_id s" and gk: "guard_key r = key"
    using reminder_for_Some [OF r(1)] r(2) by (simp_all add: guard_key_def key_def)
  have rin: "r \<in> set rs"
    unfolding rs_def using s reminder_for_Some [OF r(1)] by (intro due_mem [OF _ r(1)]) simp
  have dist: "distinct (map guard_key rs)" "distinct (map rm_subscription_id rs)"
    unfolding rs_def using due_guards_distinct [OF ids'] due_distinct [OF ids'] by simp_all
  obtain m' out' where sw: "sweep_reminders K S users (\<lambda>r. True) (\<lambda>r. False) t rs \<lparr>ew_redis = Some m, ew_outbox = out\<rparr> =
      (filter (\<lambda>r. kv_get K t m (guard_key r) = None) rs, \<lparr>ew_redis = Some m', ew_outbox = out'\<rparr>)"
    "\<And>t' k. t \<le> t' \<Longrightarrow> kv_get K t' m' k =
        (if k \<in> guard_key ` set rs \<and> kv_get K t m k = None
         then (if alive t (Some GUARD_TTL_SECONDS) t' then Some ''1'' else None) else kv_get K t' m k)"
    using sweep_reminders_exact [OF K dist(1), of "\<lparr>ew_redis = Some m, ew_outbox = out\<rparr>" m S users t] by simp blast
  define send where "send = (kv_get K t m key = None)"
  have "filter (\<lambda>r. rm_subscription_id r = sub_id s) rs = [r]"
    using filter_key_unique [OF dist(2) rin] by (simp add: rid)
  then have mine: "filter (\<lambda>r. rm_subscription_id r = sub_id s) (filter (\<lambda>r. kv_get K t m (guard_key r) = None) rs)
      = (if send then [r] else [])"
    by (subst filter_filter, subst conj_commute, subst filter_filter [symmetric]) (simp add: gk send_def)
  define last'' where "last'' = (if send then Some t else last')"
  have guard: "kv_get K t' m key = (case last' of None \<Rightarrow> None
      | Some l \<Rightarrow> if t' < l + usec GUARD_TTL_SECONDS then Some ''1'' else None)" if "t' \<in> set (t # ts)" for t'
    by (rule Cons.prems(3) [folded key_def, THEN bspec, OF that])
  have send: "send \<longleftrightarrow> (case last' of None \<Rightarrow> True | Some l \<Rightarrow> l + usec GUARD_TTL_SECONDS \<le> t)"
    using guard [of t] by (auto simp: send_def split: option.splits)
  have "kv_get K t' m' key = (case last'' of None \<Rightarrow> None
      | Some l \<Rightarrow> if t' < l + usec GUARD_TTL_SECONDS then Some ''1'' else None)" if "t' \<in> set ts" for t'
  proof -
    have "t < t'" using Cons.prems(1) that by simp
    moreover have "key \<in> guard_key ` set rs" using rin gk by blast
    ultimately show ?thesis
      using sw(2) [of t' key] guard [of t'] that by (auto simp: last''_def send_def)
  qed
  then have "map fst (filter (\<lambda>(t, r). rm_subscription_id r = sub_id s)
      (expiry_run K S users subs ts \<lparr>ew_redis = Some m', ew_outbox = out'\<rparr>)) = spaced last'' ts"
    using Cons.prems(1,2) by (intro Cons.IH) (simp_all add: key_def)
  moreover have "filter (\<lambda>(t, r). rm_subscription_id r = sub_id s) (map (Pair t) xs)
      = map (Pair t) (filter (\<lambda>r. rm_subscription_id r = sub_id s) xs)" for xs :: "reminder list"
    by (induction xs) auto
  ultimately show ?case
    using sw(1) mine send by (simp add: expiry_sweep_def last''_def flip: rs_def)
qed

text \<open>A reminder comes back: in a run of sweeps over which an active subscription stays in the same
  bucket, its reminder is sent at the first sweep and then at every sweep that is thirty hours or more
  after the last one sent, whatever the other subscriptions are.\<close>

theorem reminder_repeats:
  assumes "redis_keys K" "distinct (map sub_id subs)" "s \<in> set subs" "sorted_wrt (<) ts"
    and "\<forall>t \<in> set ts. \<exists>r. reminder_for t s = Some r \<and> rm_threshold r = th"
    and "\<forall>t \<in> set ts. kv_get K t m (''iotaps:subexpiry:'' @ sub_id s @ '':'' @ int_str th) = None"
  shows "map fst (filter (\<lambda>(t, r). rm_subscription_id r = sub_id s)
      (expiry_run K S users subs ts \<lparr>ew_redis = Some m, ew_outbox = out\<rparr>)) = spaced None ts"
  using run_spaced [OF assms(1-5), where last' = None] assms(6) by simp

definition ex_lapsed :: subscription where
  "ex_lapsed = ex_sub\<lparr>sub_period_end := Some (DateTime 1970 1 1 0)\<rparr>"

lemma ex_lapsed_reminder: "0 \<le> t \<Longrightarrow> \<exists>r. reminder_for t ex_lapsed = Some r \<and> rm_threshold r = 0"
proof -
  assume "0 \<le> t"
  have "instant (DateTime 1970 1 1 0) = 0" by code_simp
  with \<open>0 \<le> t\<close> have "days_until (DateTime 1970 1 1 0) t \<le> 0"
    by (simp add: days_until_def usec_per_day_def)
  then show ?thesis by (simp add: reminder_for_def ex_lapsed_def ex_sub_def SUB_STATUS_ACTIVE_def)
qed

text \<open>Eleven sweeps, six hours apart, after the plan has lapsed: the mail goes out three times.\<close>

definition ex_sweeps :: "timestamp list" where
  "ex_sweeps = map (\<lambda>i. i * 21600000000) [0, 1, 2, 3, 4, 5, 6, 7, 8, 9, 10]"

theorem reminder_repeats_witness:
  "\<forall>S users. map fst (filter (\<lambda>(t, r). rm_subscription_id r = sub_id ex_lapsed)
      (expiry_run ttl_maps S users [ex_lapsed] ex_sweeps \<lparr>ew_redis = Some Map.empty, ew_outbox = []\<rparr>))
    = [0, usec 108000, usec 216000]"
proof (intro allI)
  fix S users
  have 1: "distinct (map sub_id [ex_lapsed])" "ex_lapsed \<in> set [ex_lapsed]" by simp_all
  have 2: "sorted_wrt (<) ex_sweeps" by (simp add: ex_sweeps_def)
  have 3: "\<forall>t \<in> set ex_sweeps. \<exists>r. reminder_for t ex_lapsed = Some r \<and> rm_threshold r = 0"
    by (intro ballI ex_lapsed_reminder) (auto simp: ex_sweeps_def)
  have "spaced None ex_sweeps = [0, usec 108000, usec 216000]"
    by (simp add: ex_sweeps_def GUARD_TTL_SECONDS_def usec_def)
  then show "map fst (filter (\<lambda>(t, r). rm_subscription_id r = sub_id ex_lapsed)
      (expiry_run ttl_maps S users [ex_lapsed] ex_sweeps \<lparr>ew_redis = Some Map.empty, ew_outbox = []\<rparr>))
    = [0, usec 108000, usec 216000]"
    using reminder_repeats [OF tm.redis_keys_axioms 1 2 3] by simp
qed

end
