(* ===== verification/Entitlements.thy ===== *)
theory Entitlements imports Devices Subscriptions Rule_Service
begin

text \<open>
  What a paid subscription changes: the operations of billing, devices and rules as the steps of one
  platform.  The plan that limits devices and rules is a column of the organizations table, which the
  device service and the rule service read; the lemmas show that no operation writes it.
\<close>

section \<open>The platform\<close>

record platform =
  pf_billing :: billing
  pf_fleet :: fleet
  pf_rules :: rules_db

datatype platform_op = Bill_op billing_op | Fleet_op fleet_op | Rule_op rule_op

fun platform_step :: "platform_op \<Rightarrow> platform \<Rightarrow> platform" where
  "platform_step (Bill_op op) w = w\<lparr>pf_billing := billing_step op (pf_billing w)\<rparr>"
| "platform_step (Fleet_op op) w = w\<lparr>pf_fleet := fleet_step op (pf_fleet w)\<rparr>"
| "platform_step (Rule_op op) w = w\<lparr>pf_rules := rule_step op (pf_rules w)\<rparr>"

fun platform_op_ok :: "platform_op \<Rightarrow> bool" where
  "platform_op_ok (Bill_op op) = billing_op_ok op"
| "platform_op_ok (Fleet_op op) = is_uuid (pr_org_id (fleet_caller op))"
| "platform_op_ok (Rule_op op) = rule_op_ok op"

lemma fleet_orgs_kept:
  assumes "fleet_ok fl"
  shows "fl_orgs (fleet_step op fl) = fl_orgs fl"
proof -
  have ids: "distinct (map fst (core fl))" and nodes: "distinct (map mn_id (fl_nodes fl))"
    using assms by (simp_all add: fleet_ok_def nodes_ok_def)
  show ?thesis
  proof (cases op)
    case (Provision p i u t l g te du)
    then show ?thesis using provision_Inr [OF _ nodes] by (fastforce simp: commit_def split: sum.split)
  next
    case (Update p i l g m)
    then show ?thesis using update_same [OF ids] by (fastforce simp: commit_def fleet_same_def split: sum.split)
  next
    case (Delete p i)
    then show ?thesis using delete_Inr by (fastforce simp: commit_def split: sum.split)
  next
    case (Create_group p i n)
    then show ?thesis using group_same by (fastforce simp: commit_def fleet_same_def split: sum.split)
  next
    case (Assign p i u)
    then show ?thesis using assign_Inr by (fastforce simp: commit_def split: sum.split)
  next
    case (Start_simulator p i n)
    then show ?thesis using simulator_same [OF ids] by (fastforce simp: commit_def fleet_same_def split: sum.split)
  next
    case (Stop_simulator p i)
    then show ?thesis using simulator_same [OF ids] by (fastforce simp: commit_def fleet_same_def split: sum.split)
  qed
qed

lemma flush_orgs: "flush_graph p fr rid ns es db = Inr db' \<Longrightarrow> rb_orgs db' = rb_orgs db"
  by (erule flush_graph_Inr) simp

lemma update_rule_orgs:
  assumes "update_rule p fr rid name en ns es nset nsset esset db = Inr (r, db')"
  shows "rb_orgs db' = rb_orgs db"
proof -
  obtain rule2 where "(if nsset \<or> esset
               then flush_graph p fr (ru_id rule2) ns es (delete_graph (ru_id rule2) (db\<lparr>rb_rules := tbl_put ru_id rule2 (rb_rules db)\<rparr>))
               else Inr (db\<lparr>rb_rules := tbl_put ru_id rule2 (rb_rules db)\<rparr>)) = Inr db'"
    using assms unfolding update_rule_def Let_def bind_res_eq_Inr by blast
  then have "flush_graph p fr (ru_id rule2) ns es (delete_graph (ru_id rule2) (db\<lparr>rb_rules := tbl_put ru_id rule2 (rb_rules db)\<rparr>))
      = Inr db' \<or> db' = db\<lparr>rb_rules := tbl_put ru_id rule2 (rb_rules db)\<rparr>"
    by (cases "nsset \<or> esset") simp_all
  then show ?thesis by (elim disjE) (drule flush_orgs, simp_all add: delete_graph_def)
qed

lemma commit_keeps: "(\<And>r s'. f s = Inr (r, s') \<Longrightarrow> g s' = g s) \<Longrightarrow> g (commit f s) = g s"
  by (cases "f s") (auto simp: commit_def)

lemma rule_orgs_kept: "rb_orgs (rule_step op db) = rb_orgs db"
proof (cases op)
  case (Op_create p fr now name ns es enabled tid)
  have "rb_orgs db' = rb_orgs db" if run: "create_rule p fr now name ns es enabled tid db = Inr (r, db')" for r db'
  proof -
    obtain rules' where "flush_graph p fr (fr_rule fr) ns es (db\<lparr>rb_rules := rules'\<rparr>) = Inr db'"
      using run unfolding create_rule_def Let_def bind_res_eq_Inr
      by (elim exE conjE) (simp only: prod.inject sum.inject)
    from flush_orgs [OF this] show ?thesis by simp
  qed
  then show ?thesis unfolding Op_create rule_step.simps by (rule commit_keeps)
next
  case (Op_update p fr rid name enabled ns es name_set nodes_set edges_set)
  then show ?thesis by (simp only: rule_step.simps) (rule commit_keeps, erule update_rule_orgs)
next
  case (Op_delete p rid)
  then show ?thesis
    by (auto simp: commit_def delete_rule_def delete_graph_def bind_res_eq_Inr Let_def split: sum.split)
qed

lemma count_devices_core: "count_devices fl org = length (filter (\<lambda>(i, o', k). o' = org) (core fl))"
  by (simp add: count_devices_def core_def filter_map o_def)

definition platform_ok :: "platform \<Rightarrow> bool" where
  "platform_ok w \<longleftrightarrow> billing_ok (pf_billing w) \<and> fleet_ok (pf_fleet w) \<and> rules_ok (pf_rules w)"

text \<open>The plan as the two services read it.\<close>

definition platform_plan :: "uuid \<Rightarrow> platform \<Rightarrow> string option \<times> string option" where
  "platform_plan org w = (fleet_org_plan (pf_fleet w) org, org_plan (pf_rules w) org)"

definition pays_for :: "uuid \<Rightarrow> datetime \<Rightarrow> platform \<Rightarrow> bool" where
  "pays_for org now w = (\<exists>s \<in> set (b_subs (pf_billing w)). sub_org_id s = org \<and> sub_plan s = PRO_PLAN
     \<and> sub_status s = Some ''active'' \<and> (case sub_period_end s of None \<Rightarrow> False | Some e \<Rightarrow> now < e))"

lemma platform_step_ok: "platform_ok w \<Longrightarrow> platform_op_ok op \<Longrightarrow> platform_ok (platform_step op w)"
  by (cases op) (simp_all add: platform_ok_def billing_step_ok fleet_step_ok rule_step_ok)

interpretation platform: guarded_system platform_step platform_op_ok platform_ok
  by unfold_locales (rule platform_step_ok)

lemma platform_plan_step: "platform_ok w \<Longrightarrow> platform_plan org (platform_step op w) = platform_plan org w"
  by (cases op)
    (simp_all add: platform_plan_def platform_ok_def fleet_org_plan_def org_plan_def fleet_orgs_kept rule_orgs_kept)

lemma platform_plan_run:
  "platform_ok w \<Longrightarrow> list_all platform_op_ok ops \<Longrightarrow> platform_plan org (run_ops platform_step ops w) = platform_plan org w"
  by (induction ops arbitrary: w) (simp_all add: platform_step_ok platform_plan_step)


section \<open>A company that pays\<close>

definition ex_paying :: platform where
  "ex_paying = \<lparr>pf_billing = \<lparr>b_coupons = [], b_subs = [ex_sub\<lparr>sub_org_id := ex_o1\<rparr>], b_pays = [ex_pay PAY_FAILED\<lparr>pay_org_id := ex_o1\<rparr>],
     b_devices = [], b_users = [], b_notes = []\<rparr>, pf_fleet = ex_fleet, pf_rules = ex_rules\<rparr>"

definition ex_payment :: platform_op where
  "ex_payment = Bill_op (Op_event (DateTime 2026 2 10 0) (DateTime 2026 2 10 0) (ex_event ''payment.captured''))"

definition ex_provisions :: "platform_op list" where
  "ex_provisions = [Fleet_op (Provision ex_manager ''d1'' ''DEV-1'' ''dT_a'' None None None None),
     Fleet_op (Provision ex_manager ''d2'' ''DEV-2'' ''dT_b'' None None None None),
     Fleet_op (Provision ex_manager ''d3'' ''DEV-3'' ''dT_c'' None None None None)]"

lemma ex_pays: "pays_for ex_o1 (DateTime 2026 2 28 0) (platform_step ex_payment ex_paying)"
  by code_simp

lemma ex_paying_ok: "platform_ok ex_paying"
  using ex_fleet_ok ex_valid
  by (auto simp: platform_ok_def ex_paying_def billing_ok_def pay_ok_def ex_pay_def sub_ok_def ex_sub_def
      less_datetime_def less_eq_datetime_def rules_ok_def graphs_ok_def ex_rules_def within_rule_limit_def
      count_active_rules_def split: option.split)

lemma fleet_ops_keep_billing:
  "list_all (\<lambda>op. case op of Fleet_op f \<Rightarrow> True | _ \<Rightarrow> False) ops \<Longrightarrow> pf_billing (run_ops platform_step ops w) = pf_billing w"
  by (induction ops arbitrary: w) (auto split: platform_op.splits)


end
