(* ===== verification/Rendering.thy ===== *)
theory Rendering imports Prelude "HOL-Library.List_Lexorder" "HOL-Library.Char_ord"
begin

text \<open>
  Rendering report rows as CSV and as PDF (the pure helpers of \<open>app/services/report_service.py\<close>), with
  the part of Python's \<open>csv.writer\<close> they use.  \<open>isoformat\<close> is \<open>datetime.isoformat\<close> and \<open>repr\<close> the text of a JSON
  value that \<open>str\<close> does not fix.  The lemmas show that the CSV reads back, that every entry of the PDF's
  cross-reference table points at its object, and which rows lie on the page.
\<close>

section \<open>Rows\<close>

record report_row =
  rw_device_id :: string
  rw_ts :: timestamp
  rw_data :: "(string \<times> json) list"

definition sensor_keys :: "report_row list \<Rightarrow> string list" where
  "sensor_keys rows = sort (remdups (concat (map (map fst \<circ> rw_data) rows)))"

definition cell :: "(json \<Rightarrow> string) \<Rightarrow> json \<Rightarrow> string" where
  "cell repr v = (if v = JNull then [] else py_str repr v)"

definition row_cells :: "(json \<Rightarrow> string) \<Rightarrow> (timestamp \<Rightarrow> string) \<Rightarrow> string list \<Rightarrow> report_row \<Rightarrow> string list" where
  "row_cells repr isoformat keys row =
     rw_device_id row # isoformat (rw_ts row) # map (\<lambda>k. cell repr (dict_get (rw_data row) k)) keys"

section \<open>CSV\<close>

abbreviation comma :: char where "comma \<equiv> CHR '',''"
abbreviation quote :: char where "quote \<equiv> CHR 0x22"
abbreviation LF :: char where "LF \<equiv> CHR 0x0A"
abbreviation CR :: char where "CR \<equiv> CHR 0x0D"

text \<open>\<open>csv.writer\<close> with minimal quoting.  Whether line breaks that do not end the row ask for quotes
  differs between versions of Python: \<open>extra\<close> is the set of characters quoted besides the comma, the
  quote and the characters of the line end.\<close>

definition csv_field :: "char list \<Rightarrow> string \<Rightarrow> string \<Rightarrow> string" where
  "csv_field extra lineend s =
     (if list_ex (\<lambda>c. c = comma \<or> c = quote \<or> c \<in> set lineend \<or> c \<in> set extra) s
      then [quote] @ concat (map (\<lambda>c. if c = quote then [quote, quote] else [c]) s) @ [quote]
      else s)"

definition csv_writerow :: "char list \<Rightarrow> string \<Rightarrow> string list \<Rightarrow> string" where
  "csv_writerow extra lineend fs =
     (if fs = [[]] then [quote, quote] else join_with [comma] (map (csv_field extra lineend) fs)) @ lineend"

definition generate_csv ::
  "char list \<Rightarrow> (json \<Rightarrow> string) \<Rightarrow> (timestamp \<Rightarrow> string) \<Rightarrow> report_row list \<Rightarrow> string" where
  "generate_csv extra repr isoformat rows =
     (let keys = sensor_keys rows in
      csv_writerow extra [LF] (''device_id'' # ''ts'' # keys)
      @ concat (map (\<lambda>row. csv_writerow extra [LF] (row_cells repr isoformat keys row)) rows))"

section \<open>PDF\<close>

definition escape_pdf_text :: "string \<Rightarrow> string" where
  "escape_pdf_text t = concat (map (\<lambda>c.
     if c = CHR 0x5C \<or> c = CHR ''('' \<or> c = CHR '')'' then [CHR 0x5C, c]
     else if c = CR \<or> c = LF then '' '' else [c]) t)"

definition report_lines ::
  "(json \<Rightarrow> string) \<Rightarrow> (timestamp \<Rightarrow> string) \<Rightarrow> timestamp \<Rightarrow> report_row list \<Rightarrow> string list" where
  "report_lines repr isoformat now rows =
     (let keys = sensor_keys rows in
      [''IoTAPS Telemetry Report'', ''Generated: '' @ isoformat now, [],
       (if keys \<noteq> [] then ''device_id | ts | '' @ join_with '' | '' keys else ''device_id | ts'')]
      @ map (\<lambda>row.
          let cells = join_with '' | '' (map (\<lambda>k. cell repr (dict_get (rw_data row) k)) keys);
              line = rw_device_id row @ '' | '' @ isoformat (rw_ts row)
          in if cells \<noteq> [] then line @ '' | '' @ cells else line) rows
      @ (if rows = [] then [''(no telemetry for the requested range)''] else []))"

definition leading :: nat where "leading = 14"

definition content_ops :: "string list \<Rightarrow> string list" where
  "content_ops lines =
     [''BT'', ''/F1 10 Tf'', nat_str leading @ '' TL'', ''50 760 Td'']
     @ concat (map (\<lambda>(index, line). (if index > 0 then [''T*''] else []) @ [''('' @ escape_pdf_text line @ '') Tj''])
         (enumerate 0 lines))
     @ [''ET'']"

definition content_stream :: "string list \<Rightarrow> string" where
  "content_stream lines = join_with [LF] (content_ops lines)"

definition pdf_objects :: "string \<Rightarrow> string list" where
  "pdf_objects stream =
     [''<< /Type /Catalog /Pages 2 0 R >>'',
      ''<< /Type /Pages /Kids [3 0 R] /Count 1 >>'',
      ''<< /Type /Page /Parent 2 0 R /MediaBox [0 0 612 792] /Resources << /Font << /F1 4 0 R >> >> /Contents 5 0 R >>'',
      ''<< /Type /Font /Subtype /Type1 /BaseFont /Helvetica >>'',
      ''<< /Length '' @ nat_str (length stream) @ '' >>'' @ [LF] @ ''stream'' @ [LF] @ stream @ [LF] @ ''endstream'']"

fun add_objects :: "nat \<Rightarrow> string list \<Rightarrow> string \<times> nat list \<Rightarrow> string \<times> nat list" where
  "add_objects number [] acc = acc"
| "add_objects number (body # bodies) (pdf, offsets) =
     add_objects (Suc number) bodies
       (pdf @ nat_str number @ '' 0 obj'' @ [LF] @ body @ [LF] @ ''endobj'' @ [LF], offsets @ [length pdf])"

definition pad10 :: "nat \<Rightarrow> string" where
  "pad10 n = (let s = nat_str n in replicate (10 - length s) (CHR ''0'') @ s)"

definition xref_entry :: "nat \<Rightarrow> string" where
  "xref_entry offset = pad10 offset @ '' 00000 n '' @ [LF]"

definition generate_pdf ::
  "(json \<Rightarrow> string) \<Rightarrow> (timestamp \<Rightarrow> string) \<Rightarrow> timestamp \<Rightarrow> report_row list \<Rightarrow> string" where
  "generate_pdf repr isoformat now rows =
     (let objects = pdf_objects (content_stream (report_lines repr isoformat now rows));
          (pdf, offsets) = add_objects 1 objects (''%PDF-1.4'' @ [LF], []);
          xref_pos = length pdf; cnt = length objects + 1 in
      pdf @ ''xref'' @ [LF] @ ''0 '' @ nat_str cnt @ [LF] @ ''0000000000 65535 f '' @ [LF]
      @ concat (map xref_entry offsets)
      @ ''trailer'' @ [LF] @ ''<< /Size '' @ nat_str cnt @ '' /Root 1 0 R >>'' @ [LF]
      @ ''startxref'' @ [LF] @ nat_str xref_pos @ [LF] @ ''%%EOF'')"

definition FORMAT_CSV :: string where "FORMAT_CSV = ''csv''"
definition FORMAT_PDF :: string where "FORMAT_PDF = ''pdf''"

definition invalid_report_format :: app_error where
  "invalid_report_format = ValidationError ''invalid_report_format''"

definition render ::
  "char list \<Rightarrow> (json \<Rightarrow> string) \<Rightarrow> (timestamp \<Rightarrow> string) \<Rightarrow> timestamp \<Rightarrow> report_row list \<Rightarrow> string \<Rightarrow> string result" where
  "render extra repr isoformat now rows fmt =
     (if fmt = FORMAT_CSV then Inr (generate_csv extra repr isoformat rows)
      else if fmt = FORMAT_PDF then Inr (generate_pdf repr isoformat now rows)
      else fail invalid_report_format)"

section \<open>Reading CSV back\<close>

datatype csv_mode = Field_start | In_field | In_quotes | Quote_seen

record csv_reader =
  rd_mode :: csv_mode
  rd_field :: string
  rd_row :: "string list"
  rd_rows :: "string list list"

text \<open>A reader of rows that end with a line feed.\<close>

fun csv_char :: "char \<Rightarrow> csv_reader \<Rightarrow> csv_reader" where
  "csv_char c r =
     (if rd_mode r = In_quotes
      then (if c = quote then r\<lparr>rd_mode := Quote_seen\<rparr> else r\<lparr>rd_field := rd_field r @ [c]\<rparr>)
      else if c = comma then r\<lparr>rd_mode := Field_start, rd_field := [], rd_row := rd_row r @ [rd_field r]\<rparr>
      else if c = LF then r\<lparr>rd_mode := Field_start, rd_field := [], rd_row := [], rd_rows := rd_rows r @ [rd_row r @ [rd_field r]]\<rparr>
      else if c = quote \<and> rd_mode r = Field_start then r\<lparr>rd_mode := In_quotes\<rparr>
      else if c = quote \<and> rd_mode r = Quote_seen then r\<lparr>rd_mode := In_quotes, rd_field := rd_field r @ [quote]\<rparr>
      else r\<lparr>rd_mode := In_field, rd_field := rd_field r @ [c]\<rparr>)"

declare csv_char.simps [simp del]

lemma csv_char_step [simp]:
  "csv_char c \<lparr>rd_mode = m, rd_field = f, rd_row = row, rd_rows = rows\<rparr> =
     (if m = In_quotes
      then \<lparr>rd_mode = (if c = quote then Quote_seen else In_quotes), rd_field = (if c = quote then f else f @ [c]),
             rd_row = row, rd_rows = rows\<rparr>
      else if c = comma then \<lparr>rd_mode = Field_start, rd_field = [], rd_row = row @ [f], rd_rows = rows\<rparr>
      else if c = LF then \<lparr>rd_mode = Field_start, rd_field = [], rd_row = [], rd_rows = rows @ [row @ [f]]\<rparr>
      else if c = quote \<and> m = Field_start then \<lparr>rd_mode = In_quotes, rd_field = f, rd_row = row, rd_rows = rows\<rparr>
      else if c = quote \<and> m = Quote_seen then \<lparr>rd_mode = In_quotes, rd_field = f @ [quote], rd_row = row, rd_rows = rows\<rparr>
      else \<lparr>rd_mode = In_field, rd_field = f @ [c], rd_row = row, rd_rows = rows\<rparr>)"
  by (simp add: csv_char.simps)

definition read_csv :: "string \<Rightarrow> string list list" where
  "read_csv s = rd_rows (fold csv_char s \<lparr>rd_mode = Field_start, rd_field = [], rd_row = [], rd_rows = []\<rparr>)"

abbreviation at_start :: "string list \<Rightarrow> string list list \<Rightarrow> csv_reader" where
  "at_start row rows \<equiv> \<lparr>rd_mode = Field_start, rd_field = [], rd_row = row, rd_rows = rows\<rparr>"

lemma read_plain:
  "list_all (\<lambda>c. c \<noteq> comma \<and> c \<noteq> quote \<and> c \<noteq> LF) s \<Longrightarrow> m \<in> {Field_start, In_field} \<Longrightarrow>
   fold csv_char s \<lparr>rd_mode = m, rd_field = f, rd_row = row, rd_rows = rows\<rparr>
     = \<lparr>rd_mode = (if s = [] then m else In_field), rd_field = f @ s, rd_row = row, rd_rows = rows\<rparr>"
  by (induction s arbitrary: m f) auto

lemma read_quoted:
  "fold csv_char (concat (map (\<lambda>c. if c = quote then [quote, quote] else [c]) s))
     \<lparr>rd_mode = In_quotes, rd_field = f, rd_row = row, rd_rows = rows\<rparr>
     = \<lparr>rd_mode = In_quotes, rd_field = f @ s, rd_row = row, rd_rows = rows\<rparr>"
  by (induction s arbitrary: f) auto

lemma read_field:
  "\<exists>m. m \<noteq> In_quotes \<and> fold csv_char (csv_field extra [LF] s) (at_start row rows)
     = \<lparr>rd_mode = m, rd_field = s, rd_row = row, rd_rows = rows\<rparr>"
proof (cases "list_ex (\<lambda>c. c = comma \<or> c = quote \<or> c \<in> set [LF] \<or> c \<in> set extra) s")
  case True
  then show ?thesis by (simp add: csv_field_def read_quoted)
next
  case False
  then have "list_all (\<lambda>c. c \<noteq> comma \<and> c \<noteq> quote \<and> c \<noteq> LF) s" by (auto simp: list_all_iff list_ex_iff)
  with False show ?thesis by (simp add: csv_field_def read_plain)
qed

lemma read_fields:
  "fs \<noteq> [] \<Longrightarrow> fold csv_char (join_with [comma] (map (csv_field extra [LF]) fs) @ [LF]) (at_start row rows)
     = at_start [] (rows @ [row @ fs])"
proof (induction fs arbitrary: row rule: induct_list012)
  case (2 f)
  obtain m where m: "m \<noteq> In_quotes" "fold csv_char (csv_field extra [LF] f) (at_start row rows)
     = \<lparr>rd_mode = m, rd_field = f, rd_row = row, rd_rows = rows\<rparr>" using read_field by blast
  then show ?case by simp
next
  case (3 f g fs)
  obtain m where m: "m \<noteq> In_quotes" "fold csv_char (csv_field extra [LF] f) (at_start row rows)
     = \<lparr>rd_mode = m, rd_field = f, rd_row = row, rd_rows = rows\<rparr>" using read_field by blast
  then have "fold csv_char (csv_field extra [LF] f @ [comma]) (at_start row rows) = at_start (row @ [f]) rows" by simp
  with 3(2) [of "row @ [f]"] show ?case by simp
qed simp

lemma read_row: "fs \<noteq> [] \<Longrightarrow> fold csv_char (csv_writerow extra [LF] fs) (at_start [] rows) = at_start [] (rows @ [fs])"
  using read_fields [of fs extra "[]" rows] by (auto simp: csv_writerow_def)

lemma read_rows:
  "\<forall>fs \<in> set fss. fs \<noteq> [] \<Longrightarrow>
   fold csv_char (concat (map (csv_writerow extra [LF]) fss)) (at_start [] rows) = at_start [] (rows @ fss)"
  by (induction fss arbitrary: rows) (simp_all add: read_row)

section \<open>Reading the PDF\<close>

definition dec_value :: "string \<Rightarrow> nat" where
  "dec_value s = foldl (\<lambda>n c. 10 * n + (of_char c - 48)) 0 s"

lemma dec_value_snoc: "dec_value (s @ [c]) = 10 * dec_value s + (of_char c - 48)"
  by (simp add: dec_value_def)

lemma dec_value_nat_str: "dec_value (nat_str n) = n"
proof (induction n rule: nat_str.induct)
  case (1 n)
  then show ?case
    by (subst nat_str.simps) (auto simp: dec_value_snoc dec_value_def)
qed

lemma length_nat_str: "n < 10 ^ k \<Longrightarrow> 0 < k \<Longrightarrow> length (nat_str n) \<le> k"
proof (induction n arbitrary: k rule: nat_str.induct)
  case (1 n)
  show ?case
  proof (cases "n < 10")
    case True
    with 1(3) show ?thesis by (subst nat_str.simps) simp
  next
    case False
    with 1(2,3) obtain j where j: "k = Suc j" "0 < j" by (cases k) (auto simp: not_less, metis gr0I power_0 mult_1_right not_le)
    with 1(2) have "n div 10 < 10 ^ j" by (simp add: less_mult_imp_div_less mult.commute)
    from 1(1) [OF False this j(2)] False j(1) show ?thesis by (subst nat_str.simps) simp
  qed
qed

lemma dec_value_zeros: "dec_value (replicate k (CHR ''0'') @ s) = dec_value s"
  by (induction k) (simp_all add: dec_value_def)

lemma pad10: "n < 10 ^ 10 \<Longrightarrow> length (pad10 n) = 10 \<and> dec_value (pad10 n) = n"
  using length_nat_str [of n 10] by (simp add: pad10_def Let_def dec_value_zeros dec_value_nat_str)

lemma entry_length: "n < 10 ^ 10 \<Longrightarrow> length (xref_entry n) = 20"
  using pad10 by (simp add: xref_entry_def)

lemma entries_drop:
  "\<forall>n \<in> set ns. n < 10 ^ 10 \<Longrightarrow> i < length ns \<Longrightarrow> \<exists>rest. drop (20 * i) (concat (map xref_entry ns)) = xref_entry (ns ! i) @ rest"
proof (induction ns arbitrary: i)
  case (Cons n ns)
  show ?case
  proof (cases i)
    case (Suc j)
    with Cons obtain rest where "drop (20 * j) (concat (map xref_entry ns)) = xref_entry (ns ! j) @ rest" by force
    with Suc Cons.prems(1) entry_length [of n] show ?thesis by (simp add: algebra_simps flip: drop_drop)
  qed simp
qed simp

definition object_text :: "nat \<Rightarrow> string \<Rightarrow> string" where
  "object_text number body = nat_str number @ '' 0 obj'' @ [LF] @ body @ [LF] @ ''endobj'' @ [LF]"

lemma add_objects_exact:
  "add_objects n bodies (pdf, offs) = (pdf', offs') \<Longrightarrow>
   \<exists>tail new. pdf' = pdf @ tail \<and> offs' = offs @ new \<and> length new = length bodies
     \<and> (\<forall>i < length bodies. new ! i \<le> length pdf' \<and> starts_with (drop (new ! i) pdf') (object_text (n + i) (bodies ! i)))"
proof (induction bodies arbitrary: n pdf offs)
  case (Cons b bs)
  let ?pdf = "pdf @ object_text n b"
  have "add_objects (Suc n) bs (?pdf, offs @ [length pdf]) = (pdf', offs')"
    using Cons.prems by (simp add: object_text_def)
  from Cons.IH [OF this] obtain tail new where ih: "pdf' = ?pdf @ tail" "offs' = (offs @ [length pdf]) @ new"
    "length new = length bs"
    "\<forall>i < length bs. new ! i \<le> length pdf' \<and> starts_with (drop (new ! i) pdf') (object_text (Suc n + i) (bs ! i))"
    by blast
  have "(length pdf # new) ! i \<le> length pdf' \<and> starts_with (drop ((length pdf # new) ! i) pdf') (object_text (n + i) ((b # bs) ! i))"
    if "i < length (b # bs)" for i
    using that ih(1,4) by (cases i) auto
  with ih show ?case
    by (intro exI [of _ "object_text n b @ tail"] exI [of _ "length pdf # new"]) auto
qed simp

text \<open>The object a reader finds for the number \<open>k\<close>: the entries have twenty bytes each, after the nine bytes
  of the table's head.\<close>

definition pdf_lookup :: "string \<Rightarrow> nat \<Rightarrow> nat \<Rightarrow> string" where
  "pdf_lookup pdf xref_pos k = drop (dec_value (take 10 (drop (xref_pos + 9 + 20 * k) pdf))) pdf"

lemma starts_with_append_right: "starts_with s p \<Longrightarrow> starts_with (s @ t) p"
  by (auto simp: starts_with_iff)

lemma lookup_entry:
  assumes "pdf = body @ ''xref'' @ [LF] @ ''0 6'' @ [LF] @ ''0000000000 65535 f '' @ [LF] @ concat (map xref_entry offs) @ rest"
    and "\<forall>n \<in> set offs. n < 10 ^ 10" "i < length offs" "offs ! i \<le> length body" "starts_with (drop (offs ! i) body) p"
  shows "starts_with (pdf_lookup pdf (length body) (Suc i)) p"
proof -
  obtain tl where "drop (20 * i) (concat (map xref_entry offs)) = xref_entry (offs ! i) @ tl"
    using entries_drop [OF assms(2,3)] by blast
  moreover have "drop (length body + 9 + 20 * Suc i) pdf = drop (20 * i) (concat (map xref_entry offs)) @ drop (20 * i - length (concat (map xref_entry offs))) rest"
    by (simp add: assms(1) numeral_eq_Suc)
  ultimately have "take 10 (drop (length body + 9 + 20 * Suc i) pdf) = pad10 (offs ! i)"
    using pad10 [of "offs ! i"] assms(2,3) by (simp add: xref_entry_def)
  then have "pdf_lookup pdf (length body) (Suc i) = drop (offs ! i) pdf"
    using pad10 [of "offs ! i"] assms(2,3) by (simp add: pdf_lookup_def)
  then show ?thesis using assms(4,5) by (simp add: assms(1) starts_with_append_right)
qed

text \<open>A literal string after its opening parenthesis.  An unescaped parenthesis inside ends it or is
  refused.\<close>

fun read_literal :: "string \<Rightarrow> (string \<times> string) option" where
  "read_literal [] = None"
| "read_literal (c # s) =
     (if c = CHR 0x5C
      then (case s of [] \<Rightarrow> None | d # s' \<Rightarrow> map_option (\<lambda>(t, rest). (d # t, rest)) (read_literal s'))
      else if c = CHR '')'' then Some ([], s)
      else if c = CHR ''('' then None
      else map_option (\<lambda>(t, rest). (c # t, rest)) (read_literal s))"

definition blank_breaks :: "string \<Rightarrow> string" where
  "blank_breaks = map (\<lambda>c. if c = CR \<or> c = LF then CHR '' '' else c)"

lemma escape_Cons:
  "escape_pdf_text (c # t) = (if c = CHR 0x5C \<or> c = CHR ''('' \<or> c = CHR '')'' then [CHR 0x5C, c]
     else if c = CR \<or> c = LF then '' '' else [c]) @ escape_pdf_text t"
  by (simp add: escape_pdf_text_def)

lemma read_escaped: "read_literal (escape_pdf_text t @ CHR '')'' # rest) = Some (blank_breaks t, rest)"
proof (induction t)
  case Nil
  show ?case by (simp add: escape_pdf_text_def blank_breaks_def)
next
  case (Cons c t)
  then show ?case by (simp add: escape_Cons blank_breaks_def)
qed

text \<open>What a viewer shows: the baseline of each text.  The offsets of the three operators are those the
  content uses.\<close>

fun draw :: "string list \<Rightarrow> int \<Rightarrow> (int \<times> string) list" where
  "draw [] y = []"
| "draw (op # ops) y =
     (if op = ''50 760 Td'' then draw ops (y + 760)
      else if op = ''T*'' then draw ops (y - 14)
      else (case op of
          [] \<Rightarrow> draw ops y
        | c # s \<Rightarrow> if c = CHR ''('' then (case read_literal s of
              Some (t, rest) \<Rightarrow> (if rest = '' Tj'' then (y, t) # draw ops y else draw ops y)
            | None \<Rightarrow> draw ops y)
          else draw ops y))"

lemma draw_text: "draw ((CHR ''('' # escape_pdf_text line @ '') Tj'') # ops) y = (y, blank_breaks line) # draw ops y"
  using read_escaped [of line "'' Tj''"] by simp

lemma draw_newline: "draw (''T*'' # ops) y = draw ops (y - 14)"
  by simp

lemma draw_end: "draw [''ET''] y = []"
  by simp

lemma draw_lines:
  "draw (concat (map (\<lambda>(index, line). (if index > 0 then [''T*''] else []) @ [''('' @ escape_pdf_text line @ '') Tj''])
      (enumerate n lines)) @ [''ET'']) (if n = 0 then 760 else 774 - 14 * int n)
     = map (\<lambda>(i, line). (760 - 14 * int i, blank_breaks line)) (enumerate n lines)"
proof (induction lines arbitrary: n)
  case Nil
  show ?case by (simp add: draw_end del: draw.simps)
next
  case (Cons l lines)
  from Cons.IH [of "Suc n"] show ?case
    by (cases "n = 0") (simp_all add: draw_text draw_newline del: draw.simps)
qed

lemma escape_no_break: "LF \<notin> set (escape_pdf_text t)"
  by (induction t) (auto simp: escape_Cons escape_pdf_text_def)

lemma stream_ops: "split_on LF (content_stream lines) = content_ops lines"
  unfolding content_stream_def
proof (rule split_join)
  show "content_ops lines \<noteq> []" by (simp add: content_ops_def)
  have "LF \<notin> set (nat_str leading @ '' TL'')" by code_simp
  then show "\<forall>p \<in> set (content_ops lines). LF \<notin> set p"
    using escape_no_break by (auto simp: content_ops_def)
qed

section \<open>Properties\<close>

text \<open>C4. A CSV report reads back: whatever texts the device ids, the sensor names and the values are,
  with commas, quotes or line breaks in them or not, a reader gets the header with the sensor names
  in order, each once, and one row per sample with its device, its time and its values, blank where
  the sample has none.\<close>

theorem csv_report_roundtrip:
  "read_csv (generate_csv extra repr isoformat rows)
     = (''device_id'' # ''ts'' # sensor_keys rows) # map (row_cells repr isoformat (sensor_keys rows)) rows
   \<and> sorted (sensor_keys rows) \<and> distinct (sensor_keys rows)
   \<and> set (sensor_keys rows) = (\<Union>row \<in> set rows. fst ` set (rw_data row))"
proof -
  let ?rows = "(''device_id'' # ''ts'' # sensor_keys rows) # map (row_cells repr isoformat (sensor_keys rows)) rows"
  have "generate_csv extra repr isoformat rows = concat (map (csv_writerow extra [LF]) ?rows)"
    by (simp add: generate_csv_def Let_def comp_def)
  moreover have "\<forall>fs \<in> set ?rows. fs \<noteq> []" by (auto simp: row_cells_def)
  ultimately show ?thesis
    using read_rows [of ?rows extra "[]"] by (auto simp: read_csv_def sensor_keys_def)
qed

text \<open>The PDF is well formed for random access: the position after "startxref" is that of the table, and
  every entry of the table leads to the object with its number and the body written for it, as long
  as the file has less than ten billion bytes.\<close>

theorem pdf_xref_exact:
  assumes "length (generate_pdf repr isoformat now rows) < 10 ^ 10"
  shows "\<exists>xref_pos start. generate_pdf repr isoformat now rows
        = start @ ''startxref'' @ [LF] @ nat_str xref_pos @ [LF] @ ''%%EOF''
      \<and> starts_with (drop xref_pos (generate_pdf repr isoformat now rows)) (''xref'' @ [LF] @ ''0 6'' @ [LF])
      \<and> (\<forall>k < 5. starts_with (pdf_lookup (generate_pdf repr isoformat now rows) xref_pos (Suc k))
            (object_text (Suc k) (pdf_objects (content_stream (report_lines repr isoformat now rows)) ! k)))"
proof -
  let ?objects = "pdf_objects (content_stream (report_lines repr isoformat now rows))"
  obtain body offs where run: "add_objects 1 ?objects (''%PDF-1.4'' @ [LF], []) = (body, offs)" by fastforce
  define rest where "rest = ''trailer'' @ [LF] @ ''<< /Size 6 /Root 1 0 R >>'' @ [LF]
    @ ''startxref'' @ [LF] @ nat_str (length body) @ [LF] @ ''%%EOF''"
  have six: "nat_str (length ?objects + 1) = ''6''"
  proof -
    have "nat_str 6 = ''6''" by code_simp
    then show ?thesis by (simp add: pdf_objects_def eval_nat_numeral)
  qed
  have pdf: "generate_pdf repr isoformat now rows = body @ ''xref'' @ [LF] @ ''0 6'' @ [LF] @ ''0000000000 65535 f '' @ [LF]
      @ concat (map xref_entry offs) @ rest"
    using run six by (simp add: generate_pdf_def Let_def rest_def)
  have five: "length ?objects = 5" by (simp add: pdf_objects_def)
  have offs: "length offs = 5" "\<And>k. k < 5 \<Longrightarrow> offs ! k \<le> length body"
      "\<And>k. k < 5 \<Longrightarrow> starts_with (drop (offs ! k) body) (object_text (Suc k) (?objects ! k))"
    using add_objects_exact [OF run] five by auto
  have small: "\<forall>n \<in> set offs. n < 10 ^ 10"
  proof
    fix n assume "n \<in> set offs"
    then obtain k where "k < 5" "n = offs ! k" using offs(1) by (auto simp: in_set_conv_nth)
    with offs(2) have "n \<le> length body" by blast
    also have "\<dots> \<le> length (generate_pdf repr isoformat now rows)" by (simp add: pdf)
    finally show "n < 10 ^ 10" using assms by simp
  qed
  have "starts_with (pdf_lookup (generate_pdf repr isoformat now rows) (length body) (Suc k)) (object_text (Suc k) (?objects ! k))"
    if "k < 5" for k
    using lookup_entry [OF pdf small _ offs(2) [OF that] offs(3) [OF that]] that offs(1) by simp
  moreover have "\<exists>start. generate_pdf repr isoformat now rows = start @ ''startxref'' @ [LF] @ nat_str (length body) @ [LF] @ ''%%EOF''"
    by (intro exI [of _ "body @ ''xref'' @ [LF] @ ''0 6'' @ [LF] @ ''0000000000 65535 f '' @ [LF]
      @ concat (map xref_entry offs) @ ''trailer'' @ [LF] @ ''<< /Size 6 /Root 1 0 R >>'' @ [LF]"]) (simp add: pdf rest_def)
  moreover have "starts_with (drop (length body) (generate_pdf repr isoformat now rows)) (''xref'' @ [LF] @ ''0 6'' @ [LF])"
    by (simp add: pdf)
  ultimately show ?thesis by blast
qed


text \<open>The report without samples.\<close>

theorem pdf_xref_exact_witness:
  "\<exists>xref_pos. starts_with (pdf_lookup (generate_pdf (\<lambda>v. []) (\<lambda>t. ''t'') 0 []) xref_pos 2)
     (object_text 2 ''<< /Type /Pages /Kids [3 0 R] /Count 1 >>'')"
proof -
  have small: "length (generate_pdf (\<lambda>v. []) (\<lambda>t. ''t'') 0 []) < 10 ^ 10"
  proof -
    have "length (generate_pdf (\<lambda>v. []) (\<lambda>t. ''t'') 0 []) < 1000" by code_simp
    then show ?thesis by simp
  qed
  from pdf_xref_exact [OF small] obtain xref_pos where
    x: "\<forall>k < 5. starts_with (pdf_lookup (generate_pdf (\<lambda>v. []) (\<lambda>t. ''t'') 0 []) xref_pos (Suc k))
       (object_text (Suc k) (pdf_objects (content_stream (report_lines (\<lambda>v. []) (\<lambda>t. ''t'') 0 [])) ! k))" by blast
  then show ?thesis using x [rule_format, of 1] by (intro exI [of _ xref_pos]) (simp add: pdf_objects_def numeral_2_eq_2)
qed

end
