(* ===== verification/Reports.thy ===== *)
theory Reports imports Retention Devices Rendering
begin

text \<open>
  Reading telemetry and reporting on it: \<open>app/services/telemetry_service.py\<close> with its export route and
  \<open>app/services/report_service.py\<close> over the telemetry table and the rollup views of \<open>Retention\<close>, rendered
  by \<open>Rendering\<close>.  \<open>isoformat\<close> and \<open>fromiso\<close> are the two ISO conversions of \<open>datetime\<close>.  The lemmas show what
  a query returns, that the views cannot be queried, who sees which samples in a report, and that a
  report downloads as it was generated.
\<close>

section \<open>Telemetry queries\<close>

definition RESOLUTION_RAW :: string where "RESOLUTION_RAW = ''raw''"
definition DEFAULT_LIMIT :: int where "DEFAULT_LIMIT = 1000"
definition MAX_LIMIT :: int where "MAX_LIMIT = 10000"

text \<open>The relation of each resolution and its time column.\<close>

definition SOURCES :: "(string \<times> string \<times> string) list" where
  "SOURCES = [(RESOLUTION_RAW, ''telemetry'', ''ts''), (''5m'', ''telemetry_5m'', ''bucket''),
     (''1h'', ''telemetry_1h'', ''bucket''), (''1d'', ''telemetry_1d'', ''bucket'')]"

definition invalid_resolution :: app_error where
  "invalid_resolution = ValidationError ''invalid_resolution''"

definition resolve_source :: "string \<Rightarrow> (string \<times> string) result" where
  "resolve_source resolution =
     (case map_of SOURCES resolution of Some src \<Rightarrow> Inr src | None \<Rightarrow> fail invalid_resolution)"

record telemetry_point =
  tp_ts :: timestamp
  tp_data :: "(string \<times> json) list"

text \<open>The columns of the relations, as the migration creates them.\<close>

definition relation_columns :: "string \<Rightarrow> string list" where
  "relation_columns relation =
     (if relation = ''telemetry'' then [''org_id'', ''device_id'', ''ts'', ''data'']
      else if relation \<in> set KNOWN_VIEWS then [''device_id'', ''org_id'', ''bucket'', ''sample_count'', ''last_ts'']
      else [])"

text \<open>What the statement can do: an error of the service, a column the relation does not have (which the
  database reports when it parses the statement), or the rows.\<close>

datatype query_error = Service_error py_exc | Undefined_column string string

definition from_service :: "'a result \<Rightarrow> query_error + 'a" where
  "from_service r = (case r of Inl e \<Rightarrow> Inl (Service_error e) | Inr x \<Rightarrow> Inr x)"

text \<open>Only the raw table has the four columns the statement names, so only it is ever read.\<close>

definition select_points ::
  "rollup_db \<Rightarrow> string \<Rightarrow> string \<Rightarrow> uuid \<Rightarrow> uuid \<Rightarrow> timestamp option \<Rightarrow> timestamp option \<Rightarrow> int
     \<Rightarrow> query_error + telemetry_point list" where
  "select_points db relation col device org start end' lim' =
     (case find (\<lambda>c. c \<notin> set (relation_columns relation)) [col, ''data'', ''device_id'', ''org_id''] of
        Some c \<Rightarrow> Inl (Undefined_column relation c)
      | None \<Rightarrow>
          Inr (take (nat lim') (map (\<lambda>r. \<lparr>tp_ts = tr_ts r, tp_data = tr_data r\<rparr>)
            (sort_key tr_ts (filter (\<lambda>r. tr_device_id r = device \<and> tr_org_id r = org
               \<and> (case start of None \<Rightarrow> True | Some a \<Rightarrow> a \<le> tr_ts r)
               \<and> (case end' of None \<Rightarrow> True | Some b \<Rightarrow> tr_ts r \<le> b)) (rl_telemetry db))))))"

definition device_org_id :: "principal \<Rightarrow> fleet_device list \<Rightarrow> uuid \<Rightarrow> uuid result" where
  "device_org_id p devices device_id =
     bind_res (scope_get p fd_id fd_org_id devices device_id) (\<lambda>d. Inr (fd_org_id d))"

definition telemetry_query ::
  "principal \<Rightarrow> fleet_device list \<Rightarrow> rollup_db \<Rightarrow> uuid \<Rightarrow> string \<Rightarrow> timestamp option \<Rightarrow> timestamp option \<Rightarrow> int
     \<Rightarrow> query_error + telemetry_point list" where
  "telemetry_query p devices db device_id resolution start end' lim' =
     bind_res (from_service (resolve_source resolution)) (\<lambda>(relation, col).
     bind_res (from_service (device_org_id p devices device_id)) (\<lambda>org.
       select_points db relation col device_id org start end' (max 1 (min lim' MAX_LIMIT))))"

definition telemetry_latest ::
  "principal \<Rightarrow> fleet_device list \<Rightarrow> rollup_db \<Rightarrow> uuid \<Rightarrow> telemetry_point option result" where
  "telemetry_latest p devices db device_id =
     bind_res (device_org_id p devices device_id) (\<lambda>org.
       case rev (sort_key tr_ts (filter (\<lambda>r. tr_device_id r = device_id \<and> tr_org_id r = org) (rl_telemetry db))) of
         [] \<Rightarrow> Inr None
       | r # rs \<Rightarrow> Inr (Some \<lparr>tp_ts = tr_ts r, tp_data = tr_data r\<rparr>))"

text \<open>The export route: the columns are the metric names in the order they first appear.\<close>

definition metric_keys :: "telemetry_point list \<Rightarrow> string list" where
  "metric_keys points = rev (remdups (rev (concat (map (map fst \<circ> tp_data) points))))"

definition export_csv ::
  "char list \<Rightarrow> (json \<Rightarrow> string) \<Rightarrow> (timestamp \<Rightarrow> string) \<Rightarrow> telemetry_point list \<Rightarrow> string" where
  "export_csv extra repr isoformat points =
     (let keys = metric_keys points in
      csv_writerow extra [CR, LF] (''timestamp'' # keys)
      @ concat (map (\<lambda>p. csv_writerow extra [CR, LF]
          (isoformat (tp_ts p) # map (\<lambda>k. cell repr (dict_get (tp_data p) k)) keys)) points))"

definition export_telemetry_csv ::
  "char list \<Rightarrow> (json \<Rightarrow> string) \<Rightarrow> (timestamp \<Rightarrow> string) \<Rightarrow> device_assignment list \<Rightarrow> principal \<Rightarrow> fleet_device list
     \<Rightarrow> rollup_db \<Rightarrow> uuid \<Rightarrow> string \<Rightarrow> timestamp option \<Rightarrow> timestamp option \<Rightarrow> int \<Rightarrow> query_error + string" where
  "export_telemetry_csv extra repr isoformat assignments p devices db device_id resolution start end' lim' =
     bind_res (from_service (require_device_access assignments p (Some device_id))) (\<lambda>_.
     bind_res (telemetry_query p devices db device_id resolution start end' lim') (\<lambda>points.
       Inr (export_csv extra repr isoformat points)))"

section \<open>Reports\<close>

record scheduled_report =
  sr_id :: uuid
  sr_org_id :: uuid
  sr_user_id :: "uuid option"
  sr_format :: string
  sr_query :: "(string \<times> json) list"
  sr_schedule_cron :: "string option"
  sr_destination :: "string option"
  sr_last_run_at :: "timestamp option"

text \<open>What a request reads, and the table it writes.\<close>

record report_env =
  re_principal :: principal
  re_assignments :: "device_assignment list"
  re_devices :: "fleet_device list"
  re_telemetry :: rollup_db

record text_codec =
  tc_extra :: "char list"
  tc_repr :: "json \<Rightarrow> string"
  tc_isoformat :: "timestamp \<Rightarrow> string"
  tc_fromiso :: "string \<Rightarrow> timestamp option"

definition invalid_report_query :: app_error where
  "invalid_report_query = ValidationError ''invalid_report_query''"

definition invalid_report_schedule :: app_error where
  "invalid_report_schedule = ValidationError ''invalid_report_schedule''"

definition validate_format :: "json \<Rightarrow> string result" where
  "validate_format v =
     (case v of JStr s \<Rightarrow> if s \<in> {FORMAT_CSV, FORMAT_PDF} then Inr s else fail invalid_report_format
      | _ \<Rightarrow> fail invalid_report_format)"

definition coerce_dt :: "text_codec \<Rightarrow> json \<Rightarrow> timestamp option result" where
  "coerce_dt T v =
     (if v = JNull \<or> v = JStr [] then Inr None
      else (case tc_fromiso T (py_str (tc_repr T) v) of
          Some t \<Rightarrow> Inr (Some t)
        | None \<Rightarrow> fail invalid_report_query))"

definition report_org_uuid :: "principal \<Rightarrow> uuid result" where
  "report_org_uuid p = (case parse_uuid (pr_org_id p) of Some u \<Rightarrow> Inr u | None \<Rightarrow> Inl ValueError)"

definition assert_device_access :: "report_env \<Rightarrow> uuid \<Rightarrow> unit result" where
  "assert_device_access E device_id =
     guard_res (\<not> user_has_device_access (re_assignments E) (re_principal E) device_id)
       (AuthorizationError ''authorization_error'')"

fun collect_devices ::
  "report_env \<Rightarrow> uuid list \<Rightarrow> timestamp option \<Rightarrow> timestamp option \<Rightarrow> string \<Rightarrow> report_row list
     \<Rightarrow> query_error + report_row list" where
  "collect_devices E [] start end' resolution rows = Inr rows"
| "collect_devices E (d # ds) start end' resolution rows =
     bind_res (from_service (assert_device_access E d)) (\<lambda>_.
     bind_res (telemetry_query (re_principal E) (re_devices E) (re_telemetry E) d resolution start end' MAX_LIMIT) (\<lambda>points.
       collect_devices E ds start end' resolution
         (rows @ map (\<lambda>pt. \<lparr>rw_device_id = d, rw_ts = tp_ts pt, rw_data = tp_data pt\<rparr>) points)))"

definition collect_rows ::
  "report_env \<Rightarrow> uuid list \<Rightarrow> timestamp option \<Rightarrow> timestamp option \<Rightarrow> string \<Rightarrow> query_error + report_row list" where
  "collect_rows E device_ids start end' resolution =
     bind_res (from_service (guard_res (device_ids = []) invalid_report_query)) (\<lambda>_.
     bind_res (from_service (resolve_source resolution)) (\<lambda>_.
       collect_devices E device_ids start end' resolution []))"

definition opt_iso :: "text_codec \<Rightarrow> timestamp option \<Rightarrow> json" where
  "opt_iso T t = (case t of None \<Rightarrow> JNull | Some t' \<Rightarrow> JStr (tc_isoformat T t'))"

definition report_query ::
  "text_codec \<Rightarrow> uuid list \<Rightarrow> timestamp option \<Rightarrow> timestamp option \<Rightarrow> string \<Rightarrow> string \<Rightarrow> (string \<times> json) list" where
  "report_query T device_ids start end' resolution fmt =
     [(''device_ids'', JArr (map JStr device_ids)), (''from'', opt_iso T start), (''to'', opt_iso T end'),
      (''resolution'', JStr resolution), (''format'', JStr fmt)]"

definition generate_report ::
  "text_codec \<Rightarrow> report_env \<Rightarrow> uuid \<Rightarrow> timestamp \<Rightarrow> uuid list \<Rightarrow> timestamp option \<Rightarrow> timestamp option \<Rightarrow> string \<Rightarrow> string
     \<Rightarrow> scheduled_report list \<Rightarrow> query_error + (scheduled_report \<times> string) \<times> scheduled_report list" where
  "generate_report T E new_id now device_ids start end' format resolution reports =
     bind_res (from_service (validate_format (JStr format))) (\<lambda>fmt.
     bind_res (collect_rows E device_ids start end' resolution) (\<lambda>rows.
     bind_res (from_service (render (tc_extra T) (tc_repr T) (tc_isoformat T) now rows fmt)) (\<lambda>content.
     bind_res (from_service (report_org_uuid (re_principal E))) (\<lambda>org.
       let report = \<lparr>sr_id = new_id, sr_org_id = org, sr_user_id = parse_uuid (pr_user_id (re_principal E)),
             sr_format = fmt, sr_query = report_query T device_ids start end' resolution fmt,
             sr_schedule_cron = None, sr_destination = None, sr_last_run_at = Some now\<rparr>
       in bind_res (from_service (insert_row sr_id report reports)) (\<lambda>reports'.
            Inr ((report, content), reports'))))))"

text \<open>The loop over a decoded value: a list, the characters of a string or the keys of a dictionary.\<close>

fun py_iter :: "json \<Rightarrow> json list result" where
  "py_iter (JArr xs) = Inr xs"
| "py_iter (JStr s) = Inr (map (\<lambda>c. JStr [c]) s)"
| "py_iter (JObj d) = Inr (map (\<lambda>kv. JStr (fst kv)) d)"
| "py_iter _ = Inl TypeError"

fun parse_uuids :: "(json \<Rightarrow> string) \<Rightarrow> json list \<Rightarrow> uuid list result" where
  "parse_uuids repr [] = Inr []"
| "parse_uuids repr (v # vs) =
     (case parse_uuid (py_str repr v) of
        None \<Rightarrow> Inl ValueError
      | Some u \<Rightarrow> bind_res (parse_uuids repr vs) (\<lambda>us. Inr (u # us)))"

text \<open>The lookup of a resolution in a dictionary: a list or a dictionary is not hashable.\<close>

definition resolution_of :: "json \<Rightarrow> string result" where
  "resolution_of v =
     (if \<not> truthy v then Inr RESOLUTION_RAW
      else (case v of JStr s \<Rightarrow> Inr s | JArr xs \<Rightarrow> Inl TypeError | JObj d \<Rightarrow> Inl TypeError
            | _ \<Rightarrow> fail invalid_resolution))"

definition regenerate_report ::
  "text_codec \<Rightarrow> report_env \<Rightarrow> timestamp \<Rightarrow> scheduled_report \<Rightarrow> query_error + string" where
  "regenerate_report T E now report =
     (let q = sr_query report in
      bind_res (from_service (bind_res (py_iter (dict_or q ''device_ids'' (JArr []))) (parse_uuids (tc_repr T)))) (\<lambda>device_ids.
      bind_res (from_service (coerce_dt T (dict_get q ''from''))) (\<lambda>start.
      bind_res (from_service (coerce_dt T (dict_get q ''to''))) (\<lambda>end'.
      bind_res (if device_ids = [] then Inl (Service_error (Raised invalid_report_query))
                else from_service (resolution_of (dict_get q ''resolution''))) (\<lambda>resolution.
      bind_res (collect_rows E device_ids start end' resolution) (\<lambda>rows.
        from_service (render (tc_extra T) (tc_repr T) (tc_isoformat T) now rows (sr_format report))))))))"

definition get_report :: "principal \<Rightarrow> scheduled_report list \<Rightarrow> uuid \<Rightarrow> scheduled_report result" where
  "get_report p reports report_id = scope_get p sr_id sr_org_id reports report_id"

definition download_report ::
  "text_codec \<Rightarrow> report_env \<Rightarrow> timestamp \<Rightarrow> scheduled_report list \<Rightarrow> uuid \<Rightarrow> query_error + string" where
  "download_report T E now reports report_id =
     bind_res (from_service (get_report (re_principal E) reports report_id)) (regenerate_report T E now)"

text \<open>Scheduling checks the form of the query, never the devices in it.\<close>

definition schedule_report ::
  "text_codec \<Rightarrow> principal \<Rightarrow> uuid \<Rightarrow> json \<Rightarrow> string \<Rightarrow> string \<Rightarrow> scheduled_report list
     \<Rightarrow> (scheduled_report \<times> scheduled_report list) result" where
  "schedule_report T p new_id query cron destination reports =
     (case query of
        JObj q \<Rightarrow>
          bind_res (guard_res (strip cron = []) invalid_report_schedule) (\<lambda>_.
          bind_res (guard_res (strip destination = []) invalid_report_schedule) (\<lambda>_.
          bind_res (validate_format (dict_or q ''format'' (JStr FORMAT_CSV))) (\<lambda>fmt.
          bind_res (guard_res (\<not> truthy (dict_get q ''device_ids'')) invalid_report_query) (\<lambda>_.
          bind_res (resolution_of (dict_get q ''resolution'')) (\<lambda>resolution.
          bind_res (resolve_source resolution) (\<lambda>_.
          bind_res (coerce_dt T (dict_get q ''from'')) (\<lambda>_.
          bind_res (coerce_dt T (dict_get q ''to'')) (\<lambda>_.
          bind_res (report_org_uuid p) (\<lambda>org.
          bind_res (py_iter (dict_get q ''device_ids'')) (\<lambda>ids.
            let report = \<lparr>sr_id = new_id, sr_org_id = org, sr_user_id = parse_uuid (pr_user_id p), sr_format = fmt,
                  sr_query = [(''device_ids'', JArr (map (\<lambda>v. JStr (py_str (tc_repr T) v)) ids)),
                    (''from'', dict_get q ''from''), (''to'', dict_get q ''to''), (''resolution'', JStr resolution),
                    (''format'', JStr fmt)],
                  sr_schedule_cron = Some (strip cron), sr_destination = Some (strip destination), sr_last_run_at = None\<rparr>
            in bind_res (insert_row sr_id report reports) (\<lambda>reports'. Inr (report, reports'))))))))))))
      | _ \<Rightarrow> fail invalid_report_query)"

section \<open>What a query returns\<close>

lemma from_service_Inr [simp]: "from_service r = Inr x \<longleftrightarrow> r = Inr x"
  by (cases r) (simp_all add: from_service_def)

lemma from_service_simps [simp]:
  "from_service (Inl e) = Inl (Service_error e)"
  "from_service (Inr x) = Inr x"
  by (simp_all add: from_service_def)

lemma device_org_Inr:
  "device_org_id p devices k = Inr org \<longleftrightarrow>
     (\<exists>d. tbl_get fd_id devices k = Some d \<and> fd_org_id d = org \<and> (is_super_admin p \<or> org = pr_org_id p))"
  by (auto simp: device_org_id_def scope_get_def bind_res_eq_Inr fail_def split: option.split)

lemma sources: "resolve_source RESOLUTION_RAW = Inr (''telemetry'', ''ts'')"
  "resolve_source r = Inr (rel, col) \<Longrightarrow> r \<noteq> RESOLUTION_RAW \<Longrightarrow> rel \<in> set KNOWN_VIEWS \<and> col = ''bucket''"
  by (auto simp: resolve_source_def SOURCES_def RESOLUTION_RAW_def known_views fail_def split: if_splits)

lemma views_have_no_data: "rel \<in> set KNOWN_VIEWS \<Longrightarrow> select_points db rel ''bucket'' dev org a b n = Inl (Undefined_column rel ''data'')"
  by (auto simp: select_points_def relation_columns_def known_views)

definition in_range :: "timestamp option \<Rightarrow> timestamp option \<Rightarrow> timestamp \<Rightarrow> bool" where
  "in_range start end' t \<longleftrightarrow> (\<forall>a. start = Some a \<longrightarrow> a \<le> t) \<and> (\<forall>b. end' = Some b \<longrightarrow> t \<le> b)"

lemma raw_points:
  "select_points db ''telemetry'' ''ts'' dev org start end' n =
     Inr (take (nat n) (map (\<lambda>r. \<lparr>tp_ts = tr_ts r, tp_data = tr_data r\<rparr>)
       (sort_key tr_ts (filter (\<lambda>r. tr_device_id r = dev \<and> tr_org_id r = org \<and> in_range start end' (tr_ts r)) (rl_telemetry db)))))"
  by (auto simp: select_points_def relation_columns_def in_range_def split: option.split
      intro!: arg_cong [where f = "\<lambda>xs. take _ (map _ (sort_key _ xs))"] filter_cong)

lemma raw_query_Inr:
  assumes "telemetry_query p devices db dev RESOLUTION_RAW start end' n = Inr points"
  shows "\<exists>d. tbl_get fd_id devices dev = Some d \<and> (is_super_admin p \<or> fd_org_id d = pr_org_id p)
    \<and> points = take (nat (max 1 (min n MAX_LIMIT))) (map (\<lambda>r. \<lparr>tp_ts = tr_ts r, tp_data = tr_data r\<rparr>)
       (sort_key tr_ts (filter (\<lambda>r. tr_device_id r = dev \<and> tr_org_id r = fd_org_id d \<and> in_range start end' (tr_ts r))
         (rl_telemetry db))))"
  using assms by (auto simp: telemetry_query_def sources(1) bind_res_eq_Inr device_org_Inr raw_points)

lemma query_raw_only:
  "telemetry_query p devices db dev resolution start end' n = Inr points \<Longrightarrow> resolution = RESOLUTION_RAW"
  using sources(2) views_have_no_data by (fastforce simp: telemetry_query_def bind_res_eq_Inr)

lemma take_before_drop:
  assumes "sorted (map f xs)" "x \<in> set (take k xs)" "y \<in> set (drop k xs)"
  shows "f x \<le> f y"
proof -
  have "sorted (map f (take k xs) @ map f (drop k xs))" using assms(1) by (simp flip: map_append)
  with assms(2,3) show ?thesis unfolding sorted_append by auto
qed

lemma cut_is_full: "y \<in> set (drop k xs) \<Longrightarrow> length (take k xs) = k"
  by (cases "k \<le> length xs") simp_all

section \<open>Properties\<close>

text \<open>A raw query gives the caller samples of a device it owns, oldest first, at most as many as asked for
  (one to ten thousand), each a stored row of that device, its organization and the range; when a
  row of the range is missing the answer is full and the row is no older than any in it: the newest
  samples are the ones cut off.\<close>

theorem telemetry_query_exact:
  assumes "telemetry_query p devices db dev RESOLUTION_RAW start end' n = Inr points"
  shows "\<exists>d. d \<in> set devices \<and> fd_id d = dev \<and> (is_super_admin p \<or> fd_org_id d = pr_org_id p)
    \<and> sorted (map tp_ts points) \<and> length points \<le> nat (max 1 (min n MAX_LIMIT))
    \<and> (\<forall>pt \<in> set points. in_range start end' (tp_ts pt)
         \<and> (\<exists>r \<in> set (rl_telemetry db). tr_device_id r = dev \<and> tr_org_id r = fd_org_id d \<and> tr_ts r = tp_ts pt \<and> tr_data r = tp_data pt))
    \<and> (\<forall>r \<in> set (rl_telemetry db). tr_device_id r = dev \<and> tr_org_id r = fd_org_id d \<and> in_range start end' (tr_ts r)
         \<longrightarrow> \<lparr>tp_ts = tr_ts r, tp_data = tr_data r\<rparr> \<in> set points
           \<or> length points = nat (max 1 (min n MAX_LIMIT)) \<and> (\<forall>pt \<in> set points. tp_ts pt \<le> tr_ts r))"
proof -
  obtain d where d: "tbl_get fd_id devices dev = Some d" "is_super_admin p \<or> fd_org_id d = pr_org_id p"
    and pts: "points = take (nat (max 1 (min n MAX_LIMIT))) (map (\<lambda>r. \<lparr>tp_ts = tr_ts r, tp_data = tr_data r\<rparr>)
       (sort_key tr_ts (filter (\<lambda>r. tr_device_id r = dev \<and> tr_org_id r = fd_org_id d \<and> in_range start end' (tr_ts r))
         (rl_telemetry db))))"
    using raw_query_Inr [OF assms] by blast
  define k where "k = nat (max 1 (min n MAX_LIMIT))"
  define rows where "rows = sort_key tr_ts (filter (\<lambda>r. tr_device_id r = dev \<and> tr_org_id r = fd_org_id d
      \<and> in_range start end' (tr_ts r)) (rl_telemetry db))"
  have rows: "r \<in> set rows \<longleftrightarrow> r \<in> set (rl_telemetry db) \<and> tr_device_id r = dev \<and> tr_org_id r = fd_org_id d
      \<and> in_range start end' (tr_ts r)" for r
    by (auto simp: rows_def)
  have pts': "points = map (\<lambda>r. \<lparr>tp_ts = tr_ts r, tp_data = tr_data r\<rparr>) (take k rows)"
    by (simp add: pts take_map k_def rows_def)
  have ts: "map tp_ts points = take k (map tr_ts rows)" by (simp add: pts' take_map comp_def)
  have sorted: "sorted (map tr_ts rows)" unfolding rows_def by (rule sorted_sort_key)
  have "\<lparr>tp_ts = tr_ts r, tp_data = tr_data r\<rparr> \<in> set points \<or> length points = k \<and> (\<forall>pt \<in> set points. tp_ts pt \<le> tr_ts r)"
    if r: "r \<in> set rows" for r
  proof (cases "r \<in> set (take k rows)")
    case True
    then show ?thesis by (auto simp: pts')
  next
    case False
    with r have later: "r \<in> set (drop k rows)" by (metis Un_iff append_take_drop_id set_append)
    from cut_is_full [OF later] take_before_drop [OF sorted _ later] show ?thesis by (auto simp: pts')
  qed
  moreover have "sorted (map tp_ts points)" unfolding ts using sorted by (rule sorted_wrt_take)
  moreover have "in_range start end' (tp_ts pt) \<and> (\<exists>r \<in> set (rl_telemetry db). tr_device_id r = dev
      \<and> tr_org_id r = fd_org_id d \<and> tr_ts r = tp_ts pt \<and> tr_data r = tp_data pt)" if pt: "pt \<in> set points" for pt
  proof -
    obtain r where "r \<in> set (take k rows)" "pt = \<lparr>tp_ts = tr_ts r, tp_data = tr_data r\<rparr>" using pt pts' by auto
    then show ?thesis using rows [of r] by (auto dest!: in_set_takeD)
  qed
  moreover have "length points \<le> k" by (simp add: pts')
  moreover have "d \<in> set devices" "fd_id d = dev" using tbl_get_Some [OF d(1)] by simp_all
  ultimately show ?thesis using d(2) by (intro exI [of _ d]) (simp add: rows flip: k_def)
qed

text \<open>C10. The rollups cannot be read: a query at a resolution other than raw never returns points, and for a
  resolution the service knows and a device the caller may read the database refuses the statement,
  since the views have no column "data".  No export and no report at such a resolution has content.\<close>

theorem rollup_queries_fail:
  assumes "resolution \<noteq> RESOLUTION_RAW"
  shows "(\<exists>e. telemetry_query p devices db dev resolution start end' n = Inl e)
    \<and> (\<forall>rel col d. resolve_source resolution = Inr (rel, col) \<and> tbl_get fd_id devices dev = Some d
         \<and> (is_super_admin p \<or> fd_org_id d = pr_org_id p)
         \<longrightarrow> telemetry_query p devices db dev resolution start end' n = Inl (Undefined_column rel ''data''))
    \<and> (\<exists>e. collect_rows E ds start end' resolution = Inl e)"
proof (intro conjI allI impI)
  show failed: "\<exists>e. telemetry_query p devices db dev resolution start end' n = Inl e" for p devices db dev n
    using query_raw_only assms by (metis sum.exhaust)
  fix rel col d
  assume a: "resolve_source resolution = Inr (rel, col) \<and> tbl_get fd_id devices dev = Some d
         \<and> (is_super_admin p \<or> fd_org_id d = pr_org_id p)"
  then have "device_org_id p devices dev = Inr (fd_org_id d)" by (auto simp: device_org_Inr)
  with a sources(2) [OF _ assms] views_have_no_data
  show "telemetry_query p devices db dev resolution start end' n = Inl (Undefined_column rel ''data'')"
    by (auto simp: telemetry_query_def)
next
  show "\<exists>e. collect_rows E ds start end' resolution = Inl e"
  proof (cases ds)
    case Nil
    then show ?thesis by (simp add: collect_rows_def)
  next
    case (Cons d ds')
    have "collect_rows E ds start end' resolution \<noteq> Inr rows" for rows
      using query_raw_only assms Cons by (fastforce simp: collect_rows_def bind_res_eq_Inr)
    then show ?thesis by (metis sum.exhaust)
  qed
qed

definition authorised_row :: "report_env \<Rightarrow> uuid list \<Rightarrow> report_row \<Rightarrow> bool" where
  "authorised_row E ds row \<longleftrightarrow> rw_device_id row \<in> set ds
     \<and> user_has_device_access (re_assignments E) (re_principal E) (rw_device_id row)
     \<and> (\<exists>d \<in> set (re_devices E). fd_id d = rw_device_id row
          \<and> (is_super_admin (re_principal E) \<or> fd_org_id d = pr_org_id (re_principal E))
          \<and> (\<exists>r \<in> set (rl_telemetry (re_telemetry E)). tr_device_id r = rw_device_id row \<and> tr_org_id r = fd_org_id d
               \<and> tr_ts r = rw_ts row \<and> tr_data r = rw_data row))"

lemma query_points_stored:
  assumes "telemetry_query p devices db dev resolution start end' n = Inr points" "pt \<in> set points"
  shows "\<exists>d \<in> set devices. fd_id d = dev \<and> (is_super_admin p \<or> fd_org_id d = pr_org_id p)
    \<and> (\<exists>r \<in> set (rl_telemetry db). tr_device_id r = dev \<and> tr_org_id r = fd_org_id d \<and> tr_ts r = tp_ts pt \<and> tr_data r = tp_data pt)"
proof -
  have "resolution = RESOLUTION_RAW" using query_raw_only [OF assms(1)] .
  from raw_query_Inr [OF assms(1) [unfolded this]] obtain d where
    d: "tbl_get fd_id devices dev = Some d" "is_super_admin p \<or> fd_org_id d = pr_org_id p"
    and pts: "points = take (nat (max 1 (min n MAX_LIMIT))) (map (\<lambda>r. \<lparr>tp_ts = tr_ts r, tp_data = tr_data r\<rparr>)
       (sort_key tr_ts (filter (\<lambda>r. tr_device_id r = dev \<and> tr_org_id r = fd_org_id d \<and> in_range start end' (tr_ts r))
         (rl_telemetry db))))" by blast
  from assms(2) [unfolded pts, THEN in_set_takeD] show ?thesis
    using tbl_get_Some [OF d(1)] d(2) by (intro bexI [of _ d]) auto
qed

lemma collect_devices_authorised:
  "collect_devices E ds start end' resolution rows = Inr rows' \<Longrightarrow> set ds \<subseteq> set ds' \<Longrightarrow>
   list_all (authorised_row E ds') rows \<Longrightarrow> list_all (authorised_row E ds') rows'"
proof (induction ds arbitrary: rows)
  case (Cons d ds)
  obtain points where acc: "user_has_device_access (re_assignments E) (re_principal E) d"
    and q: "telemetry_query (re_principal E) (re_devices E) (re_telemetry E) d resolution start end' MAX_LIMIT = Inr points"
    and rest: "collect_devices E ds start end' resolution
      (rows @ map (\<lambda>pt. \<lparr>rw_device_id = d, rw_ts = tp_ts pt, rw_data = tp_data pt\<rparr>) points) = Inr rows'"
    using Cons.prems(1) by (auto simp: bind_res_eq_Inr assert_device_access_def)
  have "list_all (authorised_row E ds') (map (\<lambda>pt. \<lparr>rw_device_id = d, rw_ts = tp_ts pt, rw_data = tp_data pt\<rparr>) points)"
    using query_points_stored [OF q] acc Cons.prems(2) by (auto simp: list_all_iff authorised_row_def)
  with Cons.IH [OF rest] Cons.prems(2,3) show ?case by simp
qed simp

lemma collect_authorised: "collect_rows E ds start end' resolution = Inr rows \<Longrightarrow> list_all (authorised_row E ds) rows"
  by (auto simp: collect_rows_def bind_res_eq_Inr intro: collect_devices_authorised [where rows = "[]"])

text \<open>Reports show nobody what it may not read: whatever a caller generates, or downloads under the id of
  a report somebody else made or scheduled over any devices, the file is a rendering of samples that
  are stored for devices the caller has access to, of an organization it belongs to.\<close>

theorem reports_stay_authorised:
  assumes "generate_report T E new_id now ds start end' fmt resolution reports = Inr ((report, content), reports')
      \<or> download_report T E now reports k = Inr content"
  shows "\<exists>ids rows form. list_all (authorised_row E ids) rows
    \<and> render (tc_extra T) (tc_repr T) (tc_isoformat T) now rows form = Inr content"
  using assms
proof
  assume "generate_report T E new_id now ds start end' fmt resolution reports = Inr ((report, content), reports')"
  then obtain form rows where "collect_rows E ds start end' resolution = Inr rows"
    "render (tc_extra T) (tc_repr T) (tc_isoformat T) now rows form = Inr content"
    by (auto simp: generate_report_def bind_res_eq_Inr Let_def)
  with collect_authorised show ?thesis by blast
next
  assume "download_report T E now reports k = Inr content"
  then obtain form ids a b res rows where "collect_rows E ids a b res = Inr rows"
    "render (tc_extra T) (tc_repr T) (tc_isoformat T) now rows form = Inr content"
    by (auto simp: download_report_def regenerate_report_def bind_res_eq_Inr Let_def)
  with collect_authorised show ?thesis by blast
qed

lemma parse_stored_ids: "list_all is_uuid ds \<Longrightarrow> parse_uuids repr (map JStr ds) = Inr ds"
  by (induction ds) (simp_all add: is_uuid_def)

lemma coerce_stored:
  "\<lbrakk>\<And>t. tc_fromiso T (tc_isoformat T t) = Some t; \<And>t. tc_isoformat T t \<noteq> []\<rbrakk> \<Longrightarrow> coerce_dt T (opt_iso T x) = Inr x"
  by (cases x) (simp_all add: coerce_dt_def opt_iso_def)

text \<open>A report downloads as it was generated: while the telemetry, the devices and the assignments are as
  they were, the caller gets the same file under the id of the report, a CSV at any later time and a
  PDF, which names the time of its making, at the same time.\<close>

theorem report_download_roundtrip:
  assumes "generate_report T E new_id now ds start end' fmt resolution reports = Inr ((report, content), reports')"
    and "list_all is_uuid ds" "is_uuid (pr_org_id (re_principal E))" "resolution \<noteq> []"
    and "\<And>t. tc_fromiso T (tc_isoformat T t) = Some t" "\<And>t. tc_isoformat T t \<noteq> []"
    and "fmt = FORMAT_CSV \<or> now' = now"
  shows "download_report T E now' reports' new_id = Inr content"
proof -
  have fmt: "validate_format (JStr fmt) = Inr fmt"
    using assms(1) by (auto simp: generate_report_def bind_res_eq_Inr validate_format_def fail_def split: if_splits)
  obtain rows where rows: "collect_rows E ds start end' resolution = Inr rows"
    and content: "render (tc_extra T) (tc_repr T) (tc_isoformat T) now rows fmt = Inr content"
    and rep: "report = \<lparr>sr_id = new_id, sr_org_id = pr_org_id (re_principal E), sr_user_id = parse_uuid (pr_user_id (re_principal E)),
             sr_format = fmt, sr_query = report_query T ds start end' resolution fmt,
             sr_schedule_cron = None, sr_destination = None, sr_last_run_at = Some now\<rparr>"
    and ins: "new_id \<notin> sr_id ` set reports" "reports' = reports @ [report]"
    using assms(1,3) fmt
    by (auto simp: generate_report_def bind_res_eq_Inr Let_def report_org_uuid_def is_uuid_def insert_row_Inr)
  have "tbl_get sr_id reports' new_id = Some report"
    using ins by (simp add: tbl_get_append rep tbl_get_None [THEN iffD2] split: option.split)
  then have got: "get_report (re_principal E) reports' new_id = Inr report"
    by (simp add: get_report_def scope_get_def rep)
  have ne: "ds \<noteq> []" using rows by (auto simp: collect_rows_def)
  have again: "render (tc_extra T) (tc_repr T) (tc_isoformat T) now' rows fmt = Inr content"
    using content assms(7) by (auto simp: render_def FORMAT_CSV_def split: if_splits)
  have res: "resolution_of (JStr resolution) = Inr resolution" using assms(4) by (simp add: resolution_of_def)
  have dates: "coerce_dt T (opt_iso T start) = Inr start" "coerce_dt T (opt_iso T end') = Inr end'"
    using coerce_stored assms(5,6) by blast+
  show ?thesis
    using got rows again ne
    by (simp add: download_report_def regenerate_report_def rep report_query_def dict_or_def dict_get_def
        parse_stored_ids [OF assms(2)] dates res)
qed

section \<open>A small fleet\<close>

definition ex_sample :: "timestamp \<Rightarrow> telemetry_row" where
  "ex_sample t = \<lparr>tr_org_id = ex_o1, tr_device_id = ex_o1, tr_ts = t, tr_data = [(''t,1'', JInt t)]\<rparr>"

definition ex_env :: report_env where
  "ex_env = \<lparr>re_principal = ex_manager, re_assignments = [], re_devices = [new_device ex_o1 ex_o1 ''U'' None None None],
     re_telemetry = \<lparr>rl_telemetry = [ex_sample 5, ex_sample 3, ex_sample 9], rl_views = Map.empty\<rparr>\<rparr>"

definition ex_codec :: text_codec where
  "ex_codec = \<lparr>tc_extra = [], tc_repr = (\<lambda>v. []),
     tc_isoformat = (\<lambda>t. if 0 \<le> t then replicate (Suc (nat t)) (CHR ''p'') else replicate (nat (- t)) (CHR ''n'')),
     tc_fromiso = (\<lambda>s. case s of [] \<Rightarrow> None
       | c # cs \<Rightarrow> Some (if c = CHR ''p'' then int (length cs) else - int (length s)))\<rparr>"

lemma ex_codec_ok: "tc_fromiso ex_codec (tc_isoformat ex_codec t) = Some t" "tc_isoformat ex_codec t \<noteq> []"
proof -
  have "replicate (nat (- t)) (CHR ''n'') = CHR ''n'' # replicate (nat (- t) - 1) (CHR ''n'')" if "t < 0"
    using that by (cases "nat (- t)") auto
  then show "tc_fromiso ex_codec (tc_isoformat ex_codec t) = Some t" "tc_isoformat ex_codec t \<noteq> []"
    by (auto simp: ex_codec_def)
qed

lemma ex_query:
  "telemetry_query ex_manager (re_devices ex_env) (re_telemetry ex_env) ex_o1 RESOLUTION_RAW (Some 4) None n
     = Inr (take (nat (max 1 (min n MAX_LIMIT))) (map (\<lambda>t. \<lparr>tp_ts = t, tp_data = [(''t,1'', JInt t)]\<rparr>) [5, 9]))"
proof -
  have "device_org_id ex_manager (re_devices ex_env) ex_o1 = Inr ex_o1"
    by (simp add: device_org_Inr ex_env_def ex_manager_def)
  then show ?thesis
    by (simp add: telemetry_query_def sources(1) raw_points) (simp add: ex_env_def ex_sample_def in_range_def)
qed

theorem telemetry_query_exact_witness:
  "\<exists>points. telemetry_query ex_manager (re_devices ex_env) (re_telemetry ex_env) ex_o1 RESOLUTION_RAW (Some 4) None 1 = Inr points
     \<and> points \<noteq> [] \<and> sorted (map tp_ts points) \<and> length points \<le> 1"
  using telemetry_query_exact [OF ex_query [of 1]] ex_query [of 1] by (auto simp: MAX_LIMIT_def)

theorem rollup_queries_fail_witness:
  "telemetry_query ex_manager (re_devices ex_env) (re_telemetry ex_env) ex_o1 ''1h'' None None 1
     = Inl (Undefined_column ''telemetry_1h'' ''data'')"
proof -
  have 1: "''1h'' \<noteq> RESOLUTION_RAW" by (simp add: RESOLUTION_RAW_def)
  have 2: "resolve_source ''1h'' = Inr (''telemetry_1h'', ''bucket'')"
    by (simp add: resolve_source_def SOURCES_def RESOLUTION_RAW_def)
  have 3: "tbl_get fd_id (re_devices ex_env) ex_o1 = Some (new_device ex_o1 ex_o1 ''U'' None None None)"
    "pr_org_id ex_manager = ex_o1"
    by (simp_all add: ex_env_def ex_manager_def)
  show ?thesis
    using rollup_queries_fail [OF 1, of ex_manager "re_devices ex_env" "re_telemetry ex_env" ex_o1 None None 1] 2 3 by simp
qed

lemma ex_collect: "\<exists>rows. collect_rows ex_env [ex_o1] (Some 4) None RESOLUTION_RAW = Inr rows \<and> length rows = 2"
proof -
  have "user_has_device_access [] ex_manager ex_o1"
    by (simp add: user_has_device_access_def is_device_user_def ex_manager_def ROLE_PROJECT_CENTER_def ROLE_DEVICE_USER_def)
  then have "assert_device_access ex_env ex_o1 = Inr ()"
    by (simp add: assert_device_access_def) (simp add: ex_env_def)
  moreover have "re_principal ex_env = ex_manager" by (simp add: ex_env_def)
  ultimately show ?thesis
    by (simp add: collect_rows_def sources(1) ex_query MAX_LIMIT_def)
qed

lemma ex_generate:
  "\<exists>report content. generate_report ex_codec ex_env ''r1'' 7 [ex_o1] (Some 4) None FORMAT_CSV RESOLUTION_RAW [] = Inr ((report, content), [report])"
proof -
  obtain rows where "collect_rows ex_env [ex_o1] (Some 4) None RESOLUTION_RAW = Inr rows" using ex_collect by blast
  moreover have "report_org_uuid (re_principal ex_env) = Inr ex_o1"
    by (simp add: report_org_uuid_def ex_env_def ex_manager_def ex_uuid)
  ultimately show ?thesis
    by (simp add: generate_report_def validate_format_def render_def FORMAT_CSV_def insert_row_def Let_def)
qed

theorem reports_stay_authorised_witness:
  "\<exists>report content ids rows. generate_report ex_codec ex_env ''r1'' 7 [ex_o1] (Some 4) None FORMAT_CSV RESOLUTION_RAW []
       = Inr ((report, content), [report]) \<and> list_all (authorised_row ex_env ids) rows"
proof -
  obtain report content where
    g: "generate_report ex_codec ex_env ''r1'' 7 [ex_o1] (Some 4) None FORMAT_CSV RESOLUTION_RAW [] = Inr ((report, content), [report])"
    using ex_generate by blast
  from reports_stay_authorised [OF disjI1 [OF g]] g show ?thesis by blast
qed

theorem report_download_roundtrip_witness:
  "\<exists>report content. generate_report ex_codec ex_env ''r1'' 7 [ex_o1] (Some 4) None FORMAT_CSV RESOLUTION_RAW []
       = Inr ((report, content), [report]) \<and> download_report ex_codec ex_env 9 [report] ''r1'' = Inr content"
proof -
  obtain report content where
    g: "generate_report ex_codec ex_env ''r1'' 7 [ex_o1] (Some 4) None FORMAT_CSV RESOLUTION_RAW [] = Inr ((report, content), [report])"
    using ex_generate by blast
  have 1: "list_all is_uuid [ex_o1]" "is_uuid (pr_org_id (re_principal ex_env))"
    by (simp_all add: ex_uuid) (simp add: ex_env_def ex_manager_def ex_uuid)
  have 2: "RESOLUTION_RAW \<noteq> []" by (simp add: RESOLUTION_RAW_def)
  from report_download_roundtrip [OF g 1 2 ex_codec_ok, of 9] g show ?thesis by blast
qed

end
