(* ===== verification/Support.thy ===== *)
theory Support imports Devices
begin

text \<open>
  The support chat between Device_Users and the Project_Center of their device
  (\<open>app/services/support_service.py\<close> with the routes of \<open>app/api/v1/support.py\<close>) and the changelog with its
  popup (\<open>app/services/changelog_service.py\<close>).  Devices and assignments are those of \<open>Devices\<close> and \<open>Access\<close>.
  The lemmas show where a message arrives, that a conversation starts with its user, and which
  changelog entries the popup shows or misses.
\<close>

section \<open>The chat\<close>

definition SENDER_DEVICE_USER :: string where "SENDER_DEVICE_USER = ''device_user''"
definition SENDER_PROJECT_CENTER :: string where "SENDER_PROJECT_CENTER = ''project_center''"

record support_chat =
  ch_id :: uuid
  ch_org_id :: uuid
  ch_device_id :: "uuid option"
  ch_device_user_id :: "uuid option"
  ch_project_center_id :: "uuid option"
  ch_message :: string
  ch_sender_role :: "string option"
  ch_created_at :: timestamp

record support_db =
  sp_devices :: "fleet_device list"
  sp_assignments :: "device_assignment list"
  sp_chats :: "support_chat list"

definition caller_uuid :: "principal \<Rightarrow> uuid result" where
  "caller_uuid p = (case parse_uuid (pr_user_id p) of Some u \<Rightarrow> Inr u | None \<Rightarrow> Inl ValueError)"

definition clean_message :: "string \<Rightarrow> string result" where
  "clean_message message = (if strip message = [] then fail (ValidationError ''empty_message'') else Inr (strip message))"

definition assert_user_assigned :: "principal \<Rightarrow> support_db \<Rightarrow> uuid \<Rightarrow> unit result" where
  "assert_user_assigned p db device_id =
     (if scope_bypass p then Inr ()
      else bind_res (caller_uuid p) (\<lambda>u.
        guard_res (\<not> list_ex (\<lambda>a. da_device_id a = device_id \<and> da_user_id a = u) (sp_assignments db))
          (AuthorizationError ''authorization_error'')))"

definition add_chat :: "support_chat \<Rightarrow> support_db \<Rightarrow> (support_chat \<times> support_db) result" where
  "add_chat chat db = bind_res (insert_row ch_id chat (sp_chats db)) (\<lambda>rows. Inr (chat, db\<lparr>sp_chats := rows\<rparr>))"

definition send_user_message ::
  "principal \<Rightarrow> uuid \<Rightarrow> timestamp \<Rightarrow> uuid \<Rightarrow> string \<Rightarrow> support_db \<Rightarrow> (support_chat \<times> support_db) result" where
  "send_user_message p fresh now device_id message db =
     bind_res (clean_message message) (\<lambda>body.
     bind_res (scope_get p fd_id fd_org_id (sp_devices db) device_id) (\<lambda>device.
     bind_res (assert_user_assigned p db (fd_id device)) (\<lambda>_.
     bind_res (caller_uuid p) (\<lambda>u.
       add_chat \<lparr>ch_id = fresh, ch_org_id = fd_org_id device, ch_device_id = Some (fd_id device),
         ch_device_user_id = Some u, ch_project_center_id = Some (fd_org_id device), ch_message = body,
         ch_sender_role = Some SENDER_DEVICE_USER, ch_created_at = now\<rparr> db))))"

definition reply ::
  "principal \<Rightarrow> uuid \<Rightarrow> timestamp \<Rightarrow> uuid \<Rightarrow> string \<Rightarrow> support_db \<Rightarrow> (support_chat \<times> support_db) result" where
  "reply p fresh now message_id message db =
     bind_res (clean_message message) (\<lambda>body.
     bind_res (scope_get p ch_id ch_org_id (sp_chats db) message_id) (\<lambda>original.
     bind_res (guard_res (ch_device_user_id original = None) (NotFoundError ''not_found'')) (\<lambda>_.
       add_chat \<lparr>ch_id = fresh, ch_org_id = ch_org_id original, ch_device_id = ch_device_id original,
         ch_device_user_id = ch_device_user_id original, ch_project_center_id = Some (ch_org_id original),
         ch_message = body, ch_sender_role = Some SENDER_PROJECT_CENTER, ch_created_at = now\<rparr> db)))"

definition list_messages :: "principal \<Rightarrow> uuid option \<Rightarrow> support_db \<Rightarrow> support_chat list result" where
  "list_messages p device_id db =
     bind_res (if is_device_user p
               then bind_res (caller_uuid p) (\<lambda>u.
                 Inr (filter (\<lambda>c. ch_device_user_id c = Some u) (scope_select p ch_org_id (sp_chats db))))
               else Inr (scope_select p ch_org_id (sp_chats db))) (\<lambda>rows.
       Inr (sort_key ch_created_at (case device_id of None \<Rightarrow> rows | Some d \<Rightarrow> filter (\<lambda>c. ch_device_id c = Some d) rows)))"

section \<open>The routes\<close>

text \<open>The length of a message is checked when the request is read, after the role.\<close>

definition message_length_ok :: "string \<Rightarrow> bool" where
  "message_length_ok message = (1 \<le> length message \<and> length message \<le> 4000)"

definition send_message_endpoint ::
  "principal \<Rightarrow> uuid \<Rightarrow> timestamp \<Rightarrow> uuid \<Rightarrow> string \<Rightarrow> support_db \<Rightarrow> (support_chat \<times> support_db) result" where
  "send_message_endpoint p fresh now device_id message db =
     bind_res (require_role [ROLE_DEVICE_USER] p) (\<lambda>_.
     bind_res (guard_res (\<not> message_length_ok message) (ValidationError ''validation_error'')) (\<lambda>_.
       send_user_message p fresh now device_id message db))"

definition reply_message_endpoint ::
  "principal \<Rightarrow> uuid \<Rightarrow> timestamp \<Rightarrow> uuid \<Rightarrow> string \<Rightarrow> support_db \<Rightarrow> (support_chat \<times> support_db) result" where
  "reply_message_endpoint p fresh now message_id message db =
     bind_res (require_role [ROLE_PROJECT_CENTER] p) (\<lambda>_.
     bind_res (guard_res (\<not> message_length_ok message) (ValidationError ''validation_error'')) (\<lambda>_.
       reply p fresh now message_id message db))"

definition list_messages_endpoint :: "principal \<Rightarrow> uuid option \<Rightarrow> support_db \<Rightarrow> support_chat list result" where
  "list_messages_endpoint p device_id db =
     bind_res (require_role [ROLE_DEVICE_USER, ROLE_PROJECT_CENTER, ROLE_SUPER_ADMIN] p) (\<lambda>_. list_messages p device_id db)"

section \<open>Runs\<close>

text \<open>Requests in order, each with its caller, the id of the row it would make and the time.\<close>

datatype support_op = Send uuid string | Reply uuid string

type_synonym support_request = "principal \<times> uuid \<times> timestamp \<times> support_op"

fun support_request :: "support_request \<Rightarrow> support_db \<Rightarrow> (support_chat \<times> support_db) result" where
  "support_request (p, fresh, now, Send device_id message) db = send_message_endpoint p fresh now device_id message db"
| "support_request (p, fresh, now, Reply message_id message) db = reply_message_endpoint p fresh now message_id message db"

fun support_run :: "support_request list \<Rightarrow> support_db \<Rightarrow> support_db" where
  "support_run [] db = db"
| "support_run (r # rs) db = support_run rs (commit (support_request r) db)"

text \<open>The row starts the conversation of a user about a device.\<close>

definition opens :: "support_db \<Rightarrow> support_chat \<Rightarrow> principal \<times> uuid \<times> timestamp \<times> support_op \<Rightarrow> bool" where
  "opens db c r =
     (case r of (p, fresh, now, Send d message) \<Rightarrow>
          parse_uuid (pr_user_id p) = ch_device_user_id c \<and> ch_device_id c = Some d \<and> strip message \<noteq> []
          \<and> (is_super_admin p
             \<or> is_device_user p \<and> pr_org_id p = ch_org_id c
               \<and> list_ex (\<lambda>a. da_device_id a = d \<and> Some (da_user_id a) = ch_device_user_id c) (sp_assignments db))
        | _ \<Rightarrow> False)"

lemma add_chat_Inr: "add_chat chat db = Inr (c, db') \<longleftrightarrow> ch_id chat \<notin> ch_id ` set (sp_chats db) \<and> c = chat
    \<and> db' = db\<lparr>sp_chats := sp_chats db @ [chat]\<rparr>"
  by (auto simp: add_chat_def bind_res_eq_Inr insert_row_Inr)

lemma send_Inr:
  assumes "send_message_endpoint p fresh now d message db = Inr (c, db')"
  shows "opens db c (p, fresh, now, Send d message) \<and> db' = db\<lparr>sp_chats := sp_chats db @ [c]\<rparr>
    \<and> ch_message c = strip message \<and> ch_sender_role c = Some SENDER_DEVICE_USER
    \<and> (\<exists>dev \<in> set (sp_devices db). fd_id dev = d \<and> ch_org_id c = fd_org_id dev)"
proof -
  from assms obtain dev u where role: "require_role [ROLE_DEVICE_USER] p = Inr p"
    and dev: "scope_get p fd_id fd_org_id (sp_devices db) d = Inr dev"
    and asg: "assert_user_assigned p db (fd_id dev) = Inr ()" and u: "parse_uuid (pr_user_id p) = Some u"
    and body: "strip message \<noteq> []" and db': "db' = db\<lparr>sp_chats := sp_chats db @ [c]\<rparr>"
    and c: "c = \<lparr>ch_id = fresh, ch_org_id = fd_org_id dev, ch_device_id = Some (fd_id dev),
         ch_device_user_id = Some u, ch_project_center_id = Some (fd_org_id dev), ch_message = strip message,
         ch_sender_role = Some SENDER_DEVICE_USER, ch_created_at = now\<rparr>"
    by (auto simp: send_message_endpoint_def send_user_message_def bind_res_eq_Inr add_chat_Inr clean_message_def
        caller_uuid_def fail_def require_role_def split: if_splits option.splits)
  from role have "is_super_admin p \<or> is_device_user p"
    by (auto simp: require_role_def is_device_user_def fail_def split: if_splits)
  with scope_get_Inr [OF dev] asg u body c db' show ?thesis
    by (auto simp: opens_def assert_user_assigned_def scope_bypass_def caller_uuid_def guard_res_eq_Inr list_ex_iff)
qed

lemma reply_Inr:
  assumes "reply_message_endpoint p fresh now m message db = Inr (c, db')"
  shows "db' = db\<lparr>sp_chats := sp_chats db @ [c]\<rparr> \<and> ch_sender_role c = Some SENDER_PROJECT_CENTER
    \<and> (pr_role p = ROLE_PROJECT_CENTER \<and> pr_org_id p = ch_org_id c \<or> is_super_admin p)
    \<and> (\<exists>orig \<in> set (sp_chats db). ch_id orig = m \<and> ch_org_id c = ch_org_id orig \<and> ch_device_id c = ch_device_id orig
          \<and> ch_device_user_id c = ch_device_user_id orig \<and> ch_device_user_id c \<noteq> None)"
proof -
  from assms obtain orig where orig: "scope_get p ch_id ch_org_id (sp_chats db) m = Inr orig"
    and u: "ch_device_user_id orig \<noteq> None" and db': "db' = db\<lparr>sp_chats := sp_chats db @ [c]\<rparr>"
    and role: "is_super_admin p \<or> pr_role p = ROLE_PROJECT_CENTER"
    and c: "c = \<lparr>ch_id = fresh, ch_org_id = ch_org_id orig, ch_device_id = ch_device_id orig,
         ch_device_user_id = ch_device_user_id orig, ch_project_center_id = Some (ch_org_id orig),
         ch_message = strip message, ch_sender_role = Some SENDER_PROJECT_CENTER, ch_created_at = now\<rparr>"
    by (auto simp: reply_message_endpoint_def reply_def bind_res_eq_Inr add_chat_Inr clean_message_def fail_def
        require_role_def guard_res_eq_Inr split: if_splits)
  with scope_get_Inr [OF orig] show ?thesis by auto
qed

section \<open>Where messages arrive\<close>

lemma support_request_tables:
  "sp_devices (commit (support_request r) db) = sp_devices db
    \<and> sp_assignments (commit (support_request r) db) = sp_assignments db"
proof -
  obtain p fresh now op where r: "r = (p, fresh, now, op)" by (cases r)
  show ?thesis by (cases op) (auto simp: r commit_def dest: send_Inr reply_Inr split: sum.splits)
qed

lemma support_run_tables:
  "sp_devices (support_run rs db) = sp_devices db \<and> sp_assignments (support_run rs db) = sp_assignments db"
  by (induction rs arbitrary: db) (simp_all add: support_request_tables)

lemma support_run_append: "support_run (rs @ [r]) db = commit (support_request r) (support_run rs db)"
  by (induction rs arbitrary: db) simp_all

lemma opens_tables: "sp_assignments db' = sp_assignments db \<Longrightarrow> opens db' c r = opens db c r"
  by (auto simp: opens_def split: prod.splits support_op.splits)

lemma opens_same: "ch_device_user_id c = ch_device_user_id o' \<Longrightarrow> ch_device_id c = ch_device_id o' \<Longrightarrow>
    ch_org_id c = ch_org_id o' \<Longrightarrow> opens db c r = opens db o' r"
  by (auto simp: opens_def split: prod.splits support_op.splits)

lemma chats_opened:
  "sp_chats db = [] \<Longrightarrow> c \<in> set (sp_chats (support_run rs db)) \<Longrightarrow> \<exists>r \<in> set rs. opens db c r"
proof (induction rs arbitrary: c rule: rev_induct)
  case (snoc r rs)
  let ?db = "support_run rs db"
  obtain p fresh now op where r: "r = (p, fresh, now, op)" by (cases r)
  show ?case
  proof (cases "support_request r ?db")
    case (Inl e)
    with snoc show ?thesis by (fastforce simp: support_run_append commit_def)
  next
    case (Inr res)
    then obtain c' db' where res: "support_request r ?db = Inr (c', db')" by (cases res) auto
    have new: "db' = ?db\<lparr>sp_chats := sp_chats ?db @ [c']\<rparr>"
      using res by (cases op) (auto simp: r dest: send_Inr reply_Inr)
    show ?thesis
    proof (cases "c = c'")
      case False
      with snoc.prems res new have "c \<in> set (sp_chats ?db)" by (simp add: support_run_append commit_def)
      with snoc show ?thesis by fastforce
    next
      case True
      show ?thesis
      proof (cases op)
        case (Send d m)
        with res True send_Inr have "opens ?db c r" by (auto simp: r)
        then show ?thesis using support_run_tables [of rs db] by (simp add: opens_tables [of ?db db])
      next
        case (Reply mid m)
        with res r have "reply_message_endpoint p fresh now mid m ?db = Inr (c', db')" by simp
        from reply_Inr [OF this] True obtain o' where
          "o' \<in> set (sp_chats ?db)" "ch_device_user_id c = ch_device_user_id o'" "ch_device_id c = ch_device_id o'"
          "ch_org_id c = ch_org_id o'" by auto
        with snoc.IH [OF snoc.prems(1)] opens_same [of c o'] show ?thesis by fastforce
      qed
    qed
  qed
qed simp

text \<open>C20. Conversations are private and start with their user: whatever requests were made on an empty chat, a
  Device_User is shown only messages of its own organization and its own thread, and every thread, replies
  included, was opened by a message of that very user about a device it was assigned to (or by a Super_Admin):
  nobody can put a message into the list of a user who never wrote.\<close>

theorem support_threads_private:
  assumes "sp_chats db = []" "is_device_user v" "list_messages v device_id (support_run rs db) = Inr cs" "c \<in> set cs"
  shows "ch_org_id c = coerce_org_id (pr_org_id v) \<and> ch_device_user_id c = parse_uuid (pr_user_id v)
    \<and> (\<exists>r \<in> set rs. opens db c r)"
proof -
  have "\<not> is_super_admin v" using assms(2)
    by (simp add: is_device_user_def is_super_admin_def ROLE_DEVICE_USER_def ROLE_SUPER_ADMIN_def)
  with assms(2-4) have "c \<in> set (sp_chats (support_run rs db))" "ch_org_id c = coerce_org_id (pr_org_id v)"
    "ch_device_user_id c = parse_uuid (pr_user_id v)"
    by (auto simp: list_messages_def bind_res_eq_Inr caller_uuid_def scope_select_def scope_bypass_def
        split: option.splits)
  with chats_opened [OF assms(1)] show ?thesis by simp
qed

text \<open>Delivery is exact: an accepted message or reply appears in the list of a caller exactly when that is the
  Super_Admin, somebody of the organization of the device that is no Device_User, or the Device_User whose
  thread it is; a reply goes to the thread, device and organization of the message it answers.\<close>

theorem support_delivery_exact:
  assumes "support_request (p, fresh, now, op) db = Inr (c, db')" "is_uuid (pr_org_id q)"
    and "list_messages q None db' = Inr cs"
  shows "(c \<in> set cs \<longleftrightarrow> is_super_admin q
      \<or> pr_org_id q = ch_org_id c \<and> (is_device_user q \<longrightarrow> parse_uuid (pr_user_id q) = ch_device_user_id c))
    \<and> (case op of
        Send d message \<Rightarrow> ch_device_id c = Some d \<and> ch_device_user_id c = parse_uuid (pr_user_id p) \<and> ch_message c = strip message
      | Reply m message \<Rightarrow> (\<exists>orig \<in> set (sp_chats db). ch_id orig = m \<and> ch_org_id c = ch_org_id orig
          \<and> ch_device_id c = ch_device_id orig \<and> ch_device_user_id c = ch_device_user_id orig))"
proof
  have role: "is_device_user q \<Longrightarrow> \<not> is_super_admin q"
    by (simp add: is_device_user_def is_super_admin_def ROLE_DEVICE_USER_def ROLE_SUPER_ADMIN_def)
  have "c \<in> set (sp_chats db')" using assms(1) by (cases op) (auto dest: send_Inr reply_Inr)
  with assms(2,3) role show "c \<in> set cs \<longleftrightarrow> is_super_admin q
      \<or> pr_org_id q = ch_org_id c \<and> (is_device_user q \<longrightarrow> parse_uuid (pr_user_id q) = ch_device_user_id c)"
    by (auto simp: list_messages_def bind_res_eq_Inr caller_uuid_def scope_select_def scope_bypass_def coerce_canonical
        split: option.splits if_splits)
  show "case op of
        Send d message \<Rightarrow> ch_device_id c = Some d \<and> ch_device_user_id c = parse_uuid (pr_user_id p) \<and> ch_message c = strip message
      | Reply m message \<Rightarrow> (\<exists>orig \<in> set (sp_chats db). ch_id orig = m \<and> ch_org_id c = ch_org_id orig
          \<and> ch_device_id c = ch_device_id orig \<and> ch_device_user_id c = ch_device_user_id orig)"
  proof (cases op)
    case (Send d m)
    with assms(1) send_Inr [of p fresh now d m db c db'] show ?thesis by (simp add: opens_def)
  next
    case (Reply mid m)
    with assms(1) reply_Inr [of p fresh now mid m db c db'] show ?thesis by auto
  qed
qed

section \<open>The changelog\<close>

record changelog =
  cl_id :: uuid
  cl_version :: "string option"
  cl_title :: "string option"
  cl_body :: "string option"
  cl_published_at :: "timestamp option"

record changelog_db =
  cd_entries :: "changelog list"
  cd_users :: "(uuid \<times> timestamp option) list"

definition given :: "string option \<Rightarrow> bool" where
  "given s = (case s of None \<Rightarrow> False | Some x \<Rightarrow> x \<noteq> [])"

definition publish_entry ::
  "uuid \<Rightarrow> timestamp \<Rightarrow> string option \<Rightarrow> string option \<Rightarrow> string option \<Rightarrow> bool \<Rightarrow> timestamp option \<Rightarrow> changelog_db
     \<Rightarrow> (changelog \<times> changelog_db) result" where
  "publish_entry fresh now version title body publish published_at db =
     bind_res (guard_res (\<not> (given title \<or> given body \<or> given version)) (ValidationError ''changelog_empty'')) (\<lambda>_.
       let stamp = (if publish then Some (case published_at of Some t \<Rightarrow> t | None \<Rightarrow> now) else None);
           entry = \<lparr>cl_id = fresh, cl_version = version, cl_title = title, cl_body = body, cl_published_at = stamp\<rparr> in
     bind_res (insert_row cl_id entry (cd_entries db)) (\<lambda>rows. Inr (entry, db\<lparr>cd_entries := rows\<rparr>)))"

text \<open>\<open>WHERE published_at IS NOT NULL\<close>, newest first.\<close>

definition newest_first :: "changelog list \<Rightarrow> changelog list" where
  "newest_first rows = sort_key (\<lambda>e. case cl_published_at e of Some t \<Rightarrow> - t | None \<Rightarrow> 0) rows"

definition list_published :: "changelog_db \<Rightarrow> changelog list" where
  "list_published db = newest_first (filter (\<lambda>e. cl_published_at e \<noteq> None) (cd_entries db))"

definition coerce_user_id :: "string \<Rightarrow> uuid result" where
  "coerce_user_id user_id = (case parse_uuid user_id of Some u \<Rightarrow> Inr u | None \<Rightarrow> fail (ValidationError ''validation_error''))"

definition changelog_user :: "changelog_db \<Rightarrow> string \<Rightarrow> (uuid \<times> timestamp option) result" where
  "changelog_user db user_id =
     bind_res (coerce_user_id user_id) (\<lambda>u.
       case tbl_get fst (cd_users db) u of None \<Rightarrow> fail (NotFoundError ''not_found'') | Some row \<Rightarrow> Inr row)"

fun unseen_by :: "timestamp option \<Rightarrow> changelog \<Rightarrow> bool" where
  "unseen_by seen_at e =
     (case cl_published_at e of
        None \<Rightarrow> False
      | Some t \<Rightarrow> (case seen_at of None \<Rightarrow> True | Some s \<Rightarrow> t > s))"

declare unseen_by.simps [simp del]

definition list_unseen_for_user :: "string \<Rightarrow> changelog_db \<Rightarrow> changelog list result" where
  "list_unseen_for_user user_id db =
     bind_res (changelog_user db user_id) (\<lambda>(u, seen_at).
       Inr (newest_first (filter (unseen_by seen_at) (cd_entries db))))"

definition mark_seen :: "string \<Rightarrow> timestamp \<Rightarrow> timestamp option \<Rightarrow> changelog_db \<Rightarrow> (timestamp \<times> changelog_db) result" where
  "mark_seen user_id now seen_at db =
     bind_res (changelog_user db user_id) (\<lambda>(u, _).
       let marker0 = (case seen_at of Some t \<Rightarrow> t | None \<Rightarrow> now);
           latest = (case list_published db of [] \<Rightarrow> None | e # _ \<Rightarrow> cl_published_at e);
           marker = (case latest of None \<Rightarrow> marker0 | Some t \<Rightarrow> if t > marker0 then t else marker0)
       in Inr (marker, db\<lparr>cd_users := tbl_put fst (u, Some marker) (cd_users db)\<rparr>))"

definition unseen_endpoint :: "principal \<Rightarrow> changelog_db \<Rightarrow> (bool \<times> changelog list) result" where
  "unseen_endpoint p db =
     bind_res (list_unseen_for_user (pr_user_id p) db) (\<lambda>entries. Inr (0 < length entries, entries))"

lemma latest_published:
  assumes "e \<in> set (cd_entries db)" "cl_published_at e = Some t"
  obtains e' es t' where "list_published db = e' # es" "cl_published_at e' = Some t'" "t \<le> t'"
proof -
  let ?key = "\<lambda>e. case cl_published_at e of Some t \<Rightarrow> - t | None \<Rightarrow> 0"
  have e: "e \<in> set (list_published db)" using assms by (simp add: list_published_def newest_first_def)
  then obtain e' es where l: "list_published db = e' # es" by (cases "list_published db") auto
  have "sorted (map ?key (list_published db))" by (simp add: list_published_def newest_first_def)
  with e l have "?key e' \<le> ?key e" by auto
  moreover have "e' \<in> set (list_published db)" using l by simp
  then have "cl_published_at e' \<noteq> None" by (simp add: list_published_def newest_first_def)
  ultimately show thesis using that l assms(2) by fastforce
qed

lemma mark_seen_Inr:
  assumes "mark_seen user_id now seen_at db = Inr (marker, db')"
  shows "\<exists>u seen. changelog_user db user_id = Inr (u, seen) \<and> db' = db\<lparr>cd_users := tbl_put fst (u, Some marker) (cd_users db)\<rparr>"
    and "e \<in> set (cd_entries db) \<Longrightarrow> cl_published_at e = Some t \<Longrightarrow> t \<le> marker"
proof -
  show "\<exists>u seen. changelog_user db user_id = Inr (u, seen) \<and> db' = db\<lparr>cd_users := tbl_put fst (u, Some marker) (cd_users db)\<rparr>"
    using assms by (auto simp: mark_seen_def bind_res_eq_Inr Let_def)
  assume "e \<in> set (cd_entries db)" "cl_published_at e = Some t"
  then obtain e' es t' where l: "list_published db = e' # es" "cl_published_at e' = Some t'" "t \<le> t'"
    by (rule latest_published)
  with assms show "t \<le> marker" by (auto simp: mark_seen_def bind_res_eq_Inr Let_def split: if_splits)
qed

lemma marked_user:
  "changelog_user db user_id = Inr (u, seen) \<Longrightarrow>
   changelog_user (db\<lparr>cd_users := tbl_put fst (u, m) (cd_users db)\<rparr>) user_id = Inr (u, m)"
proof -
  assume "changelog_user db user_id = Inr (u, seen)"
  then obtain k where k: "coerce_user_id user_id = Inr k" "tbl_get fst (cd_users db) k = Some (u, seen)"
    by (auto simp: changelog_user_def bind_res_eq_Inr fail_def split: option.splits)
  from tbl_get_Some [OF k(2)] k show ?thesis by (simp add: changelog_user_def tbl_get_put)
qed

text \<open>The popup shows each entry once or never: after a user has dismissed it nothing that was published until
  then is shown again, whether the user had been shown it or it appeared between the fetch of the popup and
  its dismissal; and an entry stored afterwards is shown exactly when it is published and later than the marker.\<close>

theorem popup_by_marker:
  assumes "mark_seen user_id now seen_at db = Inr (marker, db')"
    and "publish_entry fresh later version title body publish None db' = Inr (entry, db'')"
  shows "list_unseen_for_user user_id db' = Inr []
    \<and> list_unseen_for_user user_id db'' = Inr (if publish \<and> marker < later then [entry] else [])"
proof -
  obtain u seen where u: "changelog_user db user_id = Inr (u, seen)"
    and db': "db' = db\<lparr>cd_users := tbl_put fst (u, Some marker) (cd_users db)\<rparr>"
    using mark_seen_Inr(1) [OF assms(1)] by blast
  have user: "changelog_user db' user_id = Inr (u, Some marker)" unfolding db' by (rule marked_user [OF u])
  have old: "\<forall>e \<in> set (cd_entries db'). case cl_published_at e of None \<Rightarrow> True | Some t \<Rightarrow> \<not> t > marker"
    using mark_seen_Inr(2) [OF assms(1)] by (force simp: db' split: option.splits)
  then have none_left: "filter (unseen_by (Some marker)) (cd_entries db') = []"
    by (auto simp: filter_empty_conv unseen_by.simps split: option.splits)
  from assms(2) have db'': "db'' = db'\<lparr>cd_entries := cd_entries db' @ [entry]\<rparr>"
    and entry: "cl_published_at entry = (if publish then Some later else None)"
    by (auto simp: publish_entry_def bind_res_eq_Inr insert_row_Inr Let_def)
  have "changelog_user db'' user_id = Inr (u, Some marker)" using user by (simp add: db'' changelog_user_def)
  then have "list_unseen_for_user user_id db'' = Inr (newest_first (filter (unseen_by (Some marker)) (cd_entries db' @ [entry])))"
    by (simp add: list_unseen_for_user_def db'')
  also have "\<dots> = Inr (if publish \<and> marker < later then [entry] else [])"
    unfolding filter_append none_left using entry by (simp add: newest_first_def unseen_by.simps)
  finally have "list_unseen_for_user user_id db'' = Inr (if publish \<and> marker < later then [entry] else [])" .
  moreover have "list_unseen_for_user user_id db' = Inr (newest_first (filter (unseen_by (Some marker)) (cd_entries db')))"
    using user by (simp add: list_unseen_for_user_def)
  then have "list_unseen_for_user user_id db' = Inr []" unfolding none_left by (simp add: newest_first_def)
  ultimately show ?thesis by blast
qed

section \<open>Examples\<close>

definition ex_centre :: uuid where "ex_centre = ''0123abcd-0123-4567-89ab-0123456789ab''"
definition ex_customer :: uuid where "ex_customer = ''1123abcd-0123-4567-89ab-0123456789ab''"
definition ex_owner :: uuid where "ex_owner = ''2123abcd-0123-4567-89ab-0123456789ab''"

lemma ex_uuids [simp]: "parse_uuid ex_centre = Some ex_centre" "parse_uuid ex_customer = Some ex_customer"
  "parse_uuid ex_owner = Some ex_owner" "is_uuid ex_centre"
  unfolding ex_centre_def ex_customer_def ex_owner_def by code_simp+

definition ex_support :: support_db where
  "ex_support = \<lparr>sp_devices = [\<lparr>fd_id = ''d1'', fd_org_id = ex_centre, fd_device_uid = None, fd_label = None,
       fd_group_id = None, fd_node_id = None, fd_status = ''online'', fd_maintenance_mode = False,
       fd_is_simulator = False, fd_sim_interval_sec = 0, fd_template_id = None\<rparr>],
     sp_assignments = [\<lparr>da_device_id = ''d1'', da_user_id = ex_customer, da_org_id = ex_centre\<rparr>], sp_chats = []\<rparr>"

definition ex_sender :: principal where
  "ex_sender = \<lparr>pr_user_id = ex_customer, pr_org_id = ex_centre, pr_role = ROLE_DEVICE_USER\<rparr>"

definition ex_support_manager :: principal where
  "ex_support_manager = \<lparr>pr_user_id = ex_owner, pr_org_id = ex_centre, pr_role = ROLE_PROJECT_CENTER\<rparr>"

lemmas ex_support_defs = ex_support_def ex_sender_def ex_support_manager_def ROLE_DEVICE_USER_def
  ROLE_PROJECT_CENTER_def ROLE_SUPER_ADMIN_def is_super_admin_def is_device_user_def scope_bypass_def

lemma ex_send:
  "\<exists>c. support_request (ex_sender, ''m1'', 5, Send ''d1'' ''help'') ex_support = Inr (c, ex_support\<lparr>sp_chats := [c]\<rparr>)
     \<and> ch_id c = ''m1'' \<and> ch_org_id c = ex_centre \<and> ch_device_user_id c = Some ex_customer"
  by (simp add: send_message_endpoint_def send_user_message_def require_role_def message_length_ok_def
      clean_message_def strip_def is_space_def scope_get_def assert_user_assigned_def caller_uuid_def add_chat_def insert_row_def
      ex_support_defs)

theorem support_threads_private_witness:
  "\<exists>c. list_messages ex_sender None (support_run [(ex_sender, ''m1'', 5, Send ''d1'' ''help'')] ex_support) = Inr [c]
    \<and> opens ex_support c (ex_sender, ''m1'', 5, Send ''d1'' ''help'')"
proof -
  obtain c where c: "support_request (ex_sender, ''m1'', 5, Send ''d1'' ''help'') ex_support
      = Inr (c, ex_support\<lparr>sp_chats := [c]\<rparr>)" "ch_org_id c = ex_centre" "ch_device_user_id c = Some ex_customer"
    using ex_send by blast
  have l: "list_messages ex_sender None (support_run [(ex_sender, ''m1'', 5, Send ''d1'' ''help'')] ex_support) = Inr [c]"
    using c by (simp add: commit_def list_messages_def scope_select_def caller_uuid_def coerce_canonical del: support_request.simps)
      (simp add: ex_support_defs coerce_canonical)
  have "is_device_user ex_sender" "sp_chats ex_support = []" by (simp_all add: ex_support_defs)
  from support_threads_private [OF this(2,1) l] l show ?thesis by auto
qed

theorem support_delivery_exact_witness:
  "\<exists>c. list_messages ex_support_manager None (support_run [(ex_sender, ''m1'', 5, Send ''d1'' ''help'')] ex_support) = Inr [c]
    \<and> ch_device_user_id c = Some ex_customer"
proof -
  obtain c where c: "support_request (ex_sender, ''m1'', 5, Send ''d1'' ''help'') ex_support
      = Inr (c, ex_support\<lparr>sp_chats := [c]\<rparr>)" "ch_org_id c = ex_centre"
    using ex_send by blast
  have l: "list_messages ex_support_manager None (ex_support\<lparr>sp_chats := [c]\<rparr>) = Inr [c]"
    using c(2) by (simp add: list_messages_def scope_select_def coerce_canonical ex_support_defs)
  have "is_uuid (pr_org_id ex_support_manager)" by (simp add: ex_support_manager_def)
  from support_delivery_exact [OF c(1) this l] c l show ?thesis
    by (simp add: commit_def ex_sender_def del: support_request.simps)
qed

theorem popup_by_marker_witness:
  "\<exists>m db' e db''. mark_seen ex_customer 7 None \<lparr>cd_entries = [], cd_users = [(ex_customer, None)]\<rparr> = Inr (m, db')
    \<and> publish_entry ''e1'' 9 (Some ''1.2'') None None True None db' = Inr (e, db'')
    \<and> list_unseen_for_user ex_customer db'' = Inr [e]"
proof -
  have m: "mark_seen ex_customer 7 None \<lparr>cd_entries = [], cd_users = [(ex_customer, None)]\<rparr>
      = Inr (7, \<lparr>cd_entries = [], cd_users = [(ex_customer, Some 7)]\<rparr>)"
    by (simp add: mark_seen_def changelog_user_def coerce_user_id_def list_published_def newest_first_def)
  obtain e db'' where p: "publish_entry ''e1'' 9 (Some ''1.2'') None None True None
      \<lparr>cd_entries = [], cd_users = [(ex_customer, Some 7)]\<rparr> = Inr (e, db'')"
    by (simp add: publish_entry_def given_def insert_row_def Let_def)
  from popup_by_marker [OF m p] m p show ?thesis by simp
qed

end
