(* ===== verification/Settings.thy ===== *)
theory Settings imports Redis Access Delivery Calendar
begin

text \<open>
  Operating the platform: the settings with their Redis cache (\<open>app/core/settings_loader.py\<close>), the
  brute-force protection and the error log of \<open>app/services/admin_ops_service.py\<close> and the maintenance
  switch of \<open>app/api/v1/admin_ops.py\<close>.  Redis comes through the locale \<open>redis_keys\<close>; \<open>dumps\<close> and \<open>loads\<close> are
  those of \<open>json\<close>.  The lemmas show that one server keeps its settings and that two do not, exactly when
  an address is blocked, and where the maintenance switch ends up.
\<close>

section \<open>Settings\<close>

definition CACHE_PREFIX :: string where "CACHE_PREFIX = ''platform_settings:''"

definition price_tier :: "int \<Rightarrow> json \<Rightarrow> int \<Rightarrow> json" where
  "price_tier lo hi price = JObj [(''min'', JInt lo), (''max'', hi), (''unit_price'', JInt price)]"

definition plan_setting :: "json \<Rightarrow> json \<Rightarrow> int \<Rightarrow> int \<Rightarrow> json \<Rightarrow> json" where
  "plan_setting devices messages retention sensors rules =
     JObj [(''devices'', devices), (''messages_per_month'', messages), (''retention_days'', JInt retention),
       (''sensors'', JInt sensors), (''rules'', rules)]"

definition DEFAULT_SETTINGS :: "(string \<times> json) list" where
  "DEFAULT_SETTINGS =
     [(''pricing_tiers_monthly'', JArr [price_tier 1 (JInt 10) 99, price_tier 11 (JInt 50) 79,
         price_tier 51 (JInt 200) 69, price_tier 201 JNull 59]),
      (''annual_unit_price'', JInt 948),
      (''plan_limits'', JObj [(''free'', plan_setting (JInt 2) (JInt 20000) 7 10 (JInt 2)),
         (''pro'', plan_setting JNull JNull 90 20 JNull)]),
      (''jwt_access_ttl_seconds'', JInt 900), (''jwt_refresh_ttl_seconds'', JInt 2592000),
      (''rate_limits'', JObj [(''per_ip_per_min'', JInt 120), (''per_org_per_min'', JInt 600)]),
      (''twofa_required'', JBool False), (''commission_default'', JInt 50), (''refund_window_days'', JInt 14)]"

text \<open>The source of truth is a dictionary in the memory of one server process.  Python's \<open>None\<close> is \<open>JNull\<close>.\<close>

record json_codec =
  jc_dumps :: "json \<Rightarrow> string"
  jc_loads :: "string \<Rightarrow> json option"

type_synonym 'm cache = "('m, string, string) kv_cmds"

definition cached_setting :: "'m cache \<Rightarrow> json_codec \<Rightarrow> timestamp \<Rightarrow> string \<Rightarrow> 'm option \<Rightarrow> json option" where
  "cached_setting K C t key redis =
     (case redis of
        None \<Rightarrow> None
      | Some m \<Rightarrow> (case kv_get K t m (CACHE_PREFIX @ key) of None \<Rightarrow> None | Some txt \<Rightarrow> jc_loads C txt))"

definition cache_setting :: "'m cache \<Rightarrow> json_codec \<Rightarrow> int \<Rightarrow> timestamp \<Rightarrow> string \<Rightarrow> json \<Rightarrow> 'm option \<Rightarrow> 'm option" where
  "cache_setting K C ttl t key v = map_option (kv_set K t (CACHE_PREFIX @ key) (jc_dumps C v) (Some ttl))"

definition get_setting ::
  "'m cache \<Rightarrow> json_codec \<Rightarrow> int \<Rightarrow> timestamp \<Rightarrow> string \<Rightarrow> json \<Rightarrow> (string \<rightharpoonup> json) \<Rightarrow> 'm option \<Rightarrow> json \<times> 'm option" where
  "get_setting K C ttl t key dflt source redis =
     (case cached_setting K C t key redis of
        Some v \<Rightarrow> (v, redis)
      | None \<Rightarrow>
          (let value = (case source key of None \<Rightarrow> JNull | Some v \<Rightarrow> v) in
           if value = JNull then (if dflt \<noteq> JNull then dflt else dict_get DEFAULT_SETTINGS key, redis)
           else (value, cache_setting K C ttl t key value redis)))"

definition set_setting ::
  "'m cache \<Rightarrow> json_codec \<Rightarrow> int \<Rightarrow> timestamp \<Rightarrow> string \<Rightarrow> json \<Rightarrow> (string \<rightharpoonup> json) \<Rightarrow> 'm option \<Rightarrow> (string \<rightharpoonup> json) \<times> 'm option" where
  "set_setting K C ttl t key v source redis = (source(key \<mapsto> v), cache_setting K C ttl t key v redis)"

fun apply_settings ::
  "'m cache \<Rightarrow> json_codec \<Rightarrow> int \<Rightarrow> timestamp \<Rightarrow> (string \<times> json) list \<Rightarrow> (string \<rightharpoonup> json) \<Rightarrow> 'm option
     \<Rightarrow> (string \<rightharpoonup> json) \<times> 'm option" where
  "apply_settings K C ttl t [] source redis = (source, redis)"
| "apply_settings K C ttl t ((key, v) # updates) source redis =
     (let (source', redis') = set_setting K C ttl t key v source redis
      in apply_settings K C ttl t updates source' redis')"

text \<open>Several server processes share one Redis.\<close>

record 'm servers =
  sv_source :: "nat \<Rightarrow> string \<rightharpoonup> json"
  sv_redis :: "'m option"

datatype setting_op = Get_setting nat string json | Set_setting nat string json

fun settings_step ::
  "'m cache \<Rightarrow> json_codec \<Rightarrow> int \<Rightarrow> timestamp \<times> setting_op \<Rightarrow> 'm servers \<Rightarrow> json option \<times> 'm servers" where
  "settings_step K C ttl (t, Get_setting i key dflt) w =
     (let (v, redis) = get_setting K C ttl t key dflt (sv_source w i) (sv_redis w)
      in (Some v, w\<lparr>sv_redis := redis\<rparr>))"
| "settings_step K C ttl (t, Set_setting i key v) w =
     (let (source, redis) = set_setting K C ttl t key v (sv_source w i) (sv_redis w)
      in (None, w\<lparr>sv_source := (sv_source w)(i := source), sv_redis := redis\<rparr>))"

fun settings_run ::
  "'m cache \<Rightarrow> json_codec \<Rightarrow> int \<Rightarrow> (timestamp \<times> setting_op) list \<Rightarrow> 'm servers \<Rightarrow> json option list" where
  "settings_run K C ttl [] w = []"
| "settings_run K C ttl (op # ops) w =
     (let (r, w') = settings_step K C ttl op w in r # settings_run K C ttl ops w')"

section \<open>Blocking addresses\<close>

definition DEFAULT_FAILED_LOGIN_THRESHOLD :: int where "DEFAULT_FAILED_LOGIN_THRESHOLD = 5"
definition DEFAULT_LOGIN_WINDOW_SECONDS :: int where "DEFAULT_LOGIN_WINDOW_SECONDS = 15 * 60"
definition DEFAULT_BLOCK_DURATION_SECONDS :: int where "DEFAULT_BLOCK_DURATION_SECONDS = 60 * 60"

text \<open>\<open>int(v)\<close>.\<close>

definition py_int_of :: "json \<Rightarrow> int result" where
  "py_int_of v =
     (case v of
        JInt n \<Rightarrow> Inr n
      | JBool b \<Rightarrow> Inr (if b then 1 else 0)
      | JFloat x \<Rightarrow> Inr (py_int x)
      | JStr s \<Rightarrow> (case int_text (strip s) of Some n \<Rightarrow> Inr n | None \<Rightarrow> Inl ValueError)
      | _ \<Rightarrow> Inl TypeError)"

record login_policy =
  lp_threshold :: int
  lp_window_seconds :: int
  lp_block_seconds :: int

definition failed_login_policy :: "json \<Rightarrow> login_policy result" where
  "failed_login_policy setting =
     (let policy = (case as_dict setting of Some d \<Rightarrow> d | None \<Rightarrow> []) in
      bind_res (py_int_of (dict_or policy ''threshold'' (JInt DEFAULT_FAILED_LOGIN_THRESHOLD))) (\<lambda>threshold.
      bind_res (py_int_of (dict_or policy ''window_seconds'' (JInt DEFAULT_LOGIN_WINDOW_SECONDS))) (\<lambda>window.
      bind_res (py_int_of (dict_or policy ''block_seconds'' (JInt DEFAULT_BLOCK_DURATION_SECONDS))) (\<lambda>block.
        Inr \<lparr>lp_threshold = max 1 threshold, lp_window_seconds = max 1 window, lp_block_seconds = max 1 block\<rparr>))))"

record login_attempt =
  la_ip :: "string option"
  la_email :: "string option"
  la_success :: bool
  la_created_at :: timestamp

record blocked_ip =
  bi_ip :: string
  bi_reason :: "string option"
  bi_blocked_until :: "timestamp option"

record security_db =
  sd_attempts :: "login_attempt list"
  sd_blocked :: "blocked_ip list"

definition block_ip :: "timestamp \<Rightarrow> string \<Rightarrow> string \<Rightarrow> int \<Rightarrow> security_db \<Rightarrow> blocked_ip \<times> security_db" where
  "block_ip now ip reason block_seconds db =
     (let b = \<lparr>bi_ip = ip, bi_reason = Some reason, bi_blocked_until = Some (now + usec block_seconds)\<rparr> in
      (b, db\<lparr>sd_blocked := (if tbl_get bi_ip (sd_blocked db) ip \<noteq> None then tbl_put bi_ip b (sd_blocked db)
                            else sd_blocked db @ [b])\<rparr>))"

definition recent_failures :: "security_db \<Rightarrow> string \<Rightarrow> timestamp \<Rightarrow> nat" where
  "recent_failures db ip since =
     length (filter (\<lambda>a. la_ip a = Some ip \<and> \<not> la_success a \<and> since \<le> la_created_at a) (sd_attempts db))"

definition record_login_attempt ::
  "json \<Rightarrow> timestamp \<Rightarrow> string option \<Rightarrow> string option \<Rightarrow> bool \<Rightarrow> security_db \<Rightarrow> (blocked_ip option \<times> security_db) result" where
  "record_login_attempt setting now ip email success db =
     (let db' = db\<lparr>sd_attempts := sd_attempts db @ [\<lparr>la_ip = ip, la_email = email, la_success = success, la_created_at = now\<rparr>]\<rparr> in
      case ip of
        None \<Rightarrow> Inr (None, db')
      | Some addr \<Rightarrow>
          if success \<or> addr = [] then Inr (None, db')
          else bind_res (failed_login_policy setting) (\<lambda>policy.
            if int (recent_failures db' addr (now - usec (lp_window_seconds policy))) < lp_threshold policy then Inr (None, db')
            else (let (b, db'') = block_ip now addr (''Exceeded '' @ int_str (lp_threshold policy) @ '' failed login attempts'')
                    (lp_block_seconds policy) db'
                  in Inr (Some b, db''))))"

definition is_ip_blocked :: "timestamp \<Rightarrow> string option \<Rightarrow> security_db \<Rightarrow> bool" where
  "is_ip_blocked now ip db =
     (case ip of
        None \<Rightarrow> False
      | Some addr \<Rightarrow>
          if addr = [] then False
          else (case tbl_get bi_ip (sd_blocked db) addr of
              None \<Rightarrow> False
            | Some b \<Rightarrow> (case bi_blocked_until b of None \<Rightarrow> True | Some until \<Rightarrow> until > now)))"

section \<open>Health and errors\<close>

text \<open>Whether the database answers, and whether Redis is configured and answers.\<close>

definition service_statuses :: "bool \<Rightarrow> bool option \<Rightarrow> (string \<times> string) list" where
  "service_statuses db_ok redis_ok =
     [(''api'', ''ok''), (''database'', if db_ok then ''ok'' else ''degraded''),
      (''redis'', case redis_ok of None \<Rightarrow> ''unconfigured'' | Some ok \<Rightarrow> if ok then ''ok'' else ''degraded'')]"

record error_log =
  el_message :: string
  el_error_code :: "string option"
  el_user_id :: "uuid option"
  el_org_id :: "uuid option"
  el_device_id :: "uuid option"
  el_detail :: "json option"
  el_created_at :: timestamp

definition coerce_uuid :: "string option \<Rightarrow> uuid option" where
  "coerce_uuid v = (case v of None \<Rightarrow> None | Some s \<Rightarrow> parse_uuid s)"

text \<open>A failing insert rolls back the whole transaction, the caller's pending writes (\<open>pending\<close>) included.\<close>

definition record_error ::
  "bool \<Rightarrow> timestamp \<Rightarrow> string \<Rightarrow> string option \<Rightarrow> string option \<Rightarrow> string option \<Rightarrow> string option
     \<Rightarrow> json option \<Rightarrow> error_log list \<times> 'w list \<Rightarrow> error_log option \<times> error_log list \<times> 'w list" where
  "record_error insert_ok now message code user_id org_id device_id detail db =
     (let (rows, pending) = db;
          entry = \<lparr>el_message = message, el_error_code = code, el_user_id = coerce_uuid user_id,
            el_org_id = coerce_uuid org_id, el_device_id = coerce_uuid device_id,
            el_detail = detail, el_created_at = now\<rparr> in
      if insert_ok then (Some entry, rows @ [entry], pending) else (None, rows, []))"

text \<open>\<open>ORDER BY created_at DESC LIMIT n\<close>; of rows created together, which come first is left open by SQL
  and here the order of insertion.\<close>

definition newest :: "('r \<Rightarrow> timestamp) \<Rightarrow> nat \<Rightarrow> 'r list \<Rightarrow> 'r list" where
  "newest created n rows = take n (sort_key (\<lambda>r. - created r) rows)"

definition recent_errors :: "nat \<Rightarrow> error_log list \<Rightarrow> error_log list" where
  "recent_errors n rows = newest el_created_at n rows"

section \<open>Errors by day\<close>

text \<open>A day is its number since the epoch, in UTC.\<close>

definition day_of :: "timestamp \<Rightarrow> int" where
  "day_of t = t div usec_per_day"

definition error_trends :: "timestamp \<Rightarrow> int \<Rightarrow> timestamp list \<Rightarrow> (int \<times> nat) list" where
  "error_trends now days' created =
     (let n = max 1 days'; since_day = day_of (now - (n - 1) * usec_per_day);
          rows = filter (\<lambda>t. since_day * usec_per_day \<le> t) created in
      map (\<lambda>offset. let day = since_day + int offset in (day, length (filter (\<lambda>t. day_of t = day) rows))) [0..<nat n])"

section \<open>The maintenance switch\<close>

definition MAINTENANCE_KEY :: string where "MAINTENANCE_KEY = ''iotaps:maintenance_mode''"

text \<open>The client decodes responses to text, so the comparison with the bytes \<open>b"0"\<close> never holds.\<close>

definition toggle_maintenance :: "'m cache \<Rightarrow> timestamp \<Rightarrow> 'm option \<Rightarrow> bool option \<times> 'm option" where
  "toggle_maintenance K t redis =
     (case redis of
        None \<Rightarrow> (None, None)
      | Some m \<Rightarrow>
          (let new_val = (case kv_get K t m MAINTENANCE_KEY of
               Some current \<Rightarrow> if current \<noteq> [] then ''0'' else ''1''
             | None \<Rightarrow> ''1'')
           in (Some (new_val = ''1''), Some (kv_set K t MAINTENANCE_KEY new_val None m))))"

section \<open>One server and several\<close>

text \<open>The specification: a setting is what was written last, or else the default.\<close>

definition setting_of :: "json \<Rightarrow> (string \<rightharpoonup> json) \<Rightarrow> string \<Rightarrow> json" where
  "setting_of dflt source key =
     (case source key of
        Some v \<Rightarrow> if v \<noteq> JNull then v else if dflt \<noteq> JNull then dflt else dict_get DEFAULT_SETTINGS key
      | None \<Rightarrow> if dflt \<noteq> JNull then dflt else dict_get DEFAULT_SETTINGS key)"

fun spec_settings :: "(timestamp \<times> setting_op) list \<Rightarrow> (string \<rightharpoonup> json) \<Rightarrow> json option list" where
  "spec_settings [] source = []"
| "spec_settings ((t, Get_setting i key dflt) # ops) source = Some (setting_of dflt source key) # spec_settings ops source"
| "spec_settings ((t, Set_setting i key v) # ops) source = None # spec_settings ops (source(key \<mapsto> v))"

fun op_server :: "setting_op \<Rightarrow> nat" where
  "op_server (Get_setting i key dflt) = i"
| "op_server (Set_setting i key v) = i"

fun op_writes :: "(json \<Rightarrow> bool) \<Rightarrow> setting_op \<Rightarrow> bool" where
  "op_writes P (Set_setting i key v) = P v"
| "op_writes P (Get_setting i key dflt) = True"

definition coherent :: "'m cache \<Rightarrow> json_codec \<Rightarrow> timestamp \<Rightarrow> (string \<rightharpoonup> json) \<Rightarrow> 'm option \<Rightarrow> bool" where
  "coherent K C t source redis \<longleftrightarrow>
     (\<forall>m t' key enc. redis = Some m \<and> t \<le> t' \<and> kv_get K t' m (CACHE_PREFIX @ key) = Some enc
        \<longrightarrow> (\<exists>v. source key = Some v \<and> v \<noteq> JNull \<and> enc = jc_dumps C v))"

lemma coherent_later: "coherent K C t source redis \<Longrightarrow> t \<le> t' \<Longrightarrow> coherent K C t' source redis"
  unfolding coherent_def using order_trans [of t t'] by blast

lemma coherentD:
  "coherent K C t source (Some m) \<Longrightarrow> t \<le> t' \<Longrightarrow> kv_get K t' m (CACHE_PREFIX @ key) = Some enc \<Longrightarrow>
   \<exists>v. source key = Some v \<and> v \<noteq> JNull \<and> enc = jc_dumps C v"
  unfolding coherent_def by blast

lemma coherent_cache:
  assumes "redis_keys K" "coherent K C t source redis" "v \<noteq> JNull"
  shows "coherent K C t (source(key \<mapsto> v)) (cache_setting K C ttl t key v redis)"
  unfolding coherent_def
proof (intro allI impI, elim conjE)
  fix m' t' key' enc
  assume c: "cache_setting K C ttl t key v redis = Some m'" "t \<le> t'"
    and get: "kv_get K t' m' (CACHE_PREFIX @ key') = Some enc"
  from c(1) obtain m where m: "redis = Some m" "m' = kv_set K t (CACHE_PREFIX @ key) (jc_dumps C v) (Some ttl) m"
    by (auto simp: cache_setting_def)
  show "\<exists>x. (source(key \<mapsto> v)) key' = Some x \<and> x \<noteq> JNull \<and> enc = jc_dumps C x"
  proof (cases "key' = key")
    case True
    with get m(2) c(2) assms(3) show ?thesis by (simp add: redis_keys.get_set [OF assms(1)] split: if_splits)
  next
    case False
    with get m(2) c(2) have "kv_get K t' m (CACHE_PREFIX @ key') = Some enc"
      by (simp add: redis_keys.get_set [OF assms(1)])
    from coherentD [OF assms(2) [unfolded m(1)] c(2) this] False show ?thesis by simp
  qed
qed

lemma get_setting_spec:
  assumes K: "redis_keys K" and C: "\<forall>x. source key = Some x \<longrightarrow> jc_loads C (jc_dumps C x) = Some x"
    and co: "coherent K C t source redis" and g: "get_setting K C ttl t key dflt source redis = (v, redis')"
  shows "v = setting_of dflt source key \<and> coherent K C t source redis'"
proof (cases "cached_setting K C t key redis")
  case (Some x)
  then obtain m enc where m: "redis = Some m" "kv_get K t m (CACHE_PREFIX @ key) = Some enc" "jc_loads C enc = Some x"
    by (auto simp: cached_setting_def split: option.splits)
  from coherentD [OF co [unfolded m(1)] order_refl m(2)]
  obtain y where "source key = Some y" "y \<noteq> JNull" "enc = jc_dumps C y" by blast
  with m(3) C g Some co show ?thesis by (simp add: get_setting_def setting_of_def)
next
  case None
  show ?thesis
  proof (cases "\<exists>x. source key = Some x \<and> x \<noteq> JNull")
    case True
    then obtain x where x: "source key = Some x" "x \<noteq> JNull" by blast
    then have "source(key \<mapsto> x) = source" by auto
    with coherent_cache [OF K co x(2), of key ttl] g None x show ?thesis
      by (auto simp: get_setting_def setting_of_def simp del: fun_upd_apply)
  next
    case False
    then have "(case source key of None \<Rightarrow> JNull | Some x \<Rightarrow> x) = JNull" by (cases "source key") auto
    with g None co False show ?thesis by (auto simp: get_setting_def setting_of_def split: option.splits)
  qed
qed

text \<open>A codec that is enough for switches.\<close>

definition bool_codec :: json_codec where
  "bool_codec = \<lparr>jc_dumps = (\<lambda>v. if v = JBool True then ''true'' else ''false''),
     jc_loads = (\<lambda>s. if s = ''true'' then Some (JBool True) else if s = ''false'' then Some (JBool False) else None)\<rparr>"



text \<open>C32. Several servers do not: a value written on one server is what another one reads while the cache
  entry lives; once it has expired, the other server reads its own old value and puts that into the
  cache, from where the first server reads it too: the change is gone, on the server that took it as
  well.\<close>

theorem setting_change_undone:
  assumes "redis_keys K" "jc_loads C (jc_dumps C v) = Some v" "jc_loads C (jc_dumps C old) = Some old" "0 < ttl"
    and "a \<noteq> b" "sv_redis w = Some m" "sv_source w b key = Some old" "old \<noteq> JNull"
    and "t0 \<le> soon" "soon < t0 + usec ttl" "t0 + usec ttl \<le> t1" "t1 \<le> t2" "t2 < t1 + usec ttl"
  shows "settings_run K C ttl [(t0, Set_setting a key v), (soon, Get_setting b key d)] w = [None, Some v]
    \<and> settings_run K C ttl [(t0, Set_setting a key v), (t1, Get_setting b key d), (t2, Get_setting a key d)] w
        = [None, Some old, Some old]"
proof -
  have "0 < usec ttl" using assms(4) by (simp add: usec_def)
  then have "t0 \<le> t1" "t0 \<le> t2" using assms(9-13) by linarith+
  with assms(2-13) show ?thesis
    by (simp add: Let_def get_setting_def set_setting_def cached_setting_def cache_setting_def
        redis_keys.get_set [OF assms(1)])
qed

theorem setting_change_undone_witness:
  "settings_run ttl_maps bool_codec 60 [(0, Set_setting 1 ''twofa_required'' (JBool True)),
       (60000000, Get_setting 2 ''twofa_required'' JNull), (60000001, Get_setting 1 ''twofa_required'' JNull)]
     \<lparr>sv_source = (\<lambda>_. [''twofa_required'' \<mapsto> JBool False]), sv_redis = Some Map.empty\<rparr>
   = [None, Some (JBool False), Some (JBool False)]"
  by (rule setting_change_undone [OF tm.redis_keys_axioms, where soon = 1, THEN conjunct2])
    (simp_all add: bool_codec_def usec_def)

fun toggles :: "'m cache \<Rightarrow> timestamp list \<Rightarrow> 'm option \<Rightarrow> bool option list" where
  "toggles K [] redis = []"
| "toggles K (t # ts) redis = (let (b, redis') = toggle_maintenance K t redis in b # toggles K ts redis')"

lemma toggles_off:
  "redis_keys K \<Longrightarrow> sorted ts \<Longrightarrow> \<forall>t \<in> set ts. \<exists>c cs. kv_get K t m MAINTENANCE_KEY = Some (c # cs) \<Longrightarrow>
   toggles K ts (Some m) = replicate (length ts) (Some False)"
proof (induction ts arbitrary: m)
  case (Cons t ts)
  then have "toggle_maintenance K t (Some m) = (Some False, Some (kv_set K t MAINTENANCE_KEY ''0'' None m))"
    by (auto simp: toggle_maintenance_def)
  with Cons show ?case by (simp add: redis_keys.get_set)
qed simp

text \<open>The maintenance switch sticks: the first use turns maintenance on, the second off, and every further
  one leaves it off.\<close>

theorem maintenance_sticks_off:
  assumes "redis_keys K" "sorted (t # ts)" "kv_get K t m MAINTENANCE_KEY = None"
  shows "toggles K (t # ts) (Some m) = Some True # replicate (length ts) (Some False)"
proof -
  have "toggle_maintenance K t (Some m) = (Some True, Some (kv_set K t MAINTENANCE_KEY ''1'' None m))"
    using assms(3) by (simp add: toggle_maintenance_def)
  moreover have "\<forall>t' \<in> set ts. \<exists>c cs. kv_get K t' (kv_set K t MAINTENANCE_KEY ''1'' None m) MAINTENANCE_KEY = Some (c # cs)"
    using assms(2) by (simp add: redis_keys.get_set [OF assms(1)])
  ultimately show ?thesis using toggles_off [OF assms(1)] assms(2) by simp
qed

theorem maintenance_sticks_off_witness:
  "toggles ttl_maps [1, 5, 9] (Some Map.empty) = [Some True, Some False, Some False]"
  using maintenance_sticks_off [OF tm.redis_keys_axioms, of 1 "[5, 9]" Map.empty] by simp

section \<open>When an address is blocked\<close>

fun attempts_run ::
  "json \<Rightarrow> (timestamp \<times> string option \<times> string option \<times> bool) list \<Rightarrow> security_db \<Rightarrow> security_db result" where
  "attempts_run setting [] db = Inr db"
| "attempts_run setting ((now, ip, email, success) # as) db =
     bind_res (record_login_attempt setting now ip email success db) (\<lambda>(_, db'). attempts_run setting as db')"

fun attempt_row :: "timestamp \<times> string option \<times> string option \<times> bool \<Rightarrow> login_attempt" where
  "attempt_row (now, ip, email, success) = \<lparr>la_ip = ip, la_email = email, la_success = success, la_created_at = now\<rparr>"

lemma attempt_row_fields [simp]:
  "la_ip (attempt_row a) = fst (snd a)" "la_email (attempt_row a) = fst (snd (snd a))"
  "la_success (attempt_row a) = snd (snd (snd a))" "la_created_at (attempt_row a) = fst a"
  by (cases a; simp)+

text \<open>The \<open>i\<close>-th attempt reaches the threshold for an address.\<close>

definition reaches :: "login_policy \<Rightarrow> (timestamp \<times> string option \<times> string option \<times> bool) list \<Rightarrow> string \<Rightarrow> nat \<Rightarrow> bool" where
  "reaches p as addr i =
     (let (now, ip, email, success) = as ! i in
      ip = Some addr \<and> addr \<noteq> [] \<and> \<not> success
      \<and> lp_threshold p \<le> int (length (filter (\<lambda>(t, ip', _, ok). ip' = Some addr \<and> \<not> ok \<and> now - usec (lp_window_seconds p) \<le> t)
          (take (Suc i) as))))"

lemma attempts_run_append:
  "attempts_run setting (as @ [a]) db = bind_res (attempts_run setting as db)
     (\<lambda>db'. attempts_run setting [a] db')"
  by (induction setting as db rule: attempts_run.induct) (auto simp: bind_res_def split: sum.splits)

lemma reaches_append: "i < length as \<Longrightarrow> reaches p (as @ [a]) addr i = reaches p as addr i"
  by (simp add: reaches_def nth_append)

lemma reaches_last:
  "reaches p (as @ [(now, ip, email, success)]) addr (length as) \<longleftrightarrow>
     ip = Some addr \<and> addr \<noteq> [] \<and> \<not> success
     \<and> lp_threshold p \<le> int (recent_failures \<lparr>sd_attempts = map attempt_row (as @ [(now, ip, email, success)]), sd_blocked = bs\<rparr>
          addr (now - usec (lp_window_seconds p)))"
  by (auto simp: reaches_def recent_failures_def filter_map comp_def split_def)

text \<open>What the block table says of an address after some attempts.\<close>

fun addr_match ::
  "login_policy \<Rightarrow> (timestamp \<times> string option \<times> string option \<times> bool) list \<Rightarrow> string \<Rightarrow> blocked_ip option \<Rightarrow> bool" where
  "addr_match p as addr None \<longleftrightarrow> (\<forall>i < length as. \<not> reaches p as addr i)"
| "addr_match p as addr (Some b) \<longleftrightarrow>
     (\<exists>i < length as. reaches p as addr i \<and> bi_blocked_until b = Some (fst (as ! i) + usec (lp_block_seconds p))
        \<and> (\<forall>j < length as. reaches p as addr j \<longrightarrow> fst (as ! j) \<le> fst (as ! i)))"

lemma addr_match_keep:
  assumes "addr_match p as addr ob" "\<not> reaches p (as @ [a]) addr (length as)"
  shows "addr_match p (as @ [a]) addr ob"
proof (cases ob)
  case None
  with assms show ?thesis by (auto simp: less_Suc_eq reaches_append)
next
  case (Some b)
  with assms(1) obtain i where "i < length as" "reaches p as addr i"
    "bi_blocked_until b = Some (fst (as ! i) + usec (lp_block_seconds p))"
    "\<forall>j < length as. reaches p as addr j \<longrightarrow> fst (as ! j) \<le> fst (as ! i)" by auto
  with assms(2) Some show ?thesis
    by (auto simp: less_Suc_eq reaches_append nth_append intro!: exI [of _ i])
qed

lemma addr_match_new:
  assumes "reaches p (as @ [a]) addr (length as)" "\<forall>x \<in> set as. fst x \<le> fst a"
    and "bi_blocked_until b = Some (fst a + usec (lp_block_seconds p))"
  shows "addr_match p (as @ [a]) addr (Some b)"
  using assms by (auto simp: less_Suc_eq nth_append intro!: exI [of _ "length as"])

definition blocks_match ::
  "login_policy \<Rightarrow> (timestamp \<times> string option \<times> string option \<times> bool) list \<Rightarrow> security_db \<Rightarrow> bool" where
  "blocks_match p as db \<longleftrightarrow> sd_attempts db = map attempt_row as
     \<and> (\<forall>addr. addr_match p as addr (tbl_get bi_ip (sd_blocked db) addr))"

lemma block_ip_get:
  assumes "block_ip now ip reason s db = (b, db')"
  shows "sd_attempts db' = sd_attempts db" "bi_blocked_until b = Some (now + usec s)"
    and "tbl_get bi_ip (sd_blocked db') addr = (if addr = ip then Some b else tbl_get bi_ip (sd_blocked db) addr)"
  using assms by (auto simp: block_ip_def Let_def tbl_get_put tbl_get_append split: option.splits if_splits)

lemma blocks_match_step:
  assumes "blocks_match p as db" "failed_login_policy setting = Inr p" "\<forall>a \<in> set as. fst a \<le> now"
  shows "\<exists>b db'. record_login_attempt setting now ip email success db = Inr (b, db')
    \<and> blocks_match p (as @ [(now, ip, email, success)]) db'"
proof -
  let ?as = "as @ [(now, ip, email, success)]"
  define db1 where "db1 = db\<lparr>sd_attempts := map attempt_row ?as\<rparr>"
  have rows: "db\<lparr>sd_attempts := sd_attempts db @ [\<lparr>la_ip = ip, la_email = email, la_success = success, la_created_at = now\<rparr>]\<rparr> = db1"
    using assms(1) by (simp add: blocks_match_def db1_def)
  have db1: "db1 = \<lparr>sd_attempts = map attempt_row ?as, sd_blocked = sd_blocked db\<rparr>" by (simp add: db1_def)
  have reach: "reaches p ?as addr (length as) \<longleftrightarrow> ip = Some addr \<and> addr \<noteq> [] \<and> \<not> success
      \<and> lp_threshold p \<le> int (recent_failures db1 addr (now - usec (lp_window_seconds p)))" for addr
    unfolding db1 by (rule reaches_last)
  have match: "addr_match p as addr (tbl_get bi_ip (sd_blocked db1) addr)" for addr
    using assms(1) by (simp add: blocks_match_def db1_def)
  show ?thesis
  proof (cases "\<exists>addr. reaches p ?as addr (length as)")
    case False
    then have "blocks_match p ?as db1" using addr_match_keep [OF match] by (simp add: blocks_match_def db1)
    moreover have "record_login_attempt setting now ip email success db = Inr (None, db1)"
      using False unfolding record_login_attempt_def rows Let_def assms(2) by (auto simp: reach split: option.splits)
    ultimately show ?thesis by blast
  next
    case True
    then obtain addr where r: "reaches p ?as addr (length as)" by blast
    with reach have addr: "ip = Some addr" "addr \<noteq> []" "\<not> success"
      "lp_threshold p \<le> int (recent_failures db1 addr (now - usec (lp_window_seconds p)))" by blast+
    obtain b db2 where b: "block_ip now addr (''Exceeded '' @ int_str (lp_threshold p) @ '' failed login attempts'')
        (lp_block_seconds p) db1 = (b, db2)" by fastforce
    have "addr_match p ?as a (tbl_get bi_ip (sd_blocked db2) a)" for a
    proof (cases "a = addr")
      case True
      with addr_match_new [OF r, of b] assms(3) show ?thesis by (simp add: block_ip_get [OF b])
    next
      case False
      then have "\<not> reaches p ?as a (length as)" using addr(1) reach [of a] by blast
      with addr_match_keep [OF match] False show ?thesis by (simp add: block_ip_get [OF b])
    qed
    then have "blocks_match p ?as db2" using block_ip_get(1) [OF b] by (simp add: blocks_match_def db1)
    moreover have "record_login_attempt setting now ip email success db = Inr (Some b, db2)"
      unfolding record_login_attempt_def rows Let_def assms(2) using addr b by simp
    ultimately show ?thesis by blast
  qed
qed

text \<open>C38. The block is exact: after any run of login attempts, in order of time, from an empty database, an
  address is blocked at a moment exactly when one of its failed attempts was the last of at least \<open>threshold\<close>
  failures from it in the policy's window and the moment lies less than the block's length after that attempt;
  successes in between do not reset the count.  No run fails.\<close>

theorem login_block_exact:
  assumes "failed_login_policy setting = Inr p" "sorted (map fst as)"
  shows "\<exists>db. attempts_run setting as \<lparr>sd_attempts = [], sd_blocked = []\<rparr> = Inr db
    \<and> (\<forall>now addr. is_ip_blocked now (Some addr) db \<longleftrightarrow>
          (\<exists>i < length as. reaches p as addr i \<and> now < fst (as ! i) + usec (lp_block_seconds p)))"
proof -
  have "\<exists>db. attempts_run setting as \<lparr>sd_attempts = [], sd_blocked = []\<rparr> = Inr db \<and> blocks_match p as db"
    using assms(2)
  proof (induction as rule: rev_induct)
    case (snoc a as)
    then obtain db where db: "attempts_run setting as \<lparr>sd_attempts = [], sd_blocked = []\<rparr> = Inr db" "blocks_match p as db"
      by (auto simp: sorted_append)
    obtain now ip email success where a: "a = (now, ip, email, success)" by (cases a)
    with snoc.prems have "\<forall>x \<in> set as. fst x \<le> now" by (auto simp: sorted_append)
    from blocks_match_step [OF db(2) assms(1) this, of ip email success] db(1) a
    show ?case by (auto simp: attempts_run_append)
  qed (simp add: blocks_match_def)
  then obtain db where db: "attempts_run setting as \<lparr>sd_attempts = [], sd_blocked = []\<rparr> = Inr db" "blocks_match p as db"
    by blast
  have "is_ip_blocked now (Some addr) db \<longleftrightarrow>
          (\<exists>i < length as. reaches p as addr i \<and> now < fst (as ! i) + usec (lp_block_seconds p))" for now addr
  proof (cases "tbl_get bi_ip (sd_blocked db) addr")
    case None
    with db(2) have "\<forall>i < length as. \<not> reaches p as addr i" by (metis addr_match.simps(1) blocks_match_def)
    with None show ?thesis by (auto simp: is_ip_blocked_def)
  next
    case (Some b)
    with db(2) have "addr_match p as addr (Some b)" by (metis blocks_match_def)
    then obtain i where i: "i < length as" "reaches p as addr i"
        "bi_blocked_until b = Some (fst (as ! i) + usec (lp_block_seconds p))"
        "\<forall>j < length as. reaches p as addr j \<longrightarrow> fst (as ! j) \<le> fst (as ! i)" by auto
    then have "addr \<noteq> []" by (auto simp: reaches_def Let_def split: prod.splits)
    moreover have "now < fst (as ! j) + usec (lp_block_seconds p) \<Longrightarrow> now < fst (as ! i) + usec (lp_block_seconds p)"
      if "j < length as" "reaches p as addr j" for j
      using i(4) that by fastforce
    ultimately show ?thesis using i Some by (auto simp: is_ip_blocked_def)
  qed
  with db(1) show ?thesis by blast
qed

theorem login_block_exact_witness:
  "\<exists>db. attempts_run JNull (map (\<lambda>t. (usec t, Some ''203.0.113.9'', None, False)) [0, 10, 20, 30, 40])
      \<lparr>sd_attempts = [], sd_blocked = []\<rparr> = Inr db
    \<and> is_ip_blocked (usec 3639) (Some ''203.0.113.9'') db \<and> \<not> is_ip_blocked (usec 3640) (Some ''203.0.113.9'') db"
proof -
  define p where "p = \<lparr>lp_threshold = 5, lp_window_seconds = 900, lp_block_seconds = 3600\<rparr>"
  define as :: "(timestamp \<times> string option \<times> string option \<times> bool) list"
    where "as = map (\<lambda>t. (usec t, Some ''203.0.113.9'', None, False)) [0, 10, 20, 30, 40]"
  have p: "failed_login_policy JNull = Inr p"
    by (simp add: p_def failed_login_policy_def as_dict.simps dict_or_def py_int_of_def
        DEFAULT_FAILED_LOGIN_THRESHOLD_def DEFAULT_LOGIN_WINDOW_SECONDS_def DEFAULT_BLOCK_DURATION_SECONDS_def)
  have five: "length as = 5" by (simp add: as_def)
  have r: "reaches p as ''203.0.113.9'' i \<longleftrightarrow> i = 4" if "i < 5" for i
    using that by (auto simp: p_def as_def reaches_def usec_def less_Suc_eq numeral_eq_Suc)
  have last: "fst (as ! 4) = usec 40" by (simp add: as_def)
  have s: "sorted (map fst as)" by (simp add: as_def usec_def)
  from login_block_exact [OF p s] obtain db where
    db: "attempts_run JNull as \<lparr>sd_attempts = [], sd_blocked = []\<rparr> = Inr db" and
    b: "\<And>now addr. is_ip_blocked now (Some addr) db \<longleftrightarrow> (\<exists>i < length as.
      reaches p as addr i \<and> now < fst (as ! i) + usec (lp_block_seconds p))" by blast
  have "is_ip_blocked now (Some ''203.0.113.9'') db \<longleftrightarrow> now < usec 3640" for now
  proof -
    have "is_ip_blocked now (Some ''203.0.113.9'') db \<longleftrightarrow> now < fst (as ! 4) + usec (lp_block_seconds p)"
      unfolding b five using r by (auto intro!: exI [of _ "4 :: nat"])
    then show ?thesis by (simp add: last) (simp add: p_def usec_def)
  qed
  with db show ?thesis by (auto simp: as_def usec_def simp del: attempts_run.simps)
qed

end
