(* ===== verification/Content.thy ===== *)
theory Content imports Referrals Settings
begin

text \<open>
  What the Super_Admin manages (\<open>app/services/admin_content_service.py\<close>): coupons, partner commission,
  referral records with fraud flags, the template catalog, notification settings and site analytics.
  Coupons are those \<open>Subscriptions\<close> charges with, partners those of \<open>Wallets\<close>, referral records those of
  \<open>Referrals\<close> and settings those of \<open>Settings\<close>; the lemmas tie the four together.
\<close>

section \<open>Coercions\<close>

definition COUPON_DISCOUNT_TYPES :: "string list" where
  "COUPON_DISCOUNT_TYPES = [''percent'', ''fixed'']"

definition TEMPLATE_CATEGORIES :: "string list" where
  "TEMPLATE_CATEGORIES = [''student'', ''company'']"

definition content_id :: "string \<Rightarrow> uuid result" where
  "content_id v = (case parse_uuid v of Some u \<Rightarrow> Inr u | None \<Rightarrow> fail (ValidationError ''invalid_id''))"

definition normalize_category :: "string \<Rightarrow> string result" where
  "normalize_category category =
     (let normalized = lower (strip category) in
      if normalized \<notin> set TEMPLATE_CATEGORIES then fail (ValidationError ''invalid_template_category'')
      else Inr normalized)"

section \<open>Coupons\<close>

definition invalid_coupon_value :: app_error where
  "invalid_coupon_value = ValidationError ''invalid_coupon_value''"

definition discount_type_of :: "string \<Rightarrow> string result" where
  "discount_type_of discount_type =
     (let normalized = lower (strip discount_type) in
      if normalized \<notin> set COUPON_DISCOUNT_TYPES then fail (ValidationError ''invalid_discount_type'')
      else Inr normalized)"

definition create_coupon ::
  "uuid \<Rightarrow> string \<Rightarrow> string \<Rightarrow> rat \<Rightarrow> int option \<Rightarrow> datetime option \<Rightarrow> bool \<Rightarrow> coupon list
     \<Rightarrow> (coupon \<times> coupon list) result" where
  "create_coupon fresh code discount_type val max_redemptions valid_until active coupons =
     (let normalized_code = strip code in
      bind_res (guard_res (normalized_code = []) (ValidationError ''coupon_code_empty'')) (\<lambda>_.
      bind_res (discount_type_of discount_type) (\<lambda>normalized_type.
      bind_res (guard_res (val < 0) invalid_coupon_value) (\<lambda>_.
      bind_res (guard_res (normalized_type = ''percent'' \<and> val > 100) invalid_coupon_value) (\<lambda>_.
      bind_res (guard_res (case max_redemptions of None \<Rightarrow> False | Some m \<Rightarrow> m < 0)
        (ValidationError ''invalid_max_redemptions'')) (\<lambda>_.
      bind_res (guard_res (tbl_get cp_code coupons normalized_code \<noteq> None) (ValidationError ''coupon_code_exists'')) (\<lambda>_.
        let c = \<lparr>cp_id = fresh, cp_code = normalized_code, cp_discount_type = normalized_type, cp_value = val,
               cp_max_redemptions = max_redemptions, cp_redemptions = 0, cp_valid_until = valid_until,
               cp_active = active\<rparr> in
        bind_res (insert_row cp_id c coupons) (\<lambda>rows. Inr (c, rows)))))))))"

text \<open>Coupons carry their time of creation in a column of their own, an argument here.\<close>

definition list_coupons :: "(uuid \<Rightarrow> timestamp) \<Rightarrow> coupon list \<Rightarrow> coupon list" where
  "list_coupons created_at coupons = sort_key (\<lambda>c. - created_at (cp_id c)) coupons"

definition get_coupon :: "string \<Rightarrow> coupon list \<Rightarrow> coupon result" where
  "get_coupon coupon_id coupons =
     bind_res (content_id coupon_id) (\<lambda>k.
       case tbl_get cp_id coupons k of None \<Rightarrow> fail (NotFoundError ''coupon_not_found'') | Some c \<Rightarrow> Inr c)"

definition update_coupon ::
  "string \<Rightarrow> string option \<Rightarrow> rat option \<Rightarrow> int option \<Rightarrow> datetime option \<Rightarrow> bool option \<Rightarrow> coupon list
     \<Rightarrow> (coupon \<times> coupon list) result" where
  "update_coupon coupon_id discount_type val max_redemptions valid_until active coupons =
     bind_res (get_coupon coupon_id coupons) (\<lambda>c.
     bind_res (case discount_type of
         None \<Rightarrow> Inr c
       | Some d \<Rightarrow> bind_res (discount_type_of d) (\<lambda>t. Inr (c\<lparr>cp_discount_type := t\<rparr>))) (\<lambda>c1.
     bind_res (case val of
         None \<Rightarrow> Inr c1
       | Some v \<Rightarrow>
           bind_res (guard_res (v < 0) invalid_coupon_value) (\<lambda>_.
           bind_res (guard_res (cp_discount_type c1 = ''percent'' \<and> v > 100) invalid_coupon_value) (\<lambda>_.
             Inr (c1\<lparr>cp_value := v\<rparr>)))) (\<lambda>c2.
     bind_res (case max_redemptions of
         None \<Rightarrow> Inr c2
       | Some m \<Rightarrow>
           bind_res (guard_res (m < 0) (ValidationError ''invalid_max_redemptions'')) (\<lambda>_.
             Inr (c2\<lparr>cp_max_redemptions := Some m\<rparr>))) (\<lambda>c3.
       let c4 = (case valid_until of None \<Rightarrow> c3 | Some t \<Rightarrow> c3\<lparr>cp_valid_until := Some t\<rparr>);
           c5 = (case active of None \<Rightarrow> c4 | Some b \<Rightarrow> c4\<lparr>cp_active := b\<rparr>)
       in Inr (c5, tbl_put cp_id c5 coupons)))))"

definition delete_coupon :: "string \<Rightarrow> coupon list \<Rightarrow> (unit \<times> coupon list) result" where
  "delete_coupon coupon_id coupons =
     bind_res (get_coupon coupon_id coupons) (\<lambda>c. Inr ((), filter (\<lambda>x. cp_id x \<noteq> cp_id c) coupons))"

section \<open>Commission\<close>

definition set_commission_override :: "string \<Rightarrow> rat option \<Rightarrow> ledger \<Rightarrow> (partner_org \<times> ledger) result" where
  "set_commission_override org_id rate db =
     bind_res (content_id org_id) (\<lambda>k.
       case tbl_get po_id (led_orgs db) k of
         None \<Rightarrow> fail (NotFoundError ''org_not_found'')
       | Some org \<Rightarrow>
           bind_res (guard_res (case rate of None \<Rightarrow> False | Some r \<Rightarrow> r < 0) (ValidationError ''invalid_commission_rate'')) (\<lambda>_.
             let org' = org\<lparr>po_rate_override := rate\<rparr>
             in Inr (org', db\<lparr>led_orgs := tbl_put po_id org' (led_orgs db)\<rparr>)))"

section \<open>Referral records\<close>

definition HIGH_VOLUME_REFERRAL_THRESHOLD :: int where "HIGH_VOLUME_REFERRAL_THRESHOLD = 20"

record fraud_flags =
  ff_self_referral :: bool
  ff_duplicate_gmail :: bool
  ff_high_volume_referrer :: bool

text \<open>The two dictionaries the loop fills, as counts.\<close>

definition gmail_count :: "referral list \<Rightarrow> string \<Rightarrow> int" where
  "gmail_count rows g = int (length (filter (\<lambda>r. rl_referred_gmail r = Some g) rows))"

definition referrer_count :: "referral list \<Rightarrow> uuid \<Rightarrow> int" where
  "referrer_count rows u = int (length (filter (\<lambda>r. rl_status r = ''confirmed'' \<and> rl_referrer_user_id r = u) rows))"

definition fraud_flags_of :: "referral list \<Rightarrow> referral \<Rightarrow> fraud_flags" where
  "fraud_flags_of rows r =
     \<lparr>ff_self_referral = (rl_referred_user_id r = rl_referrer_user_id r),
      ff_duplicate_gmail = (case rl_referred_gmail r of None \<Rightarrow> False | Some g \<Rightarrow> g \<noteq> [] \<and> gmail_count rows g > 1),
      ff_high_volume_referrer = (referrer_count rows (rl_referrer_user_id r) > HIGH_VOLUME_REFERRAL_THRESHOLD)\<rparr>"

definition is_fraud :: "fraud_flags \<Rightarrow> bool" where
  "is_fraud f = (ff_self_referral f \<or> ff_duplicate_gmail f \<or> ff_high_volume_referrer f)"

definition list_referrals_with_fraud_flags ::
  "(uuid \<Rightarrow> timestamp) \<Rightarrow> referral list \<Rightarrow> (referral \<times> fraud_flags \<times> bool) list" where
  "list_referrals_with_fraud_flags created_at rows =
     (let referrals = sort_key (\<lambda>r. - created_at (rl_id r)) rows in
      map (\<lambda>r. let f = fraud_flags_of referrals r in (r, f, is_fraud f)) referrals)"

section \<open>Templates\<close>

record template =
  tm_id :: uuid
  tm_category :: string
  tm_name :: string
  tm_arduino_code :: "string option"
  tm_wiring_diagram_url :: "string option"
  tm_dashboard_def :: json
  tm_rules_def :: json

definition template_name_empty :: app_error where
  "template_name_empty = ValidationError ''template_name_empty''"

definition create_template ::
  "uuid \<Rightarrow> string \<Rightarrow> string \<Rightarrow> string option \<Rightarrow> string option \<Rightarrow> json \<Rightarrow> json \<Rightarrow> template list
     \<Rightarrow> (template \<times> template list) result" where
  "create_template fresh category name arduino_code wiring_diagram_url dashboard_def rules_def templates =
     bind_res (normalize_category category) (\<lambda>cat.
     bind_res (guard_res (strip name = []) template_name_empty) (\<lambda>_.
       let t = \<lparr>tm_id = fresh, tm_category = cat, tm_name = strip name, tm_arduino_code = arduino_code,
              tm_wiring_diagram_url = wiring_diagram_url, tm_dashboard_def = dashboard_def, tm_rules_def = rules_def\<rparr> in
       bind_res (insert_row tm_id t templates) (\<lambda>rows. Inr (t, rows))))"

text \<open>A field is \<open>None\<close> when the request does not set it; the last four can be set to null as well.\<close>

record template_patch =
  tp_category :: "string option"
  tp_name :: "string option"
  tp_arduino_code :: "string option option"
  tp_wiring_diagram_url :: "string option option"
  tp_dashboard_def :: "json option"
  tp_rules_def :: "json option"

definition patched :: "'a option \<Rightarrow> 'a \<Rightarrow> 'a" where
  "patched new old = (case new of None \<Rightarrow> old | Some x \<Rightarrow> x)"

definition find_template :: "string \<Rightarrow> template list \<Rightarrow> template result" where
  "find_template template_id templates =
     bind_res (content_id template_id) (\<lambda>k.
       case tbl_get tm_id templates k of None \<Rightarrow> fail (NotFoundError ''template_not_found'') | Some t \<Rightarrow> Inr t)"

definition update_template :: "string \<Rightarrow> template_patch \<Rightarrow> template list \<Rightarrow> (template \<times> template list) result" where
  "update_template template_id u templates =
     bind_res (find_template template_id templates) (\<lambda>t.
     bind_res (case tp_category u of
         None \<Rightarrow> Inr t
       | Some c \<Rightarrow> bind_res (normalize_category c) (\<lambda>cat. Inr (t\<lparr>tm_category := cat\<rparr>))) (\<lambda>t1.
     bind_res (case tp_name u of
         None \<Rightarrow> Inr t1
       | Some n \<Rightarrow> bind_res (guard_res (strip n = []) template_name_empty) (\<lambda>_. Inr (t1\<lparr>tm_name := strip n\<rparr>))) (\<lambda>t2.
       let t3 = t2\<lparr>tm_arduino_code := patched (tp_arduino_code u) (tm_arduino_code t2),
              tm_wiring_diagram_url := patched (tp_wiring_diagram_url u) (tm_wiring_diagram_url t2),
              tm_dashboard_def := patched (tp_dashboard_def u) (tm_dashboard_def t2),
              tm_rules_def := patched (tp_rules_def u) (tm_rules_def t2)\<rparr>
       in Inr (t3, tbl_put tm_id t3 templates))))"

definition delete_template :: "string \<Rightarrow> template list \<Rightarrow> (unit \<times> template list) result" where
  "delete_template template_id templates =
     bind_res (find_template template_id templates) (\<lambda>t. Inr ((), filter (\<lambda>x. tm_id x \<noteq> tm_id t) templates))"

section \<open>Notification settings and site analytics\<close>

definition NOTIFICATION_SETTINGS_KEY :: string where "NOTIFICATION_SETTINGS_KEY = ''notification_settings''"
definition SITE_ANALYTICS_KEY :: string where "SITE_ANALYTICS_KEY = ''site_analytics''"

definition DEFAULT_NOTIFICATION_SETTINGS :: "(string \<times> json) list" where
  "DEFAULT_NOTIFICATION_SETTINGS =
     [(''telegram'', JObj [(''enabled'', JBool False), (''bot_token'', JNull)]),
      (''push'', JObj [(''enabled'', JBool False), (''firebase_server_key'', JNull)]),
      (''email'', JObj [(''enabled'', JBool False), (''from_address'', JNull)])]"

definition DEFAULT_SITE_ANALYTICS :: "(string \<times> json) list" where
  "DEFAULT_SITE_ANALYTICS = [(''page_views'', JInt 0), (''visitors'', JInt 0), (''sessions'', JInt 0)]"

text \<open>\<open>{**d, **e}\<close>.\<close>

definition dict_merge :: "(string \<times> json) list \<Rightarrow> (string \<times> json) list \<Rightarrow> (string \<times> json) list" where
  "dict_merge d e = fold (\<lambda>(k, v). AList.update k v) e d"

text \<open>One round of the loop over the stored channels.\<close>

definition merge_channel :: "string \<times> json \<Rightarrow> (string \<times> json) list \<Rightarrow> (string \<times> json) list" where
  "merge_channel ch merged =
     (case ch of (channel, conf) \<Rightarrow>
        (case (map_of merged channel, conf) of
           (Some (JObj old), JObj new) \<Rightarrow> AList.update channel (JObj (dict_merge old new)) merged
         | _ \<Rightarrow> AList.update channel conf merged))"

definition notification_settings_of :: "json \<Rightarrow> (string \<times> json) list" where
  "notification_settings_of v =
     (case as_dict v of
        None \<Rightarrow> DEFAULT_NOTIFICATION_SETTINGS
      | Some d \<Rightarrow> fold merge_channel d DEFAULT_NOTIFICATION_SETTINGS)"

definition get_notification_settings ::
  "'m cache \<Rightarrow> json_codec \<Rightarrow> int \<Rightarrow> timestamp \<Rightarrow> (string \<rightharpoonup> json) \<Rightarrow> 'm option \<Rightarrow> (string \<times> json) list \<times> 'm option" where
  "get_notification_settings K C ttl t source redis =
     (let (v, redis') = get_setting K C ttl t NOTIFICATION_SETTINGS_KEY (JObj DEFAULT_NOTIFICATION_SETTINGS) source redis
      in (notification_settings_of v, redis'))"

definition set_channel :: "string \<Rightarrow> (string \<times> json) list option \<Rightarrow> (string \<times> json) list \<Rightarrow> (string \<times> json) list result" where
  "set_channel channel new current =
     (case new of
        None \<Rightarrow> Inr current
      | Some d \<Rightarrow>
          (case dict_or current channel (JObj []) of
             JObj old \<Rightarrow> Inr (AList.update channel (JObj (dict_merge old d)) current)
           | _ \<Rightarrow> Inl TypeError))"

definition update_notification_settings ::
  "'m cache \<Rightarrow> json_codec \<Rightarrow> int \<Rightarrow> timestamp \<Rightarrow> (string \<times> json) list option \<Rightarrow> (string \<times> json) list option
     \<Rightarrow> (string \<times> json) list option \<Rightarrow> (string \<rightharpoonup> json) \<Rightarrow> 'm option
     \<Rightarrow> (string \<times> json) list result \<times> (string \<rightharpoonup> json) \<times> 'm option" where
  "update_notification_settings K C ttl t telegram push email source redis =
     (let (current, redis1) = get_notification_settings K C ttl t source redis in
      case bind_res (set_channel ''telegram'' telegram current) (\<lambda>c1.
           bind_res (set_channel ''push'' push c1) (\<lambda>c2. set_channel ''email'' email c2)) of
        Inl e \<Rightarrow> (Inl e, source, redis1)
      | Inr c \<Rightarrow>
          (let (source', redis') = set_setting K C ttl t NOTIFICATION_SETTINGS_KEY (JObj c) source redis1
           in (Inr c, source', redis')))"

definition get_site_analytics ::
  "'m cache \<Rightarrow> json_codec \<Rightarrow> int \<Rightarrow> timestamp \<Rightarrow> (string \<rightharpoonup> json) \<Rightarrow> 'm option \<Rightarrow> (string \<times> json) list \<times> 'm option" where
  "get_site_analytics K C ttl t source redis =
     (let (v, redis') = get_setting K C ttl t SITE_ANALYTICS_KEY (JObj DEFAULT_SITE_ANALYTICS) source redis in
      (case as_dict v of None \<Rightarrow> DEFAULT_SITE_ANALYTICS | Some d \<Rightarrow> dict_merge DEFAULT_SITE_ANALYTICS d, redis'))"

section \<open>Runs of operations\<close>

datatype content_op =
    Create_coupon uuid string string rat "int option" "datetime option" bool
  | Update_coupon string "string option" "rat option" "int option" "datetime option" "bool option"
  | Delete_coupon string
  | Create_template uuid string string "string option" "string option" json json
  | Update_template string template_patch
  | Delete_template string

record content_db =
  ct_coupons :: "coupon list"
  ct_templates :: "template list"

fun content_step :: "content_op \<Rightarrow> content_db \<Rightarrow> content_db" where
  "content_step (Create_coupon k code ty v m u a) db = db\<lparr>ct_coupons := commit (create_coupon k code ty v m u a) (ct_coupons db)\<rparr>"
| "content_step (Update_coupon i ty v m u a) db = db\<lparr>ct_coupons := commit (update_coupon i ty v m u a) (ct_coupons db)\<rparr>"
| "content_step (Delete_coupon i) db = db\<lparr>ct_coupons := commit (delete_coupon i) (ct_coupons db)\<rparr>"
| "content_step (Create_template k c n a w d r) db = db\<lparr>ct_templates := commit (create_template k c n a w d r) (ct_templates db)\<rparr>"
| "content_step (Update_template i u) db = db\<lparr>ct_templates := commit (update_template i u) (ct_templates db)\<rparr>"
| "content_step (Delete_template i) db = db\<lparr>ct_templates := commit (delete_template i) (ct_templates db)\<rparr>"

definition coupon_ok :: "coupon \<Rightarrow> bool" where
  "coupon_ok c =
     (cp_code c \<noteq> [] \<and> strip (cp_code c) = cp_code c \<and> cp_discount_type c \<in> set COUPON_DISCOUNT_TYPES \<and> 0 \<le> cp_value c
      \<and> (case cp_max_redemptions c of None \<Rightarrow> True | Some m \<Rightarrow> 0 \<le> m))"

definition template_ok :: "template \<Rightarrow> bool" where
  "template_ok t = (tm_category t \<in> set TEMPLATE_CATEGORIES \<and> tm_name t \<noteq> [] \<and> strip (tm_name t) = tm_name t)"

definition content_ok :: "content_db \<Rightarrow> bool" where
  "content_ok db =
     (distinct (map cp_id (ct_coupons db)) \<and> distinct (map cp_code (ct_coupons db)) \<and> list_all coupon_ok (ct_coupons db)
      \<and> distinct (map tm_id (ct_templates db)) \<and> list_all template_ok (ct_templates db))"

lemma discount_type_Inr: "discount_type_of d = Inr t \<Longrightarrow> t \<in> set COUPON_DISCOUNT_TYPES"
  by (auto simp: discount_type_of_def Let_def fail_def split: if_splits)

lemma normalize_category_Inr: "normalize_category c = Inr cat \<Longrightarrow> cat \<in> set TEMPLATE_CATEGORIES"
  by (auto simp: normalize_category_def Let_def fail_def split: if_splits)

lemma get_coupon_Inr: "get_coupon i coupons = Inr c \<Longrightarrow> c \<in> set coupons \<and> tbl_get cp_id coupons (cp_id c) = Some c"
  by (auto simp: get_coupon_def bind_res_eq_Inr fail_def split: option.splits dest: tbl_get_Some)

lemma find_template_Inr: "find_template i ts = Inr t \<Longrightarrow> t \<in> set ts \<and> tbl_get tm_id ts (tm_id t) = Some t"
  by (auto simp: find_template_def bind_res_eq_Inr fail_def split: option.splits dest: tbl_get_Some)

lemma create_coupon_ok:
  assumes "create_coupon k code ty v m u a coupons = Inr (c, rows)"
  shows "coupon_ok c \<and> rows = coupons @ [c] \<and> cp_id c \<notin> cp_id ` set coupons \<and> cp_code c \<notin> cp_code ` set coupons"
  using assms
  by (auto simp: create_coupon_def Let_def bind_res_eq_Inr guard_res_eq_Inr insert_row_Inr coupon_ok_def tbl_get_None
      dest: discount_type_Inr split: option.splits)

lemma update_coupon_ok:
  assumes "update_coupon i ty v m u a coupons = Inr (c, rows)" "list_all coupon_ok coupons"
  shows "\<exists>c0 \<in> set coupons. coupon_ok c \<and> rows = tbl_put cp_id c coupons \<and> cp_id c = cp_id c0 \<and> cp_code c = cp_code c0"
proof -
  from assms(1) obtain c0 c1 c2 c3 where c0: "get_coupon i coupons = Inr c0"
    and c1: "(case ty of None \<Rightarrow> Inr c0 | Some d \<Rightarrow> bind_res (discount_type_of d) (\<lambda>t. Inr (c0\<lparr>cp_discount_type := t\<rparr>))) = Inr c1"
    and c2: "(case v of None \<Rightarrow> Inr c1 | Some v \<Rightarrow> bind_res (guard_res (v < 0) invalid_coupon_value) (\<lambda>_.
           bind_res (guard_res (cp_discount_type c1 = ''percent'' \<and> v > 100) invalid_coupon_value) (\<lambda>_.
             Inr (c1\<lparr>cp_value := v\<rparr>)))) = Inr c2"
    and c3: "(case m of None \<Rightarrow> Inr c2 | Some m \<Rightarrow> bind_res (guard_res (m < 0) (ValidationError ''invalid_max_redemptions''))
           (\<lambda>_. Inr (c2\<lparr>cp_max_redemptions := Some m\<rparr>))) = Inr c3"
    and c: "c = (let c4 = (case u of None \<Rightarrow> c3 | Some t \<Rightarrow> c3\<lparr>cp_valid_until := Some t\<rparr>)
           in case a of None \<Rightarrow> c4 | Some b \<Rightarrow> c4\<lparr>cp_active := b\<rparr>)" "rows = tbl_put cp_id c coupons"
    by (auto simp: update_coupon_def bind_res_eq_Inr Let_def)
  have ok0: "coupon_ok c0" "c0 \<in> set coupons" using get_coupon_Inr [OF c0] assms(2) by (auto simp: list_all_iff)
  have ok1: "coupon_ok c1 \<and> cp_id c1 = cp_id c0 \<and> cp_code c1 = cp_code c0"
    using c1 ok0 by (auto simp: bind_res_eq_Inr coupon_ok_def dest: discount_type_Inr split: option.splits)
  then have ok2: "coupon_ok c2 \<and> cp_id c2 = cp_id c0 \<and> cp_code c2 = cp_code c0"
    using c2 by (auto simp: bind_res_eq_Inr guard_res_eq_Inr coupon_ok_def split: option.splits)
  then have "coupon_ok c3 \<and> cp_id c3 = cp_id c0 \<and> cp_code c3 = cp_code c0"
    using c3 by (auto simp: bind_res_eq_Inr guard_res_eq_Inr coupon_ok_def split: option.splits)
  then have "coupon_ok c \<and> cp_id c = cp_id c0 \<and> cp_code c = cp_code c0"
    using c(1) by (auto simp: coupon_ok_def split: option.splits)
  with ok0 c(2) show ?thesis by blast
qed

lemma content_step_ok: "content_ok db \<Longrightarrow> content_ok (content_step op db)"
proof (cases op)
  case (Create_coupon k code ty v m u a)
  assume "content_ok db"
  with Create_coupon show ?thesis
    by (cases "create_coupon k code ty v m u a (ct_coupons db)")
      (auto simp: content_ok_def commit_def dest!: create_coupon_ok)
next
  case (Update_coupon i ty v m u a)
  assume ok: "content_ok db"
  show ?thesis
  proof (cases "update_coupon i ty v m u a (ct_coupons db)")
    case (Inr res)
    then obtain c rows where r: "update_coupon i ty v m u a (ct_coupons db) = Inr (c, rows)" by (cases res) auto
    from update_coupon_ok [OF r] ok obtain c0 where c0: "c0 \<in> set (ct_coupons db)" "coupon_ok c"
      "rows = tbl_put cp_id c (ct_coupons db)" "cp_id c = cp_id c0" "cp_code c = cp_code c0" by (auto simp: content_ok_def)
    have "map cp_code rows = map cp_code (ct_coupons db)"
      unfolding c0(3)
    proof (intro tbl_put_map ballI impI)
      fix x
      assume "x \<in> set (ct_coupons db)" "cp_id x = cp_id c"
      with ok c0(1,4) have "x = c0" by (auto simp: content_ok_def distinct_map dest: inj_onD)
      with c0(5) show "cp_code x = cp_code c" by simp
    qed
    moreover have "map cp_id rows = map cp_id (ct_coupons db)" by (simp add: c0(3))
    moreover have "list_all coupon_ok rows"
      using tbl_put_all [of "ct_coupons db" coupon_ok c] ok c0(2,3) by (simp add: content_ok_def list_all_iff)
    ultimately show ?thesis using ok Update_coupon r by (simp add: content_ok_def commit_def)
  qed (use ok Update_coupon in \<open>simp add: commit_def\<close>)
next
  case (Delete_coupon i)
  assume "content_ok db"
  with Delete_coupon show ?thesis
    by (auto simp: content_ok_def commit_def delete_coupon_def bind_res_eq_Inr distinct_map_filter list_all_iff split: sum.splits)
next
  case (Create_template k c n a w d r)
  assume "content_ok db"
  with Create_template show ?thesis
    by (auto simp: content_ok_def commit_def create_template_def bind_res_eq_Inr guard_res_eq_Inr insert_row_Inr
        template_ok_def Let_def split: sum.splits dest: normalize_category_Inr)
next
  case (Update_template i u)
  assume ok: "content_ok db"
  show ?thesis
  proof (cases "update_template i u (ct_templates db)")
    case (Inr res)
    then obtain t rows where r: "update_template i u (ct_templates db) = Inr (t, rows)" by (cases res) auto
    then obtain t0 where t0: "find_template i (ct_templates db) = Inr t0" by (auto simp: update_template_def bind_res_eq_Inr)
    with ok have "template_ok t0" by (auto simp: content_ok_def list_all_iff dest: find_template_Inr)
    with r t0 have t: "template_ok t" "rows = tbl_put tm_id t (ct_templates db)"
      by (auto simp: update_template_def bind_res_eq_Inr guard_res_eq_Inr Let_def template_ok_def split: option.splits
          dest!: normalize_category_Inr)
    then have "list_all template_ok rows" "map tm_id rows = map tm_id (ct_templates db)"
      using tbl_put_all [of "ct_templates db" template_ok t] ok by (simp_all add: content_ok_def list_all_iff)
    with ok Update_template r show ?thesis by (simp add: content_ok_def commit_def)
  qed (use ok Update_template in \<open>simp add: commit_def\<close>)
next
  case (Delete_template i)
  assume "content_ok db"
  with Delete_template show ?thesis
    by (auto simp: content_ok_def commit_def delete_template_def bind_res_eq_Inr distinct_map_filter list_all_iff split: sum.splits)
qed

interpretation cs: guarded_system content_step "\<lambda>_. True" content_ok
  by unfold_locales (rule content_step_ok)

text \<open>C9. The catalog is well formed: whatever coupons and templates the Super_Admin creates, edits and deletes, every
  coupon has a trimmed unique code, one of the two discount types, and a value and a limit that are not negative, and
  every template has a known category and a trimmed name.\<close>

theorem content_well_formed:
  "content_ok (run_ops content_step ops \<lparr>ct_coupons = [], ct_templates = []\<rparr>)"
  by (rule cs.run_inv) (simp_all add: content_ok_def list_all_iff)

text \<open>The cap of 100 percent is not kept: turning a fixed coupon of more than 100 rupees into a percentage, without
  a new value, is accepted, and an order with that coupon costs nothing.\<close>

theorem percent_cap_evaded:
  assumes "get_coupon i coupons = Inr c" "100 < cp_value c" "0 \<le> gross"
  shows "\<exists>c' rows. update_coupon i (Some ''percent'') None None None None coupons = Inr (c', rows)
    \<and> tbl_get cp_id rows (cp_id c) = Some c' \<and> cp_discount_type c' = ''percent'' \<and> cp_value c' = cp_value c
    \<and> apply_coupon_discount gross (Some c') = 0"
proof -
  let ?c = "c\<lparr>cp_discount_type := ''percent''\<rparr>"
  have t: "discount_type_of ''percent'' = Inr ''percent''" by code_simp
  have u: "update_coupon i (Some ''percent'') None None None None coupons = Inr (?c, tbl_put cp_id ?c coupons)"
    using assms(1) by (simp add: update_coupon_def t)
  have "(of_int gross :: rat) * 100 \<le> of_int gross * cp_value c" using assms(2,3) by (intro mult_left_mono) simp_all
  then have "(of_int gross :: rat) - of_int gross * cp_value c / 100 \<le> of_int 0" by simp
  then have "py_round (of_int gross - of_int gross * cp_value c / 100) \<le> 0" by (rule py_round_mono_int)
  then have "apply_coupon_discount gross (Some ?c) = 0" by (simp add: apply_coupon_discount_def)
  with u get_coupon_Inr [OF assms(1)] show ?thesis by (auto simp: tbl_get_put)
qed

text \<open>A configured commission is the one that is paid: after the Super_Admin has set a rate, zero included, the next
  credit of that partner is exactly that rate; after it has been cleared, it is the default of 50 rupees.\<close>

theorem commission_override_exact:
  assumes "set_commission_override org_id rate db = Inr (org, db')"
    and "credit_commission env org_id device_id payment_id period_month db' = Inr (c, db'')"
  shows "com_amount c = (case rate of None \<Rightarrow> 50 | Some r \<Rightarrow> r) \<and> 0 \<le> com_amount c \<and> com_org_id c = po_id org"
proof -
  from assms(1) obtain k org0 where k: "parse_uuid org_id = Some k" "tbl_get po_id (led_orgs db) k = Some org0"
    "rate = None \<or> (\<exists>r. rate = Some r \<and> 0 \<le> r)" "org = org0\<lparr>po_rate_override := rate\<rparr>"
    "db' = db\<lparr>led_orgs := tbl_put po_id org (led_orgs db)\<rparr>"
    by (auto simp: set_commission_override_def bind_res_eq_Inr guard_res_eq_Inr content_id_def fail_def Let_def
        split: option.splits)
  have id: "po_id org0 = k" using tbl_get_Some [OF k(2)] by simp
  have "tbl_get po_id (led_orgs db') k = Some org" using k id by (simp add: tbl_get_put)
  with assms(2) k(1,3,4) id show ?thesis
    by (auto simp: credit_commission_def to_uuid_or_same_def Let_def bind_res_eq_Inr resolve_commission_rate_def
        DEFAULT_COMMISSION_RATE_def)
qed

section \<open>Fraud flags on what the referral service records\<close>

definition no_self :: "ref_db \<Rightarrow> bool" where
  "no_self db = (\<forall>r \<in> set (rd_referrals db). rl_referrer_user_id r \<noteq> rl_referred_user_id r)"

lemma record_appends:
  assumes "record_referral k k' now code user gmail db = Inr (rl, db')"
  shows "rd_referrals db' = rd_referrals db @ [rl] \<and> rl_referrer_user_id rl \<noteq> rl_referred_user_id rl"
  using assms
  by (rule record_Inr) (auto simp: upsert_reward_def Let_def bind_res_eq_Inr split: prod.splits option.splits if_splits)

lemma summary_keeps_referrals:
  "get_referral_summary hex u db = Inr (sm, db') \<Longrightarrow> rd_referrals db' = rd_referrals db"
  by (auto simp: get_referral_summary_def ensure_referral_code_def fail_def Let_def bind_res_eq_Inr
      split: option.splits list.splits if_splits)

lemma no_self_step: "no_self db \<Longrightarrow> no_self (referral_step op db)"
  by (cases op) (auto simp: commit_def no_self_def dest!: record_appends summary_keeps_referrals split: sum.splits)

interpretation rf: guarded_system referral_step "\<lambda>_. True" "\<lambda>db. referrals_ok db \<and> no_self db"
  by unfold_locales (simp add: referral_step_ok no_self_step)

lemma at_most_one:
  "distinct (filter (\<lambda>g. g \<noteq> None) (map f rows)) \<Longrightarrow> length (filter (\<lambda>r. f r = Some g) rows) \<le> 1"
  by (induction rows) (auto split: if_splits simp: filter_empty_conv image_iff dest: sym)

text \<open>C22. Two of the three fraud flags can never show: on records made by the referral service, whatever was recorded in
  whatever order, no record is flagged as a self-referral or for a repeated Gmail identity, because the service has
  refused those; a record is suspicious exactly when its referrer has more than twenty records.\<close>

theorem fraud_flags_only_volume:
  assumes "(r, flags, fraud) \<in> set (list_referrals_with_fraud_flags created_at (rd_referrals
    (run_ops referral_step ops \<lparr>rd_orgs = orgs, rd_users = users, rd_referrals = [], rd_rewards = []\<rparr>)))"
  shows "\<not> ff_self_referral flags \<and> \<not> ff_duplicate_gmail flags
    \<and> (fraud \<longleftrightarrow> 20 < count_confirmed_referrals
        (run_ops referral_step ops \<lparr>rd_orgs = orgs, rd_users = users, rd_referrals = [], rd_rewards = []\<rparr>) (rl_referrer_user_id r))"
proof -
  define db where "db = run_ops referral_step ops \<lparr>rd_orgs = orgs, rd_users = users, rd_referrals = [], rd_rewards = []\<rparr>"
  have inv: "referrals_ok db" "no_self db"
    using rf.run_inv [of "\<lparr>rd_orgs = orgs, rd_users = users, rd_referrals = [], rd_rewards = []\<rparr>" ops]
    by (simp_all add: db_def referrals_ok_def no_self_def list_all_iff)
  let ?rows = "sort_key (\<lambda>r. - created_at (rl_id r)) (rd_referrals db)"
  have r: "r \<in> set (rd_referrals db)" and f: "flags = fraud_flags_of ?rows r" "fraud = is_fraud flags"
    using assms by (auto simp: list_referrals_with_fraud_flags_def db_def Let_def)
  have count: "length (filter P ?rows) = length (filter P (rd_referrals db))" for P
    by (simp add: filter_sort)
  have "gmail_count ?rows g \<le> 1" for g
    using at_most_one [of rl_referred_gmail "rd_referrals db" g] inv(1) by (simp add: gmail_count_def count referrals_ok_def)
  then have dup: "\<not> ff_duplicate_gmail flags" by (auto simp: f fraud_flags_of_def not_less split: option.splits)
  have self: "\<not> ff_self_referral flags" using inv(2) r by (auto simp: f fraud_flags_of_def no_self_def)
  have "referrer_count ?rows u = count_confirmed_referrals db u" for u
    by (simp add: referrer_count_def count count_confirmed_referrals_def STATUS_CONFIRMED_def conj_commute)
  then have "fraud \<longleftrightarrow> 20 < count_confirmed_referrals db (rl_referrer_user_id r)"
    using self dup by (simp add: f is_fraud_def) (simp add: fraud_flags_of_def HIGH_VOLUME_REFERRAL_THRESHOLD_def)
  with self dup show ?thesis by (simp add: db_def)
qed

section \<open>Examples\<close>

definition ex_coupon :: coupon where
  "ex_coupon = \<lparr>cp_id = ''0123abcd-0123-4567-89ab-0123456789ab'', cp_code = ''WELCOME'', cp_discount_type = ''fixed'',
     cp_value = 150, cp_max_redemptions = None, cp_redemptions = 0, cp_valid_until = None, cp_active = True\<rparr>"

theorem percent_cap_evaded_witness:
  "\<exists>c' rows. update_coupon ''0123abcd-0123-4567-89ab-0123456789ab'' (Some ''percent'') None None None None [ex_coupon]
      = Inr (c', rows) \<and> cp_value c' = 150 \<and> apply_coupon_discount 9900 (Some c') = 0"
proof -
  have "parse_uuid ''0123abcd-0123-4567-89ab-0123456789ab'' = Some ''0123abcd-0123-4567-89ab-0123456789ab''" by code_simp
  then have "get_coupon ''0123abcd-0123-4567-89ab-0123456789ab'' [ex_coupon] = Inr ex_coupon"
    by (simp add: get_coupon_def content_id_def ex_coupon_def)
  from percent_cap_evaded [OF this, of 9900] show ?thesis by (auto simp: ex_coupon_def)
qed

theorem commission_override_exact_witness:
  "\<exists>org db' c db''. set_commission_override ''0123abcd-0123-4567-89ab-0123456789ab'' (Some 75) ex_ledger = Inr (org, db')
    \<and> credit_commission \<lparr>ce_wallet_id = ''w'', ce_commission_id = ''c2'', ce_now = DateTime 2026 1 1 0, ce_created_at = 5\<rparr>
        ''0123abcd-0123-4567-89ab-0123456789ab'' None None None db' = Inr (c, db'') \<and> com_amount c = 75"
proof -
  let ?env = "\<lparr>ce_wallet_id = ''w'', ce_commission_id = ''c2'', ce_now = DateTime 2026 1 1 0, ce_created_at = 5\<rparr>"
  let ?o = "''0123abcd-0123-4567-89ab-0123456789ab''"
  have u: "parse_uuid ?o = Some ?o" by code_simp
  obtain org db' where s: "set_commission_override ?o (Some 75) ex_ledger = Inr (org, db')"
    and db': "led_orgs db' = [org]" "po_id org = ?o" "led_wallets db' = led_wallets ex_ledger"
      "led_commissions db' = led_commissions ex_ledger"
    by (simp add: set_commission_override_def content_id_def u ex_ledger_def Let_def)
  obtain c db'' where c: "credit_commission ?env ?o None None None db' = Inr (c, db'')"
    using db' by (simp add: credit_commission_def to_uuid_or_same_def u get_or_create_wallet_def insert_row_def Let_def ex_ledger_def)
  from commission_override_exact [OF s c] s c show ?thesis by auto
qed

lemma ex_fraud_row:
  "\<exists>r flags fraud. (r, flags, fraud) \<in> set (list_referrals_with_fraud_flags (\<lambda>_. 0) (rd_referrals
    (run_ops referral_step [Op_record ''r1'' ''w1'' 5 ''ABCD1234'' \<lparr>ru_id = ''u2'', ru_org_id = ''o2'',
       ru_email = ''B@x'', ru_referred_by = None, ru_created_at = 5\<rparr> None]
      \<lparr>rd_orgs = [\<lparr>ro_id = ''o1'', ro_referral_code = Some ''ABCD1234''\<rparr>],
       rd_users = [\<lparr>ru_id = ''u1'', ru_org_id = ''o1'', ru_email = ''A@x'', ru_referred_by = None, ru_created_at = 0\<rparr>],
       rd_referrals = [], rd_rewards = []\<rparr>))) \<and> rl_referrer_user_id r = ''u1''"
proof -
  have s: "strip ''ABCD1234'' = ''ABCD1234''" by code_simp
  show ?thesis
    by (simp add: list_referrals_with_fraud_flags_def commit_def record_referral_def resolve_referrer_def s Let_def
        insert_row_def count_confirmed_referrals_def upsert_reward_def reward_table STATUS_CONFIRMED_def)
qed

theorem fraud_flags_only_volume_witness:
  "\<exists>r flags fraud. (r, flags, fraud) \<in> set (list_referrals_with_fraud_flags (\<lambda>_. 0) (rd_referrals
    (run_ops referral_step [Op_record ''r1'' ''w1'' 5 ''ABCD1234'' \<lparr>ru_id = ''u2'', ru_org_id = ''o2'',
       ru_email = ''B@x'', ru_referred_by = None, ru_created_at = 5\<rparr> None]
      \<lparr>rd_orgs = [\<lparr>ro_id = ''o1'', ro_referral_code = Some ''ABCD1234''\<rparr>],
       rd_users = [\<lparr>ru_id = ''u1'', ru_org_id = ''o1'', ru_email = ''A@x'', ru_referred_by = None, ru_created_at = 0\<rparr>],
       rd_referrals = [], rd_rewards = []\<rparr>))) \<and> \<not> ff_self_referral flags \<and> \<not> ff_duplicate_gmail flags"
  using ex_fraud_row fraud_flags_only_volume by blast

end
