(* ===== verification/Templates.thy ===== *)
theory Templates imports Content Dashboards Rule_Service Reports
begin

text \<open>
  Templates put to use (\<open>app/services/template_service.py\<close>): the catalog of \<open>Content\<close>, a rule made from a
  template, and a template applied to a device, which creates a dashboard with its widgets
  (\<open>Dashboards\<close>) and rules (\<open>Rule_Service\<close>) through the services that commit on their own.  A run is
  therefore a sequence of transactions: the state holds what the session sees and what is committed.
  Definitions of templates are JSON; \<open>dict\<close> of a list of pairs is not modelled, and of several errors in
  one graph the first in reading order is the one that is raised.
\<close>

section \<open>The catalog\<close>

definition normalize_rule_defs :: "json \<Rightarrow> (string \<times> json) list list" where
  "normalize_rule_defs rules_def =
     (if \<not> truthy rules_def then []
      else (case rules_def of
          JArr rs \<Rightarrow> List.map_filter as_dict rs
        | JObj d \<Rightarrow>
            (case dict_get d ''rules'' of
               JArr rs \<Rightarrow> List.map_filter as_dict rs
             | _ \<Rightarrow> if ''nodes'' \<in> fst ` set d \<or> ''name'' \<in> fst ` set d then [d] else [])
        | _ \<Rightarrow> []))"

definition list_templates :: "string option \<Rightarrow> template list \<Rightarrow> template list result" where
  "list_templates category templates =
     bind_res (case category of
         None \<Rightarrow> Inr templates
       | Some c \<Rightarrow> bind_res (normalize_category c) (\<lambda>cat. Inr (filter (\<lambda>t. tm_category t = cat) templates))) (\<lambda>rows.
       Inr (sort_key tm_category (sort_key tm_name rows)))"

definition get_template :: "uuid \<Rightarrow> template list \<Rightarrow> template result" where
  "get_template template_id templates =
     (case tbl_get tm_id templates template_id of None \<Rightarrow> fail (NotFoundError ''not_found'') | Some t \<Rightarrow> Inr t)"

section \<open>From JSON to requests\<close>

text \<open>\<open>v.get("name") or template.name\<close>, then used as a string.\<close>

definition name_of :: "(string \<times> json) list \<Rightarrow> template \<Rightarrow> string result" where
  "name_of d t =
     (case py_or (dict_get d ''name'') (JStr (tm_name t)) of JStr s \<Rightarrow> Inr s | _ \<Rightarrow> Inl AttributeError)"

definition client_key :: "(json \<Rightarrow> string) \<Rightarrow> (string \<times> json) list \<Rightarrow> string \<Rightarrow> string option" where
  "client_key repr d k = (case dict_get d k of JNull \<Rightarrow> None | v \<Rightarrow> Some (py_str repr v))"

fun node_of_json :: "(json \<Rightarrow> string) \<Rightarrow> json \<Rightarrow> node_in result" where
  "node_of_json repr (JObj d) =
     bind_res (case map_of d ''node_type'' of
         None \<Rightarrow> Inr None
       | Some (JStr s) \<Rightarrow> Inr (Some s)
       | Some JNull \<Rightarrow> Inl IntegrityError
       | Some _ \<Rightarrow> Inl TypeError) (\<lambda>ty.
       Inr \<lparr>ni_id = client_key repr d ''id'', ni_node_type = ty, ni_config = dict_get d ''config'',
            ni_position = dict_get d ''position''\<rparr>)"
| "node_of_json repr _ = Inl TypeError"

fun edge_of_json :: "(json \<Rightarrow> string) \<Rightarrow> json \<Rightarrow> edge_in result" where
  "edge_of_json repr (JObj d) = Inr \<lparr>ei_from = client_key repr d ''from'', ei_to = client_key repr d ''to''\<rparr>"
| "edge_of_json repr _ = Inl AttributeError"

fun map_res :: "('a \<Rightarrow> 'b result) \<Rightarrow> 'a list \<Rightarrow> 'b list result" where
  "map_res f [] = Inr []"
| "map_res f (x # xs) = bind_res (f x) (\<lambda>y. bind_res (map_res f xs) (\<lambda>ys. Inr (y # ys)))"

text \<open>\<open>d.get(k) or []\<close>, walked by a loop.\<close>

definition items_of :: "(string \<times> json) list \<Rightarrow> string \<Rightarrow> json list result" where
  "items_of d k = py_iter (py_or (dict_get d k) (JArr []))"

definition create_rule_of ::
  "(json \<Rightarrow> string) \<Rightarrow> principal \<Rightarrow> rule_ids \<Rightarrow> timestamp \<Rightarrow> template \<Rightarrow> (string \<times> json) list \<Rightarrow> rules_db \<Rightarrow> (rule_row \<times> rules_db) result" where
  "create_rule_of repr p fr now t d db =
     bind_res (name_of d t) (\<lambda>name.
     bind_res (bind_res (items_of d ''nodes'') (map_res (node_of_json repr))) (\<lambda>nodes.
     bind_res (bind_res (items_of d ''edges'') (map_res (edge_of_json repr))) (\<lambda>edges.
       create_rule p fr now name (Some nodes) (Some edges) (truthy (dict_or d ''enabled'' (JBool True))) (Some (tm_id t)) db)))"

section \<open>Transactions\<close>

record workshop =
  wk_fleet :: fleet
  wk_dash :: dash_db
  wk_rules :: rules_db
  wk_templates :: "template list"

text \<open>What the session sees and what is committed; a request that raises leaves the second behind.\<close>

type_synonym progress = "workshop \<times> workshop"
type_synonym 'a attempt = "(py_exc \<times> workshop) + 'a"

definition committing :: "(workshop \<Rightarrow> ('a \<times> workshop) result) \<Rightarrow> progress \<Rightarrow> ('a \<times> progress) attempt" where
  "committing f pr =
     (case f (fst pr) of Inl e \<Rightarrow> Inl (e, snd pr) | Inr (x, w) \<Rightarrow> Inr (x, (w, w)))"

definition on_dash :: "(dash_db \<Rightarrow> ('a \<times> dash_db) result) \<Rightarrow> workshop \<Rightarrow> ('a \<times> workshop) result" where
  "on_dash f w = bind_res (f (wk_dash w)) (\<lambda>(x, d). Inr (x, w\<lparr>wk_dash := d\<rparr>))"

definition on_rules :: "(rules_db \<Rightarrow> ('a \<times> rules_db) result) \<Rightarrow> workshop \<Rightarrow> ('a \<times> workshop) result" where
  "on_rules f w = bind_res (f (wk_rules w)) (\<lambda>(x, d). Inr (x, w\<lparr>wk_rules := d\<rparr>))"

section \<open>A rule from a template\<close>

definition create_rule_from_template ::
  "(json \<Rightarrow> string) \<Rightarrow> principal \<Rightarrow> rule_ids \<Rightarrow> timestamp \<Rightarrow> uuid \<Rightarrow> workshop \<Rightarrow> (rule_row \<times> workshop) result" where
  "create_rule_from_template repr p fr now template_id w =
     bind_res (get_template template_id (wk_templates w)) (\<lambda>t.
       case normalize_rule_defs (tm_rules_def t) of
         [] \<Rightarrow> fail (ValidationError ''template_has_no_rule'')
       | d # _ \<Rightarrow> on_rules (create_rule_of repr p fr now t d) w)"

section \<open>A template applied to a device\<close>

record apply_ids =
  ap_dashboard :: uuid
  ap_widgets :: "nat \<Rightarrow> uuid"
  ap_rules :: "nat \<Rightarrow> rule_ids"

definition bind_device :: "uuid \<Rightarrow> (string \<times> json) list \<Rightarrow> (string \<times> json) list" where
  "bind_device device_id config = (if map_of config ''deviceId'' = None then config @ [(''deviceId'', JStr device_id)] else config)"

definition template_widget ::
  "principal \<Rightarrow> uuid \<Rightarrow> uuid \<Rightarrow> uuid \<Rightarrow> (string \<times> json) list \<Rightarrow> json \<Rightarrow> workshop \<Rightarrow> (widget \<times> workshop) result" where
  "template_widget p fresh dashboard_id device_id d type w =
     bind_res (case py_or (dict_get d ''config'') (JObj []) of JObj c \<Rightarrow> Inr c | _ \<Rightarrow> Inl TypeError) (\<lambda>config.
       case type of
         JStr s \<Rightarrow> on_dash (add_widget p fresh dashboard_id s (JObj (bind_device device_id config)) (dict_get d ''layout'')) w
       | _ \<Rightarrow> bind_res (get_dashboard p dashboard_id (wk_dash w)) (\<lambda>_.
           case type of JArr xs \<Rightarrow> Inl TypeError | JObj o' \<Rightarrow> Inl TypeError | _ \<Rightarrow> fail (ValidationError ''invalid_widget_type'')))"

fun template_widgets ::
  "principal \<Rightarrow> (nat \<Rightarrow> uuid) \<Rightarrow> uuid \<Rightarrow> uuid \<Rightarrow> nat \<Rightarrow> json list \<Rightarrow> progress \<Rightarrow> progress attempt" where
  "template_widgets p fresh dashboard_id device_id i [] pr = Inr pr"
| "template_widgets p fresh dashboard_id device_id i (v # vs) pr =
     (case v of
        JObj d \<Rightarrow>
          (case map_of d ''type'' of
             None \<Rightarrow> template_widgets p fresh dashboard_id device_id (Suc i) vs pr
           | Some ty \<Rightarrow>
               bind_res (committing (template_widget p (fresh i) dashboard_id device_id d ty) pr) (\<lambda>(_, pr').
                 template_widgets p fresh dashboard_id device_id (Suc i) vs pr'))
      | _ \<Rightarrow> template_widgets p fresh dashboard_id device_id (Suc i) vs pr)"

definition or_committed :: "progress \<Rightarrow> 'a result \<Rightarrow> 'a attempt" where
  "or_committed pr r = (case r of Inl e \<Rightarrow> Inl (e, snd pr) | Inr x \<Rightarrow> Inr x)"

definition apply_dashboard ::
  "principal \<Rightarrow> apply_ids \<Rightarrow> timestamp \<Rightarrow> template \<Rightarrow> uuid \<Rightarrow> progress \<Rightarrow> progress attempt" where
  "apply_dashboard p ids now t device_id pr =
     (case tm_dashboard_def t of
        JObj d \<Rightarrow>
          bind_res (or_committed pr (name_of d t)) (\<lambda>name.
          bind_res (committing (on_dash (create_dashboard p now (ap_dashboard ids) name (dict_get d ''layout''))) pr) (\<lambda>(dash, pr1).
          bind_res (or_committed pr1 (items_of d ''widgets'')) (\<lambda>ws.
            template_widgets p (ap_widgets ids) (dsh_id dash) device_id 0 ws pr1)))
      | _ \<Rightarrow> Inr pr)"

fun apply_rules ::
  "(json \<Rightarrow> string) \<Rightarrow> principal \<Rightarrow> (nat \<Rightarrow> rule_ids) \<Rightarrow> timestamp \<Rightarrow> template \<Rightarrow> nat \<Rightarrow> (string \<times> json) list list
     \<Rightarrow> progress \<Rightarrow> progress attempt" where
  "apply_rules repr p fresh now t i [] pr = Inr pr"
| "apply_rules repr p fresh now t i (d # ds) pr =
     bind_res (committing (on_rules (create_rule_of repr p (fresh i) now t d)) pr) (\<lambda>(_, pr').
       apply_rules repr p fresh now t (Suc i) ds pr')"

definition apply_template_to_device ::
  "(json \<Rightarrow> string) \<Rightarrow> principal \<Rightarrow> apply_ids \<Rightarrow> timestamp \<Rightarrow> uuid \<Rightarrow> uuid \<Rightarrow> workshop \<Rightarrow> (fleet_device \<times> workshop) attempt" where
  "apply_template_to_device repr p ids now device_id template_id w =
     bind_res (or_committed (w, w) (scope_get p fd_id fd_org_id (fl_devices (wk_fleet w)) device_id)) (\<lambda>device.
     bind_res (or_committed (w, w) (get_template template_id (wk_templates w))) (\<lambda>t.
       let device' = device\<lparr>fd_template_id := Some (tm_id t)\<rparr>;
           w1 = w\<lparr>wk_fleet := (wk_fleet w)\<lparr>fl_devices := tbl_put fd_id device' (fl_devices (wk_fleet w))\<rparr>\<rparr> in
       bind_res (apply_dashboard p ids now t (fd_id device) (w1, w)) (\<lambda>pr.
       bind_res (apply_rules repr p (ap_rules ids) now t 0 (normalize_rule_defs (tm_rules_def t)) pr) (\<lambda>pr'.
         Inr (device', fst pr')))))"

section \<open>What every step keeps\<close>

lemma committing_Inr: "committing f pr = Inr (x, pr') \<longleftrightarrow> (\<exists>w. f (fst pr) = Inr (x, w) \<and> pr' = (w, w))"
  by (auto simp: committing_def split: sum.splits)

lemma committing_Inl: "committing f pr = Inl (e, w) \<longleftrightarrow> f (fst pr) = Inl e \<and> w = snd pr"
  by (auto simp: committing_def split: sum.splits)

lemma or_committed_simps [simp]: "or_committed pr (Inr x) = Inr x" "or_committed pr (Inl e) = Inl (e, snd pr)"
  by (simp_all add: or_committed_def)

lemma or_committed_Inr [simp]: "or_committed pr r = Inr x \<longleftrightarrow> r = Inr x"
  by (auto simp: or_committed_def split: sum.splits)

lemma or_committed_Inl [simp]: "or_committed pr r = Inl (e, w) \<longleftrightarrow> r = Inl e \<and> w = snd pr"
  by (auto simp: or_committed_def split: sum.splits)

lemma on_dash_Inr: "on_dash f w = Inr (x, w') \<longleftrightarrow> (\<exists>d. f (wk_dash w) = Inr (x, d) \<and> w' = w\<lparr>wk_dash := d\<rparr>)"
  by (auto simp: on_dash_def bind_res_eq_Inr)

lemma on_rules_Inr: "on_rules f w = Inr (x, w') \<longleftrightarrow> (\<exists>d. f (wk_rules w) = Inr (x, d) \<and> w' = w\<lparr>wk_rules := d\<rparr>)"
  by (auto simp: on_rules_def bind_res_eq_Inr)

lemma template_widget_Inr:
  assumes "template_widget p fresh dash device d ty w = Inr (x, w')"
  obtains s c db where "add_widget p fresh dash s (JObj (bind_device device c)) (dict_get d ''layout'') (wk_dash w) = Inr (x, db)"
    "w' = w\<lparr>wk_dash := db\<rparr>"
  using assms by (auto simp: template_widget_def bind_res_eq_Inr on_dash_Inr fail_def split: json.splits)

lemma create_rule_of_Inr:
  assumes "create_rule_of repr p fr now t d db = Inr (r, db')"
  obtains name nodes edges enabled where "create_rule p fr now name nodes edges enabled (Some (tm_id t)) db = Inr (r, db')"
  using assms by (auto simp: create_rule_of_def bind_res_eq_Inr)

text \<open>A predicate that the services keep, under the names of the operations the runs use.\<close>

locale workshop_inv =
  fixes Q :: "workshop \<Rightarrow> bool"
  assumes keep_dashboard: "Q w \<Longrightarrow> create_dashboard p now k name l (wk_dash w) = Inr (x, d) \<Longrightarrow> Q (w\<lparr>wk_dash := d\<rparr>)"
    and keep_widget: "Q w \<Longrightarrow> add_widget p k dash ty config l (wk_dash w) = Inr (y, d) \<Longrightarrow> Q (w\<lparr>wk_dash := d\<rparr>)"
    and keep_rule: "Q w \<Longrightarrow> create_rule p fr now name ns es enabled tid (wk_rules w) = Inr (r, db) \<Longrightarrow> Q (w\<lparr>wk_rules := db\<rparr>)"
begin

definition good :: "progress attempt \<Rightarrow> bool" where
  "good r = (case r of Inl ew \<Rightarrow> Q (snd ew) | Inr pr \<Rightarrow> Q (fst pr) \<and> Q (snd pr))"

lemma good_widgets:
  "Q (fst pr) \<Longrightarrow> Q (snd pr) \<Longrightarrow> good (template_widgets p fresh dash device i vs pr)"
proof (induction vs arbitrary: i pr)
  case (Cons v vs)
  show ?case
  proof (cases "\<exists>d ty. v = JObj d \<and> map_of d ''type'' = Some ty")
    case True
    then obtain d ty where v: "v = JObj d" "map_of d ''type'' = Some ty" by blast
    show ?thesis
    proof (cases "committing (template_widget p (fresh i) dash device d ty) pr")
      case (Inl ew)
      then have "snd ew = snd pr" by (cases ew) (simp add: committing_Inl)
      with Inl v Cons.prems show ?thesis by (simp add: good_def)
    next
      case (Inr res)
      then obtain x w where w: "committing (template_widget p (fresh i) dash device d ty) pr = Inr (x, (w, w))"
        "template_widget p (fresh i) dash device d ty (fst pr) = Inr (x, w)"
        by (cases res) (auto simp: committing_Inr)
      from w(2) have "Q w" by (rule template_widget_Inr) (auto intro: keep_widget Cons.prems)
      with Cons.IH [of "(w, w)" "Suc i"] w(1) v show ?thesis by simp
    qed
  qed (use Cons in \<open>auto split: json.splits option.splits\<close>)
qed (simp add: good_def)

lemma good_rules:
  "Q (fst pr) \<Longrightarrow> Q (snd pr) \<Longrightarrow> good (apply_rules repr p fresh now t i ds pr)"
proof (induction ds arbitrary: i pr)
  case (Cons d ds)
  show ?case
  proof (cases "committing (on_rules (create_rule_of repr p (fresh i) now t d)) pr")
    case (Inl ew)
    then have "snd ew = snd pr" by (cases ew) (simp add: committing_Inl)
    with Inl Cons.prems show ?thesis by (simp add: good_def)
  next
    case (Inr res)
    then obtain x w where w: "committing (on_rules (create_rule_of repr p (fresh i) now t d)) pr = Inr (x, (w, w))"
      "on_rules (create_rule_of repr p (fresh i) now t d) (fst pr) = Inr (x, w)"
      by (cases res) (auto simp: committing_Inr)
    from w(2) obtain db where db: "create_rule_of repr p (fresh i) now t d (wk_rules (fst pr)) = Inr (x, db)"
      "w = (fst pr)\<lparr>wk_rules := db\<rparr>" by (auto simp: on_rules_Inr)
    from db(1) have "Q w" unfolding db(2) by (rule create_rule_of_Inr) (auto intro: keep_rule Cons.prems)
    with Cons.IH [of "(w, w)" "Suc i"] w(1) show ?thesis by simp
  qed
qed (simp add: good_def)

lemma good_dashboard:
  assumes "Q (fst pr)" "Q (snd pr)"
  shows "good (apply_dashboard p ids now t device pr)"
proof (cases "tm_dashboard_def t")
  case (JObj d)
  show ?thesis
  proof (cases "name_of d t")
    case (Inl e)
    with JObj assms show ?thesis by (simp add: apply_dashboard_def or_committed_def good_def)
  next
    case (Inr name)
    let ?f = "on_dash (create_dashboard p now (ap_dashboard ids) name (dict_get d ''layout''))"
    show ?thesis
    proof (cases "committing ?f pr")
      case (Inl ew)
      then have "snd ew = snd pr" by (cases ew) (simp add: committing_Inl)
      with Inl JObj Inr assms show ?thesis by (simp add: apply_dashboard_def or_committed_def good_def)
    next
      case made: (Inr res)
      then obtain x w where w: "committing ?f pr = Inr (x, (w, w))" "?f (fst pr) = Inr (x, w)"
        by (cases res) (auto simp: committing_Inr)
      then have "Q w" using keep_dashboard [OF assms(1)] by (auto simp: on_dash_Inr)
      then show ?thesis
        using JObj Inr w good_widgets [of "(w, w)"]
        by (cases "items_of d ''widgets''") (simp_all add: apply_dashboard_def or_committed_def good_def)
    qed
  qed
qed (use assms in \<open>simp_all add: apply_dashboard_def good_def\<close>)

end

definition extends :: "workshop \<Rightarrow> workshop \<Rightarrow> bool" where
  "extends w w' \<longleftrightarrow>
     wk_fleet w' = wk_fleet w \<and> wk_templates w' = wk_templates w
     \<and> set (dd_dashboards (wk_dash w)) \<subseteq> set (dd_dashboards (wk_dash w'))
     \<and> set (dd_widgets (wk_dash w)) \<subseteq> set (dd_widgets (wk_dash w'))
     \<and> set (rb_rules (wk_rules w)) \<subseteq> set (rb_rules (wk_rules w'))"

lemma extends_refl [simp]: "extends w w"
  by (simp add: extends_def)

lemma create_rule_Inr:
  assumes "create_rule p fr now name ns es enabled tid db = Inr (r, db')"
  shows "rb_rules db' = rb_rules db @ [r] \<and> ru_template_id r = tid \<and> Inr (Rule_Service.ru_org_id r) = rule_org_uuid p
    \<and> ru_enabled r = enabled"
proof -
  from assms obtain org where org: "rule_org_uuid p = Inr org"
    by (cases "rule_org_uuid p") (auto simp: create_rule_def bind_res_eq_Inr)
  with assms show ?thesis
    by (auto simp: create_rule_def bind_res_eq_Inr Let_def insert_row_Inr flush_graph_def)
qed

interpretation ext: workshop_inv "extends w0" for w0
proof unfold_locales
  fix w p now k name l x d
  assume "extends w0 w" "create_dashboard p now k name l (wk_dash w) = Inr (x, d)"
  then show "extends w0 (w\<lparr>wk_dash := d\<rparr>)" by (auto simp: extends_def elim!: create_dashboard_Inr)
next
  fix w p k dash ty config l y d
  assume "extends w0 w" "add_widget p k dash ty config l (wk_dash w) = Inr (y, d)"
  then show "extends w0 (w\<lparr>wk_dash := d\<rparr>)" by (auto simp: extends_def elim!: add_widget_Inr)
next
  fix w p fr now name ns es enabled tid r db
  assume "extends w0 w" "create_rule p fr now name ns es enabled tid (wk_rules w) = Inr (r, db)"
  with create_rule_Inr [of p fr now name ns es enabled tid "wk_rules w" r db]
  show "extends w0 (w\<lparr>wk_rules := db\<rparr>)" by (auto simp: extends_def)
qed

interpretation lim: workshop_inv "\<lambda>w. rules_ok (wk_rules w) \<and> dash_ok (wk_dash w)"
  by unfold_locales (auto intro: create_dashboard_ok add_widget_ok create_rule_ok)

text \<open>C7. Templates do not get around the limits: whatever a template holds and however its application ends, the state it
  leaves has no more active rules than the plan allows, sound rule graphs and well-formed dashboards.\<close>

theorem template_keeps_limits:
  assumes "rules_ok (wk_rules w)" "dash_ok (wk_dash w)"
  shows "case apply_template_to_device repr p ids now device_id template_id w of
      Inl (e, w') \<Rightarrow> rules_ok (wk_rules w') \<and> dash_ok (wk_dash w')
    | Inr (device, w') \<Rightarrow> rules_ok (wk_rules w') \<and> dash_ok (wk_dash w')"
proof -
  let ?dev = "scope_get p fd_id fd_org_id (fl_devices (wk_fleet w)) device_id"
  let ?tem = "get_template template_id (wk_templates w)"
  show ?thesis
  proof (cases "\<exists>device t. ?dev = Inr device \<and> ?tem = Inr t")
    case False
    with assms show ?thesis
      by (cases ?dev; cases ?tem) (auto simp: apply_template_to_device_def or_committed_def)
  next
    case True
    then obtain device t where dt: "?dev = Inr device" "?tem = Inr t" by blast
    let ?w1 = "w\<lparr>wk_fleet := (wk_fleet w)\<lparr>fl_devices := tbl_put fd_id (device\<lparr>fd_template_id := Some (tm_id t)\<rparr>)
      (fl_devices (wk_fleet w))\<rparr>\<rparr>"
    have g: "lim.good (apply_dashboard p ids now t (fd_id device) (?w1, w))"
      using assms by (intro lim.good_dashboard) simp_all
    show ?thesis
    proof (cases "apply_dashboard p ids now t (fd_id device) (?w1, w)")
      case (Inl ew)
      with g dt show ?thesis by (cases ew) (simp add: apply_template_to_device_def Let_def lim.good_def)
    next
      case (Inr pr)
      with g have "rules_ok (wk_rules (fst pr)) \<and> dash_ok (wk_dash (fst pr))"
        "rules_ok (wk_rules (snd pr)) \<and> dash_ok (wk_dash (snd pr))" by (simp_all add: lim.good_def)
      from lim.good_rules [OF this, of repr p "ap_rules ids" now t 0 "normalize_rule_defs (tm_rules_def t)"] Inr dt
      show ?thesis
        by (cases "apply_rules repr p (ap_rules ids) now t 0 (normalize_rule_defs (tm_rules_def t)) pr")
          (auto simp: apply_template_to_device_def Let_def lim.good_def split: prod.splits)
    qed
  qed
qed

text \<open>C24. Applying a template is not atomic: when its dashboard could be created and a later widget or rule is refused,
  as an active rule above the limit of the plan is, the caller gets the error and keeps the dashboard, every widget and
  rule made so far and a device that is marked with the template.\<close>

theorem template_leaves_parts:
  assumes "scope_get p fd_id fd_org_id (fl_devices (wk_fleet w)) device_id = Inr device"
    and "get_template template_id (wk_templates w) = Inr t" "tm_dashboard_def t = JObj d" "name_of d t = Inr name"
    and "create_dashboard p now (ap_dashboard ids) name (dict_get d ''layout'') (wk_dash w) = Inr (dash, db)"
    and "apply_template_to_device repr p ids now device_id template_id w = Inl (e, w')"
  shows "dash \<in> set (dd_dashboards (wk_dash w'))
    \<and> tbl_get fd_id (fl_devices (wk_fleet w')) device_id = Some (device\<lparr>fd_template_id := Some template_id\<rparr>)"
proof -
  define w1 where "w1 = w\<lparr>wk_fleet := (wk_fleet w)\<lparr>fl_devices := tbl_put fd_id (device\<lparr>fd_template_id := Some (tm_id t)\<rparr>)
      (fl_devices (wk_fleet w))\<rparr>\<rparr>"
  define w2 where "w2 = w1\<lparr>wk_dash := db\<rparr>"
  have id: "tm_id t = template_id"
    using assms(2) by (auto simp: get_template_def fail_def split: option.splits dest: tbl_get_Some)
  have made: "committing (on_dash (create_dashboard p now (ap_dashboard ids) name (dict_get d ''layout''))) (w1, w)
      = Inr (dash, (w2, w2))"
    using assms(5) by (simp add: committing_Inr on_dash_Inr w1_def w2_def)
  have gd: "ext.good w2 (apply_dashboard p ids now t (fd_id device) (w1, w))"
    using ext.good_widgets [of w2 "(w2, w2)" p "ap_widgets ids" "dsh_id dash" "fd_id device" 0] assms(3,4) made
    by (cases "items_of d ''widgets''") (simp_all add: apply_dashboard_def or_committed_def ext.good_def)
  have "extends w2 w'"
  proof (cases "apply_dashboard p ids now t (fd_id device) (w1, w)")
    case (Inl ew)
    with assms(1,2,6) gd show ?thesis by (simp add: apply_template_to_device_def Let_def w1_def ext.good_def)
  next
    case (Inr pr)
    with gd have "extends w2 (fst pr)" "extends w2 (snd pr)" by (simp_all add: ext.good_def)
    from ext.good_rules [OF this, of repr p "ap_rules ids" now t 0 "normalize_rule_defs (tm_rules_def t)"] assms(1,2,6) Inr
    show ?thesis
      by (cases "apply_rules repr p (ap_rules ids) now t 0 (normalize_rule_defs (tm_rules_def t)) pr")
        (auto simp: apply_template_to_device_def Let_def w1_def ext.good_def)
  qed
  moreover have "dash \<in> set (dd_dashboards (wk_dash w2))" using assms(5) by (auto simp: w2_def elim!: create_dashboard_Inr)
  moreover have "tbl_get fd_id (fl_devices (wk_fleet w2)) device_id = Some (device\<lparr>fd_template_id := Some template_id\<rparr>)"
    using scope_get_Inr [OF assms(1)] id by (simp add: w2_def w1_def tbl_get_put)
  ultimately show ?thesis by (auto simp: extends_def)
qed

section \<open>What a successful application creates\<close>

definition bound_widget :: "uuid \<Rightarrow> widget \<Rightarrow> bool" where
  "bound_widget dash x = (wg_dashboard_id x = dash \<and> (\<exists>c. wg_config x = JObj c \<and> map_of c ''deviceId'' \<noteq> None))"

lemma bind_device_bound: "map_of (bind_device device c) ''deviceId'' \<noteq> None"
  by (cases "map_of c ''deviceId''") (simp_all add: bind_device_def map_add_def)

lemma widgets_made:
  "template_widgets p fresh dash device i vs pr = Inr pr' \<Longrightarrow>
     (\<exists>ws. wk_dash (fst pr') = (wk_dash (fst pr))\<lparr>dd_widgets := dd_widgets (wk_dash (fst pr)) @ ws\<rparr>
        \<and> list_all (bound_widget dash) ws)
     \<and> wk_rules (fst pr') = wk_rules (fst pr) \<and> wk_fleet (fst pr') = wk_fleet (fst pr)"
proof (induction vs arbitrary: i pr)
  case Nil
  then show ?case by (auto intro: exI [of _ "[]"])
next
  case (Cons v vs)
  show ?case
  proof (cases "\<exists>d ty. v = JObj d \<and> map_of d ''type'' = Some ty")
    case True
    then obtain d ty where v: "v = JObj d" "map_of d ''type'' = Some ty" by blast
    with Cons.prems obtain x w where w: "template_widget p (fresh i) dash device d ty (fst pr) = Inr (x, w)"
      and rest: "template_widgets p fresh dash device (Suc i) vs (w, w) = Inr pr'"
      by (auto simp: bind_res_eq_Inr committing_Inr)
    obtain s c db where add: "add_widget p (fresh i) dash s (JObj (bind_device device c)) (dict_get d ''layout'') (wk_dash (fst pr)) = Inr (x, db)"
      and w': "w = (fst pr)\<lparr>wk_dash := db\<rparr>" using template_widget_Inr [OF w] by blast
    from add have db: "db = (wk_dash (fst pr))\<lparr>dd_widgets := dd_widgets (wk_dash (fst pr)) @ [x]\<rparr>" and "bound_widget dash x"
      using bind_device_bound [of device c] by (auto simp: bound_widget_def new_widget_def elim!: add_widget_Inr)
    from Cons.IH [OF rest] obtain ws where "wk_dash (fst pr') = (wk_dash w)\<lparr>dd_widgets := dd_widgets (wk_dash w) @ ws\<rparr>"
      "list_all (bound_widget dash) ws" "wk_rules (fst pr') = wk_rules w" "wk_fleet (fst pr') = wk_fleet w" by auto
    with w' db \<open>bound_widget dash x\<close> show ?thesis by (auto intro!: exI [of _ "x # ws"])
  next
    case False
    with Cons.prems have "template_widgets p fresh dash device (Suc i) vs pr = Inr pr'" by (auto split: json.splits option.splits)
    then show ?thesis by (rule Cons.IH)
  qed
qed

lemma dashboard_made:
  assumes "apply_dashboard p ids now t device pr = Inr pr'"
  shows "(\<exists>ws. dd_widgets (wk_dash (fst pr')) = dd_widgets (wk_dash (fst pr)) @ ws \<and> list_all (bound_widget (ap_dashboard ids)) ws)
    \<and> length (dd_dashboards (wk_dash (fst pr'))) = length (dd_dashboards (wk_dash (fst pr)))
         + (if as_dict (tm_dashboard_def t) = None then 0 else 1)
    \<and> wk_rules (fst pr') = wk_rules (fst pr) \<and> wk_fleet (fst pr') = wk_fleet (fst pr)"
proof (cases "tm_dashboard_def t")
  case (JObj d)
  with assms obtain name dash w ws where "name_of d t = Inr name"
    and made: "on_dash (create_dashboard p now (ap_dashboard ids) name (dict_get d ''layout'')) (fst pr) = Inr (dash, w)"
    and rest: "template_widgets p (ap_widgets ids) (dsh_id dash) device 0 ws (w, w) = Inr pr'"
    by (auto simp: apply_dashboard_def bind_res_eq_Inr committing_Inr)
  from made have dash: "dsh_id dash = ap_dashboard ids" "dd_dashboards (wk_dash w) = dd_dashboards (wk_dash (fst pr)) @ [dash]"
    "dd_widgets (wk_dash w) = dd_widgets (wk_dash (fst pr))" "wk_rules w = wk_rules (fst pr)" "wk_fleet w = wk_fleet (fst pr)"
    by (auto simp: on_dash_Inr new_dashboard_def elim!: create_dashboard_Inr)
  from widgets_made [OF rest] dash JObj show ?thesis by auto
qed (use assms in \<open>auto simp: apply_dashboard_def\<close>)

lemma rules_made:
  "apply_rules repr p fresh now t i ds pr = Inr pr' \<Longrightarrow>
     (\<exists>rs. rb_rules (wk_rules (fst pr')) = rb_rules (wk_rules (fst pr)) @ rs \<and> length rs = length ds
        \<and> list_all (\<lambda>r. ru_template_id r = Some (tm_id t)) rs)
     \<and> wk_dash (fst pr') = wk_dash (fst pr) \<and> wk_fleet (fst pr') = wk_fleet (fst pr)"
proof (induction ds arbitrary: i pr)
  case (Cons d ds)
  then obtain r db where db: "create_rule_of repr p (fresh i) now t d (wk_rules (fst pr)) = Inr (r, db)"
    and rest: "apply_rules repr p fresh now t (Suc i) ds ((fst pr)\<lparr>wk_rules := db\<rparr>, (fst pr)\<lparr>wk_rules := db\<rparr>) = Inr pr'"
    by (auto simp: bind_res_eq_Inr committing_Inr on_rules_Inr)
  from db have "rb_rules db = rb_rules (wk_rules (fst pr)) @ [r] \<and> ru_template_id r = Some (tm_id t)"
    by (rule create_rule_of_Inr) (auto dest: create_rule_Inr)
  with Cons.IH [OF rest] show ?case by auto
qed simp

text \<open>A successful application is complete: the device is marked with the template, there is one dashboard more when the
  template defines one, every widget made is on it and names a device, and there is one rule of the template
  for every rule definition, in a run of consecutive new rows.\<close>

theorem template_applied_exact:
  assumes "apply_template_to_device repr p ids now device_id template_id w = Inr (device, w')"
  shows "\<exists>t ws rs. get_template template_id (wk_templates w) = Inr t
    \<and> tbl_get fd_id (fl_devices (wk_fleet w')) device_id = Some device \<and> fd_template_id device = Some template_id
    \<and> length (dd_dashboards (wk_dash w')) = length (dd_dashboards (wk_dash w)) + (if as_dict (tm_dashboard_def t) = None then 0 else 1)
    \<and> dd_widgets (wk_dash w') = dd_widgets (wk_dash w) @ ws \<and> list_all (bound_widget (ap_dashboard ids)) ws
    \<and> rb_rules (wk_rules w') = rb_rules (wk_rules w) @ rs \<and> length rs = length (normalize_rule_defs (tm_rules_def t))
    \<and> list_all (\<lambda>r. ru_template_id r = Some template_id) rs"
proof -
  let ?w1 = "\<lambda>device. w\<lparr>wk_fleet := (wk_fleet w)\<lparr>fl_devices := tbl_put fd_id device (fl_devices (wk_fleet w))\<rparr>\<rparr>"
  from assms obtain device0 t pr pr' where d0: "scope_get p fd_id fd_org_id (fl_devices (wk_fleet w)) device_id = Inr device0"
    and t: "get_template template_id (wk_templates w) = Inr t" and dev: "device = device0\<lparr>fd_template_id := Some (tm_id t)\<rparr>"
    and pr: "apply_dashboard p ids now t (fd_id device0) (?w1 device, w) = Inr pr"
    and pr': "apply_rules repr p (ap_rules ids) now t 0 (normalize_rule_defs (tm_rules_def t)) pr = Inr pr'" "w' = fst pr'"
    by (auto simp: apply_template_to_device_def bind_res_eq_Inr Let_def)
  have id: "tm_id t = template_id"
    using t by (auto simp: get_template_def fail_def split: option.splits dest: tbl_get_Some)
  from dashboard_made [OF pr] rules_made [OF pr'(1)] scope_get_Inr [OF d0] t pr'(2) id dev
  show ?thesis by (auto simp: tbl_get_put)
qed

section \<open>Examples\<close>

text \<open>An organization on the Free plan with two active rules, and two templates, of which one needs a rule.\<close>

definition ex_active :: "uuid \<Rightarrow> rule_row" where
  "ex_active k = \<lparr>ru_id = k, ru_org_id = ex_o1, ru_name = ''r'', ru_enabled = True, ru_template_id = None, ru_created_at = 0\<rparr>"

definition ex_template :: "uuid \<Rightarrow> json \<Rightarrow> template" where
  "ex_template k rules = \<lparr>tm_id = k, tm_category = ''student'', tm_name = ''Greenhouse'', tm_arduino_code = None,
     tm_wiring_diagram_url = None,
     tm_dashboard_def = JObj [(''widgets'', JArr [JObj [(''type'', JStr ''gauge'')]])], tm_rules_def = rules\<rparr>"

definition ex_workshop :: workshop where
  "ex_workshop = \<lparr>wk_fleet = \<lparr>fl_devices = [new_device ex_o1 ex_o1 ''U'' None None None], fl_credentials = [], fl_nodes = [],
       fl_groups = [], fl_assignments = [], fl_users = [], fl_orgs = Map.empty, fl_templates = [], fl_log = []\<rparr>,
     wk_dash = \<lparr>dd_dashboards = [], dd_widgets = []\<rparr>,
     wk_rules = \<lparr>rb_orgs = [], rb_rules = [ex_active ''a'', ex_active ''b''], rb_nodes = [], rb_edges = []\<rparr>,
     wk_templates = [ex_template ''t1'' JNull, ex_template ''t2'' (JObj [(''name'', JStr ''Alert'')])]\<rparr>"

definition ex_ids :: apply_ids where
  "ex_ids = \<lparr>ap_dashboard = ''dash'', ap_widgets = (\<lambda>i. ''w''), ap_rules = (\<lambda>i. \<lparr>fr_rule = ''r'', fr_nodes = (\<lambda>_. ''n''), fr_edges = (\<lambda>_. ''e'')\<rparr>)\<rparr>"

lemma ex_tpl_strip: "strip ''Greenhouse'' = ''Greenhouse''" "strip ''Alert'' = ''Alert''"
  by code_simp+

definition ex_worker :: principal where
  "ex_worker = \<lparr>pr_user_id = ex_o1, pr_org_id = ex_o1, pr_role = ROLE_PROJECT_CENTER\<rparr>"

lemma ex_orgs: "dash_org_uuid ex_worker = Inr ex_o1" "rule_org_uuid ex_worker = Inr ex_o1"
    "owner_user_uuid ex_worker = Some ex_o1"
  by (simp_all add: dash_org_uuid_def rule_org_uuid_def owner_user_uuid_def ex_worker_def ex_uuid)

lemma ex_device:
  "scope_get ex_worker fd_id fd_org_id (fl_devices (wk_fleet ex_workshop)) ex_o1 = Inr (new_device ex_o1 ex_o1 ''U'' None None None)"
  by (simp add: scope_get_def ex_workshop_def new_device_def ex_worker_def)

lemma ex_made:
  "\<exists>dash db. create_dashboard ex_worker 7 (ap_dashboard ex_ids) ''Greenhouse'' JNull (wk_dash ex_workshop) = Inr (dash, db)"
  by (simp add: create_dashboard_def ex_tpl_strip ex_orgs insert_row_def ex_workshop_def Let_def)

lemma ex_dashboard_applied:
  "\<exists>w2. apply_dashboard ex_worker ex_ids 7 (ex_template k rules) ex_o1 (w, ex_workshop) = Inr (w2, w2)
     \<and> wk_rules w2 = wk_rules ex_workshop" if "wk_dash w = wk_dash ex_workshop" "wk_rules w = wk_rules ex_workshop"
  using that
  by (simp add: apply_dashboard_def ex_template_def name_of_def dict_get_def py_or_def committing_def on_dash_def
      create_dashboard_def ex_tpl_strip ex_orgs insert_row_def ex_workshop_def Let_def items_of_def template_widget_def
      add_widget_def get_dashboard_def new_dashboard_def WIDGET_TYPES_def ex_ids_def)

lemma ex_rule_refused:
  "create_rule_of repr ex_worker fr 7 (ex_template k rules) [(''name'', JStr ''Alert'')] (wk_rules ex_workshop)
     = fail PlanLimitError"
  by (simp add: create_rule_of_def name_of_def dict_get_def py_or_def items_of_def dict_or_def create_rule_def ex_tpl_strip
      enforce_active_limit_def ex_orgs org_plan_def ex_workshop_def plan_active_rule_limit_def count_active_rules_def
      ex_active_def FREE_PLAN_ACTIVE_RULE_LIMIT_def PRO_PLAN_def fail_def)

lemma ex_apply:
  "\<exists>w'. apply_template_to_device repr ex_worker ex_ids 7 ex_o1 ''t2'' ex_workshop = Inl (Raised PlanLimitError, w')"
  "\<exists>device w'. apply_template_to_device repr ex_worker ex_ids 7 ex_o1 ''t1'' ex_workshop = Inr (device, w')"
proof -
  let ?d = "new_device ex_o1 ex_o1 ''U'' None None None"
  let ?w = "\<lambda>k. ex_workshop\<lparr>wk_fleet := (wk_fleet ex_workshop)\<lparr>fl_devices :=
    tbl_put fd_id (?d\<lparr>fd_template_id := Some k\<rparr>) (fl_devices (wk_fleet ex_workshop))\<rparr>\<rparr>"
  have t: "get_template ''t2'' (wk_templates ex_workshop) = Inr (ex_template ''t2'' (JObj [(''name'', JStr ''Alert'')]))"
    "get_template ''t1'' (wk_templates ex_workshop) = Inr (ex_template ''t1'' JNull)"
    by (simp_all add: get_template_def ex_workshop_def ex_template_def)
  have f: "fd_id ?d = ex_o1" "tm_id (ex_template k r) = k" "tm_rules_def (ex_template k r) = r" for k r
    by (simp_all add: new_device_def ex_template_def)
  obtain w2 where w2: "apply_dashboard ex_worker ex_ids 7 (ex_template ''t2'' (JObj [(''name'', JStr ''Alert'')])) ex_o1
      (?w ''t2'', ex_workshop) = Inr (w2, w2)" "wk_rules w2 = wk_rules ex_workshop"
    using ex_dashboard_applied [of "?w ''t2''"] by auto
  obtain w1 where w1: "apply_dashboard ex_worker ex_ids 7 (ex_template ''t1'' JNull) ex_o1 (?w ''t1'', ex_workshop) = Inr (w1, w1)"
    using ex_dashboard_applied [of "?w ''t1''"] by auto
  have "on_rules (create_rule_of repr ex_worker (ap_rules ex_ids 0) 7 (ex_template ''t2'' (JObj [(''name'', JStr ''Alert'')]))
      [(''name'', JStr ''Alert'')]) w2 = Inl (Raised PlanLimitError)"
    using w2(2) by (simp add: on_rules_def ex_rule_refused fail_def)
  then show "\<exists>w'. apply_template_to_device repr ex_worker ex_ids 7 ex_o1 ''t2'' ex_workshop = Inl (Raised PlanLimitError, w')"
    using ex_device t f w2(1)
    by (simp add: apply_template_to_device_def Let_def normalize_rule_defs_def dict_get_def committing_def)
  show "\<exists>device w'. apply_template_to_device repr ex_worker ex_ids 7 ex_o1 ''t1'' ex_workshop = Inr (device, w')"
    using ex_device t f w1 by (simp add: apply_template_to_device_def Let_def normalize_rule_defs_def)
qed

theorem template_leaves_parts_witness:
  "\<exists>w'. apply_template_to_device (\<lambda>_. []) ex_worker ex_ids 7 ex_o1 ''t2'' ex_workshop = Inl (Raised PlanLimitError, w')
    \<and> dd_dashboards (wk_dash w') \<noteq> []"
proof -
  obtain w' where w': "apply_template_to_device (\<lambda>_. []) ex_worker ex_ids 7 ex_o1 ''t2'' ex_workshop = Inl (Raised PlanLimitError, w')"
    using ex_apply(1) by blast
  obtain dash db where made: "create_dashboard ex_worker 7 (ap_dashboard ex_ids) ''Greenhouse''
      (dict_get [(''widgets'', JArr [JObj [(''type'', JStr ''gauge'')]])] ''layout'') (wk_dash ex_workshop) = Inr (dash, db)"
    using ex_made by (auto simp: dict_get_def)
  have t: "get_template ''t2'' (wk_templates ex_workshop) = Inr (ex_template ''t2'' (JObj [(''name'', JStr ''Alert'')]))"
    by (simp add: get_template_def ex_workshop_def ex_template_def)
  from template_leaves_parts [OF ex_device t _ _ made w'] w' show ?thesis
    by (force simp: ex_template_def name_of_def dict_get_def py_or_def)
qed

theorem template_applied_exact_witness:
  "\<exists>device w'. apply_template_to_device (\<lambda>_. []) ex_worker ex_ids 7 ex_o1 ''t1'' ex_workshop = Inr (device, w')
    \<and> fd_template_id device = Some ''t1'' \<and> rb_rules (wk_rules w') = rb_rules (wk_rules ex_workshop)"
proof -
  obtain device w' where r: "apply_template_to_device (\<lambda>_. []) ex_worker ex_ids 7 ex_o1 ''t1'' ex_workshop = Inr (device, w')"
    using ex_apply(2) by blast
  have "get_template ''t1'' (wk_templates ex_workshop) = Inr (ex_template ''t1'' JNull)"
    by (simp add: get_template_def ex_workshop_def ex_template_def)
  with template_applied_exact [OF r] r show ?thesis by (auto simp: normalize_rule_defs_def ex_template_def)
qed

lemma ex_workshop_ok: "rules_ok (wk_rules ex_workshop)" "dash_ok (wk_dash ex_workshop)"
  by (simp_all add: rules_ok_def graphs_ok_def limit_le_iff ex_workshop_def ex_active_def org_plan_def count_active_rules_def
      dash_ok_def tokens_unique_def plan_active_rule_limit_def FREE_PLAN_ACTIVE_RULE_LIMIT_def PRO_PLAN_def)

theorem template_keeps_limits_witness:
  "\<exists>w'. apply_template_to_device (\<lambda>_. []) ex_worker ex_ids 7 ex_o1 ''t2'' ex_workshop = Inl (Raised PlanLimitError, w')
    \<and> rules_ok (wk_rules w')"
proof -
  obtain w' where w': "apply_template_to_device (\<lambda>_. []) ex_worker ex_ids 7 ex_o1 ''t2'' ex_workshop = Inl (Raised PlanLimitError, w')"
    using ex_apply(1) by blast
  with template_keeps_limits [OF ex_workshop_ok, of "\<lambda>_. []" ex_worker ex_ids 7 ex_o1 "''t2''"] show ?thesis by simp
qed

end
