(* ===== verification/Admin.thy ===== *)
theory Admin imports Auth Entitlements
begin

text \<open>
  The control panel of the Super_Admin: companies, users and devices across organizations
  (\<open>app/services/admin_service.py\<close>, \<open>app/api/v1/admin.py\<close>) and the registry of MQTT nodes
  (\<open>app/api/v1/admin_nodes.py\<close>).  The state is the rows of organizations and users beside the
  platform of \<open>Entitlements\<close>, whose components keep their own columns of the same rows; the columns of
  a node that assignment does not read are kept beside it.  Deleting a company follows the foreign keys
  of the migration through these tables.  Numbers are within their columns, a number of days within the
  range of a date.
\<close>

record node_details =
  nd_ip :: string
  nd_port :: int
  nd_ram_pct :: "rat option"
  nd_cpu_pct :: "rat option"
  nd_disk_pct :: "rat option"

record admin_db =
  ad_orgs :: "auth_org list"
  ad_users :: "auth_user list"
  ad_platform :: platform
  ad_node_details :: "uuid \<rightharpoonup> node_details"

abbreviation ad_fleet :: "admin_db \<Rightarrow> fleet" where
  "ad_fleet db \<equiv> pf_fleet (ad_platform db)"

abbreviation ad_billing :: "admin_db \<Rightarrow> billing" where
  "ad_billing db \<equiv> pf_billing (ad_platform db)"

definition set_fleet :: "fleet \<Rightarrow> admin_db \<Rightarrow> admin_db" where
  "set_fleet fl db = db\<lparr>ad_platform := (ad_platform db)\<lparr>pf_fleet := fl\<rparr>\<rparr>"

text \<open>Every route is for the Super_Admin.\<close>

definition super_only :: "principal \<Rightarrow> 'a result \<Rightarrow> 'a result" where
  "super_only p m = bind_res (require_role [ROLE_SUPER_ADMIN] p) (\<lambda>_. m)"

section \<open>The registry of nodes\<close>

definition DISABLED_STATUS :: string where
  "DISABLED_STATUS = ''disabled''"

definition NODE_STATUSES :: "string list" where
  "NODE_STATUSES = [ACTIVE_STATUS, DISABLED_STATUS]"

definition node_create_ok :: "string \<Rightarrow> int \<Rightarrow> int \<Rightarrow> bool" where
  "node_create_ok ip port capacity = (ip \<noteq> [] \<and> 0 < port \<and> port \<le> 65535 \<and> 0 < capacity)"

definition register_mqtt_node ::
  "principal \<Rightarrow> uuid \<Rightarrow> string \<Rightarrow> int \<Rightarrow> int \<Rightarrow> admin_db \<Rightarrow> ((mqtt_node \<times> node_details) \<times> admin_db) result" where
  "register_mqtt_node p fresh ip port capacity db =
     super_only p (bind_res (guard_res (\<not> node_create_ok ip port capacity) (ValidationError ''validation_error'')) (\<lambda>_.
       let node = \<lparr>mn_id = fresh, mn_status = Some ACTIVE_STATUS, mn_active_connections = 0, mn_capacity = capacity\<rparr>;
           details = \<lparr>nd_ip = ip, nd_port = port, nd_ram_pct = None, nd_cpu_pct = None, nd_disk_pct = None\<rparr>
       in bind_res (insert_row mn_id node (fl_nodes (ad_fleet db))) (\<lambda>rows.
          Inr ((node, details), (set_fleet ((ad_fleet db)\<lparr>fl_nodes := rows\<rparr>) db)
            \<lparr>ad_node_details := (ad_node_details db)(fresh \<mapsto> details)\<rparr>))))"

text \<open>The database clears the reference of the devices to the deleted row.\<close>

definition drop_node :: "uuid \<Rightarrow> fleet \<Rightarrow> fleet" where
  "drop_node k fl = fl\<lparr>
     fl_nodes := filter (\<lambda>n. mn_id n \<noteq> k) (fl_nodes fl),
     fl_devices := map (\<lambda>d. if fd_node_id d = Some k then d\<lparr>fd_node_id := None\<rparr> else d) (fl_devices fl)\<rparr>"

definition deregister_mqtt_node :: "principal \<Rightarrow> uuid \<Rightarrow> admin_db \<Rightarrow> (unit \<times> admin_db) result" where
  "deregister_mqtt_node p k db =
     super_only p (case tbl_get mn_id (fl_nodes (ad_fleet db)) k of
         None \<Rightarrow> fail (NotFoundError ''not_found'')
       | Some n \<Rightarrow> Inr ((), (set_fleet (drop_node k (ad_fleet db)) db)
           \<lparr>ad_node_details := (ad_node_details db)(k := None)\<rparr>))"

definition list_mqtt_nodes :: "principal \<Rightarrow> admin_db \<Rightarrow> (mqtt_node \<times> node_details option) list result" where
  "list_mqtt_nodes p db =
     super_only p (Inr (map (\<lambda>n. (n, ad_node_details db (mn_id n))) (fl_nodes (ad_fleet db))))"

text \<open>The checks read the node once; \<open>between\<close> is what other sessions do to the table before the UPDATE,
  which writes only the columns that differ from what was read.\<close>

definition check_node_update :: "string option \<Rightarrow> int option \<Rightarrow> mqtt_node \<Rightarrow> unit result" where
  "check_node_update new_status capacity n =
     bind_res (guard_res (case new_status of None \<Rightarrow> False | Some st \<Rightarrow> st \<notin> set NODE_STATUSES)
       (ValidationError ''validation_error'')) (\<lambda>_.
     guard_res (case capacity of None \<Rightarrow> False | Some c \<Rightarrow> c < mn_active_connections n)
       (ValidationError ''validation_error''))"

definition changed_node :: "string option \<Rightarrow> int option \<Rightarrow> mqtt_node \<Rightarrow> mqtt_node \<Rightarrow> mqtt_node" where
  "changed_node new_status capacity read cur =
     (let cur1 = (case new_status of None \<Rightarrow> cur | Some st \<Rightarrow>
            if mn_status read = Some st then cur else cur\<lparr>mn_status := Some st\<rparr>)
      in case capacity of None \<Rightarrow> cur1 | Some c \<Rightarrow>
           if mn_capacity read = c then cur1 else cur1\<lparr>mn_capacity := c\<rparr>)"

definition update_mqtt_node ::
  "principal \<Rightarrow> uuid \<Rightarrow> string option \<Rightarrow> int option \<Rightarrow> (mqtt_node list \<Rightarrow> mqtt_node list) \<Rightarrow> admin_db
     \<Rightarrow> (mqtt_node \<times> admin_db) result" where
  "update_mqtt_node p k new_status capacity between db =
     super_only p (
     bind_res (guard_res (case capacity of None \<Rightarrow> False | Some c \<Rightarrow> c \<le> 0) (ValidationError ''validation_error'')) (\<lambda>_.
     bind_res (guard_res (new_status = None \<and> capacity = None) (ValidationError ''validation_error'')) (\<lambda>_.
       case tbl_get mn_id (fl_nodes (ad_fleet db)) k of
         None \<Rightarrow> fail (NotFoundError ''not_found'')
       | Some n \<Rightarrow>
           bind_res (check_node_update new_status capacity n) (\<lambda>_.
             let now = between (fl_nodes (ad_fleet db)) in
             case tbl_get mn_id now k of
               None \<Rightarrow> Inl StaleDataError
             | Some cur \<Rightarrow>
                 let cur' = changed_node new_status capacity n cur
                 in Inr (cur', set_fleet ((ad_fleet db)\<lparr>fl_nodes := tbl_put mn_id cur' now\<rparr>) db)))))"

section \<open>Companies\<close>

text \<open>What the database deletes with an organization: the rows with its id and the rows that need one of
  them; a reference that may be null is cleared.\<close>

definition drop_org_fleet :: "uuid \<Rightarrow> fleet \<Rightarrow> fleet" where
  "drop_org_fleet k fl =
     (let devices = fd_id ` set (filter (\<lambda>d. fd_org_id d = k) (fl_devices fl));
          users = fu_id ` set (filter (\<lambda>u. fu_org_id u = k) (fl_users fl));
          groups = dg_id ` set (filter (\<lambda>g. dg_org_id g = k) (fl_groups fl))
      in fl\<lparr>
        fl_devices := map (\<lambda>d. case fd_group_id d of None \<Rightarrow> d
              | Some g \<Rightarrow> if g \<in> groups then d\<lparr>fd_group_id := None\<rparr> else d)
            (filter (\<lambda>d. fd_org_id d \<noteq> k) (fl_devices fl)),
        fl_credentials := filter (\<lambda>c. mc_org_id c \<noteq> k \<and> mc_device_id c \<notin> devices) (fl_credentials fl),
        fl_groups := filter (\<lambda>g. dg_org_id g \<noteq> k) (fl_groups fl),
        fl_assignments := filter (\<lambda>a. da_org_id a \<noteq> k \<and> da_device_id a \<notin> devices \<and> da_user_id a \<notin> users)
            (fl_assignments fl),
        fl_users := filter (\<lambda>u. fu_org_id u \<noteq> k) (fl_users fl),
        fl_orgs := (fl_orgs fl)(k := None),
        fl_log := map (\<lambda>l. l\<lparr>al_user_id := (case al_user_id l of None \<Rightarrow> None | Some u \<Rightarrow> if u \<in> users then None else Some u),
              al_device_id := (case al_device_id l of None \<Rightarrow> None | Some d \<Rightarrow> if d \<in> devices then None else Some d)\<rparr>)
            (filter (\<lambda>l. al_org_id l \<noteq> k) (fl_log fl))\<rparr>)"

definition drop_org_billing :: "uuid \<Rightarrow> billing \<Rightarrow> billing" where
  "drop_org_billing k db =
     (let devices = row_id ` set (filter (\<lambda>d. row_org_id d = k) (b_devices db));
          users = row_id ` set (filter (\<lambda>u. row_org_id u = k) (b_users db));
          subs = sub_id ` set (filter (\<lambda>s. sub_org_id s = k) (b_subs db))
      in db\<lparr>
        b_subs := map (\<lambda>s. case sub_device_id s of None \<Rightarrow> s
              | Some d \<Rightarrow> if d \<in> devices then s\<lparr>sub_device_id := None\<rparr> else s)
            (filter (\<lambda>s. sub_org_id s \<noteq> k) (b_subs db)),
        b_pays := map (\<lambda>x. case pay_subscription_id x of None \<Rightarrow> x
              | Some s \<Rightarrow> if s \<in> subs then x\<lparr>pay_subscription_id := None\<rparr> else x)
            (filter (\<lambda>x. pay_org_id x \<noteq> k) (b_pays db)),
        b_devices := filter (\<lambda>d. row_org_id d \<noteq> k) (b_devices db),
        b_users := filter (\<lambda>u. row_org_id u \<noteq> k) (b_users db),
        b_notes := filter (\<lambda>n. note_org_id n \<noteq> k \<and> note_user_id n \<notin> users) (b_notes db)\<rparr>)"

definition drop_org_rules :: "uuid \<Rightarrow> rules_db \<Rightarrow> rules_db" where
  "drop_org_rules k db =
     (let rules = Rule_Service.ru_id ` set (filter (\<lambda>r. Rule_Service.ru_org_id r = k) (rb_rules db));
          nodes = rn_id ` set (filter (\<lambda>n. rn_org_id n = k \<or> rn_rule_id n \<in> rules) (rb_nodes db))
      in db\<lparr>
        rb_orgs := filter (\<lambda>o'. Rule_Service.ro_id o' \<noteq> k) (rb_orgs db),
        rb_rules := filter (\<lambda>r. Rule_Service.ru_org_id r \<noteq> k) (rb_rules db),
        rb_nodes := filter (\<lambda>n. rn_id n \<notin> nodes) (rb_nodes db),
        rb_edges := filter (\<lambda>e. re_org_id e \<noteq> k \<and> re_rule_id e \<notin> rules
            \<and> re_from_node_id e \<notin> nodes \<and> re_to_node_id e \<notin> nodes) (rb_edges db)\<rparr>)"

definition find_company :: "string \<Rightarrow> admin_db \<Rightarrow> auth_org result" where
  "find_company company_id db =
     bind_res (admin_coerce_uuid company_id) (\<lambda>k.
       case tbl_get og_id (ad_orgs db) k of
         None \<Rightarrow> fail (NotFoundError ''company_not_found'')
       | Some org \<Rightarrow> Inr org)"

definition drop_company :: "uuid \<Rightarrow> admin_db \<Rightarrow> admin_db" where
  "drop_company k db = db\<lparr>
     ad_orgs := filter (\<lambda>g. og_id g \<noteq> k) (ad_orgs db),
     ad_users := filter (\<lambda>u. us_org_id u \<noteq> k) (ad_users db),
     ad_platform := \<lparr>pf_billing = drop_org_billing k (ad_billing db), pf_fleet = drop_org_fleet k (ad_fleet db),
       pf_rules = drop_org_rules k (pf_rules (ad_platform db))\<rparr>\<rparr>"

definition delete_company :: "principal \<Rightarrow> string \<Rightarrow> admin_db \<Rightarrow> (unit \<times> admin_db) result" where
  "delete_company p company_id db =
     super_only p (bind_res (find_company company_id db) (\<lambda>org. Inr ((), drop_company (og_id org) db)))"

section \<open>Users\<close>

definition drop_user :: "uuid \<Rightarrow> admin_db \<Rightarrow> admin_db" where
  "drop_user k db =
     (let fl = ad_fleet db; b = ad_billing db in db\<lparr>
       ad_users := filter (\<lambda>u. us_id u \<noteq> k) (ad_users db),
       ad_platform := (ad_platform db)\<lparr>
         pf_fleet := fl\<lparr>fl_users := filter (\<lambda>u. fu_id u \<noteq> k) (fl_users fl),
           fl_assignments := filter (\<lambda>a. da_user_id a \<noteq> k) (fl_assignments fl),
           fl_log := map (\<lambda>l. if al_user_id l = Some k then l\<lparr>al_user_id := None\<rparr> else l) (fl_log fl)\<rparr>,
         pf_billing := b\<lparr>b_users := filter (\<lambda>u. row_id u \<noteq> k) (b_users b),
           b_notes := filter (\<lambda>n. note_user_id n \<noteq> k) (b_notes b)\<rparr>\<rparr>\<rparr>)"

definition delete_user :: "principal \<Rightarrow> uuid \<Rightarrow> admin_db \<Rightarrow> (unit \<times> admin_db) result" where
  "delete_user p k db =
     super_only p (case tbl_get us_id (ad_users db) k of
         None \<Rightarrow> fail (NotFoundError ''not_found'')
       | Some u \<Rightarrow> Inr ((), drop_user k db))"

section \<open>Moving a device\<close>

definition reassign_device ::
  "principal \<Rightarrow> string \<Rightarrow> string \<Rightarrow> admin_db \<Rightarrow> (fleet_device \<times> admin_db) result" where
  "reassign_device p device_id org_id db =
     super_only p (
     bind_res (guard_res (org_id = []) (ValidationError ''validation_error'')) (\<lambda>_.
     bind_res (admin_coerce_uuid device_id) (\<lambda>i.
       case tbl_get fd_id (fl_devices (ad_fleet db)) i of
         None \<Rightarrow> fail (NotFoundError ''device_not_found'')
       | Some device \<Rightarrow>
           bind_res (admin_coerce_uuid org_id) (\<lambda>k.
             case tbl_get og_id (ad_orgs db) k of
               None \<Rightarrow> fail (NotFoundError ''organization_not_found'')
             | Some target_org \<Rightarrow>
                 let device' = device\<lparr>fd_org_id := og_id target_org\<rparr>; b = ad_billing db
                 in Inr (device', db\<lparr>ad_platform := (ad_platform db)\<lparr>
                      pf_fleet := put_device device' (ad_fleet db),
                      pf_billing := b\<lparr>b_devices := map (\<lambda>r. if row_id r = i then r\<lparr>row_org_id := og_id target_org\<rparr> else r)
                        (b_devices b)\<rparr>\<rparr>\<rparr>)))))"

section \<open>The routes of the company and user operations of sign-in\<close>

definition post_company ::
  "principal \<Rightarrow> uuid \<Rightarrow> string \<Rightarrow> string \<Rightarrow> string \<Rightarrow> auth_db \<Rightarrow> (auth_org \<times> auth_db) result" where
  "post_company p fresh_id name plan org_type db =
     super_only p (bind_res (guard_res (name = []) (ValidationError ''validation_error''))
       (\<lambda>_. create_company fresh_id name plan org_type db))"

definition patch_company_suspend :: "principal \<Rightarrow> uuid \<Rightarrow> auth_db \<Rightarrow> (auth_org \<times> auth_db) result" where
  "patch_company_suspend p company_id db = super_only p (suspend_company company_id db)"

definition post_reset_password ::
  "crypto \<Rightarrow> string \<Rightarrow> principal \<Rightarrow> uuid \<Rightarrow> string \<Rightarrow> auth_db \<Rightarrow> (auth_user \<times> auth_db) result" where
  "post_reset_password C salt p user_id new_password db =
     super_only p (bind_res (guard_res (length new_password < 8 \<or> 256 < length new_password)
         (ValidationError ''validation_error''))
       (\<lambda>_. reset_user_password C salt user_id new_password db))"

definition patch_user_role :: "principal \<Rightarrow> uuid \<Rightarrow> string \<Rightarrow> auth_db \<Rightarrow> (auth_user \<times> auth_db) result" where
  "patch_user_role p user_id rl db =
     super_only p (bind_res (guard_res (rl = []) (ValidationError ''validation_error''))
       (\<lambda>_. change_user_role user_id rl db))"

section \<open>Overview and listings\<close>

definition total_revenue :: "payment list \<Rightarrow> rat" where
  "total_revenue pays = (\<Sum>x\<leftarrow>filter (\<lambda>x. pay_status x = PAY_CAPTURED) pays. pay_amount x)"

text \<open>Redis as the overview sees it: none configured, or whether it answers a ping and, when it can be
  read, the size of the set of devices online.\<close>

type_synonym redis_view = "(bool \<times> nat option) option"

definition online_device_count :: "redis_view \<Rightarrow> nat" where
  "online_device_count redis = (case redis of Some (ok, Some n) \<Rightarrow> n | _ \<Rightarrow> 0)"

definition redis_status :: "redis_view \<Rightarrow> string" where
  "redis_status redis =
     (case redis of None \<Rightarrow> ''unconfigured'' | Some (ok, n) \<Rightarrow> if ok then ''ok'' else ''degraded'')"

record admin_overview =
  ov_companies :: nat
  ov_devices :: nat
  ov_users :: nat
  ov_online :: nat
  ov_revenue :: rat
  ov_redis :: string
  ov_nodes :: "(mqtt_node \<times> node_details option) list"

definition overview :: "principal \<Rightarrow> redis_view \<Rightarrow> admin_db \<Rightarrow> admin_overview result" where
  "overview p redis db =
     super_only p (Inr \<lparr>ov_companies = length (ad_orgs db), ov_devices = length (fl_devices (ad_fleet db)),
       ov_users = length (ad_users db), ov_online = online_device_count redis,
       ov_revenue = total_revenue (b_pays (ad_billing db)), ov_redis = redis_status redis,
       ov_nodes = map (\<lambda>n. (n, ad_node_details db (mn_id n))) (fl_nodes (ad_fleet db))\<rparr>)"

text \<open>The active subscription of an organization with the latest end; in a descending order the database
  puts a missing end first.\<close>

definition later_end :: "subscription \<Rightarrow> subscription \<Rightarrow> subscription" where
  "later_end b s =
     (case (sub_period_end b, sub_period_end s) of
        (None, _) \<Rightarrow> b
      | (_, None) \<Rightarrow> s
      | (Some e, Some e') \<Rightarrow> if instant e < instant e' then s else b)"

definition latest_active :: "uuid \<Rightarrow> subscription list \<Rightarrow> subscription option" where
  "latest_active org subs =
     (case filter (\<lambda>s. sub_org_id s = org \<and> sub_status s = Some ''active'') subs of
        [] \<Rightarrow> None
      | s # ss \<Rightarrow> Some (fold (\<lambda>s b. later_end b s) ss s))"

definition days_left :: "timestamp \<Rightarrow> datetime \<Rightarrow> int" where
  "days_left now e = max 0 ((instant e - now) div usec_per_day)"

definition subscription_days_remaining :: "timestamp \<Rightarrow> uuid \<Rightarrow> subscription list \<Rightarrow> int option" where
  "subscription_days_remaining now org subs =
     (case latest_active org subs of
        None \<Rightarrow> None
      | Some s \<Rightarrow> map_option (days_left now) (sub_period_end s))"

record user_detail =
  ud_user :: auth_user
  ud_device_count :: nat
  ud_days_remaining :: "int option"

definition list_users :: "principal \<Rightarrow> timestamp \<Rightarrow> admin_db \<Rightarrow> user_detail list result" where
  "list_users p now db =
     super_only p (Inr (map (\<lambda>u. \<lparr>ud_user = u, ud_device_count = count_devices (ad_fleet db) (us_org_id u),
       ud_days_remaining = subscription_days_remaining now (us_org_id u) (b_subs (ad_billing db))\<rparr>)
       (rev (ad_users db))))"

text \<open>An outer join with the users of an organization: one row for each of them, or one without an
  e-mail address.\<close>

definition org_emails :: "admin_db \<Rightarrow> uuid \<Rightarrow> string option list" where
  "org_emails db org =
     (case filter (\<lambda>u. us_org_id u = org) (ad_users db) of
        [] \<Rightarrow> [None]
      | us \<Rightarrow> map (\<lambda>u. Some (us_email u)) us)"

record device_listing =
  dl_device :: fleet_device
  dl_owner_email :: "string option"
  dl_days_remaining :: "int option"
  dl_node_id :: "uuid option"
  dl_node_label :: "string option"

definition node_label :: "node_details \<Rightarrow> string" where
  "node_label nd = nd_ip nd @ '':'' @ int_str (nd_port nd)"

definition device_rows :: "timestamp \<Rightarrow> admin_db \<Rightarrow> fleet_device \<Rightarrow> device_listing list" where
  "device_rows now db d =
     (let node = Option.bind (fd_node_id d) (tbl_get mn_id (fl_nodes (ad_fleet db)))
      in map (\<lambda>email. \<lparr>dl_device = d, dl_owner_email = email,
             dl_days_remaining = subscription_days_remaining now (fd_org_id d) (b_subs (ad_billing db)),
             dl_node_id = map_option mn_id node,
             dl_node_label = Option.bind (map_option mn_id node)
               (\<lambda>k. map_option node_label (ad_node_details db k))\<rparr>)
           (org_emails db (fd_org_id d)))"

definition list_all_devices :: "principal \<Rightarrow> timestamp \<Rightarrow> admin_db \<Rightarrow> device_listing list result" where
  "list_all_devices p now db =
     super_only p (Inr (concat (map (device_rows now db) (rev (fl_devices (ad_fleet db))))))"

record expiring_row =
  ex_subscription :: subscription
  ex_email :: "string option"
  ex_days_remaining :: int

definition expires_within :: "timestamp \<Rightarrow> int \<Rightarrow> subscription \<Rightarrow> bool" where
  "expires_within now days s =
     (sub_status s = Some ''active''
      \<and> (case sub_period_end s of None \<Rightarrow> False
         | Some e \<Rightarrow> instant e \<le> now + days * usec_per_day \<and> now < instant e))"

definition expiring_subscriptions :: "principal \<Rightarrow> timestamp \<Rightarrow> int \<Rightarrow> admin_db \<Rightarrow> expiring_row list result" where
  "expiring_subscriptions p now days db =
     super_only p (Inr (concat (map (\<lambda>s. map (\<lambda>email. \<lparr>ex_subscription = s, ex_email = email,
          ex_days_remaining = days_left now (the (sub_period_end s))\<rparr>) (org_emails db (sub_org_id s)))
       (sort_key (\<lambda>s. instant (the (sub_period_end s)))
          (filter (expires_within now days) (b_subs (ad_billing db)))))))"

section \<open>Lemmas\<close>

lemma super_only_eq: "super_only p m = (if is_super_admin p then m else fail forbidden)"
  by (simp add: super_only_def require_role_def is_super_admin_def fail_def)

lemma super_only_Inr [simp]: "super_only p m = Inr r \<longleftrightarrow> is_super_admin p \<and> m = Inr r"
  by (simp add: super_only_eq fail_def)

lemma ad_set_fleet [simp]:
  "ad_fleet (set_fleet fl db) = fl" "ad_billing (set_fleet fl db) = ad_billing db"
  "pf_rules (ad_platform (set_fleet fl db)) = pf_rules (ad_platform db)" "ad_orgs (set_fleet fl db) = ad_orgs db"
  "ad_users (set_fleet fl db) = ad_users db"
  by (simp_all add: set_fleet_def)

lemma filter_count_mono: "length (filter P (filter Q xs)) \<le> length (filter P xs)"
  by (induction xs) auto

text \<open>The nodes.\<close>

lemma nodes_ok_more:
  assumes "nodes_ok ds ns" "mn_id n \<notin> mn_id ` set ns" "\<And>i o' k. (i, o', k) \<in> set ds \<Longrightarrow> k \<noteq> Some (mn_id n)"
    and "0 \<le> mn_active_connections n" "mn_active_connections n \<le> mn_capacity n"
  shows "nodes_ok ds (ns @ [n])"
proof -
  have "filter (\<lambda>(i, o', k). k = Some (mn_id n)) ds = []"
    using assms(3) by (auto simp: filter_empty_conv)
  with assms show ?thesis by (auto simp: nodes_ok_def)
qed

lemma nodes_ok_filter:
  assumes "nodes_ok ds ns"
  shows "nodes_ok (filter P ds) ns"
  unfolding nodes_ok_def
proof (intro conjI ballI)
  show "distinct (map mn_id ns)" using assms by (simp add: nodes_ok_def)
  fix n
  assume "n \<in> set ns"
  with assms have n: "int (length (filter (\<lambda>(i, o', k). k = Some (mn_id n)) ds)) \<le> mn_active_connections n"
      "mn_active_connections n \<le> mn_capacity n"
    by (auto simp: nodes_ok_def)
  from filter_count_mono [of "\<lambda>(i, o', k). k = Some (mn_id n)" P ds] n(1)
  show "int (length (filter (\<lambda>(i, o', k). k = Some (mn_id n)) (filter P ds))) \<le> mn_active_connections n"
    by linarith
  show "mn_active_connections n \<le> mn_capacity n" by (rule n(2))
qed

lemma core_drop_node:
  "core (drop_node k fl) = map (\<lambda>(i, o', n). (i, o', if n = Some k then None else n)) (core fl)"
  by (simp add: core_def drop_node_def)

lemma drop_node_ok:
  assumes "fleet_ok fl"
  shows "fleet_ok (drop_node k fl)"
proof -
  let ?f = "\<lambda>(i, o', n). (i, o', if n = Some k then None else n)"
  have ids: "map fst (map ?f ds) = map fst ds" for ds :: "(uuid \<times> uuid \<times> uuid option) list"
    by (induction ds) auto
  have counts: "length (filter (\<lambda>(i, o', n). o' = org) (map ?f ds)) = length (filter (\<lambda>(i, o', n). o' = org) ds)"
    for org and ds :: "(uuid \<times> uuid \<times> uuid option) list" by (induction ds) auto
  have on: "length (filter (\<lambda>(i, o', n). n = Some m) (map ?f ds)) = length (filter (\<lambda>(i, o', n). n = Some m) ds)"
    if "m \<noteq> k" for m and ds :: "(uuid \<times> uuid \<times> uuid option) list" using that by (induction ds) (auto split: if_splits)
  have mem: "(\<exists>n. (i, o', n) \<in> set (map ?f ds)) \<longleftrightarrow> (\<exists>n. (i, o', n) \<in> set ds)"
    for i o' and ds :: "(uuid \<times> uuid \<times> uuid option) list" by force
  show ?thesis
    unfolding fleet_ok_def core_drop_node
  proof (intro conjI)
    show "distinct (map fst (map ?f (core fl)))" unfolding ids using assms by (simp add: fleet_ok_def)
    show "credentials_ok (map ?f (core fl)) (fl_credentials (drop_node k fl))"
      unfolding credentials_ok_def ids mem using assms by (simp add: fleet_ok_def credentials_ok_def drop_node_def)
    show "nodes_ok (map ?f (core fl)) (fl_nodes (drop_node k fl))"
      using assms on by (auto simp: fleet_ok_def nodes_ok_def drop_node_def distinct_map_filter)
    show "limits_ok (map ?f (core fl)) (fl_orgs (drop_node k fl))"
      unfolding limits_ok_def counts using assms by (simp add: fleet_ok_def limits_ok_def drop_node_def)
    show "assignments_ok (map ?f (core fl)) (fl_assignments (drop_node k fl))"
      unfolding assignments_ok_def mem using assms by (simp add: fleet_ok_def assignments_ok_def drop_node_def)
  qed
qed

lemma changed_node_keeps [simp]:
  "mn_id (changed_node st c n cur) = mn_id cur"
  "mn_active_connections (changed_node st c n cur) = mn_active_connections cur"
  by (simp_all add: changed_node_def Let_def split: option.split)

lemma changed_node_self:
  "changed_node st c n n = n\<lparr>mn_status := (case st of None \<Rightarrow> mn_status n | Some s \<Rightarrow> Some s),
     mn_capacity := (case c of None \<Rightarrow> mn_capacity n | Some m \<Rightarrow> m)\<rparr>"
  by (cases n) (auto simp: changed_node_def Let_def split: option.split)

lemma resize_ok:
  assumes "fleet_ok fl" "tbl_get mn_id (fl_nodes fl) k = Some n" "mn_id n' = mn_id n"
    and "mn_active_connections n' = mn_active_connections n" "mn_active_connections n' \<le> mn_capacity n'"
  shows "fleet_ok (fl\<lparr>fl_nodes := tbl_put mn_id n' (fl_nodes fl)\<rparr>)"
proof -
  have n: "n \<in> set (fl_nodes fl)" using assms(2) by (auto dest: tbl_get_Some)
  have "nodes_ok (core fl) (tbl_put mn_id n' (fl_nodes fl))"
    using assms(1) n assms(3,4,5) unfolding fleet_ok_def nodes_ok_def
    by (auto dest!: in_set_tbl_put)
  with assms(1) show ?thesis by (simp add: fleet_ok_def core_def)
qed

text \<open>Companies and users.\<close>

lemma core_drop_org: "core (drop_org_fleet k fl) = filter (\<lambda>(i, o', n). o' \<noteq> k) (core fl)"
  by (auto simp: core_def drop_org_fleet_def Let_def filter_map o_def split: option.split)

lemma drop_org_credentials:
  assumes "fleet_ok fl"
  shows "fl_credentials (drop_org_fleet k fl) = filter (\<lambda>c. mc_org_id c \<noteq> k) (fl_credentials fl)"
proof -
  have ids: "distinct (map fst (core fl))" using assms by (simp add: fleet_ok_def)
  have "mc_device_id c \<notin> fd_id ` set (filter (\<lambda>d. fd_org_id d = k) (fl_devices fl))"
    if c: "c \<in> set (fl_credentials fl)" "mc_org_id c \<noteq> k" for c
  proof
    assume "mc_device_id c \<in> fd_id ` set (filter (\<lambda>d. fd_org_id d = k) (fl_devices fl))"
    then obtain n where "(mc_device_id c, k, n) \<in> set (core fl)" by (force simp: core_def)
    moreover obtain m where "(mc_device_id c, mc_org_id c, m) \<in> set (core fl)"
      using assms c(1) unfolding fleet_ok_def credentials_ok_def by blast
    ultimately show False using eq_key_imp_eq_value [OF ids] c(2) by blast
  qed
  then show ?thesis by (auto simp: drop_org_fleet_def Let_def intro!: filter_cong)
qed

lemma drop_org_fleet_ok:
  assumes "fleet_ok fl"
  shows "fleet_ok (drop_org_fleet k fl)"
proof -
  let ?P = "\<lambda>(i, o', n). o' \<noteq> k"
  let ?ds = "core fl"
  have ids: "distinct (map fst ?ds)" and cr: "credentials_ok ?ds (fl_credentials fl)"
    and asg: "assignments_ok ?ds (fl_assignments fl)"
    using assms by (simp_all add: fleet_ok_def)
  have one: "o1 = o2" if "(i, o1, n1) \<in> set ?ds" "(i, o2, n2) \<in> set ?ds" for i o1 o2 n1 n2
    using eq_key_imp_eq_value [OF ids that] by simp
  have creds: "fl_credentials (drop_org_fleet k fl) = filter (\<lambda>c. mc_org_id c \<noteq> k) (fl_credentials fl)"
    using assms by (rule drop_org_credentials)
  have "credentials_ok (filter ?P ?ds) (fl_credentials (drop_org_fleet k fl))"
    unfolding credentials_ok_def creds
  proof (intro conjI)
    show "distinct (map mc_token (filter (\<lambda>c. mc_org_id c \<noteq> k) (fl_credentials fl)))"
      "distinct (map mc_device_id (filter (\<lambda>c. mc_org_id c \<noteq> k) (fl_credentials fl)))"
      using cr by (simp_all add: credentials_ok_def distinct_map_filter)
    have "i \<in> mc_device_id ` {c \<in> set (fl_credentials fl). mc_org_id c \<noteq> k} \<longleftrightarrow> (\<exists>o' n. (i, o', n) \<in> set ?ds \<and> o' \<noteq> k)" for i
    proof
      assume "i \<in> mc_device_id ` {c \<in> set (fl_credentials fl). mc_org_id c \<noteq> k}"
      then show "\<exists>o' n. (i, o', n) \<in> set ?ds \<and> o' \<noteq> k" using cr unfolding credentials_ok_def by blast
    next
      assume "\<exists>o' n. (i, o', n) \<in> set ?ds \<and> o' \<noteq> k"
      then obtain o' n where d: "(i, o', n) \<in> set ?ds" "o' \<noteq> k" by blast
      then have "i \<in> set (map mc_device_id (fl_credentials fl))" using cr by (force simp: credentials_ok_def)
      then obtain c where c: "c \<in> set (fl_credentials fl)" "mc_device_id c = i" by auto
      then have "mc_org_id c = o'" using cr d(1) one unfolding credentials_ok_def by blast
      with c d(2) show "i \<in> mc_device_id ` {c \<in> set (fl_credentials fl). mc_org_id c \<noteq> k}" by blast
    qed
    then show "set (map mc_device_id (filter (\<lambda>c. mc_org_id c \<noteq> k) (fl_credentials fl))) = set (map fst (filter ?P ?ds))"
      by (force simp: image_iff)
    show "\<forall>c \<in> set (filter (\<lambda>c. mc_org_id c \<noteq> k) (fl_credentials fl)). \<not> mc_revoked c
        \<and> (\<exists>n. (mc_device_id c, mc_org_id c, n) \<in> set (filter ?P ?ds)) \<and> mc_acl_pattern c = org_acl_pattern (mc_org_id c)"
      using cr by (auto simp: credentials_ok_def)
  qed
  moreover have "nodes_ok (filter ?P ?ds) (fl_nodes (drop_org_fleet k fl))"
    using assms nodes_ok_filter by (simp add: fleet_ok_def drop_org_fleet_def Let_def)
  moreover have "limits_ok (filter ?P ?ds) (fl_orgs (drop_org_fleet k fl))"
    unfolding limits_ok_def
  proof (intro allI impI)
    fix org l
    assume l: "pl_max_devices (limits_for_plan (case fl_orgs (drop_org_fleet k fl) org of Some plan \<Rightarrow> plan | None \<Rightarrow> None)) = Some l"
    show "length (filter (\<lambda>(i, o', n). o' = org) (filter ?P ?ds)) \<le> l"
    proof (cases "org = k")
      case True
      then have "filter (\<lambda>(i, o', n). o' = org) (filter ?P ?ds) = []" by (auto simp: filter_empty_conv)
      then show ?thesis by simp
    next
      case False
      with l assms have "length (filter (\<lambda>(i, o', n). o' = org) ?ds) \<le> l"
        by (auto simp: fleet_ok_def limits_ok_def drop_org_fleet_def Let_def)
      with filter_count_mono show ?thesis by (rule order_trans)
    qed
  qed
  moreover have "assignments_ok (filter ?P ?ds) (fl_assignments (drop_org_fleet k fl))"
    using asg by (auto simp: assignments_ok_def drop_org_fleet_def Let_def distinct_map_filter)
  ultimately show ?thesis
    using ids by (simp add: fleet_ok_def core_drop_org distinct_map_filter)
qed

lemma drop_org_billing_ok:
  assumes "billing_ok b"
  shows "billing_ok (drop_org_billing k b)"
proof -
  let ?s = "\<lambda>D s. case sub_device_id s of None \<Rightarrow> s | Some d \<Rightarrow> if d \<in> D then s\<lparr>sub_device_id := None\<rparr> else s"
  let ?p = "\<lambda>S x. case pay_subscription_id x of None \<Rightarrow> x | Some s \<Rightarrow> if s \<in> S then x\<lparr>pay_subscription_id := None\<rparr> else x"
  have "sub_id (?s D s) = sub_id s" "sub_ok (?s D s) = sub_ok s" for D s
    by (simp_all add: sub_ok_def split: option.split)
  moreover have "pay_id (?p S x) = pay_id x" "pay_ok (?p S x) = pay_ok x" for S x
    by (simp_all add: pay_ok_def split: option.split)
  ultimately show ?thesis
    using assms by (auto simp: billing_ok_def drop_org_billing_def Let_def o_def distinct_map_filter)
qed

lemma drop_org_rules_ok:
  assumes "rules_ok db"
  shows "rules_ok (drop_org_rules k db)"
proof -
  let ?db = "drop_org_rules k db"
  let ?rules = "Rule_Service.ru_id ` set (filter (\<lambda>r. Rule_Service.ru_org_id r = k) (rb_rules db))"
  have g: "graphs_ok (rb_rules db) (rb_nodes db) (rb_edges db)" using assms by (simp add: rules_ok_def)
  have "graphs_ok (rb_rules ?db) (rb_nodes ?db) (rb_edges ?db)"
    unfolding graphs_ok_def
  proof (intro conjI ballI)
    show "distinct (map rn_id (rb_nodes ?db))"
      using g by (simp add: graphs_ok_def drop_org_rules_def Let_def distinct_map_filter)
    fix n
    assume "n \<in> set (rb_nodes ?db)"
    then have n: "n \<in> set (rb_nodes db)" "rn_org_id n \<noteq> k" by (auto simp: drop_org_rules_def Let_def)
    with g obtain r where r: "r \<in> set (rb_rules db)" "Rule_Service.ru_id r = rn_rule_id n"
        "Rule_Service.ru_org_id r = rn_org_id n" by (fastforce simp: graphs_ok_def)
    with n(2) have "r \<in> set (rb_rules ?db)" by (simp add: drop_org_rules_def Let_def)
    with r show "(rn_rule_id n, rn_org_id n) \<in> (\<lambda>r. (Rule_Service.ru_id r, Rule_Service.ru_org_id r)) ` set (rb_rules ?db)"
      by (auto simp: image_iff intro: bexI [of _ r])
  next
    fix e
    assume "e \<in> set (rb_edges ?db)"
    then have e: "e \<in> set (rb_edges db)" "re_org_id e \<noteq> k"
        "re_from_node_id e \<notin> rn_id ` set (filter (\<lambda>n. rn_org_id n = k \<or> rn_rule_id n \<in> ?rules) (rb_nodes db))"
        "re_to_node_id e \<notin> rn_id ` set (filter (\<lambda>n. rn_org_id n = k \<or> rn_rule_id n \<in> ?rules) (rb_nodes db))"
      by (auto simp: drop_org_rules_def Let_def)
    from e(1) g obtain r where r: "r \<in> set (rb_rules db)" "Rule_Service.ru_id r = re_rule_id e"
        "Rule_Service.ru_org_id r = re_org_id e" by (fastforce simp: graphs_ok_def)
    with e(2) have "r \<in> set (rb_rules ?db)" by (simp add: drop_org_rules_def Let_def)
    with r show "(re_rule_id e, re_org_id e) \<in> (\<lambda>r. (Rule_Service.ru_id r, Rule_Service.ru_org_id r)) ` set (rb_rules ?db)"
      by (auto simp: image_iff intro: bexI [of _ r])
    have end_kept: "(x, re_rule_id e) \<in> (\<lambda>n. (rn_id n, rn_rule_id n)) ` set (rb_nodes ?db)"
      if "(x, re_rule_id e) \<in> (\<lambda>n. (rn_id n, rn_rule_id n)) ` set (rb_nodes db)"
        "x \<notin> rn_id ` set (filter (\<lambda>n. rn_org_id n = k \<or> rn_rule_id n \<in> ?rules) (rb_nodes db))" for x
      using that by (auto simp: drop_org_rules_def Let_def)
    from e g show "(re_from_node_id e, re_rule_id e) \<in> (\<lambda>n. (rn_id n, rn_rule_id n)) ` set (rb_nodes ?db)"
      "(re_to_node_id e, re_rule_id e) \<in> (\<lambda>n. (rn_id n, rn_rule_id n)) ` set (rb_nodes ?db)"
      by (auto simp: graphs_ok_def intro!: end_kept)
  qed
  moreover have "within_rule_limit ?db org" for org
  proof (cases "org = k")
    case True
    then have "count_active_rules ?db org None = 0"
      by (simp add: count_active_rules_def drop_org_rules_def Let_def filter_empty_conv)
    then show ?thesis by (simp add: within_rule_limit_def split: option.split)
  next
    case False
    have "tbl_get Rule_Service.ro_id (filter (\<lambda>o'. Rule_Service.ro_id o' \<noteq> k) orgs) org = tbl_get Rule_Service.ro_id orgs org"
      for orgs :: "rule_org list" using False by (induction orgs) auto
    then have "org_plan ?db org = org_plan db org" by (simp add: org_plan_def drop_org_rules_def Let_def)
    moreover have "count_active_rules ?db org None \<le> count_active_rules db org None"
      using filter_count_mono by (simp add: count_active_rules_def drop_org_rules_def Let_def)
    ultimately show ?thesis using assms by (auto simp: rules_ok_def limit_le_iff intro: order_trans)
  qed
  ultimately show ?thesis
    using assms by (simp add: rules_ok_def) (simp add: drop_org_rules_def Let_def distinct_map_filter)
qed

section \<open>The control panel as a system\<close>

datatype admin_op =
    Register principal uuid string int int
  | Deregister principal uuid
  | Resize principal uuid "string option" "int option"
  | Drop_company principal string
  | Drop_user principal uuid
  | Platform platform_op

fun admin_step :: "admin_op \<Rightarrow> admin_db \<Rightarrow> admin_db" where
  "admin_step (Register p k ip port c) db = commit (register_mqtt_node p k ip port c) db"
| "admin_step (Deregister p k) db = commit (deregister_mqtt_node p k) db"
| "admin_step (Resize p k st c) db = commit (update_mqtt_node p k st c (\<lambda>ns. ns)) db"
| "admin_step (Drop_company p k) db = commit (delete_company p k) db"
| "admin_step (Drop_user p k) db = commit (delete_user p k) db"
| "admin_step (Platform op) db = db\<lparr>ad_platform := platform_step op (ad_platform db)\<rparr>"

fun admin_op_ok :: "admin_op \<Rightarrow> bool" where
  "admin_op_ok (Platform op) = platform_op_ok op"
| "admin_op_ok _ = True"

text \<open>The reference of a device to its node.\<close>

definition node_refs_ok :: "fleet \<Rightarrow> bool" where
  "node_refs_ok fl = (\<forall>d \<in> set (fl_devices fl). fd_node_id d = None \<or> fd_node_id d \<in> Some ` mn_id ` set (fl_nodes fl))"

definition admin_ok :: "admin_db \<Rightarrow> bool" where
  "admin_ok db = (platform_ok (ad_platform db) \<and> node_refs_ok (ad_fleet db))"

lemma admin_ok_parts:
  "admin_ok db \<longleftrightarrow> billing_ok (ad_billing db) \<and> fleet_ok (ad_fleet db) \<and> rules_ok (pf_rules (ad_platform db))
     \<and> node_refs_ok (ad_fleet db)"
  by (simp add: admin_ok_def platform_ok_def)

lemma node_refs_core:
  "node_refs_ok fl \<longleftrightarrow> (\<forall>(i, o', n) \<in> set (core fl). n = None \<or> n \<in> Some ` mn_id ` set (fl_nodes fl))"
  by (auto simp: node_refs_ok_def core_def)

lemma node_refs_same: "node_refs_ok fl \<Longrightarrow> fleet_same fl fl' \<Longrightarrow> node_refs_ok fl'"
  by (simp add: node_refs_core fleet_same_def)

lemma node_ids_put [simp]: "mn_id ` set (tbl_put mn_id n ns) = mn_id ` set ns"
  using tbl_put_keys [of mn_id n ns] by (metis set_map)

lemma commit_inv: "(\<And>x s'. f s = Inr (x, s') \<Longrightarrow> P s') \<Longrightarrow> P s \<Longrightarrow> P (commit f s)"
  by (simp add: commit_def split: sum.split prod.split)

lemma fleet_step_refs:
  assumes "fleet_ok fl" "node_refs_ok fl"
  shows "node_refs_ok (fleet_step op fl)"
proof -
  have ids: "distinct (map fst (core fl))" and nodes: "distinct (map mn_id (fl_nodes fl))"
    using assms(1) by (simp_all add: fleet_ok_def nodes_ok_def)
  have same: "node_refs_ok (commit f fl)" if "\<And>x fl'. f fl = Inr (x, fl') \<Longrightarrow> fleet_same fl fl'"
    for f :: "fleet \<Rightarrow> py_exc + ('a \<times> fleet)"
    using that assms(2) by (simp add: commit_def node_refs_same split: sum.split prod.split)
  show ?thesis
  proof (cases op)
    case (Provision p i u t l g te du)
    have "node_refs_ok fl'" if "provision_device p i u t l g te du fl = Inr (x, fl')" for x fl'
      using provision_Inr [OF that nodes] assms(2) by (auto simp: node_refs_ok_def one_more_def)
    with Provision assms(2) show ?thesis by (simp add: commit_inv)
  next
    case (Delete p i)
    have "node_refs_ok fl'" if "delete_device p i fl = Inr (x, fl')" for x fl'
      using delete_Inr [OF that] assms(2) by (auto simp: node_refs_ok_def)
    with Delete assms(2) show ?thesis by (simp add: commit_inv)
  next
    case (Assign p i u)
    have "node_refs_ok fl'" if "assign_device_to_user p i u fl = Inr (x, fl')" for x fl'
      using assign_Inr [OF that] assms(2) by (auto simp: node_refs_ok_def)
    with Assign assms(2) show ?thesis by (simp add: commit_inv)
  next
    case (Update p i l g m)
    show ?thesis unfolding Update fleet_step.simps by (rule same) (rule update_same [OF ids])
  next
    case (Create_group p i n)
    show ?thesis unfolding Create_group fleet_step.simps by (rule same) (rule group_same)
  next
    case (Start_simulator p i n)
    show ?thesis unfolding Start_simulator fleet_step.simps by (rule same) (rule simulator_same [OF ids disjI1])
  next
    case (Stop_simulator p i)
    show ?thesis unfolding Stop_simulator fleet_step.simps by (rule same) (rule simulator_same [OF ids disjI2])
  qed
qed

lemma admin_ok_fleet:
  "admin_ok db \<Longrightarrow> fleet_ok fl \<Longrightarrow> node_refs_ok fl \<Longrightarrow> admin_ok (set_fleet fl db)"
  by (simp add: admin_ok_parts)

lemma admin_ok_details [simp]: "admin_ok (db\<lparr>ad_node_details := m\<rparr>) = admin_ok db"
  by (simp add: admin_ok_def)

lemma register_keeps:
  assumes "admin_ok db" "register_mqtt_node p k ip port c db = Inr (x, db')"
  shows "admin_ok db'"
proof -
  let ?fl = "ad_fleet db"
  define n where "n = \<lparr>mn_id = k, mn_status = Some ACTIVE_STATUS, mn_active_connections = 0, mn_capacity = c\<rparr>"
  have db': "k \<notin> mn_id ` set (fl_nodes ?fl)" "0 < c"
      "\<exists>m. db' = (set_fleet (?fl\<lparr>fl_nodes := fl_nodes ?fl @ [n]\<rparr>) db)\<lparr>ad_node_details := m\<rparr>"
    using assms(2) by (auto simp: register_mqtt_node_def node_create_ok_def bind_res_eq_Inr Let_def insert_row_Inr n_def)
  have ok: "fleet_ok ?fl" "node_refs_ok ?fl" using assms(1) by (simp_all add: admin_ok_parts)
  have "nodes_ok (core ?fl) (fl_nodes ?fl @ [n])"
    using ok db'(1,2) by (intro nodes_ok_more) (fastforce simp: fleet_ok_def node_refs_core n_def)+
  then have "fleet_ok (?fl\<lparr>fl_nodes := fl_nodes ?fl @ [n]\<rparr>)" using ok(1) by (simp add: fleet_ok_def core_def)
  moreover have "node_refs_ok (?fl\<lparr>fl_nodes := fl_nodes ?fl @ [n]\<rparr>)"
    using ok(2) by (auto simp: node_refs_ok_def)
  ultimately show ?thesis using db'(3) assms(1) by (auto intro!: admin_ok_fleet)
qed

lemma deregister_keeps:
  assumes "admin_ok db" "deregister_mqtt_node p k db = Inr (x, db')"
  shows "admin_ok db'"
proof -
  have "\<exists>m. db' = (set_fleet (drop_node k (ad_fleet db)) db)\<lparr>ad_node_details := m\<rparr>"
    using assms(2) by (auto simp: deregister_mqtt_node_def fail_def split: option.splits)
  moreover have "node_refs_ok (drop_node k fl)" if "node_refs_ok fl" for fl
    using that by (fastforce simp: node_refs_ok_def drop_node_def)
  ultimately show ?thesis using assms(1) by (auto simp: admin_ok_parts drop_node_ok)
qed

lemma update_node_Inr:
  assumes "update_mqtt_node p k st c between db = Inr (n', db')"
  shows "\<exists>n cur. tbl_get mn_id (fl_nodes (ad_fleet db)) k = Some n
    \<and> tbl_get mn_id (between (fl_nodes (ad_fleet db))) k = Some cur
    \<and> (\<forall>s. st = Some s \<longrightarrow> s \<in> set NODE_STATUSES) \<and> (\<forall>m. c = Some m \<longrightarrow> 0 < m \<and> mn_active_connections n \<le> m)
    \<and> n' = changed_node st c n cur
    \<and> db' = set_fleet ((ad_fleet db)\<lparr>fl_nodes := tbl_put mn_id n' (between (fl_nodes (ad_fleet db)))\<rparr>) db"
  using assms
  by (auto simp: update_mqtt_node_def check_node_update_def bind_res_eq_Inr fail_def Let_def not_less
      split: option.splits)

lemma resize_keeps:
  assumes "admin_ok db" "update_mqtt_node p k st c (\<lambda>ns. ns) db = Inr (n', db')"
  shows "admin_ok db'"
proof -
  obtain n where n: "tbl_get mn_id (fl_nodes (ad_fleet db)) k = Some n"
      "\<forall>m. c = Some m \<longrightarrow> mn_active_connections n \<le> m" "n' = changed_node st c n n"
      "db' = set_fleet ((ad_fleet db)\<lparr>fl_nodes := tbl_put mn_id n' (fl_nodes (ad_fleet db))\<rparr>) db"
    using update_node_Inr [OF assms(2)] by auto
  have ok: "fleet_ok (ad_fleet db)" "node_refs_ok (ad_fleet db)" using assms(1) by (simp_all add: admin_ok_parts)
  have "mn_active_connections n \<le> mn_capacity n"
    using ok(1) n(1) by (auto simp: fleet_ok_def nodes_ok_def dest: tbl_get_Some)
  then have "mn_active_connections n' \<le> mn_capacity n'"
    using n(2) by (simp add: n(3) changed_node_self split: option.split)
  from resize_ok [OF ok(1) n(1) _ _ this] have "fleet_ok ((ad_fleet db)\<lparr>fl_nodes := tbl_put mn_id n' (fl_nodes (ad_fleet db))\<rparr>)"
    by (simp add: n(3))
  moreover have "node_refs_ok ((ad_fleet db)\<lparr>fl_nodes := tbl_put mn_id n' (fl_nodes (ad_fleet db))\<rparr>)"
    using ok(2) by (simp add: node_refs_ok_def)
  ultimately show ?thesis using assms(1) by (simp add: n(4) admin_ok_fleet)
qed

lemma delete_company_Inr:
  "delete_company p c db = Inr (x, db') \<Longrightarrow>
     \<exists>org. is_super_admin p \<and> parse_uuid c = Some (og_id org) \<and> org \<in> set (ad_orgs db) \<and> db' = drop_company (og_id org) db"
  by (auto simp: delete_company_def find_company_def admin_coerce_uuid_def bind_res_eq_Inr fail_def
      dest: tbl_get_Some split: option.splits)

lemma drop_company_keeps:
  assumes "admin_ok db"
  shows "admin_ok (drop_company k db)"
proof -
  have "node_refs_ok (drop_org_fleet k (ad_fleet db))"
  proof -
    have "fl_nodes (drop_org_fleet k (ad_fleet db)) = fl_nodes (ad_fleet db)" by (simp add: drop_org_fleet_def Let_def)
    with assms show ?thesis by (fastforce simp: admin_ok_parts node_refs_core core_drop_org)
  qed
  with assms show ?thesis
    by (simp add: admin_ok_parts drop_company_def drop_org_fleet_ok drop_org_billing_ok drop_org_rules_ok)
qed

lemma drop_user_keeps:
  assumes "admin_ok db"
  shows "admin_ok (drop_user k db)"
  using assms
  by (auto simp: admin_ok_parts drop_user_def Let_def fleet_ok_def core_def node_refs_ok_def billing_ok_def
      assignments_ok_def distinct_map_filter)

lemma admin_step_ok:
  assumes "admin_ok db" "admin_op_ok op"
  shows "admin_ok (admin_step op db)"
proof (cases op)
  case (Platform pop)
  have "node_refs_ok (pf_fleet (platform_step pop (ad_platform db)))"
    using assms(1) fleet_step_refs by (cases pop) (auto simp: admin_ok_parts)
  with assms Platform show ?thesis by (auto simp: admin_ok_def intro: platform_step_ok)
next
  case (Drop_company p k)
  have "admin_ok db'" if "delete_company p k db = Inr (x, db')" for x db'
    using delete_company_Inr [OF that] drop_company_keeps [OF assms(1)] by auto
  with Drop_company assms(1) show ?thesis by (simp add: commit_inv)
next
  case (Drop_user p k)
  have "admin_ok db'" if "delete_user p k db = Inr (x, db')" for x db'
    using that drop_user_keeps [OF assms(1)] by (auto simp: delete_user_def fail_def split: option.splits)
  with Drop_user assms(1) show ?thesis by (simp add: commit_inv)
next
  case (Register p k ip port c)
  show ?thesis unfolding Register admin_step.simps by (rule commit_inv, erule register_keeps [OF assms(1)], rule assms(1))
next
  case (Deregister p k)
  show ?thesis unfolding Deregister admin_step.simps by (rule commit_inv, erule deregister_keeps [OF assms(1)], rule assms(1))
next
  case (Resize p k st c)
  show ?thesis unfolding Resize admin_step.simps by (rule commit_inv, erule resize_keeps [OF assms(1)], rule assms(1))
qed

interpretation control: guarded_system admin_step admin_op_ok admin_ok
  by unfold_locales (rule admin_step_ok)

section \<open>Properties\<close>



lemma reassign_Inr:
  "reassign_device p i o' db = Inr (d', db') \<Longrightarrow>
     \<exists>k d target. is_super_admin p \<and> parse_uuid i = Some (fd_id d) \<and> d \<in> set (fl_devices (ad_fleet db))
       \<and> parse_uuid o' = Some k \<and> target \<in> set (ad_orgs db) \<and> og_id target = k \<and> d' = d\<lparr>fd_org_id := k\<rparr>
       \<and> ad_fleet db' = put_device d' (ad_fleet db) \<and> ad_orgs db' = ad_orgs db \<and> ad_users db' = ad_users db"
  by (auto simp: reassign_device_def admin_coerce_uuid_def bind_res_eq_Inr fail_def Let_def
      dest!: tbl_get_Some split: option.splits) blast

lemma count_put_device:
  assumes "distinct (map fd_id (fl_devices fl))" "d \<in> set (fl_devices fl)" "fd_org_id d \<noteq> k"
  shows "count_devices (put_device (d\<lparr>fd_org_id := k\<rparr>) fl) k = Suc (count_devices fl k)"
proof -
  have "length (filter (\<lambda>x. fd_org_id x = k) (tbl_put fd_id (d\<lparr>fd_org_id := k\<rparr>) ds))
      = Suc (length (filter (\<lambda>x. fd_org_id x = k) ds))"
    if "distinct (map fd_id ds)" "d \<in> set ds" for ds
    using that
  proof (induction ds)
    case (Cons x ds)
    show ?case
    proof (cases "x = d")
      case True
      with Cons.prems(1) have "\<forall>y \<in> set ds. fd_id y \<noteq> fd_id d" by (auto simp: image_iff)
      then have "tbl_put fd_id (d\<lparr>fd_org_id := k\<rparr>) ds = ds"
        by (simp add: tbl_put_def map_idI)
      with True assms(3) show ?thesis by simp
    next
      case False
      with Cons.prems have "fd_id x \<noteq> fd_id d" "d \<in> set ds" by auto
      with Cons show ?thesis by simp
    qed
  qed simp
  with assms(1,2) show ?thesis by (simp add: count_devices_def put_device_def)
qed

text \<open>C18. Moving a device to another organization leaves its credential behind: the token still publishes
  and subscribes under the old organization's topics and under no other organization's, so the device
  cannot speak for its new owner, the tables break the invariant every other operation keeps, and
  the new owner's count of devices grows whatever its plan allows.\<close>

theorem reassign_leaves_credential:
  assumes "admin_ok db" "reassign_device p i o' db = Inr (d', db')"
    and "tbl_get fd_id (fl_devices (ad_fleet db)) (fd_id d') = Some d" "fd_org_id d' \<noteq> fd_org_id d"
    and "plain_level (fd_org_id d)"
  shows "fl_credentials (ad_fleet db') = fl_credentials (ad_fleet db)
    \<and> (\<exists>c \<in> set (fl_credentials (ad_fleet db')). mc_device_id c = fd_id d' \<and> \<not> mc_revoked c
        \<and> mc_org_id c = fd_org_id d
        \<and> (\<forall>t. topic_matches_filter (mc_acl_pattern c) t \<longleftrightarrow> (\<exists>rest. split_on slash t = TOPIC_ROOT # fd_org_id d # rest)))
    \<and> \<not> fleet_ok (ad_fleet db')
    \<and> count_devices (ad_fleet db') (fd_org_id d') = Suc (count_devices (ad_fleet db) (fd_org_id d'))"
proof -
  have ok: "fleet_ok (ad_fleet db)" using assms(1) by (simp add: admin_ok_parts)
  then have dist: "distinct (map fd_id (fl_devices (ad_fleet db)))" by (simp add: fleet_ok_def core_ids)
  from reassign_Inr [OF assms(2)] obtain k d0 where d0: "d0 \<in> set (fl_devices (ad_fleet db))" "d' = d0\<lparr>fd_org_id := k\<rparr>"
    and fl: "ad_fleet db' = put_device d' (ad_fleet db)" by blast
  have "tbl_get fd_id (fl_devices (ad_fleet db)) (fd_id d0) = Some d0" by (rule tbl_get_distinct [OF dist d0(1)])
  with assms(3) d0(2) have d: "d0 = d" by simp
  have k: "fd_org_id d' = k" "fd_id d' = fd_id d" using d0(2) d by simp_all
  have creds: "fl_credentials (ad_fleet db') = fl_credentials (ad_fleet db)" by (simp add: fl put_device_def)
  have "fd_id d \<in> set (map mc_device_id (fl_credentials (ad_fleet db)))"
    using ok d0(1) d core_ids [of "ad_fleet db"] by (simp add: fleet_ok_def credentials_ok_def flip: set_map) simp
  then obtain c where c: "c \<in> set (fl_credentials (ad_fleet db))" "mc_device_id c = fd_id d" by auto
  then obtain n where cok: "\<not> mc_revoked c" "(fd_id d, mc_org_id c, n) \<in> set (core (ad_fleet db))"
      "mc_acl_pattern c = org_acl_pattern (mc_org_id c)"
    using ok unfolding fleet_ok_def credentials_ok_def by metis
  have "(fd_id d, fd_org_id d, fd_node_id d) \<in> set (core (ad_fleet db))" using d0(1) d by (auto simp: core_def)
  with cok(2) ok have org: "mc_org_id c = fd_org_id d"
    using eq_key_imp_eq_value [of "core (ad_fleet db)"] by (fastforce simp: fleet_ok_def)
  have acl: "topic_matches_filter (mc_acl_pattern c) t \<longleftrightarrow> (\<exists>rest. split_on slash t = TOPIC_ROOT # fd_org_id d # rest)" for t
    using org_can_access_split [OF assms(5), of t] by (simp add: cok(3) org org_can_access_def)
  have "\<not> fleet_ok (ad_fleet db')"
  proof
    assume "fleet_ok (ad_fleet db')"
    with c creds org k(2) obtain m where m: "(fd_id d', fd_org_id d, m) \<in> set (core (ad_fleet db'))"
        "distinct (map fst (core (ad_fleet db')))"
      unfolding fleet_ok_def credentials_ok_def by metis
    have "d' \<in> set (fl_devices (ad_fleet db'))"
      using d0(1) d k(2) by (force simp: fl put_device_def tbl_put_def)
    then have "(fd_id d', fd_org_id d', fd_node_id d') \<in> set (core (ad_fleet db'))" by (auto simp: core_def)
    from eq_key_imp_eq_value [OF m(2,1) this] assms(4) show False by simp
  qed
  moreover have "count_devices (ad_fleet db') (fd_org_id d') = Suc (count_devices (ad_fleet db) (fd_org_id d'))"
    using count_put_device [OF dist d0(1), of k] d0(2) d assms(4) by (simp add: fl)
  ultimately show ?thesis using creds c cok(1) org acl k(2) by auto
qed

lemma filter_device_rows:
  "filter (\<lambda>r. dl_device r = d) (device_rows now db d') = (if d' = d then device_rows now db d' else [])"
  by (auto simp: device_rows_def Let_def filter_map o_def)

lemma filter_listing:
  "distinct ds \<Longrightarrow> filter (\<lambda>r. dl_device r = d) (concat (map (device_rows now db) ds))
     = (if d \<in> set ds then device_rows now db d else [])"
  by (induction ds) (auto simp: filter_device_rows)

text \<open>The device overview has a row for every user of a device's organization: a device of a company
  with five users is listed five times, once per e-mail address, and one whose company has no user once
  without an owner.\<close>

theorem devices_listed_per_user:
  assumes "list_all_devices p now db = Inr rows" "distinct (map fd_id (fl_devices (ad_fleet db)))"
    and "d \<in> set (fl_devices (ad_fleet db))"
  shows "map dl_owner_email (filter (\<lambda>r. dl_device r = d) rows) = org_emails db (fd_org_id d)
    \<and> length (filter (\<lambda>r. dl_device r = d) rows) = max 1 (length (filter (\<lambda>u. us_org_id u = fd_org_id d) (ad_users db)))"
proof -
  have rows: "rows = concat (map (device_rows now db) (rev (fl_devices (ad_fleet db))))"
    using assms(1) by (simp add: list_all_devices_def)
  have "distinct (rev (fl_devices (ad_fleet db)))" using assms(2) by (simp add: distinct_map)
  then have d: "filter (\<lambda>r. dl_device r = d) rows = device_rows now db d"
    using assms(3) by (simp add: rows filter_listing)
  then have "map dl_owner_email (filter (\<lambda>r. dl_device r = d) rows) = org_emails db (fd_org_id d)"
    by (simp add: device_rows_def Let_def o_def)
  moreover have "length (org_emails db org) = max 1 (length (filter (\<lambda>u. us_org_id u = org) (ad_users db)))" for org
    by (auto simp: org_emails_def split: list.split)
  ultimately show ?thesis by (metis length_map)
qed

text \<open>The capacity check of the registry reads the node without a lock: when a device is provisioned
  between the check and the UPDATE, lowering the capacity to the connections just read leaves the node
  with more connections than its capacity.\<close>

theorem resize_race:
  assumes "admin_ok db" "is_super_admin p"
    and "assign_node alone (fl_nodes (ad_fleet db)) = (Inr n', nodes')" "mn_active_connections n' = c + 1" "0 < c"
    and "mn_capacity n' \<noteq> c"
  shows "\<exists>r db'. update_mqtt_node p (mn_id n') None (Some c) (\<lambda>_. nodes') db = Inr (r, db')
    \<and> r \<in> set (fl_nodes (ad_fleet db')) \<and> mn_id r = mn_id n' \<and> mn_capacity r < mn_active_connections r"
proof -
  let ?ns = "fl_nodes (ad_fleet db)"
  have ids: "distinct (map mn_id ?ns)" using assms(1) by (simp add: admin_ok_parts fleet_ok_def nodes_ok_def)
  obtain n where n: "n \<in> set ?ns" "n' = n\<lparr>mn_active_connections := mn_active_connections n + 1\<rparr>"
      "nodes' = tbl_put mn_id n' ?ns"
    using assign_alone [OF ids] assms(3) by (auto simp: Let_def fail_def)
  have key: "mn_id n = mn_id n'" "mn_active_connections n = c" "mn_capacity n = mn_capacity n'" using n(2) assms(4) by simp_all
  have old: "tbl_get mn_id ?ns (mn_id n') = Some n" using tbl_get_distinct [OF ids n(1)] key(1) by simp
  then have cur: "tbl_get mn_id nodes' (mn_id n') = Some n'" by (simp add: n(3) tbl_get_put)
  define r where "r = n'\<lparr>mn_capacity := c\<rparr>"
  have r: "changed_node None (Some c) n n' = r" using assms(6) key(3) by (simp add: changed_node_def r_def)
  have run: "update_mqtt_node p (mn_id n') None (Some c) (\<lambda>_. nodes') db
      = Inr (r, set_fleet ((ad_fleet db)\<lparr>fl_nodes := tbl_put mn_id r nodes'\<rparr>) db)"
    using assms(2,5) by (simp add: update_mqtt_node_def super_only_eq old cur check_node_update_def key(2) r Let_def)
  have "n' \<in> set nodes'" using cur by (auto dest: tbl_get_Some)
  then have "r \<in> set (tbl_put mn_id r nodes')" by (force simp: tbl_put_def r_def)
  with run assms(4) show ?thesis
    by (intro exI [of _ r] exI [of _ "set_fleet ((ad_fleet db)\<lparr>fl_nodes := tbl_put mn_id r nodes'\<rparr>) db"])
      (simp add: r_def)
qed

section \<open>A small platform\<close>

definition ex_o2 :: uuid where
  "ex_o2 = ''0123abcd-0123-4567-89ab-0123456789ac''"

definition ex_dev :: uuid where
  "ex_dev = ''0123abcd-0123-4567-89ab-0123456789ad''"

definition ex_admin :: principal where
  "ex_admin = \<lparr>pr_user_id = ''a'', pr_org_id = ex_o1, pr_role = ROLE_SUPER_ADMIN\<rparr>"

definition ex_company :: "uuid \<Rightarrow> auth_org" where
  "ex_company k = \<lparr>og_id = k, og_name = ''C'', og_type = ''project_center'', og_plan = ''free'', og_status = ORG_STATUS_ACTIVE\<rparr>"

definition ex_controlled :: admin_db where
  "ex_controlled = \<lparr>ad_orgs = [ex_company ex_o1, ex_company ex_o2],
     ad_users = [ex_user\<lparr>us_id := ''u1'', us_org_id := ex_o1\<rparr>, ex_user\<lparr>us_id := ''u2'', us_org_id := ex_o1, us_email := ''b@x''\<rparr>],
     ad_platform = ex_paying, ad_node_details = Map.empty\<rparr>"

definition ex_setup :: "admin_op list" where
  "ex_setup = [Register ex_admin ''n3'' ''10.0.0.3'' 1883 5,
     Platform (Fleet_op (Provision ex_manager ex_dev ''DEV-1'' ''dT_a'' None None None None)),
     Resize ex_admin ''n3'' (Some ''disabled'') None, Deregister ex_admin ''n1'']"

lemma ex_admin_uuids: "parse_uuid ex_o2 = Some ex_o2" "parse_uuid ex_dev = Some ex_dev" "ex_o1 \<noteq> ex_o2"
  by code_simp+

lemma ex_controlled_ok: "admin_ok ex_controlled"
  using ex_paying_ok by (simp add: admin_ok_def ex_controlled_def node_refs_ok_def) (simp add: ex_paying_def ex_fleet_def)

lemma ex_setup_ok: "list_all admin_op_ok ex_setup"
  using ex_uuid by (simp add: ex_setup_def ex_manager_def)

lemma ex_admin_super: "is_super_admin ex_admin"
  by (simp add: ex_admin_def is_super_admin_def)


lemma ex_delete: "delete_company ex_admin ex_o1 ex_controlled = Inr ((), drop_company ex_o1 ex_controlled)"
  using ex_uuid by (simp add: delete_company_def super_only_eq ex_admin_super find_company_def admin_coerce_uuid_def)
    (simp add: ex_controlled_def ex_company_def)


text \<open>The first company has one device and the second none; the only node has room for one more.\<close>

definition ex_device :: fleet_device where
  "ex_device = new_device ex_o1 ex_dev ''DEV-1'' None None None"

definition ex_owned :: fleet where
  "ex_owned = ex_fleet\<lparr>fl_devices := [ex_device], fl_credentials := [new_credential ex_manager ex_o1 ex_dev ''dT_a''],
     fl_nodes := [Devices.ex_node ''n1'' 1]\<rparr>"

definition ex_company_db :: admin_db where
  "ex_company_db = set_fleet ex_owned ex_controlled"

lemma ex_owned_ok: "fleet_ok ex_owned"
  by (simp add: fleet_ok_def core_def ex_owned_def ex_device_def new_device_def new_credential_def ex_fleet_def
      credentials_ok_def nodes_ok_def limits_ok_def assignments_ok_def Devices.ex_node_def ex_limit ex_manager_def)

lemma ex_company_ok: "admin_ok ex_company_db"
  unfolding ex_company_db_def
  by (rule admin_ok_fleet [OF ex_controlled_ok ex_owned_ok])
    (simp add: node_refs_ok_def ex_owned_def ex_device_def new_device_def)

lemma ex_company_devices: "fl_devices (ad_fleet ex_company_db) = [ex_device]" "fd_org_id ex_device = ex_o1" "fd_id ex_device = ex_dev"
  by (simp_all add: ex_company_db_def ex_owned_def ex_device_def new_device_def)

lemma ex_listing: "list_all_devices ex_admin 0 ex_company_db = Inr (device_rows 0 ex_company_db ex_device)"
  by (simp add: list_all_devices_def super_only_eq ex_admin_super ex_company_devices)

theorem devices_listed_per_user_witness:
  "length (filter (\<lambda>r. dl_device r = ex_device) (device_rows 0 ex_company_db ex_device)) = 2"
  using devices_listed_per_user [OF ex_listing, of ex_device]
  by (simp add: ex_company_devices) (simp add: ex_company_db_def ex_controlled_def)

lemma ex_reassign:
  "\<exists>db'. reassign_device ex_admin ex_dev ex_o2 ex_company_db = Inr (ex_device\<lparr>fd_org_id := ex_o2\<rparr>, db')"
proof -
  have "tbl_get og_id (ad_orgs ex_company_db) ex_o2 = Some (ex_company ex_o2)"
    using ex_admin_uuids(3) by (simp add: ex_company_db_def ex_controlled_def ex_company_def)
  then show ?thesis
    using ex_admin_uuids by (simp add: reassign_device_def super_only_eq ex_admin_super admin_coerce_uuid_def ex_company_devices
        ex_company_def Let_def) (simp add: ex_o2_def)
qed

theorem reassign_leaves_credential_witness:
  "\<exists>db'. reassign_device ex_admin ex_dev ex_o2 ex_company_db = Inr (ex_device\<lparr>fd_org_id := ex_o2\<rparr>, db')
    \<and> \<not> fleet_ok (ad_fleet db') \<and> count_devices (ad_fleet db') ex_o2 = 1"
proof -
  obtain db' where run: "reassign_device ex_admin ex_dev ex_o2 ex_company_db = Inr (ex_device\<lparr>fd_org_id := ex_o2\<rparr>, db')"
    using ex_reassign by blast
  have "tbl_get fd_id (fl_devices (ad_fleet ex_company_db)) (fd_id (ex_device\<lparr>fd_org_id := ex_o2\<rparr>)) = Some ex_device"
    by (simp add: ex_company_devices)
  from reassign_leaves_credential [OF ex_company_ok run this] ex_admin_uuids(3) uuid_plain [OF ex_uuid(2)] run
  show ?thesis by (auto simp: ex_company_devices count_devices_def)
qed

theorem resize_race_witness:
  "\<exists>r db'. update_mqtt_node ex_admin ''n1'' None (Some 1) (\<lambda>_. [Devices.ex_node ''n1'' 2]) ex_company_db = Inr (r, db')
    \<and> r \<in> set (fl_nodes (ad_fleet db')) \<and> mn_id r = ''n1'' \<and> mn_capacity r < mn_active_connections r"
proof -
  have "assign_node alone (fl_nodes (ad_fleet ex_company_db)) = (Inr (Devices.ex_node ''n1'' 2), [Devices.ex_node ''n1'' 2])"
    by (simp add: ex_company_db_def ex_owned_def assign_node_def node_candidates_def has_space_def Devices.ex_node_def
        ACTIVE_STATUS_def alone_def Let_def)
  from resize_race [OF ex_company_ok ex_admin_super this, of 1] show ?thesis by (simp add: Devices.ex_node_def)
qed

end
