(* ===== verification/Spec2Isabelle.thy ===== *)
theory Spec2Isabelle imports
  Topics Redis_Names Redis Referrals Auth Commands Rule_Engine Delivery Batch_Writer Devices Rate_Limit Dashboards Gateway Retention Upkeep Entitlements Rendering Reports Support Content Templates Admin
begin

text \<open>
  A verification library for IoTAPS, a multi-tenant IoT platform: a FastAPI backend (\<open>app/api\<close>,
  \<open>app/services\<close>, \<open>app/core\<close>) over PostgreSQL and Redis, and a set of workers (\<open>app/workers\<close>) that
  take the devices' MQTT messages into the database and act on them.

  The parts and how they work together.  A user signs in (\<open>Auth\<close>) and holds tokens (\<open>Tokens\<close>); every
  request passes the rate limiter (\<open>Rate_Limit\<close>) and acts under a principal whose organization
  filters all rows (\<open>Access\<close>).  A company subscribes to a plan (\<open>Subscriptions\<close>, priced by \<open>Pricing\<close>,
  dated by \<open>Calendar\<close>, limiting by \<open>Plans\<close>), which decides how many devices it may provision
  (\<open>Devices\<close>), how many rules it may run (\<open>Rule_Service\<close>) and how many messages are counted (\<open>Quota\<close>).
  Partners earn commissions (\<open>Wallets\<close>) and referrals extend the subscription (\<open>Referrals\<close>).  Devices
  publish on MQTT topics (\<open>Topics\<close>); the listener (\<open>Ingest\<close>) validates the message, meters it, caches
  and queues it, acknowledges and flushes commands (\<open>Commands\<close>); the batch writer (\<open>Batch_Writer\<close>)
  drains the queue into the telemetry table; the rule engine (\<open>Rule_Engine\<close>) is to evaluate rules on
  the telemetry channels and sends alerts and webhooks, which the notification sender and the webhook
  dispatcher take (\<open>Delivery\<close>).  Browsers show \<open>Dashboards\<close> and follow the channels through the
  WebSocket gateway (\<open>Gateway\<close>).  The root theory composes these parts along the Redis channels.

  The theories.
    \<^item> \<open>Prelude\<close>: results and exceptions (\<open>core/errors.py\<close>), Python strings and JSON values, tables with
      primary keys, rollback (\<open>commit\<close>), runs of operations, and the locales \<open>guarded_system\<close> (every
      operation keeps an invariant, hence every run does) and \<open>status_system\<close> (a guarded system whose
      statuses only move along a relation).
    \<^item> \<open>Redis\<close>: the commands the program calls as records of operations, with the documented laws as the
      locales \<open>redis_lists\<close>, \<open>redis_keys\<close> and \<open>redis_counters\<close> and reference structures that satisfy
      them.  \<open>Redis_Names\<close>: the keys of \<open>core/redis_keys.py\<close>, printed injectively, so that families of
      keys are modelled as maps of their own.
    \<^item> \<open>Topics\<close>: \<open>core/mqtt_topics.py\<close> and the listener's topic parser; printing, parsing and wildcards agree.
    \<^item> \<open>Access\<close>: \<open>core/security/{principal,tenant,deps}.py\<close>; the results of a tenant's reads do not depend
      on the rows of others.
    \<^item> \<open>Tokens\<close>, \<open>Auth\<close>: \<open>core/security/{jwt,password,totp}.py\<close>, \<open>api/v1/auth.py\<close> and the company part of
      \<open>services/admin_service.py\<close>; single use of refresh tokens, the exact gates of a login.
    \<^item> \<open>Plans\<close>, \<open>Pricing\<close>, \<open>Calendar\<close>, \<open>Subscriptions\<close>: \<open>services/{plan_limits,billing_service,razorpay_client,
      subscription_service}.py\<close>; the invariant and the permitted moves of payments over every run of
      billing operations, and the effect of each webhook event.
    \<^item> \<open>Wallets\<close>, \<open>Referrals\<close>: \<open>services/{commission_service,payout_service,referral_service}.py\<close>; the ledger
      balances after every run, rewards follow the tiers.
    \<^item> \<open>Commands\<close>: \<open>services/command_service.py\<close>; the life cycle of a command as a status system, delivery
      in order.
    \<^item> \<open>Rule_Service\<close>, \<open>Rule_Engine\<close>: \<open>services/rule_service.py\<close> and \<open>workers/alert_checker.py\<close>; the limit
      on active rules, termination and refinement of plans, deferral by delays.
    \<^item> \<open>Quota\<close>, \<open>Ingest\<close>, \<open>Batch_Writer\<close>: \<open>services/quota_service.py\<close>, \<open>workers/mqtt_listener.py\<close> and
      \<open>workers/batch_writer.py\<close>; what a message does exactly, no loss between queue and table.
    \<^item> \<open>Devices\<close>: \<open>services/{device_service,node_assignment}.py\<close>; the fleet invariant, tenant isolation.
    \<^item> \<open>Delivery\<close>: \<open>workers/{webhook_dispatcher,notification_sender}.py\<close>; exact retries, isolated channels.
    \<^item> \<open>Rate_Limit\<close>: \<open>core/rate_limit.py\<close> and its middleware; bounds and fairness of the token bucket.
    \<^item> \<open>Dashboards\<close>: \<open>services/dashboard_service.py\<close> and the public link of \<open>api/v1/dashboards.py\<close>; rows stay
      well typed, revoked links stay dead, isolation.
    \<^item> \<open>Gateway\<close>: \<open>api/ws.py\<close>; sessions refine their set of subscriptions.
    \<^item> \<open>Retention\<close>: \<open>workers/data_retention.py\<close>, \<open>workers/downsampler.py\<close> and the rollup views of the
      migration; what a sweep deletes, how far back rollups reach, recovery from outages.
    \<^item> \<open>Upkeep\<close>: \<open>workers/session_cleanup.py\<close>, \<open>workers/subscription_expiry.py\<close> and the mails they send;
      which sessions a sweep removes, how often a reminder is sent.
    \<^item> \<open>Entitlements\<close>: billing, devices and rules as one platform; what a payment changes.
    \<^item> \<open>Rendering\<close>, \<open>Reports\<close>: \<open>services/telemetry_service.py\<close>, its export route and
      \<open>services/report_service.py\<close>; CSV and PDF read back, what queries and reports return and to whom.
    \<^item> \<open>Settings\<close>: \<open>core/settings_loader.py\<close>, \<open>services/admin_ops_service.py\<close> and the maintenance switch of
      \<open>api/v1/admin_ops.py\<close>; one server keeps its settings and two do not, when an address is blocked.
    \<^item> \<open>Support\<close>: \<open>services/support_service.py\<close>, \<open>services/changelog_service.py\<close> and their routes; threads are private,
      delivery is exact, what the popup shows.
    \<^item> \<open>Content\<close>: \<open>services/admin_content_service.py\<close>; the catalog is well formed, and what coupons, commission rates
      and fraud flags mean for billing, wallets and referrals.
    \<^item> \<open>Templates\<close>: \<open>services/template_service.py\<close>; limits kept, applications that fail leave parts, what a
      successful one creates.
    \<^item> \<open>Admin\<close>: \<open>services/admin_service.py\<close>, \<open>api/v1/admin.py\<close> and \<open>api/v1/admin_nodes.py\<close>; the control panel keeps
      the platform sound, what a reassignment leaves behind, races on a node.
  How the state corresponds.  A database table is the list of its rows, a record per ORM class with the
  columns the code reads or writes; a session is the record of its tables, and a request that raises
  leaves it unchanged (\<open>commit\<close>).  Redis is a state of an arbitrary type with the commands as an
  argument, or a map where only reads and writes of one family of keys matter.  MQTT, HTTP, mail and
  payment calls are arguments that act on a world and say whether they raised.  Random ids, codes,
  tokens and the clock are arguments.  Cryptography (JWT, Argon2, TOTP, HMAC) is a parameter with the
  law the code relies on, in a locale such as \<open>jwt_codec\<close>.

  Interfaces.  Each locale is interpreted on the model: \<open>guarded_system\<close> and \<open>status_system\<close> on the runs
  of wallets, referrals, payments, commands, rules and devices, \<open>redis_keys\<close> and its kin on the
  reference structures, and \<open>ingest_queue\<close> on the batch writer's queue.  The properties rest on the
  facts of these interpretations.

  Bounds and termination.  Integers are unbounded, as in Python; no word arithmetic is involved.  The
  walk along a rule's graph stops because it does not visit a node twice, and is a function with a
  measure; batches and retries recur on the data or on the attempts left, so no fuel runs out.
  Floats and decimals are exact rationals, a timestamp is a number of microseconds.

  Not modelled: concurrency inside one handler, other than where an argument says what other sessions
  do in between; number formatting and logging; the routers in \<open>api/v1\<close> where they only check a role,
  pass arguments on and serialise the result; process entry points; the front end, the firmware and
  the infrastructure files; and the administrative and reporting services listed in the manifest.
\<close>

section \<open>From telemetry to rules\<close>

text \<open>The channels the rule engine subscribes to: \<open>iotaps:telemetry:*\<close>.\<close>

definition alert_source_pattern :: string where
  "alert_source_pattern = NAMESPACE @ '':telemetry:''"

text \<open>What the rule engine does with one message of its subscription, in a world of type \<open>'w\<close>.\<close>

definition engine_receives ::
  "(json \<Rightarrow> string) \<Rightarrow> (rat \<Rightarrow> 'w \<Rightarrow> 'w) \<Rightarrow> (action \<Rightarrow> telemetry_event \<Rightarrow> 'w \<Rightarrow> 'w)
     \<Rightarrow> rules_db \<Rightarrow> device_mode list \<Rightarrow> string \<times> json \<Rightarrow> 'w \<Rightarrow> 'w" where
  "engine_receives repr sleep sink db devices cm w =
     (if starts_with (fst cm) alert_source_pattern
      then (case source_event repr (Some (snd cm)) of
              Inr (Some ev) \<Rightarrow> handle_event repr sleep sink db devices ev w
            | _ \<Rightarrow> w)
      else w)"

lemma status_channels:
  "\<exists>m. in_channels (snd (handle_status L publisher now parsed p s)) = in_channels s @ m
     \<and> list_all (\<lambda>cm. \<exists>d. fst cm = key_text (DeviceChannel d)) m"
proof -
  have flush: "in_channels (flush_on_reconnect L publisher now parsed x) = in_channels x" for x
    by (auto simp: flush_on_reconnect_def split: option.split)
  show ?thesis
    by (auto simp: handle_status_def publish_to_def set_online_def Let_def flush split: option.split)
qed

lemma ack_channels:
  "\<exists>m. in_channels (snd (handle_ack L now parsed p s)) = in_channels s @ m
     \<and> list_all (\<lambda>cm. \<exists>d. fst cm = key_text (DeviceChannel d)) m"
  by (auto simp: handle_ack_def publish_to_def Let_def split: option.split json.split list.split)

lemma telemetry_channels:
  "\<exists>m. in_channels (snd (handle_telemetry L now now_iso parsed p s)) = in_channels s @ m
     \<and> list_all (\<lambda>cm. \<exists>d r. snd cm = telemetry_message d r) m"
proof -
  have "in_channels s1 = in_channels s" if "resolve_device_uuid L t d s = (x, s1)" for t d x s1
    using that by (auto simp: resolve_device_uuid_def split: option.splits json.splits list.splits)
  then show ?thesis
    by (auto simp: handle_telemetry_def publish_to_def push_envelope_def Let_def
        split: option.split prod.split)
qed

lemma device_channel_ignored:
  "fst cm = key_text (DeviceChannel d) \<Longrightarrow> engine_receives repr sleep sink db devices cm w = w"
  by (simp add: engine_receives_def alert_source_pattern_def key_of_def NAMESPACE_def)

lemma telemetry_message_ignored:
  "snd cm = telemetry_message d r \<Longrightarrow> engine_receives repr sleep sink db devices cm w = w"
proof -
  assume m: "snd cm = telemetry_message d r"
  have "parse_uuid [] = None" by code_simp
  then have "load_rules db [] = Inl ValueError" by (simp add: load_rules_def)
  then have "handle_event repr sleep sink db devices ev w = w" if "te_org_id ev = []" for ev
    using that by (simp add: handle_event_def split: sum.split bool.split)
  with m show ?thesis
    by (auto simp: engine_receives_def source_event_def telemetry_message_def dict_get_def dict_or_def
        split: sum.split option.split)
qed

text \<open>C14. No telemetry ever triggers a rule: whatever message the listener takes, in any state, the rule
  engine does nothing on what the listener publishes for it, whatever rules and devices there are,
  because the message does not say the organization whose rules should be evaluated.\<close>

theorem telemetry_never_fires_rules:
  "\<exists>new. in_channels (dispatch L publisher now now_iso tpc p s) = in_channels s @ new
     \<and> fold (engine_receives repr sleep sink db devices) new w = w"
proof -
  have ignored: "fold (engine_receives repr sleep sink db devices) new w = w"
    if "list_all (\<lambda>cm. (\<exists>d. fst cm = key_text (DeviceChannel d)) \<or> (\<exists>d r. snd cm = telemetry_message d r)) new"
    for new
    using that by (induction new) (auto simp: device_channel_ignored telemetry_message_ignored)
  have "\<exists>new. in_channels (dispatch L publisher now now_iso tpc p s) = in_channels s @ new
      \<and> list_all (\<lambda>cm. (\<exists>d. fst cm = key_text (DeviceChannel d)) \<or> (\<exists>d r. snd cm = telemetry_message d r)) new"
  proof (cases "parse_topic tpc")
    case None
    then show ?thesis by (simp add: dispatch_def)
  next
    case (Some parsed)
    show ?thesis
      using telemetry_channels [of L now now_iso parsed p s]
        status_channels [of L publisher "instant now" parsed p s] ack_channels [of L "instant now" parsed p s]
      by (cases "pt_type parsed") (auto simp: dispatch_def Some list_all_iff)
  qed
  with ignored show ?thesis by blast
qed

section \<open>From rules to people and endpoints\<close>

text \<open>C16. What the rule engine publishes does not carry what its consumers need.  No alert of any rule reaches
  anybody: the message of a notify action, published for any event, makes the notification sender
  contact nobody, whatever senders and users there are, as it does not name the organization.  And a
  webhook action is delivered, if at all, under the default policy of three attempts and unsigned,
  whatever retry policy or secret its configuration holds.\<close>

theorem alerts_reach_nobody:
  "notify_all clients users (parse_alert_event repr [] (Some (notify_message a ev))) w = w
   \<and> (case parse_webhook_event repr (Some (webhook_message a ev)) of
        None \<Rightarrow> True
      | Some we \<Rightarrow> policy_from_config repr float_text (we_retry_policy we) = default_policy
          \<and> build_headers sign we = [(''Content-Type'', ''application/json'')])"
proof -
  have "ne_org_id e = []" if "parse_alert_event repr [] (Some (notify_message a ev)) = Some e" for e
    using that by (auto simp: parse_alert_event_def notify_message_def dict_get_def dict_or_def)
  then have "notify_all clients users (parse_alert_event repr [] (Some (notify_message a ev))) w = w"
    by (simp add: notify_all_def load_recipients_def process_event_def split: option.split)
  moreover have "we_retry_policy we = JNull \<and> we_secret we = None"
    if "parse_webhook_event repr (Some (webhook_message a ev)) = Some we" for we
    using that by (auto simp: parse_webhook_event_def webhook_message_def dict_get_def opt_text_def
        split: json.splits list.splits option.splits)
  ultimately show ?thesis
    by (auto simp: policy_from_config_def build_headers_def split: option.split)
qed

section \<open>From telemetry to browsers\<close>

lemma telemetry_published:
  assumes "handle_telemetry L now now_iso parsed p s = (ok, s')" "validate_telemetry_payload now_iso p = Some r"
  shows "in_channels s' = in_channels s
    @ [(key_text (TelemetryChannel (fst (resolve_device_uuid L (instant now) (pt_device_id parsed) s))),
        telemetry_message (fst (resolve_device_uuid L (instant now) (pt_device_id parsed) s)) r)]"
proof -
  obtain d s1 where d: "resolve_device_uuid L (instant now) (pt_device_id parsed) s = (d, s1)" by fastforce
  then have "in_channels s1 = in_channels s"
    by (auto simp: resolve_device_uuid_def split: option.splits json.splits list.splits)
  then show ?thesis
    using assms d by (auto simp: handle_telemetry_def publish_to_def push_envelope_def Let_def)
qed

text \<open>A browser with the token \<open>tok\<close> that subscribes to one device and sees the publications \<open>new\<close>.\<close>

definition browser_sees ::
  "jwt_lib \<Rightarrow> timestamp \<Rightarrow> string \<Rightarrow> string \<Rightarrow> (string \<times> json) list \<Rightarrow> json connection" where
  "browser_sees J now tok device new =
     websocket_gateway J now True (Some tok) None
       (Frame (Some (JObj [(''action'', JStr ''subscribe''), (''channels'', JArr [JStr (''device:'' @ device)])]))
        # map (\<lambda>(ch, m). Published ch (Some m)) new)"



end
